(* ===== verification/Prelude.thy ===== *)
theory Prelude
  imports Main "HOL-Library.Word"
begin

text \<open>
  Shared vocabulary of the development: machine integers, error numbers, the outcome of a
  C function whose undefined behaviour is a value, byte windows of a buffer (what
  \<open>memcpy\<close>, \<open>pread\<close> and \<open>pwrite\<close> touch), and little-endian byte sequences.
\<close>

unbundle bit_operations_syntax

section \<open>Machine types\<close>

type_synonym u8 = "8 word"
type_synonym u16 = "16 word"
type_synonym u32 = "32 word"
type_synonym u64 = "64 word"
type_synonym bytes = "u8 list"

section \<open>Errors\<close>

text \<open>Linux error numbers that the sources name. A C function returns the negated number.\<close>

abbreviation ENOENT :: int where "ENOENT \<equiv> 2"
abbreviation ENXIO :: int where "ENXIO \<equiv> 6"
abbreviation EINTR :: int where "EINTR \<equiv> 4"
abbreviation EBADF :: int where "EBADF \<equiv> 9"
abbreviation EAGAIN :: int where "EAGAIN \<equiv> 11"
abbreviation ENOMEM :: int where "ENOMEM \<equiv> 12"
abbreviation EFAULT :: int where "EFAULT \<equiv> 14"
abbreviation EBUSY :: int where "EBUSY \<equiv> 16"
abbreviation ENODEV :: int where "ENODEV \<equiv> 19"
abbreviation EINVAL :: int where "EINVAL \<equiv> 22"
abbreviation ERANGE :: int where "ERANGE \<equiv> 34"
abbreviation EACCES :: int where "EACCES \<equiv> 13"
abbreviation ENOSPC :: int where "ENOSPC \<equiv> 28"
abbreviation EPIPE :: int where "EPIPE \<equiv> 32"
abbreviation EMSGSIZE :: int where "EMSGSIZE \<equiv> 90"
abbreviation EPROTOTYPE :: int where "EPROTOTYPE \<equiv> 91"
abbreviation EADDRINUSE :: int where "EADDRINUSE \<equiv> 98"
abbreviation EADDRNOTAVAIL :: int where "EADDRNOTAVAIL \<equiv> 99"
abbreviation ENETRESET :: int where "ENETRESET \<equiv> 102"
abbreviation ECONNRESET :: int where "ECONNRESET \<equiv> 104"
abbreviation ENOTCONN :: int where "ENOTCONN \<equiv> 107"
abbreviation ERESTARTSYS :: int where "ERESTARTSYS \<equiv> 512"
abbreviation ENOIOCTLCMD :: int where "ENOIOCTLCMD \<equiv> 515"
abbreviation ETIMEDOUT :: int where "ETIMEDOUT \<equiv> 110"
abbreviation EPROBE_DEFER :: int where "EPROBE_DEFER \<equiv> 517"

text \<open>
  What a C statement does when its behaviour is undefined is not a value the program may
  rely on: an outcome is either such a fault or a result.
\<close>

datatype ub = Null_deref | Wild_pointer | Out_of_bounds | Uninit_read | Div_by_zero | Bad_format

type_synonym 'a outcome = "ub + 'a"

definition bind_outcome :: "'a outcome \<Rightarrow> ('a \<Rightarrow> 'b outcome) \<Rightarrow> 'b outcome" where
  "bind_outcome m f = (case m of Inl e \<Rightarrow> Inl e | Inr x \<Rightarrow> f x)"

lemma bind_outcome_simps [simp]:
  "bind_outcome (Inl e) f = Inl e" "bind_outcome (Inr x) f = f x"
  by (simp_all add: bind_outcome_def)

lemma bind_outcome_Inr: "bind_outcome m f = Inr y \<longleftrightarrow> (\<exists>x. m = Inr x \<and> f x = Inr y)"
  by (cases m) simp_all

section \<open>Byte windows\<close>

named_theorems window \<comment> \<open>rewriting reads of a buffer after writes to it\<close>

definition mem_slice :: "nat \<Rightarrow> nat \<Rightarrow> 'a list \<Rightarrow> 'a list" where
  "mem_slice off n xs = take n (drop off xs)"

definition mem_put :: "nat \<Rightarrow> 'a list \<Rightarrow> 'a list \<Rightarrow> 'a list" where
  "mem_put off ys xs = take off xs @ ys @ drop (off + length ys) xs"

lemma length_mem_slice [window]: "length (mem_slice off n xs) = min n (length xs - off)"
  by (simp add: mem_slice_def)

lemma length_mem_put [window]:
  "off + length ys \<le> length xs \<Longrightarrow> length (mem_put off ys xs) = length xs"
  by (simp add: mem_put_def)

lemma mem_slice_put_same [window]:
  "off \<le> length xs \<Longrightarrow> n = length ys \<Longrightarrow> mem_slice off n (mem_put off ys xs) = ys"
  by (simp add: mem_slice_def mem_put_def)

lemma mem_slice_put_before [window]:
  assumes "off' + n \<le> off" and "off \<le> length xs"
  shows "mem_slice off' n (mem_put off ys xs) = mem_slice off' n xs"
  using assms by (simp add: mem_slice_def mem_put_def take_drop min_def)

lemma mem_slice_put_after [window]:
  assumes "off + length ys \<le> off'" and "off \<le> length xs"
  shows "mem_slice off' n (mem_put off ys xs) = mem_slice off' n xs"
  using assms by (simp add: mem_slice_def mem_put_def)

lemma mem_slice_put_disjoint:
  assumes "off' + n \<le> off \<or> off + length ys \<le> off'" and "off \<le> length xs"
  shows "mem_slice off' n (mem_put off ys xs) = mem_slice off' n xs"
  using assms mem_slice_put_before mem_slice_put_after by blast

lemma mem_slice_append_left [window]:
  "off + n \<le> length xs \<Longrightarrow> mem_slice off n (xs @ ys) = mem_slice off n xs"
  by (simp add: mem_slice_def)

text \<open>A file grows by a hole of zero bytes when it is written past its end.\<close>

definition pad_to :: "nat \<Rightarrow> bytes \<Rightarrow> bytes" where
  "pad_to n xs = xs @ replicate (n - length xs) 0"

definition file_put :: "nat \<Rightarrow> bytes \<Rightarrow> bytes \<Rightarrow> bytes" where
  "file_put off ys xs = mem_put off ys (pad_to (off + length ys) xs)"

lemma length_pad_to [window]: "length (pad_to n xs) = max n (length xs)"
  by (simp add: pad_to_def)

lemma length_file_put [window]:
  "length (file_put off ys xs) = max (off + length ys) (length xs)"
  by (simp add: file_put_def window)

lemma mem_slice_file_put_same [window]:
  "n = length ys \<Longrightarrow> mem_slice off n (file_put off ys xs) = ys"
  by (simp add: file_put_def window)

lemma mem_slice_file_put_other:
  assumes "off' + n \<le> off \<or> off + length ys \<le> off'" and "off' + n \<le> length xs"
  shows "mem_slice off' n (file_put off ys xs) = mem_slice off' n xs"
proof -
  have "mem_slice off' n (file_put off ys xs) = mem_slice off' n (pad_to (off + length ys) xs)"
    unfolding file_put_def by (rule mem_slice_put_disjoint) (use assms(1) in \<open>auto simp: window\<close>)
  then show ?thesis
    using assms(2) by (simp add: pad_to_def window)
qed

section \<open>Tables scanned by index\<close>

lemma find_SomeD: "find P xs = Some x \<Longrightarrow> P x \<and> x \<in> set xs"
  by (induction xs) (auto split: if_splits)

lemma find_upt_Some: "find P [0..<n] = Some i \<Longrightarrow> i < n \<and> P i \<and> (\<forall>j < i. \<not> P j)"
  by (auto simp: find_Some_iff)

lemma find_upt_None: "find P [0..<n] = None \<longleftrightarrow> (\<forall>i < n. \<not> P i)"
  by (auto simp: find_None_iff)

lemma length_filter_update:
  assumes "i < length xs"
  shows "length (filter P (xs[i := y])) + (if P (xs ! i) then 1 else 0) =
         length (filter P xs) + (if P y then 1 else 0)"
  using assms
proof (induction xs arbitrary: i)
  case Nil
  then show ?case by simp
next
  case (Cons x xs)
  then show ?case by (cases i) auto
qed

section \<open>Words\<close>

lemma unat_u8_bound: "unat (b :: u8) < 256"
  using unsigned_less [of b] by simp

lemma unat_word_bound: "unat (w :: u16) < 2 ^ 16" "unat (v :: u32) < 2 ^ 32"
  using unsigned_less [of w] unsigned_less [of v] by simp_all

lemma unat_ucast_u8 [simp]: "unat (ucast (k :: u8) :: u32) = unat k"
  using unat_u8_bound [of k] by (simp add: unsigned_ucast_eq take_bit_eq_mod)

lemma ucast_ucast_u8 [simp]: "ucast (ucast (k :: u8) :: u32) = k"
  by (rule bit_word_eqI) (simp add: bit_simps)

section \<open>Little-endian bytes\<close>

fun le_bytes :: "nat \<Rightarrow> nat \<Rightarrow> bytes" where
  "le_bytes 0 n = []"
| "le_bytes (Suc k) n = word_of_nat n # le_bytes k (n div 256)"

fun le_val :: "bytes \<Rightarrow> nat" where
  "le_val [] = 0"
| "le_val (b # bs) = unat b + 256 * le_val bs"

lemma length_le_bytes [simp]: "length (le_bytes k n) = k"
  by (induction k arbitrary: n) simp_all

lemma le_val_le_bytes: "le_val (le_bytes k n) = n mod 256 ^ k"
proof (induction k arbitrary: n)
  case 0
  then show ?case by simp
next
  case (Suc k)
  have "unat (word_of_nat n :: u8) = n mod 256"
    by (simp add: unat_of_nat)
  then show ?case
    using Suc by (simp add: mod_mult2_eq)
qed

lemma le_val_bound: "le_val bs < 256 ^ length bs"
proof (induction bs)
  case Nil
  then show ?case by simp
next
  case (Cons b bs)
  with unat_u8_bound [of b] show ?case by simp
qed

section \<open>Runs of a step function\<close>

text \<open>
  The interface of a component that is driven by a sequence of inputs: an invariant that
  every single step keeps is kept by every run.
\<close>

locale stepper =
  fixes step :: "'s \<Rightarrow> 'e \<Rightarrow> 's"
    and inv :: "'s \<Rightarrow> bool"
  assumes step_inv: "inv s \<Longrightarrow> inv (step s e)"
begin

lemma run_inv: "inv s \<Longrightarrow> inv (foldl step s es)"
  by (induction es arbitrary: s) (auto intro: step_inv)

lemma run_prefix_inv: "inv s \<Longrightarrow> inv (foldl step s (take n es))"
  by (rule run_inv)

end

end
