(* ===== verification/Posix.thy ===== *)
theory Posix
  imports Prelude
begin

text \<open>
  The part of the C library and of the kernel's file interface that the RMTFS daemon calls:
  \<open>open\<close>, \<open>close\<close>, \<open>lseek\<close> to the end, \<open>read\<close> from the start, \<open>pread\<close>, \<open>pwrite\<close>,
  \<open>fdatasync\<close>, \<open>calloc\<close>, \<open>realloc\<close> and \<open>free\<close>. Files are regular files with byte
  contents. Each call that may fail consumes one tick, and \<open>os_fault\<close> says at which ticks
  the environment makes the call fail, so a statement over every \<open>os_fault\<close> covers every
  pattern of I/O and allocation errors; \<open>os_fresh\<close> gives the contents of new heap memory. \<open>os_heap\<close> counts the live heap blocks.
\<close>

record os =
  os_files :: "string \<Rightarrow> bytes option"
  os_fds :: "int \<Rightarrow> string option"
  os_next :: int
  os_tick :: nat
  os_fault :: "nat \<Rightarrow> bool"
  os_fresh :: "nat \<Rightarrow> bytes"
  os_heap :: nat
  os_synced :: "string list"

definition os_boot :: "(string \<times> bytes) list \<Rightarrow> (nat \<Rightarrow> bool) \<Rightarrow> (nat \<Rightarrow> bytes) \<Rightarrow> os" where
  "os_boot files faults junk =
     \<lparr>os_files = map_of files, os_fds = (\<lambda>_. None), os_next = 3, os_tick = 0,
      os_fault = faults, os_fresh = junk, os_heap = 0, os_synced = []\<rparr>"

definition os_faults :: "os \<Rightarrow> bool" where
  "os_faults os = os_fault os (os_tick os)"

definition os_advance :: "os \<Rightarrow> os" where
  "os_advance os = os\<lparr>os_tick := Suc (os_tick os)\<rparr>"

section \<open>Files\<close>

definition sys_open :: "os \<Rightarrow> string \<Rightarrow> int \<times> os" where
  "sys_open os path =
     (let os' = os_advance os in
      if os_faults os \<or> os_files os path = None then (-1, os')
      else (os_next os, os'\<lparr>os_fds := (os_fds os)(os_next os \<mapsto> path),
                            os_next := os_next os + 1\<rparr>))"

definition sys_close :: "os \<Rightarrow> int \<Rightarrow> os" where
  "sys_close os fd = os\<lparr>os_fds := (os_fds os)(fd := None)\<rparr>"

text \<open>The bytes behind a descriptor; \<open>None\<close> for a descriptor that is not open.\<close>

definition fd_bytes :: "os \<Rightarrow> int \<Rightarrow> bytes option" where
  "fd_bytes os fd = (case os_fds os fd of None \<Rightarrow> None | Some p \<Rightarrow> os_files os p)"

definition sys_seek_end :: "os \<Rightarrow> int \<Rightarrow> int \<times> os" where
  "sys_seek_end os fd =
     (let os' = os_advance os in
      if os_faults os then (-1, os')
      else case fd_bytes os fd of None \<Rightarrow> (-1, os') | Some bs \<Rightarrow> (int (length bs), os'))"

definition sys_pread :: "os \<Rightarrow> int \<Rightarrow> nat \<Rightarrow> int \<Rightarrow> int \<times> bytes \<times> os" where
  "sys_pread os fd n off =
     (let os' = os_advance os in
      if os_faults os \<or> off < 0 then (-1, [], os')
      else case fd_bytes os fd of
             None \<Rightarrow> (-1, [], os')
           | Some bs \<Rightarrow> (let d = mem_slice (nat off) n bs in (int (length d), d, os')))"

definition sys_pwrite :: "os \<Rightarrow> int \<Rightarrow> bytes \<Rightarrow> int \<Rightarrow> int \<times> os" where
  "sys_pwrite os fd data off =
     (let os' = os_advance os in
      if os_faults os \<or> off < 0 then (-1, os')
      else case os_fds os fd of
             None \<Rightarrow> (-1, os')
           | Some p \<Rightarrow>
               (case os_files os p of
                  None \<Rightarrow> (-1, os')
                | Some bs \<Rightarrow>
                    (int (length data),
                     os'\<lparr>os_files := (os_files os)(p \<mapsto> file_put (nat off) data bs)\<rparr>)))"

definition sys_fdatasync :: "os \<Rightarrow> int \<Rightarrow> int \<times> os" where
  "sys_fdatasync os fd =
     (let os' = os_advance os in
      if os_faults os then (-1, os')
      else case os_fds os fd of
             None \<Rightarrow> (-1, os')
           | Some p \<Rightarrow> (0, os'\<lparr>os_synced := os_synced os @ [p]\<rparr>))"

section \<open>Heap\<close>

text \<open>\<open>calloc (1, len)\<close>: zeroed memory, or failure. A zero length still gives a block.\<close>

definition sys_calloc :: "os \<Rightarrow> nat \<Rightarrow> bytes option \<times> os" where
  "sys_calloc os len =
     (let os' = os_advance os in
      if os_faults os then (None, os')
      else (Some (replicate len 0), os'\<lparr>os_heap := Suc (os_heap os)\<rparr>))"

text \<open>
  \<open>realloc\<close>: the old contents, then the indeterminate bytes that the allocator hands out at
  this moment. A null pointer is allocated anew.
\<close>

definition sys_realloc :: "os \<Rightarrow> bytes option \<Rightarrow> nat \<Rightarrow> bytes option \<times> os" where
  "sys_realloc os p len =
     (let os' = os_advance os; fresh = os_fresh os (os_tick os) in
      if os_faults os then (None, os')
      else case p of
             None \<Rightarrow> (Some (take len (pad_to len fresh)), os'\<lparr>os_heap := Suc (os_heap os)\<rparr>)
           | Some b \<Rightarrow> (Some (take len (b @ pad_to len fresh)), os'))"

definition sys_free :: "os \<Rightarrow> bytes option \<Rightarrow> os" where
  "sys_free os p = (case p of None \<Rightarrow> os | Some _ \<Rightarrow> os\<lparr>os_heap := os_heap os - 1\<rparr>)"

section \<open>Well-formedness\<close>

definition os_wf :: "os \<Rightarrow> bool" where
  "os_wf os \<longleftrightarrow> 0 \<le> os_next os \<and>
     (\<forall>fd p. os_fds os fd = Some p \<longrightarrow> 0 \<le> fd \<and> fd < os_next os \<and> os_files os p \<noteq> None)"

lemmas posix_defs =
  os_advance_def sys_open_def sys_close_def sys_seek_end_def sys_pread_def sys_pwrite_def
  sys_fdatasync_def sys_calloc_def sys_realloc_def sys_free_def

lemma os_wf_boot: "os_wf (os_boot files faults junk)"
  by (simp add: os_wf_def os_boot_def)

lemma os_wf_advance [simp]: "os_wf (os_advance os) = os_wf os"
  by (simp add: os_wf_def os_advance_def)

lemma os_wf_open: "os_wf os \<Longrightarrow> sys_open os p = (fd, os') \<Longrightarrow> os_wf os'"
  by (fastforce simp: sys_open_def os_wf_def os_advance_def Let_def split: if_splits)

lemma os_wf_close: "os_wf os \<Longrightarrow> os_wf (sys_close os fd)"
  by (simp add: os_wf_def sys_close_def)

lemma os_wf_seek_end: "os_wf os \<Longrightarrow> sys_seek_end os fd = (n, os') \<Longrightarrow> os_wf os'"
  by (auto simp: sys_seek_end_def Let_def split: if_splits option.splits)

lemma os_wf_pread: "os_wf os \<Longrightarrow> sys_pread os fd n off = (r, d, os') \<Longrightarrow> os_wf os'"
  by (auto simp: sys_pread_def Let_def split: if_splits option.splits)

lemma os_wf_pwrite: "os_wf os \<Longrightarrow> sys_pwrite os fd d off = (r, os') \<Longrightarrow> os_wf os'"
  by (fastforce simp: sys_pwrite_def os_wf_def os_advance_def Let_def
      split: if_splits option.splits)

lemma os_wf_fdatasync: "os_wf os \<Longrightarrow> sys_fdatasync os fd = (r, os') \<Longrightarrow> os_wf os'"
  by (auto simp: sys_fdatasync_def os_wf_def os_advance_def Let_def
      split: if_splits option.splits)

lemma os_wf_calloc: "os_wf os \<Longrightarrow> sys_calloc os n = (p, os') \<Longrightarrow> os_wf os'"
  by (auto simp: sys_calloc_def os_wf_def os_advance_def Let_def split: if_splits)

lemma os_wf_realloc: "os_wf os \<Longrightarrow> sys_realloc os p n = (q, os') \<Longrightarrow> os_wf os'"
  by (auto simp: sys_realloc_def os_wf_def os_advance_def Let_def split: if_splits option.splits)

lemma os_wf_free: "os_wf os \<Longrightarrow> os_wf (sys_free os p)"
  by (auto simp: sys_free_def os_wf_def split: option.splits)

lemmas os_wf_intros =
  os_wf_open os_wf_close os_wf_seek_end os_wf_pread os_wf_pwrite os_wf_fdatasync
  os_wf_calloc os_wf_realloc os_wf_free

lemma os_wf_fresh: "os_wf os \<Longrightarrow> os_fds os (os_next os) = None"
  by (cases "os_fds os (os_next os)") (auto simp: os_wf_def)

text \<open>A successful \<open>open\<close> gives a fresh non-negative descriptor on the named file.\<close>

lemma sys_open_fd:
  assumes "os_wf os" and "sys_open os p = (fd, os')" and "\<not> fd < 0"
  shows "os_fds os fd = None" and "os_fds os' = (os_fds os)(fd \<mapsto> p)"
    and "os_files os' = os_files os" and "os_heap os' = os_heap os" and "os_files os p \<noteq> None"
  using assms
  by (auto simp: sys_open_def os_advance_def Let_def os_wf_fresh split: if_splits)

lemma sys_open_fail:
  assumes "sys_open os p = (fd, os')" and "fd < 0" and "os_wf os"
  shows "os' = os_advance os"
  using assms by (auto simp: sys_open_def Let_def os_wf_def split: if_splits)

end
