(* ===== verification/Sector_Store.thy ===== *)
theory Sector_Store
  imports Prelude
begin

text \<open>
  The interface between the RMTFS request handler and the two places it moves sectors
  between: the modem's storage image and the shared memory. A sector store has a view of
  the sectors it holds and a write that either fails or replaces exactly one sector.
\<close>

definition SECTOR_SIZE :: nat where
  "SECTOR_SIZE = 512"

text \<open>Write consecutive sectors from \<open>off\<close> on; stops at the first failing write.\<close>

fun write_sectors :: "('s \<Rightarrow> nat \<Rightarrow> bytes \<Rightarrow> 's option) \<Rightarrow> 's \<Rightarrow> nat \<Rightarrow> bytes list \<Rightarrow> 's option" where
  "write_sectors wr s off [] = Some s"
| "write_sectors wr s off (d # ds) =
     (case wr s off d of None \<Rightarrow> None | Some s' \<Rightarrow> write_sectors wr s' (off + SECTOR_SIZE) ds)"

locale sector_store =
  fixes ok :: "'s \<Rightarrow> bool"
    and view :: "'s \<Rightarrow> nat \<Rightarrow> bytes option"
    and wr :: "'s \<Rightarrow> nat \<Rightarrow> bytes \<Rightarrow> 's option"
  assumes wr_ok: "ok s \<Longrightarrow> length d = SECTOR_SIZE \<Longrightarrow> wr s off d = Some s' \<Longrightarrow> ok s'"
    and view_same: "ok s \<Longrightarrow> length d = SECTOR_SIZE \<Longrightarrow> wr s off d = Some s' \<Longrightarrow>
      view s' off = Some d"
    and view_other: "ok s \<Longrightarrow> length d = SECTOR_SIZE \<Longrightarrow> wr s off d = Some s' \<Longrightarrow>
      off' + SECTOR_SIZE \<le> off \<or> off + SECTOR_SIZE \<le> off' \<Longrightarrow> view s off' = Some d' \<Longrightarrow>
      view s' off' = Some d'"
begin

lemma write_sectors_ok:
  assumes "ok s" and "\<forall>d \<in> set ds. length d = SECTOR_SIZE" and "write_sectors wr s off ds = Some s'"
  shows "ok s'"
  using assms by (induction ds arbitrary: s off) (auto intro: wr_ok split: option.splits)

lemma write_sectors_frame:
  assumes "ok s" and "\<forall>d \<in> set ds. length d = SECTOR_SIZE" and "write_sectors wr s off ds = Some s'"
    and "off' + SECTOR_SIZE \<le> off \<or> off + SECTOR_SIZE * length ds \<le> off'"
    and "view s off' = Some d'"
  shows "view s' off' = Some d'"
  using assms
proof (induction ds arbitrary: s off)
  case Nil
  then show ?case by simp
next
  case (Cons d ds)
  from Cons.prems obtain s1 where s1: "wr s off d = Some s1"
    and rest: "write_sectors wr s1 (off + SECTOR_SIZE) ds = Some s'"
    by (auto split: option.splits)
  from Cons.prems have "off' + SECTOR_SIZE \<le> off \<or> off + SECTOR_SIZE \<le> off'"
    by auto
  then have "view s1 off' = Some d'"
    using view_other [OF _ _ s1] Cons.prems by auto
  moreover have "ok s1"
    using wr_ok [OF _ _ s1] Cons.prems by auto
  ultimately show ?case
    using Cons.IH [OF _ _ rest] Cons.prems by auto
qed

text \<open>After a successful run every sector of the window reads back as the one written.\<close>

lemma write_sectors_view:
  assumes "ok s" and "\<forall>d \<in> set ds. length d = SECTOR_SIZE" and "write_sectors wr s off ds = Some s'"
    and "i < length ds"
  shows "view s' (off + SECTOR_SIZE * i) = Some (ds ! i)"
  using assms
proof (induction ds arbitrary: s off i)
  case Nil
  then show ?case by simp
next
  case (Cons d ds)
  from Cons.prems obtain s1 where s1: "wr s off d = Some s1"
    and rest: "write_sectors wr s1 (off + SECTOR_SIZE) ds = Some s'"
    by (auto split: option.splits)
  have ok1: "ok s1"
    using wr_ok [OF _ _ s1] Cons.prems by auto
  show ?case
  proof (cases i)
    case 0
    have "view s1 off = Some d"
      using view_same [OF _ _ s1] Cons.prems by auto
    then show ?thesis
      using write_sectors_frame [OF ok1 _ rest] Cons.prems 0 by simp
  next
    case (Suc j)
    then show ?thesis
      using Cons.IH [OF ok1 _ rest, of j] Cons.prems by (simp add: algebra_simps)
  qed
qed

end

end
