(* ===== verification/Rmtfs_Storage.thy ===== *)
theory Rmtfs_Storage
  imports Posix Sector_Store
begin

text \<open>
  \<^verbatim>\<open>storage.c\<close> of the RMTFS daemon: the table of open modem partitions and the access to
  their contents, either directly in the image files or, in read-only mode, in a shadow
  buffer that is filled from the file and takes the writes. A pointer into \<open>rmtfds\<close> is an
  index; the slot table and the three static settings are the record \<open>storage\<close>.
\<close>

section \<open>Data\<close>

definition MAX_CALLERS :: nat where
  "MAX_CALLERS = 10"

definition STORAGE_MAX_SIZE :: nat where
  "STORAGE_MAX_SIZE = 16 * 1024 * 1024"

definition BY_PARTLABEL_PATH :: string where
  "BY_PARTLABEL_PATH = ''/dev/disk/by-partlabel''"

record partition =
  part_path :: string
  part_actual :: string
  part_partlabel :: string

definition partition_table :: "partition list" where
  "partition_table =
     [\<lparr>part_path = ''/boot/modem_fs1'', part_actual = ''modem_fs1'', part_partlabel = ''modemst1''\<rparr>,
      \<lparr>part_path = ''/boot/modem_fs2'', part_actual = ''modem_fs2'', part_partlabel = ''modemst2''\<rparr>,
      \<lparr>part_path = ''/boot/modem_fsc'', part_actual = ''modem_fsc'', part_partlabel = ''fsc''\<rparr>,
      \<lparr>part_path = ''/boot/modem_fsg'', part_actual = ''modem_fsg'', part_partlabel = ''fsg''\<rparr>,
      \<lparr>part_path = ''/boot/modem_tunning'', part_actual = ''modem_tunning'', part_partlabel = ''tunning''\<rparr>,
      \<lparr>part_path = ''/boot/modem_tng'', part_actual = ''modem_tng'', part_partlabel = ''tunning''\<rparr>]"

record rmtfd =
  rmtfd_id :: u32
  rmtfd_node :: u32
  rmtfd_fd :: int
  rmtfd_dev_error :: u32
  rmtfd_partition :: "nat option"
  rmtfd_shadow_buf :: "bytes option"
  rmtfd_shadow_len :: nat

record storage =
  storage_dir :: string
  storage_read_only :: bool
  storage_use_partitions :: bool
  rmtfds :: "rmtfd list"

text \<open>The static objects before \<open>main\<close> runs: zero, except for the directory.\<close>

definition storage_static :: storage where
  "storage_static =
     \<lparr>storage_dir = ''/boot'', storage_read_only = False, storage_use_partitions = False,
      rmtfds = replicate MAX_CALLERS
        \<lparr>rmtfd_id = 0, rmtfd_node = 0, rmtfd_fd = 0, rmtfd_dev_error = 0,
         rmtfd_partition = None, rmtfd_shadow_buf = None, rmtfd_shadow_len = 0\<rparr>\<rparr>"

section \<open>Operations\<close>

definition storage_init :: "string option \<Rightarrow> bool \<Rightarrow> bool \<Rightarrow> storage \<Rightarrow> int \<times> storage" where
  "storage_init storage_root read_only use_partitions st =
     (let dir1 = (case storage_root of Some r \<Rightarrow> r | None \<Rightarrow> storage_dir st);
          dir2 = (if use_partitions \<and> storage_root = None then BY_PARTLABEL_PATH else dir1)
      in (0, st\<lparr>storage_dir := dir2,
                storage_use_partitions := (use_partitions \<or> storage_use_partitions st),
                storage_read_only := read_only,
                rmtfds := map (\<lambda>i. (rmtfds st ! i)\<lparr>rmtfd_id := word_of_nat i, rmtfd_fd := -1,
                                                  rmtfd_shadow_buf := None\<rparr>) [0..<MAX_CALLERS]\<rparr>))"

definition storage_populate_shadow_buf :: "os \<Rightarrow> rmtfd \<Rightarrow> string \<Rightarrow> int \<times> rmtfd \<times> os" where
  "storage_populate_shadow_buf os r file =
     (case sys_open os file of (fd, os1) \<Rightarrow>
      if fd < 0 then (-1, r, os1)
      else case sys_seek_end os1 fd of (len, os2) \<Rightarrow>
      if len < 0 then (-1, r, sys_close os2 fd)
      else case sys_calloc os2 (nat len) of (buf, os3) \<Rightarrow>
      (case buf of
         None \<Rightarrow> (-1, r, sys_close os3 fd)
       | Some b \<Rightarrow>
           (case sys_pread os3 fd (nat len) 0 of (n, d, os4) \<Rightarrow>
            if n < 0 then (-1, r, sys_close os4 fd)
            else (0, r\<lparr>rmtfd_shadow_buf := Some (mem_put 0 d b), rmtfd_shadow_len := nat n\<rparr>,
                  sys_close os4 fd))))"

definition find_partition :: "string \<Rightarrow> nat option" where
  "find_partition path =
     find (\<lambda>k. part_path (partition_table ! k) = path) [0..<length partition_table]"

definition slot_used :: "rmtfd \<Rightarrow> bool" where
  "slot_used r \<longleftrightarrow> rmtfd_fd r \<noteq> -1 \<or> rmtfd_shadow_buf r \<noteq> None"

definition find_open :: "storage \<Rightarrow> u32 \<Rightarrow> nat \<Rightarrow> nat option" where
  "find_open st node part =
     find (\<lambda>i. slot_used (rmtfds st ! i) \<and> rmtfd_node (rmtfds st ! i) = node \<and>
               rmtfd_partition (rmtfds st ! i) = Some part) [0..<MAX_CALLERS]"

definition find_free :: "storage \<Rightarrow> nat option" where
  "find_free st =
     find (\<lambda>i. rmtfd_fd (rmtfds st ! i) = -1 \<and> rmtfd_shadow_buf (rmtfds st ! i) = None)
       [0..<MAX_CALLERS]"

definition storage_fspath :: "storage \<Rightarrow> nat \<Rightarrow> string" where
  "storage_fspath st part =
     storage_dir st @ ''/'' @
     (if storage_use_partitions st then part_partlabel (partition_table ! part)
      else part_actual (partition_table ! part))"

text \<open>The second half of \<open>storage_open\<close>: fill the free slot \<open>i\<close> for the partition.\<close>

definition storage_open_slot ::
  "storage \<Rightarrow> os \<Rightarrow> u32 \<Rightarrow> nat \<Rightarrow> nat \<Rightarrow> nat option \<times> storage \<times> os" where
  "storage_open_slot st os node part i =
     (let r = rmtfds st ! i; fspath = storage_fspath st part in
      if \<not> storage_read_only st
      then (case sys_open os fspath of (fd, os') \<Rightarrow>
            if fd < 0 then (None, st, os')
            else (Some i, st\<lparr>rmtfds := (rmtfds st)[i := r\<lparr>rmtfd_fd := fd, rmtfd_shadow_len := 0,
                       rmtfd_node := node, rmtfd_partition := Some part\<rparr>]\<rparr>, os'))
      else (case storage_populate_shadow_buf os r fspath of (ret, r', os') \<Rightarrow>
            if ret < 0 then (None, st\<lparr>rmtfds := (rmtfds st)[i := r']\<rparr>, os')
            else (Some i, st\<lparr>rmtfds := (rmtfds st)[i := r'\<lparr>rmtfd_node := node,
                       rmtfd_partition := Some part\<rparr>]\<rparr>, os')))"

definition storage_open :: "storage \<Rightarrow> os \<Rightarrow> u32 \<Rightarrow> string \<Rightarrow> nat option \<times> storage \<times> os" where
  "storage_open st os node path =
     (case find_partition path of
        None \<Rightarrow> (None, st, os)
      | Some part \<Rightarrow>
     (case find_open st node part of
        Some i \<Rightarrow> (Some i, st, os)
      | None \<Rightarrow>
     (case find_free st of
        None \<Rightarrow> (None, st, os)
      | Some i \<Rightarrow> storage_open_slot st os node part i)))"

definition rmtfd_close :: "os \<Rightarrow> rmtfd \<Rightarrow> rmtfd \<times> os" where
  "rmtfd_close os r =
     (let (r1, os1) = (if 0 \<le> rmtfd_fd r then (r\<lparr>rmtfd_fd := -1\<rparr>, sys_close os (rmtfd_fd r))
                       else (r, os))
      in (r1\<lparr>rmtfd_shadow_buf := None, rmtfd_shadow_len := 0, rmtfd_partition := None\<rparr>,
          sys_free os1 (rmtfd_shadow_buf r1)))"

definition storage_close :: "storage \<Rightarrow> os \<Rightarrow> nat \<Rightarrow> storage \<times> os" where
  "storage_close st os i =
     (case rmtfd_close os (rmtfds st ! i) of (r, os') \<Rightarrow>
        (st\<lparr>rmtfds := (rmtfds st)[i := r]\<rparr>, os'))"

text \<open>
  The caller id arrives as an \<open>int\<close>; only the upper bound is checked before it indexes
  the table.
\<close>

definition storage_get :: "storage \<Rightarrow> u32 \<Rightarrow> int \<Rightarrow> nat option outcome" where
  "storage_get st node caller_id =
     (if int MAX_CALLERS \<le> caller_id then Inr None
      else if caller_id < 0 then Inl Out_of_bounds
      else if rmtfd_node (rmtfds st ! nat caller_id) \<noteq> node then Inr None
      else Inr (Some (nat caller_id)))"

definition storage_get_caller_id :: "storage \<Rightarrow> nat \<Rightarrow> u32" where
  "storage_get_caller_id st i = rmtfd_id (rmtfds st ! i)"

definition storage_get_error :: "storage \<Rightarrow> nat option \<Rightarrow> u32 outcome" where
  "storage_get_error st p =
     (case p of None \<Rightarrow> Inl Null_deref | Some i \<Rightarrow> Inr (rmtfd_dev_error (rmtfds st ! i)))"

primrec storage_exit_from :: "nat \<Rightarrow> storage \<Rightarrow> os \<Rightarrow> storage \<times> os" where
  "storage_exit_from 0 st os = (st, os)"
| "storage_exit_from (Suc n) st os =
     (case storage_exit_from n st os of (st', os') \<Rightarrow> storage_close st' os' n)"

definition storage_exit :: "storage \<Rightarrow> os \<Rightarrow> storage \<times> os" where
  "storage_exit st os = storage_exit_from MAX_CALLERS st os"

text \<open>A \<open>ssize_t\<close> that is compared with a \<open>size_t\<close> is converted to it first.\<close>

definition size_of_ssize :: "int \<Rightarrow> int" where
  "size_of_ssize n = n mod 2 ^ 64"

text \<open>
  \<open>storage_pread\<close> fills \<open>buf\<close> and reports success in every case; \<open>buf\<close> is the caller's
  buffer before and after the call.
\<close>

definition storage_pread ::
  "storage \<Rightarrow> os \<Rightarrow> rmtfd \<Rightarrow> bytes \<Rightarrow> nat \<Rightarrow> int \<Rightarrow> (int \<times> bytes \<times> os) outcome" where
  "storage_pread st os r buf nbyte offset =
     bind_outcome
       (if \<not> storage_read_only st
        then (case sys_pread os (rmtfd_fd r) nbyte offset of (n, d, os') \<Rightarrow>
                Inr (n, mem_put 0 d buf, os'))
        else (let n = min (int nbyte) (int (rmtfd_shadow_len r) - offset) in
              if 0 < n
              then (case rmtfd_shadow_buf r of
                      None \<Rightarrow> Inl Null_deref
                    | Some b \<Rightarrow>
                        if offset < 0 \<or> int (length b) < offset + n then Inl Out_of_bounds
                        else Inr (n, mem_put 0 (mem_slice (nat offset) (nat n) b) buf, os))
              else Inr (0, buf, os)))
       (\<lambda>(n, buf', os').
          if size_of_ssize n < int nbyte
          then Inr (int nbyte, mem_put (nat n) (replicate (nbyte - nat n) 0) buf', os')
          else Inr (int nbyte, buf', os'))"

text \<open>\<open>size_t new_len = offset + nbyte\<close>.\<close>

definition pwrite_new_len :: "int \<Rightarrow> nat \<Rightarrow> nat" where
  "pwrite_new_len offset nbyte = nat ((offset + int nbyte) mod 2 ^ 64)"

definition storage_pwrite ::
  "storage \<Rightarrow> os \<Rightarrow> rmtfd \<Rightarrow> bytes \<Rightarrow> int \<Rightarrow> (int \<times> rmtfd \<times> os) outcome" where
  "storage_pwrite st os r data offset =
     (let nbyte = length data; new_len = pwrite_new_len offset nbyte in
      if \<not> storage_read_only st
      then (case sys_pwrite os (rmtfd_fd r) data offset of (n, os') \<Rightarrow> Inr (n, r, os'))
      else if STORAGE_MAX_SIZE \<le> new_len then Inr (-1, r, os)
      else case (if rmtfd_shadow_len r < new_len
                 then (case sys_realloc os (rmtfd_shadow_buf r) new_len of (p, os') \<Rightarrow>
                        (case p of None \<Rightarrow> (False, r, os')
                         | Some b \<Rightarrow> (True, r\<lparr>rmtfd_shadow_buf := Some b,
                                              rmtfd_shadow_len := new_len\<rparr>, os')))
                 else (True, r, os)) of
        (grown, r', os') \<Rightarrow>
          if \<not> grown then Inr (-1, r', os')
          else case rmtfd_shadow_buf r' of
                 None \<Rightarrow> Inl Null_deref
               | Some b \<Rightarrow>
                   if offset < 0 \<or> int (length b) < offset + int nbyte then Inl Out_of_bounds
                   else Inr (int nbyte,
                             r'\<lparr>rmtfd_shadow_buf := Some (mem_put (nat offset) data b)\<rparr>, os'))"

text \<open>\<open>storage_pwrite\<close> on the slot a handler holds: the slot is updated in place.\<close>

definition storage_pwrite_at ::
  "storage \<Rightarrow> os \<Rightarrow> nat \<Rightarrow> bytes \<Rightarrow> int \<Rightarrow> (int \<times> storage \<times> os) outcome" where
  "storage_pwrite_at st os i data offset =
     bind_outcome (storage_pwrite st os (rmtfds st ! i) data offset)
       (\<lambda>(n, r, os'). Inr (n, st\<lparr>rmtfds := (rmtfds st)[i := r]\<rparr>, os'))"

definition storage_sync :: "storage \<Rightarrow> os \<Rightarrow> nat option \<Rightarrow> (int \<times> os) outcome" where
  "storage_sync st os p =
     (if storage_read_only st then Inr (0, os)
      else case p of None \<Rightarrow> Inl Null_deref
           | Some i \<Rightarrow> Inr (sys_fdatasync os (rmtfd_fd (rmtfds st ! i))))"

section \<open>Invariant of the slot table\<close>

text \<open>
  \<open>slot_wf\<close> is what every slot satisfies on its own. A slot with a partition is in use; the
  converse does not hold, because a write through a handle that was closed fills the slot
  again (see \<open>storage_write_after_close\<close>).
\<close>

definition slot_wf :: "bool \<Rightarrow> nat \<Rightarrow> rmtfd \<Rightarrow> bool" where
  "slot_wf ro i r \<longleftrightarrow>
     rmtfd_id r = word_of_nat i \<and> -1 \<le> rmtfd_fd r \<and>
     (ro \<longrightarrow> rmtfd_fd r = -1) \<and> (\<not> ro \<longrightarrow> rmtfd_shadow_buf r = None) \<and>
     (\<forall>k. rmtfd_partition r = Some k \<longrightarrow> k < length partition_table \<and> slot_used r) \<and>
     (case rmtfd_shadow_buf r of None \<Rightarrow> rmtfd_shadow_len r = 0
      | Some b \<Rightarrow> rmtfd_shadow_len r \<le> length b)"

definition storage_wf :: "storage \<Rightarrow> bool" where
  "storage_wf st \<longleftrightarrow>
     length (rmtfds st) = MAX_CALLERS \<and>
     (\<forall>i < MAX_CALLERS. slot_wf (storage_read_only st) i (rmtfds st ! i)) \<and>
     (\<forall>i < MAX_CALLERS. \<forall>j < MAX_CALLERS.
        rmtfd_partition (rmtfds st ! i) \<noteq> None \<longrightarrow>
        rmtfd_partition (rmtfds st ! j) = rmtfd_partition (rmtfds st ! i) \<longrightarrow>
        rmtfd_node (rmtfds st ! j) = rmtfd_node (rmtfds st ! i) \<longrightarrow> j = i)"

text \<open>Descriptors of the table are open in the process and no two slots share one.\<close>

definition fds_linked :: "storage \<Rightarrow> os \<Rightarrow> bool" where
  "fds_linked st os \<longleftrightarrow>
     (\<forall>i < MAX_CALLERS. rmtfd_fd (rmtfds st ! i) \<noteq> -1 \<longrightarrow>
        os_fds os (rmtfd_fd (rmtfds st ! i)) \<noteq> None \<and>
        (\<forall>j < MAX_CALLERS. rmtfd_fd (rmtfds st ! j) = rmtfd_fd (rmtfds st ! i) \<longrightarrow> j = i))"

definition shadows :: "storage \<Rightarrow> nat" where
  "shadows st = length (filter (\<lambda>r. rmtfd_shadow_buf r \<noteq> None) (rmtfds st))"

definition storage_inv :: "storage \<times> os \<Rightarrow> bool" where
  "storage_inv = (\<lambda>(st, os). storage_wf st \<and> os_wf os \<and> fds_linked st os \<and> shadows st \<le> os_heap os)"

lemma storage_init_wf: "storage_wf (snd (storage_init root ro up storage_static))"
  by (simp add: storage_init_def storage_static_def storage_wf_def slot_wf_def Let_def)

lemma storage_init_os: "os_wf os \<Longrightarrow> storage_inv (snd (storage_init root ro up storage_static), os)"
  using storage_init_wf [of root ro up]
  by (simp add: storage_inv_def fds_linked_def shadows_def storage_init_def Let_def)

lemma storage_init_inv:
  "storage_inv (snd (storage_init root ro up storage_static), os_boot files faults junk)"
  by (rule storage_init_os) (rule os_wf_boot)

lemma slot_wf_update:
  assumes "storage_wf st" and "i < MAX_CALLERS" and "slot_wf (storage_read_only st) i r"
    and "\<And>j k. j < MAX_CALLERS \<Longrightarrow> j \<noteq> i \<Longrightarrow> rmtfd_partition r = Some k \<Longrightarrow>
           rmtfd_partition (rmtfds st ! j) = Some k \<Longrightarrow> rmtfd_node (rmtfds st ! j) \<noteq> rmtfd_node r"
  shows "storage_wf (st\<lparr>rmtfds := (rmtfds st)[i := r]\<rparr>)"
  using assms unfolding storage_wf_def
  by (simp add: nth_list_update) (metis option.exhaust)

lemma storage_wf_unique:
  assumes "storage_wf st" and "i < MAX_CALLERS" and "j < MAX_CALLERS"
    and "rmtfd_partition (rmtfds st ! i) = Some k" and "rmtfd_partition (rmtfds st ! j) = Some k"
    and "rmtfd_node (rmtfds st ! j) = rmtfd_node (rmtfds st ! i)"
  shows "j = i"
  using assms unfolding storage_wf_def by (metis option.distinct(1))

section \<open>Opening\<close>

text \<open>
  Filling the shadow buffer opens and closes its own descriptor; on success the slot holds
  one more heap block with the file's bytes, on failure the slot is as it was.
\<close>

lemma populate_frame:
  assumes "os_wf os" and "storage_populate_shadow_buf os r file = (ret, r', os')"
  shows "os_wf os'" and "os_fds os' = os_fds os" and "os_files os' = os_files os"
    and "os_heap os \<le> os_heap os'" and "ret < 0 \<Longrightarrow> r' = r"
proof -
  obtain fd os1 where o: "sys_open os file = (fd, os1)"
    by fastforce
  have "os_wf os' \<and> os_fds os' = os_fds os \<and> os_files os' = os_files os \<and>
        os_heap os \<le> os_heap os' \<and> (ret < 0 \<longrightarrow> r' = r)"
  proof (cases "fd < 0")
    case True
    with assms o show ?thesis
      by (auto simp: storage_populate_shadow_buf_def intro: os_wf_open)
        (auto simp: os_advance_def dest: sys_open_fail)
  next
    case False
    note fd = sys_open_fd [OF assms(1) o False]
    have closed: "(os_fds os1)(fd := None) = os_fds os"
      using fd(1,2) by (simp add: fun_upd_idem)
    moreover have "os_wf (os1\<lparr>os_fds := os_fds os\<rparr>)"
      using os_wf_close [OF os_wf_open [OF assms(1) o], of fd] closed by (simp add: sys_close_def)
    moreover note fd(3,4)
    ultimately show ?thesis
      using assms(2) o False
      by (auto simp: storage_populate_shadow_buf_def sys_seek_end_def sys_calloc_def sys_pread_def
          sys_close_def os_advance_def os_wf_def Let_def split: if_splits option.splits)
  qed
  then show "os_wf os'" "os_fds os' = os_fds os" "os_files os' = os_files os"
    "os_heap os \<le> os_heap os'" "ret < 0 \<Longrightarrow> r' = r"
    by simp_all
qed

lemma populate_success:
  assumes "os_wf os" and "storage_populate_shadow_buf os r file = (ret, r', os')" and "\<not> ret < 0"
  shows "\<exists>b. os_files os file = Some b \<and> ret = 0 \<and> os_heap os' = Suc (os_heap os) \<and>
             r' = r\<lparr>rmtfd_shadow_buf := Some b, rmtfd_shadow_len := length b\<rparr>"
proof -
  obtain fd os1 where o: "sys_open os file = (fd, os1)"
    by fastforce
  have nneg: "\<not> fd < 0"
    using assms(2,3) o by (auto simp: storage_populate_shadow_buf_def)
  note fd = sys_open_fd [OF assms(1) o nneg]
  then obtain b where b: "os_files os file = Some b"
    by auto
  have "fd_bytes os1 fd = Some b"
    using fd(2,3) b by (simp add: fd_bytes_def)
  then show ?thesis
    using assms(2,3) o nneg fd(3,4) b
    by (auto simp: storage_populate_shadow_buf_def sys_seek_end_def sys_calloc_def sys_pread_def
        sys_close_def os_advance_def fd_bytes_def mem_slice_def mem_put_def Let_def
        split: if_splits option.splits)
qed

lemma find_partition_Some: "find_partition path = Some k \<Longrightarrow> k < length partition_table"
  by (auto simp: find_partition_def dest: find_upt_Some)

lemma find_free_Some:
  "find_free st = Some i \<Longrightarrow> i < MAX_CALLERS \<and> rmtfd_fd (rmtfds st ! i) = -1 \<and>
     rmtfd_shadow_buf (rmtfds st ! i) = None"
  by (auto simp: find_free_def dest: find_upt_Some)

lemma find_open_None:
  assumes "find_open st node part = None" and "storage_wf st" and "j < MAX_CALLERS"
    and "rmtfd_partition (rmtfds st ! j) = Some part"
  shows "rmtfd_node (rmtfds st ! j) \<noteq> node"
proof -
  have "slot_used (rmtfds st ! j)"
    using assms(2-4) by (auto simp: storage_wf_def slot_wf_def)
  then show ?thesis
    using assms(1,3,4) by (auto simp: find_open_def find_upt_None)
qed

lemma shadows_update:
  assumes "storage_wf st" and "i < MAX_CALLERS"
  shows "shadows (st\<lparr>rmtfds := (rmtfds st)[i := r]\<rparr>) +
           (if rmtfd_shadow_buf (rmtfds st ! i) \<noteq> None then 1 else 0) =
         shadows st + (if rmtfd_shadow_buf r \<noteq> None then 1 else 0)"
  using length_filter_update [of i "rmtfds st" "\<lambda>r. rmtfd_shadow_buf r \<noteq> None" r] assms
  by (simp add: shadows_def storage_wf_def del: not_None_eq)

text \<open>
  The ways filling a slot can end: no handle and an unchanged table, a descriptor on the
  image file, or a shadow copy of its bytes.
\<close>

lemma storage_open_slot_direct:
  assumes "os_wf os" and "\<not> storage_read_only st"
    and "storage_open_slot st os node part i = (res, st', os')"
  shows "os_wf os' \<and> os_heap os' = os_heap os \<and>
    (res = None \<and> st' = st \<and> os_fds os' = os_fds os \<or>
     (\<exists>fd \<ge> 0. res = Some i \<and> os_fds os fd = None \<and>
        os_fds os' = (os_fds os)(fd \<mapsto> storage_fspath st part) \<and>
        st' = st\<lparr>rmtfds := (rmtfds st)[i := (rmtfds st ! i)\<lparr>rmtfd_fd := fd,
                rmtfd_shadow_len := 0, rmtfd_node := node, rmtfd_partition := Some part\<rparr>]\<rparr>))"
proof -
  obtain fd os1 where o: "sys_open os (storage_fspath st part) = (fd, os1)"
    by fastforce
  have wf1: "os_wf os1"
    using assms(1) o by (rule os_wf_open)
  show ?thesis
  proof (cases "fd < 0")
    case True
    with assms(2,3) o have "res = None" "st' = st" "os' = os1"
      by (simp_all add: storage_open_slot_def Let_def)
    with wf1 sys_open_fail [OF o True assms(1)] show ?thesis
      by (simp add: os_advance_def)
  next
    case False
    with assms(2,3) o have "res = Some i" and "os' = os1" and
      "st' = st\<lparr>rmtfds := (rmtfds st)[i := (rmtfds st ! i)\<lparr>rmtfd_fd := fd,
                rmtfd_shadow_len := 0, rmtfd_node := node, rmtfd_partition := Some part\<rparr>]\<rparr>"
      by (simp_all add: storage_open_slot_def Let_def)
    with wf1 sys_open_fd [OF assms(1) o False] False show ?thesis
      by (intro conjI disjI2 exI [of _ fd]) simp_all
  qed
qed

lemma storage_open_slot_shadow:
  assumes "os_wf os" and "storage_read_only st"
    and "storage_open_slot st os node part i = (res, st', os')"
  shows "os_wf os' \<and> os_fds os' = os_fds os \<and>
    (res = None \<and> st' = st \<and> os_heap os \<le> os_heap os' \<or>
     (\<exists>b. res = Some i \<and> os_files os (storage_fspath st part) = Some b \<and>
        os_heap os' = Suc (os_heap os) \<and>
        st' = st\<lparr>rmtfds := (rmtfds st)[i := (rmtfds st ! i)\<lparr>rmtfd_shadow_buf := Some b,
                rmtfd_shadow_len := length b, rmtfd_node := node, rmtfd_partition := Some part\<rparr>]\<rparr>))"
proof -
  obtain ret r1 os1 where p:
    "storage_populate_shadow_buf os (rmtfds st ! i) (storage_fspath st part) = (ret, r1, os1)"
    by (metis prod_cases3)
  note frame = populate_frame [OF assms(1) p]
  show ?thesis
  proof (cases "ret < 0")
    case True
    with assms(2,3) p frame(5) have "res = None" "st' = st" "os' = os1"
      by (simp_all add: storage_open_slot_def Let_def)
    with frame show ?thesis
      by simp
  next
    case False
    from populate_success [OF assms(1) p False] obtain b where
      b: "os_files os (storage_fspath st part) = Some b" "os_heap os1 = Suc (os_heap os)" and
      r1: "r1 = (rmtfds st ! i)\<lparr>rmtfd_shadow_buf := Some b, rmtfd_shadow_len := length b\<rparr>"
      by blast
    from assms(2,3) p False have "res = Some i" and "os' = os1" and
      "st' = st\<lparr>rmtfds := (rmtfds st)[i := (rmtfds st ! i)\<lparr>rmtfd_shadow_buf := Some b,
             rmtfd_shadow_len := length b, rmtfd_node := node, rmtfd_partition := Some part\<rparr>]\<rparr>"
      by (simp_all add: storage_open_slot_def Let_def r1)
    with frame b show ?thesis
      by (intro conjI disjI2 exI [of _ b]) simp_all
  qed
qed

lemma storage_fill_direct_inv:
  assumes inv: "storage_inv (st, os)" and part: "part < length partition_table"
    and nopen: "find_open st node part = None" and free: "find_free st = Some i"
    and rw: "\<not> storage_read_only st" and f: "0 \<le> f" "os_fds os f = None"
    and os': "os_wf os'" "os_fds os' = (os_fds os)(f \<mapsto> path)" "os_heap os' = os_heap os"
  shows "storage_inv (st\<lparr>rmtfds := (rmtfds st)[i := (rmtfds st ! i)\<lparr>rmtfd_fd := f,
           rmtfd_shadow_len := 0, rmtfd_node := node, rmtfd_partition := Some part\<rparr>]\<rparr>, os')"
    (is "storage_inv (?st, os')")
proof -
  from inv have wf: "storage_wf st" and link: "fds_linked st os" and heap: "shadows st \<le> os_heap os"
    by (simp_all add: storage_inv_def)
  from find_free_Some [OF free] have i: "i < MAX_CALLERS" and sh: "rmtfd_shadow_buf (rmtfds st ! i) = None"
    by simp_all
  have len: "length (rmtfds st) = MAX_CALLERS" and "slot_wf (storage_read_only st) i (rmtfds st ! i)"
    using wf i by (simp_all add: storage_wf_def)
  then have "storage_wf ?st"
    using sh f rw part find_open_None [OF nopen wf]
    by (intro slot_wf_update [OF wf i]) (auto simp: slot_wf_def slot_used_def)
  moreover have "fds_linked ?st os'"
    using link f os' i len by (auto simp: fds_linked_def nth_list_update)
  moreover have "shadows ?st = shadows st"
    using shadows_update [OF wf i] sh by simp
  ultimately show ?thesis
    using os' heap by (simp add: storage_inv_def)
qed

lemma storage_fill_shadow_inv:
  assumes inv: "storage_inv (st, os)" and part: "part < length partition_table"
    and nopen: "find_open st node part = None" and free: "find_free st = Some i"
    and ro: "storage_read_only st"
    and os': "os_wf os'" "os_fds os' = os_fds os" "os_heap os' = Suc (os_heap os)"
  shows "storage_inv (st\<lparr>rmtfds := (rmtfds st)[i := (rmtfds st ! i)\<lparr>rmtfd_shadow_buf := Some b,
           rmtfd_shadow_len := length b, rmtfd_node := node, rmtfd_partition := Some part\<rparr>]\<rparr>, os')"
    (is "storage_inv (?st, os')")
proof -
  from inv have wf: "storage_wf st" and link: "fds_linked st os" and heap: "shadows st \<le> os_heap os"
    by (simp_all add: storage_inv_def)
  from find_free_Some [OF free] have i: "i < MAX_CALLERS" and fd: "rmtfd_fd (rmtfds st ! i) = -1"
    and sh: "rmtfd_shadow_buf (rmtfds st ! i) = None"
    by simp_all
  have len: "length (rmtfds st) = MAX_CALLERS" and "slot_wf (storage_read_only st) i (rmtfds st ! i)"
    using wf i by (simp_all add: storage_wf_def)
  then have "storage_wf ?st"
    using ro part find_open_None [OF nopen wf]
    by (intro slot_wf_update [OF wf i]) (auto simp: slot_wf_def slot_used_def)
  moreover have "fds_linked ?st os'"
    using link os' i len fd by (auto simp: fds_linked_def nth_list_update)
  moreover have "shadows ?st = Suc (shadows st)"
    using shadows_update [OF wf i] sh by simp
  ultimately show ?thesis
    using os' heap by (simp add: storage_inv_def)
qed

lemma storage_inv_frame:
  "storage_inv (st, os) \<Longrightarrow> os_wf os' \<Longrightarrow> os_fds os' = os_fds os \<Longrightarrow> os_heap os \<le> os_heap os' \<Longrightarrow>
     storage_inv (st, os')"
  by (auto simp: storage_inv_def fds_linked_def)

lemma storage_open_slot_inv:
  assumes inv: "storage_inv (st, os)" and "part < length partition_table"
    and "find_open st node part = None" and "find_free st = Some i"
    and run: "storage_open_slot st os node part i = (res, st', os')"
  shows "storage_inv (st', os')"
proof (cases "storage_read_only st")
  case False
  with inv run have d: "os_wf os' \<and> os_heap os' = os_heap os \<and> (res = None \<and> st' = st \<and> os_fds os' = os_fds os \<or>
     (\<exists>fd \<ge> 0. res = Some i \<and> os_fds os fd = None \<and>
        os_fds os' = (os_fds os)(fd \<mapsto> storage_fspath st part) \<and>
        st' = st\<lparr>rmtfds := (rmtfds st)[i := (rmtfds st ! i)\<lparr>rmtfd_fd := fd,
                rmtfd_shadow_len := 0, rmtfd_node := node, rmtfd_partition := Some part\<rparr>]\<rparr>))"
    by (intro storage_open_slot_direct) (simp_all add: storage_inv_def)
  then show ?thesis
    using storage_inv_frame [OF inv] storage_fill_direct_inv [OF assms(1-4) False] by auto
next
  case True
  with inv run have "os_wf os' \<and> os_fds os' = os_fds os \<and> (res = None \<and> st' = st \<and> os_heap os \<le> os_heap os' \<or>
     (\<exists>b. res = Some i \<and> os_files os (storage_fspath st part) = Some b \<and>
        os_heap os' = Suc (os_heap os) \<and>
        st' = st\<lparr>rmtfds := (rmtfds st)[i := (rmtfds st ! i)\<lparr>rmtfd_shadow_buf := Some b,
                rmtfd_shadow_len := length b, rmtfd_node := node, rmtfd_partition := Some part\<rparr>]\<rparr>))"
    by (intro storage_open_slot_shadow) (simp_all add: storage_inv_def)
  then show ?thesis
    using storage_inv_frame [OF inv] storage_fill_shadow_inv [OF assms(1-4) True] by auto
qed

lemma storage_open_inv:
  assumes "storage_inv (st, os)" and "storage_open st os node path = (res, st', os')"
  shows "storage_inv (st', os')"
  using assms storage_open_slot_inv [OF assms(1) find_partition_Some]
  by (auto simp: storage_open_def split: option.splits)

section \<open>Closing\<close>

lemma rmtfd_fd_idem: "rmtfd_fd r = x \<Longrightarrow> r\<lparr>rmtfd_fd := x\<rparr> = r"
  by (cases r) simp

lemma storage_close_inv:
  assumes inv: "storage_inv (st, os)" and i: "i < MAX_CALLERS"
    and run: "storage_close st os i = (st', os')"
  shows "storage_inv (st', os')"
    and "rmtfds st' = (rmtfds st)[i := (rmtfds st ! i)\<lparr>rmtfd_fd := -1, rmtfd_shadow_buf := None,
            rmtfd_shadow_len := 0, rmtfd_partition := None\<rparr>]"
    and "os_heap os' + shadows st = os_heap os + shadows st'"
    and "os_fds os' = (if rmtfd_fd (rmtfds st ! i) = -1 then os_fds os
                       else (os_fds os)(rmtfd_fd (rmtfds st ! i) := None))"
proof -
  let ?r = "rmtfds st ! i"
  let ?r' = "?r\<lparr>rmtfd_fd := -1, rmtfd_shadow_buf := None, rmtfd_shadow_len := 0, rmtfd_partition := None\<rparr>"
  from inv have wf: "storage_wf st" and link: "fds_linked st os" and heap: "shadows st \<le> os_heap os"
    and oswf: "os_wf os"
    by (simp_all add: storage_inv_def)
  have len: "length (rmtfds st) = MAX_CALLERS" and slot: "slot_wf (storage_read_only st) i ?r"
    using wf i by (simp_all add: storage_wf_def)
  have neg: "rmtfd_fd ?r = -1 \<or> 0 \<le> rmtfd_fd ?r"
    using slot by (auto simp: slot_wf_def)
  have st': "st' = st\<lparr>rmtfds := (rmtfds st)[i := ?r']\<rparr>"
    using run neg
    by (auto simp: storage_close_def rmtfd_close_def Let_def rmtfd_fd_idem split: if_splits)
  then show rm: "rmtfds st' = (rmtfds st)[i := ?r']"
    by simp
  show fds: "os_fds os' = (if rmtfd_fd ?r = -1 then os_fds os else (os_fds os)(rmtfd_fd ?r := None))"
    using run neg by (auto simp: storage_close_def rmtfd_close_def sys_close_def sys_free_def Let_def
        split: if_splits option.splits)
  have h: "os_heap os' = (if rmtfd_shadow_buf ?r = None then os_heap os else os_heap os - 1)"
    using run by (auto simp: storage_close_def rmtfd_close_def sys_close_def sys_free_def Let_def
        split: if_splits option.splits)
  have sh: "shadows st' + (if rmtfd_shadow_buf ?r = None then 0 else 1) = shadows st"
    using shadows_update [OF wf i, of ?r'] by (cases "rmtfd_shadow_buf ?r") (simp_all add: st')
  show bal: "os_heap os' + shadows st = os_heap os + shadows st'"
    using h sh heap by (auto split: if_splits)
  have "os_wf os'"
    using run oswf by (auto simp: storage_close_def rmtfd_close_def Let_def os_wf_close os_wf_free
        split: if_splits)
  moreover have "storage_wf st'"
    unfolding st' using slot by (intro slot_wf_update [OF wf i]) (auto simp: slot_wf_def)
  moreover have "fds_linked st' os'"
    using link i len neg fds by (auto simp: fds_linked_def st' nth_list_update)
  ultimately show "storage_inv (st', os')"
    using bal heap sh by (simp add: storage_inv_def)
qed

lemma storage_exit_from_inv:
  assumes "storage_inv (st, os)" and "n \<le> MAX_CALLERS" and "storage_exit_from n st os = (st', os')"
  shows "storage_inv (st', os') \<and> (\<forall>i < n. \<not> slot_used (rmtfds st' ! i)) \<and>
         (\<forall>i. n \<le> i \<longrightarrow> i < MAX_CALLERS \<longrightarrow> rmtfds st' ! i = rmtfds st ! i) \<and>
         os_heap os' + shadows st = os_heap os + shadows st' \<and>
         (\<forall>i < n. rmtfd_fd (rmtfds st ! i) \<noteq> -1 \<longrightarrow> os_fds os' (rmtfd_fd (rmtfds st ! i)) = None)"
  using assms(2,3)
proof (induction n arbitrary: st' os')
  case 0
  with assms(1) show ?case by simp
next
  case (Suc n)
  obtain st1 os1 where e: "storage_exit_from n st os = (st1, os1)"
    by fastforce
  with Suc have IH: "storage_inv (st1, os1)" "\<forall>i < n. \<not> slot_used (rmtfds st1 ! i)"
      "\<forall>i. n \<le> i \<longrightarrow> i < MAX_CALLERS \<longrightarrow> rmtfds st1 ! i = rmtfds st ! i"
      "os_heap os1 + shadows st = os_heap os + shadows st1"
      "\<forall>i < n. rmtfd_fd (rmtfds st ! i) \<noteq> -1 \<longrightarrow> os_fds os1 (rmtfd_fd (rmtfds st ! i)) = None"
    by simp_all
  from Suc.prems e have c: "storage_close st1 os1 n = (st', os')" and n: "n < MAX_CALLERS"
    by simp_all
  note cl = storage_close_inv [OF IH(1) n c]
  have len: "length (rmtfds st1) = MAX_CALLERS"
    using IH(1) by (simp add: storage_inv_def storage_wf_def)
  have "\<forall>i < Suc n. \<not> slot_used (rmtfds st' ! i)"
    using IH(2) n len by (auto simp: cl(2) nth_list_update slot_used_def)
  moreover have "\<forall>i. Suc n \<le> i \<longrightarrow> i < MAX_CALLERS \<longrightarrow> rmtfds st' ! i = rmtfds st ! i"
    using IH(3) by (simp add: cl(2))
  moreover have "\<forall>i < Suc n. rmtfd_fd (rmtfds st ! i) \<noteq> -1 \<longrightarrow> os_fds os' (rmtfd_fd (rmtfds st ! i)) = None"
    using IH(3,5) n by (auto simp: cl(4) less_Suc_eq)
  ultimately show ?case
    using cl(1,3) IH(4) by simp
qed

section \<open>Reading and writing\<close>

text \<open>The sector of slot \<open>i\<close> at byte offset \<open>off\<close>, when the image holds all of it.\<close>

definition image_bytes :: "storage \<times> os \<Rightarrow> nat \<Rightarrow> bytes option" where
  "image_bytes = (\<lambda>(st, os) i.
     if storage_read_only st
     then map_option (take (rmtfd_shadow_len (rmtfds st ! i))) (rmtfd_shadow_buf (rmtfds st ! i))
     else fd_bytes os (rmtfd_fd (rmtfds st ! i)))"

definition image_view :: "nat \<Rightarrow> storage \<times> os \<Rightarrow> nat \<Rightarrow> bytes option" where
  "image_view i s off =
     (case image_bytes s i of None \<Rightarrow> None
      | Some b \<Rightarrow> if off + SECTOR_SIZE \<le> length b then Some (mem_slice off SECTOR_SIZE b) else None)"

definition image_write :: "nat \<Rightarrow> storage \<times> os \<Rightarrow> nat \<Rightarrow> bytes \<Rightarrow> (storage \<times> os) option" where
  "image_write i = (\<lambda>(st, os) off d.
     case storage_pwrite_at st os i d (int off) of
       Inl _ \<Rightarrow> None
     | Inr (n, st', os') \<Rightarrow> if n = int (length d) then Some (st', os') else None)"

definition image_ok :: "nat \<Rightarrow> storage \<times> os \<Rightarrow> bool" where
  "image_ok i s \<longleftrightarrow> storage_inv s \<and> i < MAX_CALLERS \<and>
     (\<forall>b. rmtfd_shadow_buf (rmtfds (fst s) ! i) = Some b \<longrightarrow> length b < 2 ^ 63)"

text \<open>What a write does to a slot: nothing, or exactly the bytes of the window.\<close>

lemma sys_realloc_grow:
  assumes "sys_realloc os p len = (q, os')"
  shows "os_fds os' = os_fds os \<and> os_files os' = os_files os \<and> os_next os' = os_next os \<and>
    (q = None \<and> os_heap os' = os_heap os \<or>
     (\<exists>b. q = Some b \<and> length b = len \<and>
        (p = None \<longrightarrow> os_heap os' = Suc (os_heap os)) \<and>
        (\<forall>a. p = Some a \<longrightarrow> os_heap os' = os_heap os \<and>
           (\<forall>k. k \<le> length a \<longrightarrow> k \<le> len \<longrightarrow> take k b = take k a))))"
proof -
  have "len \<le> length (a @ pad_to len (os_fresh os (os_tick os)))" for a
    by (simp add: window)
  then have "length (take len (a @ pad_to len (os_fresh os (os_tick os)))) = len" for a
    by (simp only: length_take min_absorb2)
  from this this [of "[]"] show ?thesis
    using assms
    by (auto simp: sys_realloc_def os_advance_def Let_def simp del: length_take
        split: if_splits option.splits)
qed

lemma storage_pwrite_ro_cases:
  assumes "storage_read_only st" and "storage_pwrite st os r d off = Inr (n, r', os')"
  obtains (limit) "STORAGE_MAX_SIZE \<le> pwrite_new_len off (length d)" "n = -1" "r' = r" "os' = os"
  | (nomem) "rmtfd_shadow_len r < pwrite_new_len off (length d)"
      "sys_realloc os (rmtfd_shadow_buf r) (pwrite_new_len off (length d)) = (None, os')"
      "n = -1" "r' = r"
  | (grow) b where "pwrite_new_len off (length d) < STORAGE_MAX_SIZE"
      "rmtfd_shadow_len r < pwrite_new_len off (length d)"
      "sys_realloc os (rmtfd_shadow_buf r) (pwrite_new_len off (length d)) = (Some b, os')"
      "0 \<le> off" "off + int (length d) \<le> int (length b)" "n = int (length d)"
      "r' = r\<lparr>rmtfd_shadow_buf := Some (mem_put (nat off) d b),
              rmtfd_shadow_len := pwrite_new_len off (length d)\<rparr>"
  | (inside) b where "pwrite_new_len off (length d) \<le> rmtfd_shadow_len r"
      "rmtfd_shadow_buf r = Some b" "0 \<le> off" "off + int (length d) \<le> int (length b)"
      "n = int (length d)" "os' = os" "r' = r\<lparr>rmtfd_shadow_buf := Some (mem_put (nat off) d b)\<rparr>"
proof (cases "STORAGE_MAX_SIZE \<le> pwrite_new_len off (length d)")
  case True
  with assms that(1) show ?thesis
    by (simp add: storage_pwrite_def Let_def)
next
  case small: False
  show ?thesis
  proof (cases "rmtfd_shadow_len r < pwrite_new_len off (length d)")
    case True
    obtain q os1 where re:
      "sys_realloc os (rmtfd_shadow_buf r) (pwrite_new_len off (length d)) = (q, os1)"
      by fastforce
    show ?thesis
    proof (cases q)
      case None
      with assms small True re have "n = -1" "r' = r" "os' = os1"
        by (simp_all add: storage_pwrite_def Let_def)
      with True re None show ?thesis
        using that(2) by simp
    next
      case (Some b)
      with assms small True re have in_range: "0 \<le> off" "off + int (length d) \<le> int (length b)"
        by (simp_all add: storage_pwrite_def Let_def split: if_split_asm)
      with assms small True re Some have "n = int (length d)" "os' = os1"
        "r' = r\<lparr>rmtfd_shadow_buf := Some (mem_put (nat off) d b),
                rmtfd_shadow_len := pwrite_new_len off (length d)\<rparr>"
        by (auto simp: storage_pwrite_def Let_def)
      with in_range small True re Some show ?thesis
        using that(3) by simp
    qed
  next
    case False
    with assms small obtain b where b: "rmtfd_shadow_buf r = Some b"
      by (cases "rmtfd_shadow_buf r") (simp_all add: storage_pwrite_def Let_def)
    with assms small False have in_range: "0 \<le> off" "off + int (length d) \<le> int (length b)"
      by (simp_all add: storage_pwrite_def Let_def split: if_split_asm)
    with assms small False b have "n = int (length d)" "os' = os"
      "r' = r\<lparr>rmtfd_shadow_buf := Some (mem_put (nat off) d b)\<rparr>"
      by (simp_all add: storage_pwrite_def Let_def)
    with in_range False b show ?thesis
      using that(4) by simp
  qed
qed

text \<open>A write leaves every slot well formed, whatever the offset, and accounts for its memory.\<close>

lemma storage_pwrite_slot:
  assumes ro: "storage_read_only st" and slot: "slot_wf True i r"
    and run: "storage_pwrite st os r d off = Inr (n, r', os')"
  shows "os_fds os' = os_fds os \<and> os_files os' = os_files os \<and> os_next os' = os_next os"
    and "slot_wf True i r'"
    and "rmtfd_node r' = rmtfd_node r \<and> rmtfd_partition r' = rmtfd_partition r \<and> rmtfd_fd r' = rmtfd_fd r"
    and "os_heap os' + (if rmtfd_shadow_buf r = None then 0 else 1) =
         os_heap os + (if rmtfd_shadow_buf r' = None then 0 else 1)"
proof -
  have "os_fds os' = os_fds os \<and> os_files os' = os_files os \<and> os_next os' = os_next os \<and>
    slot_wf True i r' \<and>
    (rmtfd_node r' = rmtfd_node r \<and> rmtfd_partition r' = rmtfd_partition r \<and> rmtfd_fd r' = rmtfd_fd r) \<and>
    os_heap os' + (if rmtfd_shadow_buf r = None then 0 else 1) =
         os_heap os + (if rmtfd_shadow_buf r' = None then 0 else 1)"
    using ro run
  proof (cases rule: storage_pwrite_ro_cases)
    case limit
    with slot show ?thesis by simp
  next
    case nomem
    with slot sys_realloc_grow [OF nomem(2)] show ?thesis by simp
  next
    case (grow b)
    then have fit: "nat off + length d \<le> length b"
      by linarith
    have len: "pwrite_new_len off (length d) \<le> length b"
      using sys_realloc_grow [OF grow(3)] by auto
    have heap: "os_heap os' + (if rmtfd_shadow_buf r = None then 0 else 1) = Suc (os_heap os)"
      using sys_realloc_grow [OF grow(3)] by (cases "rmtfd_shadow_buf r") auto
    have "slot_wf True i r'"
      using slot len fit by (auto simp: grow(7) slot_wf_def slot_used_def window)
    then show ?thesis
      using sys_realloc_grow [OF grow(3)] heap by (simp add: grow(7))
  next
    case (inside b)
    then have "nat off + length d \<le> length b"
      by linarith
    with inside slot show ?thesis
      by (auto simp: slot_wf_def slot_used_def window)
  qed
  then show "os_fds os' = os_fds os \<and> os_files os' = os_files os \<and> os_next os' = os_next os"
    and "slot_wf True i r'"
    and "rmtfd_node r' = rmtfd_node r \<and> rmtfd_partition r' = rmtfd_partition r \<and> rmtfd_fd r' = rmtfd_fd r"
    and "os_heap os' + (if rmtfd_shadow_buf r = None then 0 else 1) =
         os_heap os + (if rmtfd_shadow_buf r' = None then 0 else 1)"
    by blast+
qed

text \<open>A successful write at an offset that does not wrap replaces exactly its window.\<close>

lemma storage_pwrite_shadow:
  assumes ro: "storage_read_only st" and slot: "slot_wf True i r"
    and size: "\<forall>b. rmtfd_shadow_buf r = Some b \<longrightarrow> length b < 2 ^ 63"
    and run: "storage_pwrite st os r d (int off) = Inr (int (length d), r', os')"
  shows "\<exists>b. r' = r\<lparr>rmtfd_shadow_buf := Some (mem_put off d b),
                rmtfd_shadow_len := max (rmtfd_shadow_len r) (off + length d)\<rparr> \<and>
        max (rmtfd_shadow_len r) (off + length d) \<le> length b \<and> length b < 2 ^ 63 \<and>
        (\<forall>a. rmtfd_shadow_buf r = Some a \<longrightarrow>
             take (rmtfd_shadow_len r) b = take (rmtfd_shadow_len r) a)"
  using ro run
proof (cases rule: storage_pwrite_ro_cases)
  case (grow b)
  let ?n = "pwrite_new_len (int off) (length d)"
  have len: "length b = ?n"
    using sys_realloc_grow [OF grow(3)] by auto
  have "?n \<le> off + length d"
    by (simp add: pwrite_new_len_def nat_mod_distrib nat_add_distrib)
  with grow(5) len have n: "?n = off + length d"
    by simp
  have mx: "max (rmtfd_shadow_len r) (off + length d) = ?n"
    using grow(2) n by (simp add: max_def)
  have keep: "\<forall>a. rmtfd_shadow_buf r = Some a \<longrightarrow>
             take (rmtfd_shadow_len r) b = take (rmtfd_shadow_len r) a"
    using sys_realloc_grow [OF grow(3)] slot grow(2) by (auto simp: slot_wf_def)
  have "?n < 2 ^ 63"
    using grow(1) by (simp add: STORAGE_MAX_SIZE_def)
  then show ?thesis
    using keep len by (intro exI [of _ b]) (simp add: mx grow(7))
next
  case (inside b)
  have fit: "off + length d < 2 ^ 63" "off + length d \<le> length b" "length b < 2 ^ 63"
    using inside(2,4) size by fastforce+
  then have "pwrite_new_len (int off) (length d) = off + length d"
    by (simp add: pwrite_new_len_def nat_mod_distrib nat_add_distrib)
  with inside(1) have mx: "max (rmtfd_shadow_len r) (off + length d) = rmtfd_shadow_len r"
    by (simp add: max_def)
  have "r\<lparr>rmtfd_shadow_len := rmtfd_shadow_len r\<rparr> = r"
    by (cases r) simp
  then have "r' = r\<lparr>rmtfd_shadow_buf := Some (mem_put off d b), rmtfd_shadow_len := rmtfd_shadow_len r\<rparr>"
    using inside(7) by (cases r) simp
  moreover have "rmtfd_shadow_len r \<le> length b"
    using slot inside(2) by (simp add: slot_wf_def)
  ultimately show ?thesis
    using fit inside(2) by (intro exI [of _ b]) (simp add: mx)
qed simp_all

lemma storage_pwrite_direct:
  assumes "\<not> storage_read_only st" and "os_wf os"
    and "storage_pwrite st os r d off = Inr (n, r', os')"
  shows "r' = r" and "os_wf os'" and "os_fds os' = os_fds os" and "os_heap os' = os_heap os"
    and "n \<noteq> -1 \<Longrightarrow> \<exists>p b. 0 \<le> off \<and> os_fds os (rmtfd_fd r) = Some p \<and> os_files os p = Some b \<and>
           os_files os' = (os_files os)(p \<mapsto> file_put (nat off) d b)"
proof -
  obtain m os1 where w: "sys_pwrite os (rmtfd_fd r) d off = (m, os1)"
    by fastforce
  with assms(1,3) have eq: "n = m" "r' = r" "os' = os1"
    by (simp_all add: storage_pwrite_def Let_def)
  show "r' = r"
    by (rule eq)
  show "os_wf os'"
    using os_wf_pwrite [OF assms(2) w] eq by simp
  show "os_fds os' = os_fds os" "os_heap os' = os_heap os"
    using w eq by (auto simp: sys_pwrite_def os_advance_def Let_def split: if_splits option.splits)
  show "\<exists>p b. 0 \<le> off \<and> os_fds os (rmtfd_fd r) = Some p \<and> os_files os p = Some b \<and>
           os_files os' = (os_files os)(p \<mapsto> file_put (nat off) d b)" if "n \<noteq> -1"
    using w eq that
    by (auto simp: sys_pwrite_def os_advance_def Let_def split: if_splits option.splits)
qed

lemma storage_pwrite_at_inv:
  assumes inv: "storage_inv (st, os)" and i: "i < MAX_CALLERS"
    and run: "storage_pwrite_at st os i d off = Inr (n, st', os')"
  shows "storage_inv (st', os')"
proof -
  let ?r = "rmtfds st ! i"
  from inv have wf: "storage_wf st" and link: "fds_linked st os" and heap: "shadows st \<le> os_heap os"
    and oswf: "os_wf os" and slot: "slot_wf (storage_read_only st) i ?r"
    using i by (simp_all add: storage_inv_def storage_wf_def)
  have len: "length (rmtfds st) = MAX_CALLERS"
    using wf by (simp add: storage_wf_def)
  from run obtain r' where w: "storage_pwrite st os ?r d off = Inr (n, r', os')"
    and st': "st' = st\<lparr>rmtfds := (rmtfds st)[i := r']\<rparr>"
    by (auto simp: storage_pwrite_at_def bind_outcome_Inr)
  show ?thesis
  proof (cases "storage_read_only st")
    case True
    with slot have slot': "slot_wf True i ?r"
      by simp
    note p = storage_pwrite_slot [OF True slot' w]
    have "storage_wf st'"
      unfolding st'
    proof (rule slot_wf_update [OF wf i])
      show "slot_wf (storage_read_only st) i r'"
        using True p(2) by simp
      show "rmtfd_node (rmtfds st ! j) \<noteq> rmtfd_node r'"
        if "j < MAX_CALLERS" "j \<noteq> i" "rmtfd_partition r' = Some k" "rmtfd_partition (rmtfds st ! j) = Some k" for j k
        using that p(3) storage_wf_unique [OF wf i] by metis
    qed
    moreover have "shadows st' \<le> os_heap os'"
      using shadows_update [OF wf i, of r'] p(4) heap unfolding st' by (auto split: if_splits)
    moreover have "fds_linked st' os'"
      using link p(1,3) i len by (auto simp: fds_linked_def st' nth_list_update)
    ultimately show ?thesis
      using oswf p(1) by (simp add: storage_inv_def os_wf_def)
  next
    case False
    note p = storage_pwrite_direct [OF False oswf w]
    have "st' = st"
      using p(1) by (simp add: st')
    with p(2-4) wf link heap show ?thesis
      by (simp add: storage_inv_def fds_linked_def)
  qed
qed

section \<open>The storage images as sector stores\<close>

lemma image_view_shadow:
  assumes "storage_read_only st"
  shows "image_view i (st, os) off = Some d \<longleftrightarrow>
    (\<exists>b. rmtfd_shadow_buf (rmtfds st ! i) = Some b \<and>
       off + SECTOR_SIZE \<le> min (length b) (rmtfd_shadow_len (rmtfds st ! i)) \<and>
       d = mem_slice off SECTOR_SIZE (take (rmtfd_shadow_len (rmtfds st ! i)) b))"
  using assms by (auto simp: image_view_def image_bytes_def split: option.splits)

lemma image_view_direct:
  assumes "\<not> storage_read_only st"
  shows "image_view i (st, os) off = Some d \<longleftrightarrow>
    (\<exists>b. fd_bytes os (rmtfd_fd (rmtfds st ! i)) = Some b \<and> off + SECTOR_SIZE \<le> length b \<and>
       d = mem_slice off SECTOR_SIZE b)"
  using assms by (auto simp: image_view_def image_bytes_def split: option.splits)

lemma mem_slice_take [window]:
  "off + n \<le> k \<Longrightarrow> mem_slice off n (take k xs) = mem_slice off n xs"
  by (simp add: mem_slice_def drop_take min_def)

lemma image_write_elim:
  assumes "image_write i (st, os) off d = Some s'"
  obtains r os' where "storage_pwrite st os (rmtfds st ! i) d (int off) = Inr (int (length d), r, os')"
    and "s' = (st\<lparr>rmtfds := (rmtfds st)[i := r]\<rparr>, os')"
    and "storage_pwrite_at st os i d (int off) = Inr (int (length d), st\<lparr>rmtfds := (rmtfds st)[i := r]\<rparr>, os')"
  using assms
  by (auto simp: image_write_def storage_pwrite_at_def bind_outcome_def split: sum.splits if_splits)

lemma image_write_ok:
  assumes ok: "image_ok i s" and len: "length d = SECTOR_SIZE"
    and wr: "image_write i s off d = Some s'"
  shows "image_ok i s'"
proof -
  obtain st os where s: "s = (st, os)"
    by fastforce
  from wr obtain r os' where w: "storage_pwrite st os (rmtfds st ! i) d (int off) = Inr (int (length d), r, os')"
    and s': "s' = (st\<lparr>rmtfds := (rmtfds st)[i := r]\<rparr>, os')"
    and at: "storage_pwrite_at st os i d (int off) = Inr (int (length d), st\<lparr>rmtfds := (rmtfds st)[i := r]\<rparr>, os')"
    unfolding s by (rule image_write_elim)
  from ok have inv: "storage_inv (st, os)" and i: "i < MAX_CALLERS"
    and size: "\<forall>b. rmtfd_shadow_buf (rmtfds st ! i) = Some b \<longrightarrow> length b < 2 ^ 63"
    by (simp_all add: image_ok_def s)
  from inv i have slot: "slot_wf (storage_read_only st) i (rmtfds st ! i)" and n: "length (rmtfds st) = MAX_CALLERS"
    and oswf: "os_wf os"
    by (simp_all add: storage_inv_def storage_wf_def)
  have "\<forall>b. rmtfd_shadow_buf r = Some b \<longrightarrow> length b < 2 ^ 63"
  proof (cases "storage_read_only st")
    case True
    with slot have "slot_wf True i (rmtfds st ! i)"
      by simp
    from storage_pwrite_shadow [OF True this size w] show ?thesis
      by (auto simp: window)
  next
    case False
    with storage_pwrite_direct(1) [OF False oswf w] slot show ?thesis
      by (simp add: slot_wf_def)
  qed
  with storage_pwrite_at_inv [OF inv i at] i n show ?thesis
    by (simp add: image_ok_def s')
qed

lemma image_write_view:
  assumes ok: "image_ok i s" and len: "length d = SECTOR_SIZE"
    and wr: "image_write i s off d = Some s'"
  shows "image_view i s' off = Some d"
    and "off' + SECTOR_SIZE \<le> off \<or> off + SECTOR_SIZE \<le> off' \<Longrightarrow> image_view i s off' = Some d' \<Longrightarrow>
         image_view i s' off' = Some d'"
proof -
  obtain st os where s: "s = (st, os)"
    by fastforce
  from wr obtain r os' where w: "storage_pwrite st os (rmtfds st ! i) d (int off) = Inr (int (length d), r, os')"
    and s': "s' = (st\<lparr>rmtfds := (rmtfds st)[i := r]\<rparr>, os')"
    unfolding s by (rule image_write_elim)
  from ok have i: "i < MAX_CALLERS" and slot: "slot_wf (storage_read_only st) i (rmtfds st ! i)"
    and n: "length (rmtfds st) = MAX_CALLERS" and oswf: "os_wf os"
    and size: "\<forall>b. rmtfd_shadow_buf (rmtfds st ! i) = Some b \<longrightarrow> length b < 2 ^ 63"
    by (simp_all add: image_ok_def s storage_inv_def storage_wf_def)
  have "image_view i s' off = Some d \<and>
    (off' + SECTOR_SIZE \<le> off \<or> off + SECTOR_SIZE \<le> off' \<longrightarrow> image_view i s off' = Some d' \<longrightarrow>
         image_view i s' off' = Some d')"
  proof (cases "storage_read_only st")
    case True
    with slot have "slot_wf True i (rmtfds st ! i)"
      by simp
    from storage_pwrite_shadow [OF True this size w] obtain b where
      r: "r = (rmtfds st ! i)\<lparr>rmtfd_shadow_buf := Some (mem_put off d b),
             rmtfd_shadow_len := max (rmtfd_shadow_len (rmtfds st ! i)) (off + length d)\<rparr>"
      and fit: "max (rmtfd_shadow_len (rmtfds st ! i)) (off + length d) \<le> length b"
      and keep: "\<And>a. rmtfd_shadow_buf (rmtfds st ! i) = Some a \<Longrightarrow>
        take (rmtfd_shadow_len (rmtfds st ! i)) b = take (rmtfd_shadow_len (rmtfds st ! i)) a"
      by blast
    have old: "mem_slice off' SECTOR_SIZE b = mem_slice off' SECTOR_SIZE a"
      if "rmtfd_shadow_buf (rmtfds st ! i) = Some a" "off' + SECTOR_SIZE \<le> rmtfd_shadow_len (rmtfds st ! i)" for a
      using keep [OF that(1)] that(2) mem_slice_take by metis
    have "image_view i s' off = Some d"
      using True i n fit len by (simp add: s' image_view_shadow r window)
    moreover have "image_view i s' off' = Some d'"
      if "off' + SECTOR_SIZE \<le> off \<or> off + SECTOR_SIZE \<le> off'" "image_view i s off' = Some d'"
      using that True i n fit len old
      by (auto simp: s s' image_view_shadow r window mem_slice_put_disjoint)
    ultimately show ?thesis
      by blast
  next
    case False
    note p = storage_pwrite_direct [OF False oswf w]
    have eq: "st\<lparr>rmtfds := (rmtfds st)[i := r]\<rparr> = st"
      using p(1) by simp
    from p(5) obtain p b where "os_fds os (rmtfd_fd (rmtfds st ! i)) = Some p" "os_files os p = Some b"
      "os_files os' = (os_files os)(p \<mapsto> file_put off d b)"
      by (auto simp: len SECTOR_SIZE_def)
    with False p(3) len show ?thesis
      by (auto simp: s s' eq image_view_direct fd_bytes_def window mem_slice_file_put_other)
  qed
  then show "image_view i s' off = Some d"
    and "off' + SECTOR_SIZE \<le> off \<or> off + SECTOR_SIZE \<le> off' \<Longrightarrow> image_view i s off' = Some d' \<Longrightarrow>
         image_view i s' off' = Some d'"
    by blast+
qed

interpretation image: sector_store "image_ok i" "image_view i" "image_write i" for i
  by unfold_locales (auto intro: image_write_ok image_write_view)

section \<open>Reading back\<close>

lemma size_of_ssize_nonneg [simp]: "0 \<le> n \<Longrightarrow> n < 2 ^ 64 \<Longrightarrow> size_of_ssize n = n"
  by (simp add: size_of_ssize_def)

lemma pread_fill:
  assumes "length d \<le> n" and "length buf = n"
  shows "mem_put (length d) (replicate (n - length d) 0) (mem_put 0 d buf) = d @ replicate (n - length d) (0 :: u8)"
  using assms by (simp add: mem_put_def)

lemma image_window_fill:
  assumes "length d \<le> n" and "d = mem_slice off n bs"
  shows "d @ replicate (n - length d) 0 = take n (drop off bs @ replicate n (0 :: u8))"
  using assms by (simp add: mem_slice_def min_def)

lemma storage_pread_result:
  assumes inv: "storage_inv (st, os)" and i: "i < MAX_CALLERS"
    and bs: "image_bytes (st, os) i = Some bs" and nofault: "storage_read_only st \<or> \<not> os_faults os"
    and buf: "length buf = n" and n: "n < 2 ^ 63"
  shows "storage_pread st os (rmtfds st ! i) buf n (int off) =
    Inr (int n, take n (drop off bs @ replicate n 0), if storage_read_only st then os else os_advance os)"
proof -
  let ?d = "mem_slice off n bs"
  have d: "length ?d \<le> n"
    by (simp add: window)
  have ssize: "size_of_ssize (int (length ?d)) = int (length ?d)"
    using d n by (intro size_of_ssize_nonneg) auto
  have fill: "mem_put (length ?d) (replicate (n - length ?d) 0) (mem_put 0 ?d buf) =
      take n (drop off bs @ replicate n 0)"
    using pread_fill [OF d buf] image_window_fill [OF d refl] by simp
  have full: "mem_put 0 ?d buf = take n (drop off bs @ replicate n 0)" if "length ?d = n"
    using fill that d by (simp add: mem_put_def)
  show ?thesis
  proof (cases "storage_read_only st")
    case True
    with bs obtain b where b: "rmtfd_shadow_buf (rmtfds st ! i) = Some b"
      and bs': "bs = take (rmtfd_shadow_len (rmtfds st ! i)) b"
      by (auto simp: image_bytes_def)
    have len: "rmtfd_shadow_len (rmtfds st ! i) \<le> length b"
      using inv i b by (auto simp: storage_inv_def storage_wf_def slot_wf_def)
    have m: "nat (min (int n) (int (rmtfd_shadow_len (rmtfds st ! i)) - int off)) = length ?d"
      using len by (simp add: bs' window)
    have slice: "mem_slice off (length ?d) b = ?d"
      using len by (simp add: bs' mem_slice_def drop_take min_def)
    show ?thesis
    proof (cases "0 < length ?d")
      case pos: True
      then have lim: "min (int n) (int (rmtfd_shadow_len (rmtfds st ! i)) - int off) = int (length ?d)"
        using m by linarith
      have "int off + int (length ?d) \<le> int (length b)"
        using len pos by (simp add: bs' window min_def split: if_splits)
      with True b lim pos ssize slice fill full d show ?thesis
        by (simp add: storage_pread_def Let_def)
    next
      case False
      then have "\<not> 0 < min (int n) (int (rmtfd_shadow_len (rmtfds st ! i)) - int off)"
        using m by linarith
      moreover have "take n (drop off bs @ replicate n 0) = replicate n 0"
        using False fill buf by (simp add: mem_put_def del: take_append)
      ultimately show ?thesis
        using True buf by (auto simp: storage_pread_def Let_def mem_put_def simp del: take_append)
    qed
  next
    case False
    with bs nofault have "sys_pread os (rmtfd_fd (rmtfds st ! i)) n (int off) = (int (length ?d), ?d, os_advance os)"
      by (simp add: image_bytes_def sys_pread_def Let_def)
    with False ssize fill full d show ?thesis
      by (simp add: storage_pread_def)
  qed
qed

lemma mem_slice_add: "mem_slice off (m + n) xs = mem_slice off m xs @ mem_slice (off + m) n xs"
  by (simp add: mem_slice_def take_add add.commute)

text \<open>Sectors that a view shows one after the other are one window of the image.\<close>

lemma image_views_window:
  assumes "ds \<noteq> []" and "\<forall>d \<in> set ds. length d = SECTOR_SIZE"
    and "\<forall>k < length ds. image_view i s (off + SECTOR_SIZE * k) = Some (ds ! k)"
  shows "\<exists>bs. image_bytes s i = Some bs \<and> off + SECTOR_SIZE * length ds \<le> length bs \<and>
    mem_slice off (SECTOR_SIZE * length ds) bs = concat ds"
  using assms
proof (induction ds rule: rev_nonempty_induct)
  case (single d)
  then show ?case
    by (auto simp: image_view_def split: option.splits if_splits)
next
  case (snoc d ds)
  have "image_view i s (off + SECTOR_SIZE * k) = Some (ds ! k)" if "k < length ds" for k
    using snoc.prems(2) that by (force simp: nth_append)
  then obtain bs where bs: "image_bytes s i = Some bs"
    and w: "mem_slice off (SECTOR_SIZE * length ds) bs = concat ds"
    using snoc.IH snoc.prems(1) by auto
  have "image_view i s (off + SECTOR_SIZE * length ds) = Some d"
    using snoc.prems(2) by (force simp: nth_append)
  with bs have "off + SECTOR_SIZE * length ds + SECTOR_SIZE \<le> length bs"
    and "mem_slice (off + SECTOR_SIZE * length ds) SECTOR_SIZE bs = d"
    by (auto simp: image_view_def split: if_splits)
  moreover have "SECTOR_SIZE * length (ds @ [d]) = SECTOR_SIZE * length ds + SECTOR_SIZE"
    by simp
  ultimately show ?case
    using bs w by (simp only: mem_slice_add) simp
qed

section \<open>Properties\<close>

definition storage_handle :: "storage \<Rightarrow> u32 \<Rightarrow> string \<Rightarrow> nat \<Rightarrow> bool" where
  "storage_handle st node path i \<longleftrightarrow>
     i < MAX_CALLERS \<and> slot_used (rmtfds st ! i) \<and> rmtfd_node (rmtfds st ! i) = node \<and>
     rmtfd_partition (rmtfds st ! i) = find_partition path \<and> find_partition path \<noteq> None"

lemma storage_open_handle:
  assumes inv: "storage_inv (st, os)" and run: "storage_open st os node path = (Some i, st', os')"
  shows "storage_handle st' node path i"
proof -
  from run obtain part where p: "find_partition path = Some part"
    by (auto simp: storage_open_def split: option.splits)
  show ?thesis
  proof (cases "find_open st node part")
    case (Some j)
    with run p show ?thesis
      by (auto simp: storage_open_def storage_handle_def find_open_def dest!: find_upt_Some)
  next
    case None
    with run p obtain j where f: "find_free st = Some j"
      and s: "storage_open_slot st os node part j = (Some i, st', os')"
      by (auto simp: storage_open_def split: option.splits)
    have oswf: "os_wf os" and len: "length (rmtfds st) = MAX_CALLERS"
      using inv by (simp_all add: storage_inv_def storage_wf_def)
    have "j < MAX_CALLERS"
      using find_free_Some [OF f] by simp
    then show ?thesis
      using storage_open_slot_direct [OF oswf _ s] storage_open_slot_shadow [OF oswf _ s] p len
      by (cases "storage_read_only st") (auto simp: storage_handle_def slot_used_def)
  qed
qed

lemma storage_handle_found:
  assumes wf: "storage_wf st" and h: "storage_handle st node path i"
  shows "storage_open st os node path = (Some i, st, os)"
proof -
  from h obtain part where p: "find_partition path = Some part"
    by (auto simp: storage_handle_def)
  obtain j where j: "find_open st node part = Some j"
    using h p find_upt_None
    by (cases "find_open st node part") (auto simp: find_open_def storage_handle_def)
  then have "j < MAX_CALLERS" "rmtfd_node (rmtfds st ! j) = node"
    "rmtfd_partition (rmtfds st ! j) = Some part"
    by (auto simp: find_open_def dest: find_upt_Some)
  with h p wf have "j = i"
    by (intro storage_wf_unique [of st i j part]) (auto simp: storage_handle_def)
  with p j show ?thesis
    by (simp add: storage_open_def)
qed

lemma storage_handle_get:
  "storage_wf st \<Longrightarrow> storage_handle st node path i \<Longrightarrow>
     storage_get st node (int (unat (storage_get_caller_id st i))) = Inr (Some i)"
  by (auto simp: storage_handle_def storage_get_def storage_get_caller_id_def storage_wf_def
      slot_wf_def MAX_CALLERS_def unat_of_nat)

text \<open>
  C16. A successful \<open>storage_open\<close> hands out a handle for exactly the requested node and
  partition, keeps the table invariant, the caller id it reports leads back to that handle,
  and opening the same partition again returns the same handle and changes nothing.
\<close>

theorem storage_open_spec:
  assumes "storage_inv (st, os)" and "storage_open st os node path = (Some i, st', os')"
  shows "storage_inv (st', os') \<and> storage_handle st' node path i \<and>
    storage_get st' node (int (unat (storage_get_caller_id st' i))) = Inr (Some i) \<and>
    (\<forall>os2. storage_open st' os2 node path = (Some i, st', os2))"
proof -
  note inv = storage_open_inv [OF assms] and h = storage_open_handle [OF assms]
  from inv have "storage_wf st'"
    by (simp add: storage_inv_def)
  with inv h storage_handle_found storage_handle_get show ?thesis
    by blast
qed

definition demo_os :: os where
  "demo_os = os_boot [(''/boot/modem_fs1'', replicate 4 1), (''/boot/modem_fs2'', [])] (\<lambda>_. False) (\<lambda>_. [])"

definition demo_storage :: "bool \<Rightarrow> storage" where
  "demo_storage ro = snd (storage_init None ro False storage_static)"

lemma demo_inv: "storage_inv (demo_storage ro, demo_os)"
  unfolding demo_storage_def demo_os_def by (rule storage_init_inv)

lemma pair3_eq: "fst p = x \<Longrightarrow> p = (x, fst (snd p), snd (snd p))"
  by (cases p) auto

theorem storage_open_spec_witness:
  "storage_handle (fst (snd (storage_open (demo_storage True) demo_os 5 ''/boot/modem_fs1'')))
     5 ''/boot/modem_fs1'' 0"
proof -
  have "fst (storage_open (demo_storage True) demo_os 5 ''/boot/modem_fs1'') = Some 0"
    by code_simp
  from storage_open_spec [OF demo_inv pair3_eq [OF this]] show ?thesis
    by blast
qed

text \<open>
  \<open>storage_exit\<close> leaves no slot in use, frees exactly the shadow buffers of the table and
  closes every descriptor the table held.
\<close>

theorem storage_exit_releases:
  assumes "storage_inv (st, os)" and "storage_exit st os = (st', os')"
  shows "(\<forall>i < MAX_CALLERS. \<not> slot_used (rmtfds st' ! i)) \<and> os_heap os' + shadows st = os_heap os \<and>
    (\<forall>i < MAX_CALLERS. rmtfd_fd (rmtfds st ! i) \<noteq> -1 \<longrightarrow>
       os_fds os' (rmtfd_fd (rmtfds st ! i)) = None)"
proof -
  note e = storage_exit_from_inv [OF assms(1) order_refl, folded storage_exit_def, OF assms(2)]
  have "length (rmtfds st') = MAX_CALLERS"
    using e by (simp add: storage_inv_def storage_wf_def)
  then have "shadows st' = 0"
    using e by (auto simp: shadows_def slot_used_def filter_empty_conv in_set_conv_nth)
  with e show ?thesis
    by simp
qed

theorem storage_exit_releases_witness:
  "os_heap (snd (storage_exit (fst (snd (storage_open (demo_storage True) demo_os 5 ''/boot/modem_fs1'')))
      (snd (snd (storage_open (demo_storage True) demo_os 5 ''/boot/modem_fs1''))))) = 0"
proof -
  let ?o = "storage_open (demo_storage True) demo_os 5 ''/boot/modem_fs1''"
  have f: "fst ?o = Some 0" and h: "os_heap (snd (snd ?o)) = 1" "shadows (fst (snd ?o)) = 1"
    by code_simp+
  have inv: "storage_inv (fst (snd ?o), snd (snd ?o))"
    using storage_open_inv [OF demo_inv pair3_eq [OF f]] .
  show ?thesis
    using storage_exit_releases [OF inv prod.collapse [symmetric]] h by simp
qed

text \<open>
  C8. Sectors that were written one after the other, in either mode, are what a read of the
  same window returns, and every other complete sector of the image is unchanged.
\<close>

theorem storage_roundtrip:
  assumes ok: "image_ok i (st, os)" and ds: "ds \<noteq> []" "\<forall>d \<in> set ds. length d = SECTOR_SIZE"
    and wr: "write_sectors (image_write i) (st, os) off ds = Some (st', os')"
    and nofault: "storage_read_only st' \<or> \<not> os_faults os'"
    and buf: "length buf = SECTOR_SIZE * length ds" "length buf < 2 ^ 63"
  shows "(\<exists>os2. storage_pread st' os' (rmtfds st' ! i) buf (length buf) (int off) =
            Inr (int (length buf), concat ds, os2)) \<and>
    (\<forall>off' d. off' + SECTOR_SIZE \<le> off \<or> off + SECTOR_SIZE * length ds \<le> off' \<longrightarrow>
       image_view i (st, os) off' = Some d \<longrightarrow> image_view i (st', os') off' = Some d)"
proof -
  have ok': "image_ok i (st', os')"
    using image.write_sectors_ok [OF ok ds(2) wr] .
  have "\<forall>k < length ds. image_view i (st', os') (off + SECTOR_SIZE * k) = Some (ds ! k)"
    using image.write_sectors_view [OF ok ds(2) wr] by blast
  from image_views_window [OF ds this] obtain bs where
    bs: "image_bytes (st', os') i = Some bs" "off + SECTOR_SIZE * length ds \<le> length bs"
    and w: "mem_slice off (length buf) bs = concat ds"
    using buf(1) by auto
  have "take (length buf) (drop off bs @ replicate (length buf) 0) = concat ds"
    using w bs(2) buf(1) by (simp add: mem_slice_def)
  moreover have "storage_inv (st', os')" "i < MAX_CALLERS"
    using ok' by (simp_all add: image_ok_def)
  ultimately show ?thesis
    using storage_pread_result [OF _ _ bs(1) nofault refl buf(2), of off]
      image.write_sectors_frame [OF ok ds(2) wr] by auto
qed

theorem storage_roundtrip_witness:
  "\<exists>st os st' os' os2.
     write_sectors (image_write 0) (st, os) 512 [replicate 512 7] = Some (st', os') \<and>
     storage_pread st' os' (rmtfds st' ! 0) (replicate 512 0) 512 512 = Inr (512, replicate 512 7, os2)"
proof -
  let ?o = "storage_open (demo_storage True) demo_os 5 ''/boot/modem_fs1''"
  define st os where "st = fst (snd ?o)" and "os = snd (snd ?o)"
  have f: "fst ?o = Some 0"
    by code_simp
  have sb: "rmtfd_shadow_buf (rmtfds st ! 0) = Some (replicate 4 1)" "rmtfd_shadow_len (rmtfds st ! 0) = 4"
    "storage_read_only st" "os_faults os = False" "length (rmtfds st) = MAX_CALLERS"
    "os_fresh os (os_tick os) = []"
    unfolding st_def os_def by code_simp+
  have ok: "image_ok 0 (st, os)"
    using storage_open_inv [OF demo_inv pair3_eq [OF f]] sb by (simp add: image_ok_def MAX_CALLERS_def st_def os_def)
  obtain s' where s': "image_write 0 (st, os) 512 (replicate 512 7) = Some s'"
    using sb by (auto simp: image_write_def storage_pwrite_at_def storage_pwrite_def sys_realloc_def
        pwrite_new_len_def STORAGE_MAX_SIZE_def Let_def pad_to_def)
  then have wr: "write_sectors (image_write 0) (st, os) 512 [replicate 512 7] = Some (fst s', snd s')"
    by simp
  have ro: "storage_read_only (fst s')"
    using s' sb by (auto elim!: image_write_elim)
  have "\<exists>os2. storage_pread (fst s') (snd s') (rmtfds (fst s') ! 0) (replicate 512 0) 512 512 =
      Inr (512, replicate 512 7, os2)"
    using storage_roundtrip [OF ok _ _ wr, of "replicate 512 0"] ro
    by (simp add: SECTOR_SIZE_def)
  with wr show ?thesis
    by blast
qed

text \<open>
  When the image file cannot be read, \<open>storage_pread\<close> still reports a complete read and
  leaves the caller's buffer as it was: the negative count is converted to an unsigned size
  in the comparison with \<open>nbyte\<close>, so neither the error nor the missing bytes are noticed.
\<close>

theorem storage_pread_hides_failure:
  assumes "\<not> storage_read_only st" and "os_faults os" and "length buf = n" and "n < 2 ^ 63"
  shows "storage_pread st os r buf n off = Inr (int n, buf, os_advance os)"
  using assms by (simp add: storage_pread_def sys_pread_def Let_def size_of_ssize_def mem_put_def)

theorem storage_pread_hides_failure_witness:
  "storage_pread (demo_storage False) (demo_os\<lparr>os_fault := \<lambda>_. True\<rparr>) (rmtfds (demo_storage False) ! 0)
     [1, 2, 3] 3 0 = Inr (3, [1, 2, 3], os_advance (demo_os\<lparr>os_fault := \<lambda>_. True\<rparr>))"
proof -
  have "\<not> storage_read_only (demo_storage False)"
    by code_simp
  from storage_pread_hides_failure [OF this, of "demo_os\<lparr>os_fault := \<lambda>_. True\<rparr>" "[1, 2, 3]" 3] show ?thesis
    by (simp add: os_faults_def)
qed

text \<open>
  In read-only mode a handle stays usable after \<open>storage_close\<close>: the lookup by caller id
  still returns it and a write fills the slot again. The slot then has a buffer and no
  partition, so it is neither free nor ever found again by \<open>storage_open\<close>.
\<close>

theorem storage_write_after_close:
  assumes inv: "storage_inv (st, os)" and ro: "storage_read_only st" and i: "i < MAX_CALLERS"
    and cl: "storage_close st os i = (st1, os1)" and d: "d \<noteq> []"
    and fit: "off + length d < STORAGE_MAX_SIZE" and nofault: "\<not> os_faults os1"
  shows "storage_get st1 (rmtfd_node (rmtfds st ! i)) (int i) = Inr (Some i) \<and>
    (\<exists>st2 os2. storage_pwrite_at st1 os1 i d (int off) = Inr (int (length d), st2, os2) \<and>
       slot_used (rmtfds st2 ! i) \<and> rmtfd_partition (rmtfds st2 ! i) = None)"
proof -
  note c = storage_close_inv [OF inv i cl]
  have len: "length (rmtfds st) = MAX_CALLERS"
    using inv by (simp add: storage_inv_def storage_wf_def)
  have ro1: "storage_read_only st1"
    using cl ro by (auto simp: storage_close_def split: prod.splits)
  have new: "pwrite_new_len (int off) (length d) = off + length d"
    using fit by (simp add: pwrite_new_len_def STORAGE_MAX_SIZE_def nat_mod_distrib nat_add_distrib)
  show ?thesis
    using i len ro1 d fit nofault
    by (auto simp: storage_get_def c(2) storage_pwrite_at_def storage_pwrite_def new Let_def
        sys_realloc_def slot_used_def window)
qed

theorem storage_write_after_close_witness:
  "storage_get (fst (storage_close (demo_storage True) demo_os 3)) 0 3 = Inr (Some 3)"
proof -
  have ro: "storage_read_only (demo_storage True)" "3 < MAX_CALLERS"
    "\<not> os_faults (snd (storage_close (demo_storage True) demo_os 3))"
    "rmtfd_node (rmtfds (demo_storage True) ! 3) = 0"
    by code_simp+
  have "0 + length [1 :: u8] < STORAGE_MAX_SIZE"
    by (simp add: STORAGE_MAX_SIZE_def)
  from storage_write_after_close [OF demo_inv ro(1,2) prod.collapse [symmetric] _ this ro(3)] ro(4)
  show ?thesis
    by simp
qed

end
