(* ===== verification/Resources.thy ===== *)
theory Resources
  imports Prelude
begin

text \<open>
  Acquire/release discipline. Every driver and every open routine of the sources acquires
  kernel or process resources one after the other and unwinds them on failure. Here a run
  of such a routine is its trace of acquisitions and releases; \<open>res_run\<close> replays the trace
  and is \<open>None\<close> as soon as something is released that is not held (a double release).
\<close>

datatype 'r revent = Acq 'r | Rel 'r

fun res_run :: "'r revent list \<Rightarrow> 'r list \<Rightarrow> 'r list option" where
  "res_run [] h = Some h"
| "res_run (Acq r # t) h = res_run t (r # h)"
| "res_run (Rel r # t) h = (if r \<in> set h then res_run t (remove1 r h) else None)"

definition balanced :: "'r revent list \<Rightarrow> bool" where
  "balanced t \<longleftrightarrow> res_run t [] = Some []"

lemma res_run_append:
  "res_run (s @ t) h = (case res_run s h of None \<Rightarrow> None | Some h' \<Rightarrow> res_run t h')"
  by (induction s h rule: res_run.induct) auto

text \<open>What is already held does not disturb a run that manages without it.\<close>

lemma res_run_frame: "res_run t h = Some h' \<Longrightarrow> res_run t (h @ g) = Some (h' @ g)"
  by (induction t h rule: res_run.induct) (auto simp: remove1_append split: if_splits)

lemma balanced_frame: "balanced t \<Longrightarrow> res_run t h = Some h"
  using res_run_frame [of t "[]" "[]" h] by (simp add: balanced_def)

lemma balanced_nested: "balanced (s @ u) \<Longrightarrow> balanced t \<Longrightarrow> balanced (s @ t @ u)"
  by (auto simp: balanced_def [of "s @ u"] balanced_def [of "s @ t @ u"] res_run_append
      balanced_frame split: option.splits)

lemma balanced_append: "balanced s \<Longrightarrow> balanced t \<Longrightarrow> balanced (s @ t)"
  by (simp add: balanced_def res_run_append)

lemma balanced_concat: "\<forall>t \<in> set ts. balanced t \<Longrightarrow> balanced (concat ts)"
  by (induction ts) (simp_all add: balanced_append, simp add: balanced_def)

text \<open>
  The contract of a kernel module: \<open>load\<close> returns the status, the trace of its run and the
  state it leaves behind; \<open>unload\<close> is the trace of the exit routine from that state. A
  failed load leaves nothing held; a successful one is undone by the unload. \<open>valid\<close> is what
  the module relies on in the answers of the kernel services it calls.
\<close>

locale module_lifecycle =
  fixes valid :: "'env \<Rightarrow> bool"
    and load :: "'env \<Rightarrow> int \<times> 'r revent list \<times> 'st"
    and unload :: "'env \<Rightarrow> 'st \<Rightarrow> 'r revent list"
  assumes load_failed: "valid e \<Longrightarrow> load e = (ret, t, s) \<Longrightarrow> ret \<noteq> 0 \<Longrightarrow> balanced t"
    and load_unload: "valid e \<Longrightarrow> load e = (0, t, s) \<Longrightarrow> balanced (t @ unload e s)"
begin

definition cycle :: "'env \<Rightarrow> 'r revent list" where
  "cycle e = (case load e of (ret, t, s) \<Rightarrow> if ret = 0 then t @ unload e s else t)"

lemma cycle_balanced: "valid e \<Longrightarrow> balanced (cycle e)"
  using load_failed load_unload by (cases "load e") (auto simp: cycle_def)

lemma cycles_balanced: "list_all valid es \<Longrightarrow> balanced (concat (map cycle es))"
  by (rule balanced_concat) (auto simp: cycle_balanced list_all_iff)

end

end
