(* ===== verification/Rmtfs_Memdrv.thy ===== *)
theory Rmtfs_Memdrv
  imports Resources Sector_Store
begin

text \<open>
  \<^verbatim>\<open>tcl-rmtfs-mem.c\<close>: the kernel driver that gives the RMTFS daemon access to the memory it
  shares with the modem. A device is a record with the mapped bytes; what the kernel services
  answer is data of the environment records. Acquisitions and releases are traced.
\<close>

section \<open>Device\<close>

definition SZ_4K :: u64 where "SZ_4K = 4096"
definition NUM_MAX_VMIDS :: nat where "NUM_MAX_VMIDS = 2"
definition QCOM_SCM_VMID_HLOS :: nat where "QCOM_SCM_VMID_HLOS = 3"

record qcom_rmtfs_mem =
  drv_base :: bytes
  drv_addr :: u64
  drv_size :: u64
  drv_client_id :: u32
  drv_perms :: u64

datatype drv_attr = Attr_phys_addr | Attr_size | Attr_client_id | Attr_other

text \<open>\<open>%pa\<close> prints an address as \<open>0x\<close> and its hexadecimal digits; the printers are arguments.\<close>

definition qcom_rmtfs_mem_show ::
  "(u64 \<Rightarrow> string) \<Rightarrow> (u32 \<Rightarrow> string) \<Rightarrow> qcom_rmtfs_mem \<Rightarrow> drv_attr \<Rightarrow> int + string" where
  "qcom_rmtfs_mem_show print_pa print_d m attr =
     (case attr of
        Attr_phys_addr \<Rightarrow> Inr (print_pa (drv_addr m) @ [CHR 0x0A])
      | Attr_size \<Rightarrow> Inr (print_pa (drv_size m) @ [CHR 0x0A])
      | Attr_client_id \<Rightarrow> Inr (print_d (drv_client_id m) @ [CHR 0x0A])
      | Attr_other \<Rightarrow> Inl (- EINVAL))"

section \<open>File operations\<close>

text \<open>
  \<open>f_pos\<close> is a signed 64-bit offset; in the comparisons it is converted to the unsigned type
  of \<open>size\<close>. The user copy is \<open>None\<close> when it succeeds and \<open>Some k\<close> when it faults after
  \<open>k\<close> bytes.
\<close>

definition drv_clamp :: "qcom_rmtfs_mem \<Rightarrow> nat \<Rightarrow> int \<Rightarrow> nat" where
  "drv_clamp m count f_pos =
     (if drv_size m \<le> word_of_int f_pos + word_of_nat count
      then unat (drv_size m - word_of_int f_pos) else count)"

definition qcom_rmtfs_mem_read ::
  "qcom_rmtfs_mem \<Rightarrow> nat option \<Rightarrow> nat \<Rightarrow> int \<Rightarrow> (int \<times> bytes \<times> int) outcome" where
  "qcom_rmtfs_mem_read m ucopy count f_pos =
     (if drv_size m \<le> word_of_int f_pos then Inr (0, [], f_pos)
      else (let count' = drv_clamp m count f_pos in
            if f_pos < 0 \<or> length (drv_base m) < nat f_pos + count' then Inl Out_of_bounds
            else case ucopy of
                   Some _ \<Rightarrow> Inr (- EFAULT, [], f_pos)
                 | None \<Rightarrow> Inr (int count', mem_slice (nat f_pos) count' (drv_base m), f_pos + int count')))"

definition qcom_rmtfs_mem_write ::
  "qcom_rmtfs_mem \<Rightarrow> nat option \<Rightarrow> bytes \<Rightarrow> int \<Rightarrow> (int \<times> qcom_rmtfs_mem \<times> int) outcome" where
  "qcom_rmtfs_mem_write m ucopy data f_pos =
     (if drv_size m \<le> word_of_int f_pos then Inr (0, m, f_pos)
      else (let count' = drv_clamp m (length data) f_pos in
            if f_pos < 0 \<or> length (drv_base m) < nat f_pos + count' then Inl Out_of_bounds
            else case ucopy of
                   Some k \<Rightarrow>
                     Inr (- EFAULT,
                          m\<lparr>drv_base := mem_put (nat f_pos) (take (min k count') data) (drv_base m)\<rparr>, f_pos)
                 | None \<Rightarrow>
                     Inr (int count', m\<lparr>drv_base := mem_put (nat f_pos) (take count' data) (drv_base m)\<rparr>,
                          f_pos + int count')))"

text \<open>
  The mapping starts at the region's first page whatever file offset was asked for. The
  result is the status and, on success, the physical page and the length that were mapped.
\<close>

definition qcom_rmtfs_mem_mmap ::
  "qcom_rmtfs_mem \<Rightarrow> u64 \<Rightarrow> u64 \<Rightarrow> int \<Rightarrow> int \<times> (u64 \<times> u64) option" where
  "qcom_rmtfs_mem_mmap m vm_start vm_end remap_ret =
     (if drv_size m < vm_end - vm_start then (- EINVAL, None)
      else (remap_ret,
            if remap_ret = 0 then Some (drop_bit 12 (drv_addr m), vm_end - vm_start) else None))"

text \<open>An open file holds a reference to the device.\<close>

datatype drv_res = Dev_ref | Cdev | Scm_assign | Class_reg | Chrdev_region | Platform_driver

definition qcom_rmtfs_mem_open :: "int \<times> drv_res revent list" where
  "qcom_rmtfs_mem_open = (0, [Acq Dev_ref])"

definition qcom_rmtfs_mem_release :: "int \<times> drv_res revent list" where
  "qcom_rmtfs_mem_release = (0, [Rel Dev_ref])"

section \<open>Probe and remove\<close>

text \<open>What the firmware tables and the kernel services answer during a probe.\<close>

record probe_env =
  pe_rmem :: "(u64 \<times> u64) option"
  pe_client_id :: "int \<times> u32"
  pe_kzalloc :: bool
  pe_guard_pages :: bool
  pe_memremap :: "int + bytes"
  pe_cdev_add :: int
  pe_count_vmids :: int
  pe_read_vmids :: "nat \<Rightarrow> int \<times> u32 list"
  pe_scm_available :: bool
  pe_scm_assign :: "u64 \<Rightarrow> u64 \<Rightarrow> u64 \<Rightarrow> (u32 \<times> u32) list \<Rightarrow> int \<times> u64"

definition QCOM_SCM_PERM_RW :: u32 where "QCOM_SCM_PERM_RW = 6"

text \<open>The region the device takes from the reserved memory.\<close>

definition probe_region :: "bool \<Rightarrow> u64 \<times> u64 \<Rightarrow> u64 \<times> u64" where
  "probe_region guard_pages rmem =
     (if guard_pages then (fst rmem + SZ_4K, snd rmem - 2 * SZ_4K) else rmem)"

definition probe_vmids :: "int \<Rightarrow> int + nat" where
  "probe_vmids n =
     (if n = - EINVAL then Inr 0
      else if n < 0 then Inl n
      else if int NUM_MAX_VMIDS < n then Inr NUM_MAX_VMIDS
      else Inr (nat n))"

text \<open>
  The hand-over of the region to the modem, after the character device was added: the
  status, the new permission mask and whether the assignment was done.
\<close>

definition probe_assign :: "probe_env \<Rightarrow> u64 \<times> u64 \<Rightarrow> int \<times> u64 \<times> bool" where
  "probe_assign e region =
     (case probe_vmids (pe_count_vmids e) of
        Inl err \<Rightarrow> (err, 0, False)
      | Inr num_vmids \<Rightarrow>
          (case pe_read_vmids e num_vmids of (ret, vmid) \<Rightarrow>
           if ret < 0 \<and> ret \<noteq> - EINVAL then (ret, 0, False)
           else if ret = 0
           then (if \<not> pe_scm_available e then (- EPROBE_DEFER, 0, False)
                 else (let perms = (word_of_nat QCOM_SCM_VMID_HLOS, QCOM_SCM_PERM_RW) #
                                   map (\<lambda>v. (v, QCOM_SCM_PERM_RW)) (take num_vmids vmid);
                           (ret2, owners) = pe_scm_assign e (fst region) (snd region)
                              (push_bit QCOM_SCM_VMID_HLOS 1) perms
                       in if ret2 < 0 then (ret2, push_bit QCOM_SCM_VMID_HLOS 1, False)
                          else (0, owners, True)))
           else (0, 0, False)))"

definition qcom_rmtfs_mem_probe ::
  "probe_env \<Rightarrow> int \<times> drv_res revent list \<times> qcom_rmtfs_mem option" where
  "qcom_rmtfs_mem_probe e =
     (case pe_rmem e of
        None \<Rightarrow> (- EINVAL, [], None)
      | Some rmem \<Rightarrow>
     (case pe_client_id e of (ret, client_id) \<Rightarrow>
      if ret \<noteq> 0 then (ret, [], None)
      else if \<not> pe_kzalloc e then (- ENOMEM, [], None)
      else (let region = probe_region (pe_guard_pages e) rmem in
        case pe_memremap e of
          Inl err \<Rightarrow> (err, [Acq Dev_ref, Rel Dev_ref], None)
        | Inr base \<Rightarrow>
            if pe_cdev_add e \<noteq> 0 then (pe_cdev_add e, [Acq Dev_ref, Rel Dev_ref], None)
            else (case probe_assign e region of (ret2, perms, assigned) \<Rightarrow>
                  if ret2 < 0
                  then (ret2, [Acq Dev_ref, Acq Cdev, Rel Cdev, Rel Dev_ref], None)
                  else (0, [Acq Dev_ref, Acq Cdev] @ (if assigned then [Acq Scm_assign] else []),
                        Some \<lparr>drv_base = base, drv_addr = fst region, drv_size = snd region,
                              drv_client_id = client_id, drv_perms = perms\<rparr>)))))"

definition qcom_rmtfs_mem_remove :: "qcom_rmtfs_mem option \<Rightarrow> drv_res revent list" where
  "qcom_rmtfs_mem_remove p =
     (case p of
        None \<Rightarrow> []
      | Some m \<Rightarrow> (if drv_perms m \<noteq> 0 then [Rel Scm_assign] else []) @ [Rel Cdev, Rel Dev_ref])"

section \<open>Module\<close>

record init_env =
  ie_class :: int
  ie_chrdev :: int
  ie_driver :: int

definition qcom_rmtfs_mem_init :: "init_env \<Rightarrow> int \<times> drv_res revent list \<times> unit" where
  "qcom_rmtfs_mem_init e =
     (if ie_class e \<noteq> 0 then (ie_class e, [], ())
      else if ie_chrdev e < 0 then (ie_chrdev e, [Acq Class_reg, Rel Class_reg], ())
      else if ie_driver e < 0
      then (ie_driver e, [Acq Class_reg, Acq Chrdev_region, Rel Chrdev_region, Rel Class_reg], ())
      else (0, [Acq Class_reg, Acq Chrdev_region, Acq Platform_driver], ()))"

definition qcom_rmtfs_mem_exit :: "drv_res revent list" where
  "qcom_rmtfs_mem_exit = [Rel Platform_driver, Rel Chrdev_region, Rel Class_reg]"

section \<open>The mapped window\<close>

definition drv_ok :: "qcom_rmtfs_mem \<Rightarrow> bool" where
  "drv_ok m \<longleftrightarrow> length (drv_base m) = unat (drv_size m) \<and> unat (drv_size m) < 2 ^ 63"

lemma of_nat_le_word64:
  "n < 2 ^ 64 \<Longrightarrow> (w :: u64) \<le> word_of_nat n \<longleftrightarrow> unat w \<le> n"
  by (simp add: word_le_nat_alt unat_of_nat)

lemma drv_clamp_val:
  assumes "drv_ok m" and "p < unat (drv_size m)" and "count < 2 ^ 31"
  shows "drv_clamp m count (int p) = min count (unat (drv_size m) - p)"
proof -
  have p: "p < 2 ^ 63"
    using assms by (simp add: drv_ok_def)
  have "word_of_nat p \<le> drv_size m"
    using assms(2) p by (simp add: word_le_nat_alt unat_of_nat)
  then have "unat (drv_size m - word_of_nat p) = unat (drv_size m) - p"
    using p by (simp add: unat_sub unat_of_nat)
  moreover have "drv_size m \<le> word_of_nat p + word_of_nat count \<longleftrightarrow> unat (drv_size m) \<le> p + count"
    using of_nat_le_word64 [of "p + count" "drv_size m"] p assms(3) by simp
  ultimately show ?thesis
    by (auto simp: drv_clamp_def min_def)
qed

lemma drv_at_end:
  assumes "p < 2 ^ 63"
  shows "drv_size m \<le> word_of_int (int p) \<longleftrightarrow> unat (drv_size m) \<le> p"
  using of_nat_le_word64 [of p "drv_size m"] assms by simp

lemma drv_read_val:
  assumes "drv_ok m" and "p < 2 ^ 63" and "count < 2 ^ 31"
  shows "qcom_rmtfs_mem_read m None count (int p) =
    Inr (int (length (mem_slice p count (drv_base m))), mem_slice p count (drv_base m),
         int p + int (length (mem_slice p count (drv_base m))))"
proof (cases "unat (drv_size m) \<le> p")
  case True
  with assms show ?thesis
    using drv_at_end [OF assms(2), of m]
    by (simp add: qcom_rmtfs_mem_read_def mem_slice_def drv_ok_def)
next
  case False
  have "mem_slice p (min count (unat (drv_size m) - p)) (drv_base m) = mem_slice p count (drv_base m)"
    using assms(1) by (simp add: mem_slice_def drv_ok_def min_def)
  with False assms drv_at_end [OF assms(2), of m] drv_clamp_val [OF assms(1) _ assms(3)] show ?thesis
    by (simp add: qcom_rmtfs_mem_read_def Let_def drv_ok_def window)
qed

lemma drv_write_val:
  assumes "drv_ok m" and "p < 2 ^ 63" and "length d < 2 ^ 31"
  shows "qcom_rmtfs_mem_write m None d (int p) =
    (let n = min (length d) (unat (drv_size m) - p) in
     Inr (int n, m\<lparr>drv_base := mem_put p (take n d) (drv_base m)\<rparr>, int p + int n))"
proof (cases "unat (drv_size m) \<le> p")
  case True
  with assms show ?thesis
    using drv_at_end [OF assms(2), of m]
    by (simp add: qcom_rmtfs_mem_write_def mem_put_def drv_ok_def)
next
  case False
  with assms drv_at_end [OF assms(2), of m] drv_clamp_val [OF assms(1) _ assms(3)] show ?thesis
    by (simp add: qcom_rmtfs_mem_write_def Let_def drv_ok_def)
qed

section \<open>Life cycles\<close>

definition drv_cycle :: "probe_env \<Rightarrow> drv_res revent list" where
  "drv_cycle e = (case qcom_rmtfs_mem_probe e of (ret, t, s) \<Rightarrow>
     if ret = 0 then t @ qcom_rmtfs_mem_remove s else t)"

text \<open>After a successful assignment the region has an owner.\<close>

definition probe_ok :: "probe_env \<Rightarrow> bool" where
  "probe_ok e \<longleftrightarrow> (\<forall>a s p l. 0 \<le> fst (pe_scm_assign e a s p l) \<longrightarrow> snd (pe_scm_assign e a s p l) \<noteq> 0)"

lemma probe_assign_perms:
  "probe_ok e \<Longrightarrow> probe_assign e r = (ret, perms, a) \<Longrightarrow> \<not> ret < 0 \<Longrightarrow> a \<longleftrightarrow> perms \<noteq> 0"
  by (auto simp: probe_assign_def probe_ok_def Let_def split: sum.splits prod.splits if_splits)
    (metis fst_conv not_less snd_conv)+

interpretation drv_module: module_lifecycle "\<lambda>_. True" qcom_rmtfs_mem_init "\<lambda>_ _. qcom_rmtfs_mem_exit"
  by unfold_locales
    (auto simp: qcom_rmtfs_mem_init_def qcom_rmtfs_mem_exit_def balanced_def split: if_splits)

lemma probe_failed: "qcom_rmtfs_mem_probe e = (ret, t, s) \<Longrightarrow> ret \<noteq> 0 \<Longrightarrow> balanced t"
  by (auto simp: qcom_rmtfs_mem_probe_def balanced_def Let_def
      split: option.splits prod.splits if_splits sum.splits)

lemma probe_remove:
  assumes "probe_ok e" and "qcom_rmtfs_mem_probe e = (0, t, s)"
  shows "balanced (t @ qcom_rmtfs_mem_remove s)"
  using assms(2)
  by (auto simp: qcom_rmtfs_mem_probe_def qcom_rmtfs_mem_remove_def balanced_def Let_def
      dest: probe_assign_perms [OF assms(1)] split: option.splits prod.splits if_splits sum.splits)

interpretation drv_device: module_lifecycle probe_ok qcom_rmtfs_mem_probe "\<lambda>_. qcom_rmtfs_mem_remove"
  by unfold_locales (auto intro: probe_failed probe_remove)

lemma drv_device_cycle: "drv_device.cycle = drv_cycle"
  by (simp add: fun_eq_iff drv_device.cycle_def drv_cycle_def)

section \<open>The device memory as a sector store\<close>

definition drv_view :: "qcom_rmtfs_mem \<Rightarrow> nat \<Rightarrow> bytes option" where
  "drv_view m off =
     (if off + SECTOR_SIZE \<le> length (drv_base m) then Some (mem_slice off SECTOR_SIZE (drv_base m)) else None)"

text \<open>A sector write through the file interface that was not cut short.\<close>

definition drv_write_sector :: "qcom_rmtfs_mem \<Rightarrow> nat \<Rightarrow> bytes \<Rightarrow> qcom_rmtfs_mem option" where
  "drv_write_sector m off d =
     (if 2 ^ 63 \<le> off then None
      else case qcom_rmtfs_mem_write m None d (int off) of
             Inl _ \<Rightarrow> None
           | Inr (n, m', _) \<Rightarrow> if n = int (length d) then Some m' else None)"

lemma drv_write_sector_eq:
  assumes "drv_ok m" and "length d = SECTOR_SIZE" and "drv_write_sector m off d = Some m'"
  shows "off + SECTOR_SIZE \<le> length (drv_base m) \<and> m' = m\<lparr>drv_base := mem_put off d (drv_base m)\<rparr>"
proof -
  have off: "off < 2 ^ 63"
    using assms(3) by (auto simp: drv_write_sector_def split: if_splits)
  have "length d < 2 ^ 31"
    using assms(2) by (simp add: SECTOR_SIZE_def)
  from drv_write_val [OF assms(1) off this] assms off show ?thesis
    by (auto simp: drv_write_sector_def Let_def drv_ok_def SECTOR_SIZE_def min_def split: if_splits)
qed

lemma drv_write_sector_ok:
  "drv_ok m \<Longrightarrow> length d = SECTOR_SIZE \<Longrightarrow> drv_write_sector m off d = Some m' \<Longrightarrow> drv_ok m'"
  using drv_write_sector_eq by (fastforce simp: drv_ok_def window)

interpretation drv_store: sector_store drv_ok drv_view drv_write_sector
proof
  fix m d off m' off' d'
  assume a: "drv_ok m" "length d = SECTOR_SIZE" "drv_write_sector m off d = Some m'"
  note eq = drv_write_sector_eq [OF a]
  show "drv_ok m'"
    using a by (rule drv_write_sector_ok)
  show "drv_view m' off = Some d"
    using eq a(2) by (simp add: drv_view_def window)
  show "drv_view m' off' = Some d'"
    if "off' + SECTOR_SIZE \<le> off \<or> off + SECTOR_SIZE \<le> off'" "drv_view m off' = Some d'"
    using that eq a(2) by (auto simp: drv_view_def window mem_slice_put_disjoint split: if_splits)
qed

section \<open>Properties\<close>

text \<open>
  Through the file interface the device is a window of exactly its size: a write stores
  as much of the data as fits behind the offset and nothing else, reports that amount, and a
  read of the same place returns it; no access leaves the mapped memory.
\<close>

theorem drv_write_read:
  assumes "drv_ok m" and "p < 2 ^ 63" and "length d < 2 ^ 31"
  shows "\<exists>n m'. n = min (length d) (unat (drv_size m) - p) \<and>
    qcom_rmtfs_mem_write m None d (int p) = Inr (int n, m', int p + int n) \<and> drv_ok m' \<and>
    qcom_rmtfs_mem_read m' None n (int p) = Inr (int n, take n d, int p + int n) \<and>
    (\<forall>q k. q + k \<le> p \<or> p + n \<le> q \<longrightarrow> mem_slice q k (drv_base m') = mem_slice q k (drv_base m))"
proof -
  define n where "n = min (length d) (unat (drv_size m) - p)"
  define m' where "m' = m\<lparr>drv_base := mem_put p (take n d) (drv_base m)\<rparr>"
  have w: "qcom_rmtfs_mem_write m None d (int p) = Inr (int n, m', int p + int n)"
    using drv_write_val [OF assms] by (simp add: n_def m'_def Let_def)
  show ?thesis
  proof (cases "n = 0")
    case True
    then have "m' = m"
      by (simp add: m'_def mem_put_def)
    with w True assms drv_read_val [OF assms(1,2), of 0] n_def show ?thesis
      by (auto simp: mem_slice_def)
  next
    case False
    then have fit: "p + n \<le> length (drv_base m)" "length (take n d) = n" "n \<le> length d"
      using assms(1) by (auto simp: n_def drv_ok_def)
    have ok: "drv_ok m'"
      using fit assms(1) by (simp add: m'_def drv_ok_def window)
    have sl: "mem_slice p n (drv_base m') = take n d"
      using fit by (simp add: m'_def window)
    have "mem_slice q k (drv_base m') = mem_slice q k (drv_base m)" if "q + k \<le> p \<or> p + n \<le> q" for q k
      using that fit by (auto simp: m'_def intro!: mem_slice_put_disjoint)
    moreover have "n < 2 ^ 31"
      using fit(3) assms(3) by simp
    ultimately show ?thesis
      using w ok drv_read_val [OF ok assms(2), of n] sl fit n_def by auto
  qed
qed

definition demo_drv :: qcom_rmtfs_mem where
  "demo_drv = \<lparr>drv_base = replicate 16 0, drv_addr = 0x85e00000, drv_size = 16, drv_client_id = 1, drv_perms = 0\<rparr>"

theorem drv_write_read_witness:
  "\<exists>n m'. n = min (length [1 :: u8, 2, 3]) (unat (drv_size demo_drv) - 14) \<and>
     qcom_rmtfs_mem_write demo_drv None [1, 2, 3] (int 14) = Inr (int n, m', int 14 + int n)"
proof -
  have "drv_ok demo_drv" "14 < (2 :: nat) ^ 63" "length [1 :: u8, 2, 3] < 2 ^ 31"
    by (simp_all add: drv_ok_def demo_drv_def)
  from drv_write_read [OF this] show ?thesis
    by blast
qed

text \<open>
  Loading the module, probing and removing any number of devices with any answers of the
  kernel services, and unloading it again releases everything exactly once.
\<close>

theorem drv_lifecycle_balanced:
  assumes "list_all probe_ok es" and "qcom_rmtfs_mem_init ie = (0, t, u)"
  shows "balanced (t @ concat (map drv_cycle es) @ qcom_rmtfs_mem_exit)"
proof (rule balanced_nested)
  show "balanced (t @ qcom_rmtfs_mem_exit)"
    using drv_module.load_unload [OF _ assms(2)] by simp
  show "balanced (concat (map drv_cycle es))"
    using drv_device.cycles_balanced [OF assms(1)] by (simp add: drv_device_cycle)
qed

definition demo_probe :: probe_env where
  "demo_probe =
     \<lparr>pe_rmem = Some (0x85e00000, 0x200000), pe_client_id = (0, 1), pe_kzalloc = True, pe_guard_pages = True,
      pe_memremap = Inr [], pe_cdev_add = 0, pe_count_vmids = 1, pe_read_vmids = \<lambda>_. (0, [15]),
      pe_scm_available = True, pe_scm_assign = \<lambda>_ _ _ _. (0, 0x8008)\<rparr>"

theorem drv_lifecycle_balanced_witness:
  "balanced ([Acq Class_reg, Acq Chrdev_region, Acq Platform_driver] @
     concat (map drv_cycle [demo_probe, demo_probe\<lparr>pe_scm_available := False\<rparr>]) @ qcom_rmtfs_mem_exit)"
proof -
  have "list_all probe_ok [demo_probe, demo_probe\<lparr>pe_scm_available := False\<rparr>]"
    by (simp add: probe_ok_def demo_probe_def)
  moreover have "qcom_rmtfs_mem_init \<lparr>ie_class = 0, ie_chrdev = 0, ie_driver = 0\<rparr> =
      (0, [Acq Class_reg, Acq Chrdev_region, Acq Platform_driver], ())"
    by (simp add: qcom_rmtfs_mem_init_def)
  ultimately show ?thesis
    by (rule drv_lifecycle_balanced)
qed

text \<open>
  The region a probed device exposes lies inside the reserved memory, with a page of
  distance on both sides when guard pages were requested, provided the reserved memory has
  at least the two guard pages. With less, the size wraps around and the device claims
  almost the whole address space.
\<close>

theorem probe_region_bounds:
  assumes "qcom_rmtfs_mem_probe e = (0, t, Some m)" and "pe_rmem e = Some (b, s)"
    and "unat b + unat s < 2 ^ 64"
  shows "(\<not> pe_guard_pages e \<longrightarrow> drv_addr m = b \<and> drv_size m = s) \<and>
    (pe_guard_pages e \<longrightarrow> 8192 \<le> unat s \<longrightarrow>
       unat (drv_addr m) = unat b + 4096 \<and> unat (drv_addr m) + unat (drv_size m) + 4096 = unat b + unat s) \<and>
    (pe_guard_pages e \<longrightarrow> unat s < 8192 \<longrightarrow> 2 ^ 64 - 8192 \<le> unat (drv_size m))"
proof -
  have m: "(drv_addr m, drv_size m) = probe_region (pe_guard_pages e) (b, s)"
    using assms(1,2)
    by (auto simp: qcom_rmtfs_mem_probe_def Let_def split: prod.splits if_splits sum.splits)
  have "unat (b + SZ_4K) = unat b + 4096" if "8192 \<le> unat s"
    using that assms(3) by (simp add: SZ_4K_def unat_word_ariths)
  moreover have "unat (s - 2 * SZ_4K) = unat s - 8192" if "8192 \<le> unat s"
    using that by (simp add: SZ_4K_def unat_sub word_le_nat_alt)
  moreover have "2 ^ 64 - 8192 \<le> unat (s - 2 * SZ_4K)" if "unat s < 8192"
    using that by (simp add: SZ_4K_def unat_sub_if' word_le_nat_alt)
  ultimately show ?thesis
    using m by (auto simp: probe_region_def)
qed

theorem probe_region_bounds_witness:
  "\<exists>m. snd (snd (qcom_rmtfs_mem_probe demo_probe)) = Some m \<and> unat (drv_addr m) = 0x85e01000"
proof -
  have p: "qcom_rmtfs_mem_probe demo_probe = (0, [Acq Dev_ref, Acq Cdev, Acq Scm_assign],
      Some \<lparr>drv_base = [], drv_addr = 0x85e01000, drv_size = 0x1fe000, drv_client_id = 1, drv_perms = 0x8008\<rparr>)"
    by (simp add: qcom_rmtfs_mem_probe_def demo_probe_def probe_assign_def probe_vmids_def probe_region_def
        SZ_4K_def NUM_MAX_VMIDS_def)
  from probe_region_bounds [OF p, of "0x85e00000" "0x200000"] p show ?thesis
    by (simp add: demo_probe_def)
qed

end
