(* ===== verification/Rmtfs_Sharedmem.thy ===== *)
theory Rmtfs_Sharedmem
  imports Rmtfs_Memdrv
begin

text \<open>
  \<^verbatim>\<open>sharedmem.c\<close>: how the RMTFS daemon finds and accesses the memory it shares with the modem.
  The memory is reached through the character device of the kernel driver (reads and writes
  at an offset) or through a mapping (a UIO device or \<^verbatim>\<open>/dev/mem\<close>). The answers of the C
  library, of libudev and of the device tree are data of environment records; what is
  acquired and released is traced. The variant for Android is not modelled.
\<close>

record rmtfs_mem =
  mem_address :: u64
  mem_size :: u64
  mem_base :: "bytes option"
  mem_fd :: int

section \<open>Hexadecimal attributes\<close>

definition is_space :: "char \<Rightarrow> bool" where
  "is_space c \<longleftrightarrow> c \<in> {CHR '' '', CHR 0x09, CHR 0x0A, CHR 0x0B, CHR 0x0C, CHR 0x0D}"

definition hex_digit :: "char \<Rightarrow> nat option" where
  "hex_digit c =
     (let n = (of_char c :: nat) in
      if 48 \<le> n \<and> n \<le> 57 then Some (n - 48)
      else if 65 \<le> n \<and> n \<le> 70 then Some (n - 55)
      else if 97 \<le> n \<and> n \<le> 102 then Some (n - 87)
      else None)"

fun hex_value :: "nat \<Rightarrow> string \<Rightarrow> nat" where
  "hex_value acc [] = acc"
| "hex_value acc (c # cs) = (case hex_digit c of None \<Rightarrow> acc | Some d \<Rightarrow> hex_value (16 * acc + d) cs)"

text \<open>The \<open>0x\<close> prefix counts only when a digit follows it.\<close>

definition hex_body :: "string \<Rightarrow> string" where
  "hex_body s =
     (case s of
        z # x # d # r \<Rightarrow>
          if z = CHR ''0'' \<and> (x = CHR ''x'' \<or> x = CHR ''X'') \<and> hex_digit d \<noteq> None then d # r else s
      | _ \<Rightarrow> s)"

text \<open>
  \<open>strtoull (buf, \<dots>, 16)\<close>: the value, whether \<open>errno\<close> became \<open>ERANGE\<close>, and whether anything
  was converted at all.
\<close>

definition strtoull16 :: "string \<Rightarrow> u64 \<times> bool \<times> bool" where
  "strtoull16 s =
     (let s1 = dropWhile is_space s;
          neg = (s1 \<noteq> [] \<and> hd s1 = CHR ''-'');
          s2 = (if s1 \<noteq> [] \<and> (hd s1 = CHR ''-'' \<or> hd s1 = CHR ''+'') then tl s1 else s1);
          s3 = hex_body s2;
          v = hex_value 0 s3
      in if s3 = [] \<or> hex_digit (hd s3) = None then (0, False, False)
         else if 2 ^ 64 \<le> v then (- 1, True, True)
         else (if neg then - word_of_nat v else word_of_nat v, False, True))"

text \<open>
  \<open>errno\<close> is zero before the conversion and the conversion sets it only on overflow, so an
  attribute without a number gives the result \<open>-0\<close>.
\<close>

definition parse_hex_sysattr :: "(string \<Rightarrow> string option) \<Rightarrow> string \<Rightarrow> u64 \<Rightarrow> int \<times> u64" where
  "parse_hex_sysattr attrs name old =
     (case attrs name of
        None \<Rightarrow> (- ENOENT, old)
      | Some buf \<Rightarrow>
          (case strtoull16 buf of (val, erange, converted) \<Rightarrow>
           if (val = - 1 \<and> erange) \<or> \<not> converted then (- (if erange then ERANGE else 0), old)
           else (0, val)))"

section \<open>Opening\<close>

datatype shm_res = Heap | Fd int | Udev | Udev_dev | Mapping

text \<open>
  The answers for one device node. \<open>open\<close> is a descriptor or a negated error number;
  \<open>fstat\<close>, \<open>udev_new\<close> and \<open>udev_device_new_from_devnum\<close> either succeed or leave an error
  number; \<open>mmap\<close> gives an error number or the bytes that the mapping shows.
\<close>

record dev_env =
  dv_open :: int
  dv_fstat :: "int option"
  dv_udev :: "int option"
  dv_dev :: "int option"
  dv_attrs :: "string \<Rightarrow> string option"
  dv_mmap :: "int + bytes"

text \<open>The common first half of both open routines, up to the udev device.\<close>

definition rmtfs_mem_open_dev :: "rmtfs_mem \<Rightarrow> dev_env \<Rightarrow> (int \<times> rmtfs_mem \<times> shm_res revent list) + rmtfs_mem" where
  "rmtfs_mem_open_dev rmem e =
     (if dv_open e < 0 then Inl (dv_open e, rmem, [])
      else (let fd = dv_open e; rmem1 = rmem\<lparr>mem_fd := fd\<rparr> in
        case dv_fstat e of
          Some err \<Rightarrow> Inl (- err, rmem1, [Acq (Fd fd), Rel (Fd fd), Rel (Fd fd)])
        | None \<Rightarrow>
       (case dv_udev e of
          Some err \<Rightarrow> Inl (- err, rmem1, [Acq (Fd fd), Rel (Fd fd)])
        | None \<Rightarrow>
       (case dv_dev e of
          Some err \<Rightarrow> Inl (- err, rmem1, [Acq (Fd fd), Acq Udev, Rel Udev, Rel (Fd fd)])
        | None \<Rightarrow> Inr rmem1))))"

definition dev_opened :: "dev_env \<Rightarrow> shm_res revent list" where
  "dev_opened e = [Acq (Fd (dv_open e)), Acq Udev, Acq Udev_dev]"

definition dev_unwind :: "dev_env \<Rightarrow> shm_res revent list" where
  "dev_unwind e = [Rel Udev_dev, Rel Udev, Rel (Fd (dv_open e))]"

definition rmtfs_mem_open_rfsa :: "rmtfs_mem \<Rightarrow> dev_env \<Rightarrow> int \<times> rmtfs_mem \<times> shm_res revent list" where
  "rmtfs_mem_open_rfsa rmem e =
     (case rmtfs_mem_open_dev rmem e of
        Inl r \<Rightarrow> r
      | Inr rmem1 \<Rightarrow>
     (case parse_hex_sysattr (dv_attrs e) ''phys_addr'' (mem_address rmem1) of (ret, addr) \<Rightarrow>
      let rmem2 = rmem1\<lparr>mem_address := addr\<rparr> in
      if ret < 0 then (ret, rmem2, dev_opened e @ dev_unwind e)
      else (case parse_hex_sysattr (dv_attrs e) ''size'' (mem_size rmem2) of (ret2, sz) \<Rightarrow>
            let rmem3 = rmem2\<lparr>mem_size := sz\<rparr> in
            if ret2 < 0 then (ret2, rmem3, dev_opened e @ dev_unwind e)
            else (0, rmem3, dev_opened e @ [Rel Udev_dev, Rel Udev]))))"

definition rmtfs_mem_open_uio :: "rmtfs_mem \<Rightarrow> dev_env \<Rightarrow> int \<times> rmtfs_mem \<times> shm_res revent list" where
  "rmtfs_mem_open_uio rmem e =
     (case rmtfs_mem_open_dev rmem e of
        Inl r \<Rightarrow> r
      | Inr rmem1 \<Rightarrow>
     (case parse_hex_sysattr (dv_attrs e) ''maps/map0/addr'' (mem_address rmem1) of (ret, addr) \<Rightarrow>
      let rmem2 = rmem1\<lparr>mem_address := addr\<rparr> in
      if ret < 0 then (ret, rmem2, dev_opened e @ dev_unwind e)
      else (case parse_hex_sysattr (dv_attrs e) ''maps/map0/size'' (mem_size rmem2) of (ret2, sz) \<Rightarrow>
            let rmem3 = rmem2\<lparr>mem_size := sz\<rparr> in
            if ret2 < 0 then (ret2, rmem3, dev_opened e @ dev_unwind e)
            else (case dv_mmap e of
                    Inl err \<Rightarrow> (- err, rmem3, dev_opened e @ dev_unwind e)
                  | Inr b \<Rightarrow> (0, rmem3\<lparr>mem_base := Some b\<rparr>,
                             dev_opened e @ [Acq Mapping, Rel Udev_dev, Rel Udev])))))"

text \<open>The reserved-memory nodes of the device tree, in directory order.\<close>

record dt_node =
  dn_name :: string
  dn_dirfd :: int
  dn_regfd :: int
  dn_reg :: "bytes option"

record dt_env =
  dt_basefd :: int
  dt_fdopendir :: bool
  dt_nodes :: "dt_node list"

definition be_val :: "bytes \<Rightarrow> nat" where
  "be_val bs = le_val (rev bs)"

definition dt_read_reg :: "rmtfs_mem \<Rightarrow> bytes option \<Rightarrow> int \<times> rmtfs_mem" where
  "dt_read_reg rmem reg =
     (case reg of
        None \<Rightarrow> (- 1, rmem)
      | Some bs \<Rightarrow>
          if length bs = 8
          then (0, rmem\<lparr>mem_address := word_of_nat (be_val (take 4 bs)), mem_size := word_of_nat (be_val (drop 4 bs))\<rparr>)
          else if length bs = 16
          then (0, rmem\<lparr>mem_address := word_of_nat (be_val (take 8 bs)), mem_size := word_of_nat (be_val (drop 8 bs))\<rparr>)
          else (- 1, rmem))"

fun dt_scan :: "rmtfs_mem \<Rightarrow> dt_node list \<Rightarrow> int \<times> rmtfs_mem \<times> shm_res revent list" where
  "dt_scan rmem [] = (0, rmem, [])"
| "dt_scan rmem (n # ns) =
     (if take 5 (dn_name n) \<noteq> ''rmtfs'' then dt_scan rmem ns
      else if dn_dirfd n < 0 then (- 1, rmem, [])
      else if dn_regfd n < 0 then (- 1, rmem, [Acq (Fd (dn_dirfd n))])
      else (case dt_read_reg rmem (dn_reg n) of (ret, rmem') \<Rightarrow>
            (ret, rmem', [Acq (Fd (dn_dirfd n)), Acq (Fd (dn_regfd n)),
                          Rel (Fd (dn_regfd n)), Rel (Fd (dn_dirfd n))])))"

text \<open>\<open>closedir\<close> closes the descriptor the stream was made from.\<close>

definition rmtfs_mem_enumerate :: "rmtfs_mem \<Rightarrow> dt_env \<Rightarrow> int \<times> rmtfs_mem \<times> shm_res revent list" where
  "rmtfs_mem_enumerate rmem e =
     (let opened = (if dt_basefd e < 0 then [] else [Acq (Fd (dt_basefd e))]) in
      if dt_basefd e < 0 \<or> \<not> dt_fdopendir e
      then (- 1, rmem, opened @ (if dt_basefd e < 0 then [] else [Rel (Fd (dt_basefd e))]))
      else (case dt_scan rmem (dt_nodes e) of (ret, rmem', t) \<Rightarrow>
            (ret, rmem', opened @ t @ [Rel (Fd (dt_basefd e)), Rel (Fd (dt_basefd e))])))"

record open_env =
  oe_malloc :: bool
  oe_rfsa :: dev_env
  oe_uio :: dev_env
  oe_dt :: dt_env
  oe_devmem_open :: int
  oe_devmem_mmap :: "u64 \<Rightarrow> u64 \<Rightarrow> int + bytes"

definition rmtfs_mem_open_devmem :: "rmtfs_mem \<Rightarrow> open_env \<Rightarrow> rmtfs_mem option \<times> shm_res revent list" where
  "rmtfs_mem_open_devmem rmem e =
     (case rmtfs_mem_enumerate rmem (oe_dt e) of (ret, rmem1, t) \<Rightarrow>
      if ret < 0 then (None, t)
      else if oe_devmem_open e < 0 then (None, t)
      else (case oe_devmem_mmap e (mem_address rmem1) (mem_size rmem1) of
              Inl _ \<Rightarrow> (None, t @ [Acq (Fd (oe_devmem_open e)), Rel (Fd (oe_devmem_open e))])
            | Inr b \<Rightarrow> (Some (rmem1\<lparr>mem_base := Some b, mem_fd := oe_devmem_open e\<rparr>),
                       t @ [Acq (Fd (oe_devmem_open e)), Acq Mapping])))"

definition rmtfs_mem_open :: "open_env \<Rightarrow> rmtfs_mem option \<times> shm_res revent list" where
  "rmtfs_mem_open e =
     (if \<not> oe_malloc e then (None, [])
      else (let rmem = \<lparr>mem_address = 0, mem_size = 0, mem_base = None, mem_fd = 0\<rparr> in
        case rmtfs_mem_open_rfsa rmem (oe_rfsa e) of (ret, rmem1, t1) \<Rightarrow>
        if ret < 0 \<and> ret \<noteq> - ENOENT then (None, Acq Heap # t1 @ [Rel Heap])
        else if \<not> ret < 0 then (Some rmem1, Acq Heap # t1)
        else (case rmtfs_mem_open_uio rmem1 (oe_uio e) of (ret2, rmem2, t2) \<Rightarrow>
        if ret2 < 0 \<and> ret2 \<noteq> - ENOENT then (None, Acq Heap # t1 @ t2 @ [Rel Heap])
        else if \<not> ret2 < 0 then (Some rmem2, Acq Heap # t1 @ t2)
        else (case rmtfs_mem_open_devmem rmem2 e of
                (None, t3) \<Rightarrow> (None, Acq Heap # t1 @ t2 @ t3 @ [Rel Heap])
              | (Some rmem3, t3) \<Rightarrow> (Some rmem3, Acq Heap # t1 @ t2 @ t3)))))"

definition rmtfs_mem_close :: "rmtfs_mem \<Rightarrow> shm_res revent list" where
  "rmtfs_mem_close rmem =
     (if mem_base rmem \<noteq> None then [Rel Mapping] else []) @ [Rel (Fd (mem_fd rmem)), Rel Heap]"

section \<open>Access\<close>

text \<open>The result is the address of the buffer, or a negative error number.\<close>

definition rmtfs_mem_alloc :: "rmtfs_mem \<Rightarrow> u64 \<Rightarrow> int" where
  "rmtfs_mem_alloc rmem alloc_size =
     (if mem_size rmem < alloc_size then - EINVAL else sint (mem_address rmem))"

definition rmtfs_mem_free :: "rmtfs_mem \<Rightarrow> rmtfs_mem" where
  "rmtfs_mem_free rmem = rmem"

text \<open>The offset of the pointer in the mapping.\<close>

definition rmtfs_mem_ptr :: "rmtfs_mem \<Rightarrow> u64 \<Rightarrow> int \<Rightarrow> u64 option" where
  "rmtfs_mem_ptr rmem phys_address len =
     (if len < 0 then None
      else (let start = phys_address; stop = start + word_of_int len in
            if start < mem_address rmem \<or> mem_address rmem + mem_size rmem < stop then None
            else Some (phys_address - mem_address rmem)))"

text \<open>
  \<open>pread\<close> and \<open>pwrite\<close> on the character device: a negative offset is refused, a negative
  driver result becomes \<open>-1\<close>.
\<close>

definition dev_pread :: "qcom_rmtfs_mem \<Rightarrow> nat option \<Rightarrow> nat \<Rightarrow> int \<Rightarrow> (int \<times> bytes) outcome" where
  "dev_pread dev ucopy n off =
     (if off < 0 then Inr (- 1, [])
      else bind_outcome (qcom_rmtfs_mem_read dev ucopy n off)
             (\<lambda>(ret, d, _). Inr (if ret < 0 then (- 1, []) else (ret, d))))"

definition dev_pwrite :: "qcom_rmtfs_mem \<Rightarrow> nat option \<Rightarrow> bytes \<Rightarrow> int \<Rightarrow> (int \<times> qcom_rmtfs_mem) outcome" where
  "dev_pwrite dev ucopy d off =
     (if off < 0 then Inr (- 1, dev)
      else bind_outcome (qcom_rmtfs_mem_write dev ucopy d off)
             (\<lambda>(ret, dev', _). Inr (if ret < 0 then - 1 else ret, dev')))"

type_synonym shm = "rmtfs_mem \<times> qcom_rmtfs_mem"

definition rmtfs_mem_read ::
  "shm \<Rightarrow> nat option \<Rightarrow> u64 \<Rightarrow> bytes \<Rightarrow> nat \<Rightarrow> (int \<times> bytes) outcome" where
  "rmtfs_mem_read s ucopy phys_address buf len =
     (case mem_base (fst s) of
        Some b \<Rightarrow>
          (case rmtfs_mem_ptr (fst s) phys_address (int len) of
             None \<Rightarrow> Inr (- EINVAL, buf)
           | Some ptr \<Rightarrow>
               if length b < unat ptr + len then Inl Out_of_bounds
               else Inr (int len, mem_put 0 (mem_slice (unat ptr) len b) buf))
      | None \<Rightarrow>
          bind_outcome (dev_pread (snd s) ucopy len (sint (phys_address - mem_address (fst s))))
            (\<lambda>(n, d). Inr (n, mem_put 0 d buf)))"

definition rmtfs_mem_write ::
  "shm \<Rightarrow> nat option \<Rightarrow> u64 \<Rightarrow> bytes \<Rightarrow> (int \<times> shm) outcome" where
  "rmtfs_mem_write s ucopy phys_address d =
     (case mem_base (fst s) of
        Some b \<Rightarrow>
          (case rmtfs_mem_ptr (fst s) phys_address (int (length d)) of
             None \<Rightarrow> Inr (- EINVAL, s)
           | Some ptr \<Rightarrow>
               if length b < unat ptr + length d then Inl Out_of_bounds
               else Inr (int (length d), ((fst s)\<lparr>mem_base := Some (mem_put (unat ptr) d b)\<rparr>, snd s)))
      | None \<Rightarrow>
          bind_outcome (dev_pwrite (snd s) ucopy d (sint (phys_address - mem_address (fst s))))
            (\<lambda>(n, dev). Inr (n, (fst s, dev))))"

section \<open>The shared memory as a sector store\<close>

text \<open>
  The region does not reach the upper half of the address space, and what is mapped (or what
  the driver exposes) is the whole region.
\<close>

definition shm_bytes :: "shm \<Rightarrow> bytes" where
  "shm_bytes s = (case mem_base (fst s) of Some b \<Rightarrow> b | None \<Rightarrow> drv_base (snd s))"

definition shm_ok :: "shm \<Rightarrow> bool" where
  "shm_ok s \<longleftrightarrow>
     unat (mem_address (fst s)) + unat (mem_size (fst s)) < 2 ^ 63 \<and>
     length (shm_bytes s) = unat (mem_size (fst s)) \<and>
     (mem_base (fst s) = None \<longrightarrow> drv_ok (snd s) \<and> drv_size (snd s) = mem_size (fst s))"

definition in_region :: "shm \<Rightarrow> nat \<Rightarrow> nat \<Rightarrow> bool" where
  "in_region s a n \<longleftrightarrow>
     unat (mem_address (fst s)) \<le> a \<and> a + n \<le> unat (mem_address (fst s)) + unat (mem_size (fst s))"

definition shm_at :: "shm \<Rightarrow> nat \<Rightarrow> nat" where
  "shm_at s a = a - unat (mem_address (fst s))"

definition shm_view :: "shm \<Rightarrow> nat \<Rightarrow> bytes option" where
  "shm_view s a =
     (if in_region s a SECTOR_SIZE then Some (mem_slice (shm_at s a) SECTOR_SIZE (shm_bytes s)) else None)"

definition shm_write_sector :: "shm \<Rightarrow> nat \<Rightarrow> bytes \<Rightarrow> shm option" where
  "shm_write_sector s a d =
     (if 2 ^ 63 \<le> a + SECTOR_SIZE then None
      else case rmtfs_mem_write s None (word_of_nat a) d of
             Inl _ \<Rightarrow> None
           | Inr (n, s') \<Rightarrow> if n = int (length d) then Some s' else None)"

lemma unat_diff_region:
  assumes "unat (base :: u64) \<le> a" and "a < 2 ^ 63"
  shows "unat (word_of_nat a - base) = a - unat base"
  using assms by (simp add: unat_sub word_le_nat_alt unat_of_nat)

lemma sint_word_of_int_self:
  "- (2 ^ 63) \<le> x \<Longrightarrow> x < 2 ^ 63 \<Longrightarrow> sint (word_of_int x :: u64) = x"
  by (simp add: sint_sbintrunc' signed_take_bit_int_eq_self)

lemma sint_diff_region:
  assumes "unat (base :: u64) < 2 ^ 63" and "a < 2 ^ 63"
  shows "sint (word_of_nat a - base) = int a - int (unat base)"
proof -
  have "word_of_nat a - base = word_of_int (int a - int (unat base))"
    by simp
  moreover have "sint (word_of_int (int a - int (unat base)) :: u64) = int a - int (unat base)"
  proof (rule sint_word_of_int_self)
    have "int (unat base) < int (2 ^ 63)" "int a < int (2 ^ 63)"
      using assms by (simp_all only: of_nat_less_iff)
    then have "int (unat base) < 2 ^ 63" "int a < 2 ^ 63"
      by (simp_all only: of_nat_power of_nat_numeral)
    then show "- (2 ^ 63) \<le> int a - int (unat base)" "int a - int (unat base) < 2 ^ 63"
      by linarith+
  qed
  ultimately show ?thesis
    by simp
qed

lemma rmtfs_mem_ptr_eq:
  assumes "shm_ok s" and "a + n < 2 ^ 63"
  shows "rmtfs_mem_ptr (fst s) (word_of_nat a) (int n) =
    (if in_region s a n then Some (word_of_nat a - mem_address (fst s)) else None)"
proof -
  let ?b = "mem_address (fst s)" and ?l = "mem_size (fst s)"
  have lim: "unat ?b + unat ?l < 2 ^ 63"
    using assms(1) by (simp add: shm_ok_def)
  have "(word_of_nat a :: u64) < ?b \<longleftrightarrow> a < unat ?b"
    using assms(2) by (simp add: word_less_nat_alt unat_of_nat)
  moreover have "unat (?b + ?l) = unat ?b + unat ?l"
    using lim by (simp add: unat_word_ariths)
  then have "?b + ?l < word_of_nat a + word_of_int (int n) \<longleftrightarrow> unat ?b + unat ?l < a + n"
    using assms(2) by (simp add: word_less_nat_alt unat_of_nat flip: of_nat_add)
  ultimately show ?thesis
    by (auto simp: rmtfs_mem_ptr_def Let_def in_region_def)
qed

lemma mem_put_whole: "length d = length buf \<Longrightarrow> mem_put 0 d buf = d"
  by (simp add: mem_put_def)

text \<open>A read inside the region returns its bytes; outside it never looks like a full read.\<close>

lemma rmtfs_mem_read_eq:
  assumes ok: "shm_ok s" and n: "0 < n" "n < 2 ^ 31" "a + n < 2 ^ 63" and buf: "length buf = n"
  shows "\<exists>ret buf'. rmtfs_mem_read s None (word_of_nat a) buf n = Inr (ret, buf') \<and> length buf' = n \<and>
    (if in_region s a n then ret = int n \<and> buf' = mem_slice (shm_at s a) n (shm_bytes s) else ret < int n)"
proof (cases "mem_base (fst s)")
  case (Some b)
  have b: "shm_bytes s = b" "length b = unat (mem_size (fst s))"
    using ok Some by (simp_all add: shm_bytes_def shm_ok_def)
  show ?thesis
  proof (cases "in_region s a n")
    case True
    then have "unat (word_of_nat a - mem_address (fst s)) = shm_at s a"
      using n by (simp add: in_region_def shm_at_def unat_diff_region)
    moreover have "shm_at s a + n \<le> length b"
      using True b by (auto simp: in_region_def shm_at_def)
    ultimately show ?thesis
      using True Some b buf n rmtfs_mem_ptr_eq [OF ok n(3)]
      by (auto simp: rmtfs_mem_read_def window mem_put_whole)
  next
    case False
    with Some buf rmtfs_mem_ptr_eq [OF ok n(3)] show ?thesis
      by (simp add: rmtfs_mem_read_def)
  qed
next
  case None
  have dev: "drv_ok (snd s)" "drv_size (snd s) = mem_size (fst s)" "shm_bytes s = drv_base (snd s)"
    "unat (mem_address (fst s)) + unat (mem_size (fst s)) < 2 ^ 63"
    using ok None by (auto simp: shm_ok_def shm_bytes_def)
  have off: "sint (word_of_nat a - mem_address (fst s)) = int a - int (unat (mem_address (fst s)))"
    using dev(4) n by (intro sint_diff_region) auto
  show ?thesis
  proof (cases "unat (mem_address (fst s)) \<le> a")
    case True
    let ?d = "mem_slice (shm_at s a) n (drv_base (snd s))"
    have at: "int a - int (unat (mem_address (fst s))) = int (shm_at s a)" "shm_at s a < 2 ^ 63"
      using True n by (auto simp: shm_at_def)
    have rd: "rmtfs_mem_read s None (word_of_nat a) buf n = Inr (int (length ?d), mem_put 0 ?d buf)"
      using None off at drv_read_val [OF dev(1) at(2) n(2)]
      by (simp add: rmtfs_mem_read_def dev_pread_def)
    have "length ?d = n \<longleftrightarrow> in_region s a n"
      using True n dev by (auto simp: in_region_def shm_at_def window drv_ok_def min_def)
    then show ?thesis
      using rd buf dev(3) mem_put_whole [of ?d buf] by (auto simp: window)
  next
    case False
    with off have "sint (word_of_nat a - mem_address (fst s)) < 0"
      by linarith
    with False None buf n show ?thesis
      by (simp add: rmtfs_mem_read_def dev_pread_def in_region_def mem_put_def)
  qed
qed

lemma region_fits:
  "0 < (n :: nat) \<Longrightarrow> b \<le> a \<Longrightarrow> min n (sz - (a - b)) = n \<longleftrightarrow> b \<le> a \<and> a + n \<le> b + sz"
  by (auto simp: min_def)

lemma rmtfs_mem_write_eq:
  assumes ok: "shm_ok s" and n: "d \<noteq> []" "length d < 2 ^ 31" "a + length d < 2 ^ 63"
  shows "\<exists>ret s'. rmtfs_mem_write s None (word_of_nat a) d = Inr (ret, s') \<and> shm_ok s' \<and>
    mem_address (fst s') = mem_address (fst s) \<and> mem_size (fst s') = mem_size (fst s) \<and>
    (if in_region s a (length d)
     then ret = int (length d) \<and> shm_bytes s' = mem_put (shm_at s a) d (shm_bytes s)
     else ret < int (length d))"
proof (cases "mem_base (fst s)")
  case (Some b)
  have b: "shm_bytes s = b" "length b = unat (mem_size (fst s))"
    using ok Some by (simp_all add: shm_bytes_def shm_ok_def)
  show ?thesis
  proof (cases "in_region s a (length d)")
    case True
    then have "unat (word_of_nat a - mem_address (fst s)) = shm_at s a"
      using n by (simp add: in_region_def shm_at_def unat_diff_region)
    moreover have fit: "shm_at s a + length d \<le> length b"
      using True b by (auto simp: in_region_def shm_at_def)
    ultimately have "rmtfs_mem_write s None (word_of_nat a) d =
        Inr (int (length d), ((fst s)\<lparr>mem_base := Some (mem_put (shm_at s a) d b)\<rparr>, snd s))"
      using True Some rmtfs_mem_ptr_eq [OF ok n(3)] by (simp add: rmtfs_mem_write_def)
    with True b fit ok Some show ?thesis
      by (simp add: shm_ok_def shm_bytes_def window)
  next
    case False
    with Some ok rmtfs_mem_ptr_eq [OF ok n(3)] show ?thesis
      by (simp add: rmtfs_mem_write_def)
  qed
next
  case None
  have dev: "drv_ok (snd s)" "drv_size (snd s) = mem_size (fst s)" "shm_bytes s = drv_base (snd s)"
    "unat (mem_address (fst s)) + unat (mem_size (fst s)) < 2 ^ 63"
    using ok None by (auto simp: shm_ok_def shm_bytes_def)
  have off: "sint (word_of_nat a - mem_address (fst s)) = int a - int (unat (mem_address (fst s)))"
    using dev(4) n by (intro sint_diff_region) auto
  show ?thesis
  proof (cases "unat (mem_address (fst s)) \<le> a")
    case True
    let ?n = "min (length d) (unat (drv_size (snd s)) - shm_at s a)"
    let ?dev = "(snd s)\<lparr>drv_base := mem_put (shm_at s a) (take ?n d) (drv_base (snd s))\<rparr>"
    have at: "int a - int (unat (mem_address (fst s))) = int (shm_at s a)" "shm_at s a < 2 ^ 63"
      using True n by (auto simp: shm_at_def)
    have wr: "rmtfs_mem_write s None (word_of_nat a) d = Inr (int ?n, (fst s, ?dev))"
      using None off at drv_write_val [OF dev(1) at(2) n(2)]
      by (simp add: rmtfs_mem_write_def dev_pwrite_def Let_def)
    have "?n = length d \<longleftrightarrow> in_region s a (length d)"
      unfolding in_region_def shm_at_def dev(2) using True n(1) by (intro region_fits) simp_all
    moreover have "drv_ok ?dev"
      using dev(1) by (auto simp: drv_ok_def mem_put_def)
    ultimately show ?thesis
      using wr dev None by (auto simp: shm_ok_def shm_bytes_def drv_ok_def)
  next
    case False
    with off have "sint (word_of_nat a - mem_address (fst s)) < 0"
      by linarith
    with False None ok n show ?thesis
      by (simp add: rmtfs_mem_write_def dev_pwrite_def in_region_def)
  qed
qed

lemma shm_write_sector_eq:
  assumes "shm_ok s" and "length d = SECTOR_SIZE" and "shm_write_sector s a d = Some s'"
  shows "shm_ok s' \<and> in_region s a SECTOR_SIZE \<and> mem_address (fst s') = mem_address (fst s) \<and>
    mem_size (fst s') = mem_size (fst s) \<and> shm_bytes s' = mem_put (shm_at s a) d (shm_bytes s)"
proof -
  have a: "a + length d < 2 ^ 63"
    using assms(2,3) by (auto simp: shm_write_sector_def split: if_splits)
  have "d \<noteq> []" "length d < 2 ^ 31"
    using assms(2) by (auto simp: SECTOR_SIZE_def)
  from rmtfs_mem_write_eq [OF assms(1) this a] assms(2,3) show ?thesis
    by (auto simp: shm_write_sector_def split: if_splits)
qed

lemma shm_at_slices:
  assumes "in_region s a n" and "in_region s b m" and "a + n \<le> b \<or> b + m \<le> a"
  shows "shm_at s a + n \<le> shm_at s b \<or> shm_at s b + m \<le> shm_at s a"
  using assms by (auto simp: in_region_def shm_at_def)

lemma shm_at_fits: "shm_ok s \<Longrightarrow> in_region s a n \<Longrightarrow> shm_at s a + n \<le> length (shm_bytes s)"
  by (auto simp: shm_ok_def in_region_def shm_at_def)

interpretation shm_store: sector_store shm_ok shm_view shm_write_sector
proof
  fix s d a s' b e
  assume w: "shm_ok s" "length d = SECTOR_SIZE" "shm_write_sector s a d = Some s'"
  note eq = shm_write_sector_eq [OF w]
  have reg: "in_region s' b n \<longleftrightarrow> in_region s b n" "shm_at s' b = shm_at s b" for b n
    using eq by (simp_all add: in_region_def shm_at_def)
  show "shm_ok s'"
    using eq by blast
  have fit: "shm_at s a + SECTOR_SIZE \<le> length (shm_bytes s)"
    using shm_at_fits [OF w(1)] eq by blast
  with eq w(2) show "shm_view s' a = Some d"
    by (simp add: shm_view_def reg window)
  show "shm_view s' b = Some e"
    if "b + SECTOR_SIZE \<le> a \<or> a + SECTOR_SIZE \<le> b" "shm_view s b = Some e"
  proof -
    have b: "in_region s b SECTOR_SIZE"
      using that(2) by (auto simp: shm_view_def split: if_splits)
    have "mem_slice (shm_at s b) SECTOR_SIZE (mem_put (shm_at s a) d (shm_bytes s)) =
        mem_slice (shm_at s b) SECTOR_SIZE (shm_bytes s)"
      using shm_at_slices [OF b] eq that(1) fit w(2) by (intro mem_slice_put_disjoint) auto
    with that(2) eq show ?thesis
      by (simp add: shm_view_def reg split: if_splits)
  qed
qed

section \<open>Traces of the open routines\<close>

definition dev_ok :: "dev_env \<Rightarrow> bool" where
  "dev_ok e \<longleftrightarrow> dv_fstat e = None \<and> (\<forall>err. dv_udev e = Some err \<longrightarrow> 0 < err) \<and>
     (\<forall>err. dv_dev e = Some err \<longrightarrow> 0 < err) \<and> (\<forall>err. dv_mmap e = Inl err \<longrightarrow> 0 < err)"

text \<open>At least one of the two device nodes is there, so \<^verbatim>\<open>/dev/mem\<close> is not tried.\<close>

definition open_ok :: "open_env \<Rightarrow> bool" where
  "open_ok e \<longleftrightarrow> dev_ok (oe_rfsa e) \<and> dev_ok (oe_uio e) \<and>
     ((\<forall>m. fst (rmtfs_mem_open_rfsa m (oe_rfsa e)) \<noteq> - ENOENT) \<or>
      (\<forall>m. fst (rmtfs_mem_open_uio m (oe_uio e)) \<noteq> - ENOENT))"

lemma open_rfsa_trace:
  assumes "dev_ok e" and "rmtfs_mem_open_rfsa rmem e = (ret, rmem', t)"
  shows "if ret < 0 then balanced t \<and> mem_base rmem' = mem_base rmem
         else mem_fd rmem' = dv_open e \<and> mem_base rmem' = mem_base rmem \<and> res_run t [] = Some [Fd (dv_open e)]"
  using assms
  by (auto simp: rmtfs_mem_open_rfsa_def rmtfs_mem_open_dev_def dev_ok_def dev_opened_def dev_unwind_def
      balanced_def Let_def split: if_splits option.splits prod.splits sum.splits)

lemma open_uio_trace:
  assumes "dev_ok e" and "rmtfs_mem_open_uio rmem e = (ret, rmem', t)"
  shows "if ret < 0 then balanced t
         else mem_fd rmem' = dv_open e \<and> mem_base rmem' \<noteq> None \<and> res_run t [] = Some [Mapping, Fd (dv_open e)]"
  using assms
  by (auto simp: rmtfs_mem_open_uio_def rmtfs_mem_open_dev_def dev_ok_def dev_opened_def dev_unwind_def
      balanced_def Let_def split: if_splits option.splits prod.splits sum.splits)

definition shm_load :: "open_env \<Rightarrow> int \<times> shm_res revent list \<times> rmtfs_mem option" where
  "shm_load e = (case rmtfs_mem_open e of (None, t) \<Rightarrow> (- 1, t, None) | (Some m, t) \<Rightarrow> (0, t, Some m))"

definition shm_unload :: "rmtfs_mem option \<Rightarrow> shm_res revent list" where
  "shm_unload p = (case p of None \<Rightarrow> [] | Some m \<Rightarrow> rmtfs_mem_close m)"

lemma heap_around: "balanced t \<Longrightarrow> balanced (Acq Heap # t @ [Rel Heap])"
  using balanced_nested [of "[Acq Heap]" "[Rel Heap]" t] by (simp add: balanced_def)

lemma open_close_trace:
  assumes ok: "open_ok e" and run: "rmtfs_mem_open e = (p, t)"
  shows "balanced (t @ shm_unload p)"
proof (cases "oe_malloc e")
  case False
  with run show ?thesis
    by (auto simp: rmtfs_mem_open_def shm_unload_def balanced_def)
next
  case True
  let ?m0 = "\<lparr>mem_address = 0, mem_size = 0, mem_base = None, mem_fd = 0\<rparr>"
  obtain ret m1 t1 where r: "rmtfs_mem_open_rfsa ?m0 (oe_rfsa e) = (ret, m1, t1)"
    by (metis prod_cases3)
  obtain ret2 m2 t2 where u: "rmtfs_mem_open_uio m1 (oe_uio e) = (ret2, m2, t2)"
    by (metis prod_cases3)
  have dev: "dev_ok (oe_rfsa e)" "dev_ok (oe_uio e)" "ret \<noteq> - ENOENT \<or> ret2 \<noteq> - ENOENT"
    using ok r u by (auto simp: open_ok_def) (metis fst_conv)+
  note tr = open_rfsa_trace [OF dev(1) r] and tu = open_uio_trace [OF dev(2) u]
  show ?thesis
  proof (cases "ret < 0")
    case False
    with True run r have "p = Some m1" "t = Acq Heap # t1"
      by (simp_all add: rmtfs_mem_open_def Let_def)
    with False tr show ?thesis
      using res_run_frame [of t1 "[]" "[Fd (dv_open (oe_rfsa e))]" "[Heap]"]
      by (simp add: shm_unload_def rmtfs_mem_close_def balanced_def res_run_append)
  next
    case neg: True
    then have b1: "balanced t1"
      using tr by simp
    show ?thesis
    proof (cases "ret = - ENOENT")
      case other: False
      with neg True run r have "p = None" "t = Acq Heap # t1 @ [Rel Heap]"
        by (simp_all add: rmtfs_mem_open_def Let_def)
      with heap_around [OF b1] show ?thesis
        by (simp add: shm_unload_def)
    next
      case enoent: True
      show ?thesis
      proof (cases "ret2 < 0")
        case True2: True
        with enoent dev(3) \<open>oe_malloc e\<close> run r u have "p = None" "t = Acq Heap # (t1 @ t2) @ [Rel Heap]"
          by (simp_all add: rmtfs_mem_open_def Let_def)
        with heap_around [OF balanced_append [OF b1]] True2 tu show ?thesis
          by (simp add: shm_unload_def)
      next
        case False
        with enoent \<open>oe_malloc e\<close> run r u have "p = Some m2" "t = Acq Heap # t1 @ t2"
          by (simp_all add: rmtfs_mem_open_def Let_def)
        with False tu b1 show ?thesis
          using res_run_frame [of t2 "[]" "[Mapping, Fd (dv_open (oe_uio e))]" "[Heap]"]
          by (simp add: shm_unload_def rmtfs_mem_close_def balanced_def res_run_append
              balanced_frame [unfolded balanced_def])
      qed
    qed
  qed
qed

interpretation shm_cycle: module_lifecycle open_ok shm_load "\<lambda>_. shm_unload"
proof
  fix e ret t s
  assume ok: "open_ok e"
  show "balanced t" if "shm_load e = (ret, t, s)" "ret \<noteq> 0"
    using that open_close_trace [OF ok, of None t]
    by (auto simp: shm_load_def shm_unload_def split: prod.splits option.splits)
  show "balanced (t @ shm_unload s)" if "shm_load e = (0, t, s)"
    using that open_close_trace [OF ok]
    by (auto simp: shm_load_def split: prod.splits option.splits)
qed

section \<open>Properties\<close>

text \<open>
  Whether the memory is mapped or reached through the driver, an access is complete
  exactly when it lies in the region, a complete write is what a read returns afterwards, the
  rest of the region is unchanged, and no access leaves the mapped bytes.
\<close>

theorem shm_write_read:
  assumes ok: "shm_ok s" and d: "d \<noteq> []" "length d < 2 ^ 31" "a + length d < 2 ^ 63"
    and buf: "length buf = length d"
  shows "\<exists>ret s'. rmtfs_mem_write s None (word_of_nat a) d = Inr (ret, s') \<and> shm_ok s' \<and>
    (ret = int (length d) \<longleftrightarrow> in_region s a (length d)) \<and>
    (in_region s a (length d) \<longrightarrow>
       rmtfs_mem_read s' None (word_of_nat a) buf (length d) = Inr (int (length d), d) \<and>
       (\<forall>b n. in_region s b n \<longrightarrow> b + n \<le> a \<or> a + length d \<le> b \<longrightarrow>
          mem_slice (shm_at s b) n (shm_bytes s') = mem_slice (shm_at s b) n (shm_bytes s)))"
proof -
  from rmtfs_mem_write_eq [OF ok d] obtain ret s' where
    w: "rmtfs_mem_write s None (word_of_nat a) d = Inr (ret, s')" and ok': "shm_ok s'"
    and same: "mem_address (fst s') = mem_address (fst s)" "mem_size (fst s') = mem_size (fst s)"
    and ret: "if in_region s a (length d)
       then ret = int (length d) \<and> shm_bytes s' = mem_put (shm_at s a) d (shm_bytes s)
       else ret < int (length d)"
    by blast
  have pos: "0 < length d"
    using d(1) by simp
  have reg: "in_region s' a n \<longleftrightarrow> in_region s a n" "shm_at s' a = shm_at s a" for a n
    using same by (simp_all add: in_region_def shm_at_def)
  have fit: "shm_at s a + length d \<le> length (shm_bytes s)" if "in_region s a (length d)"
    using shm_at_fits [OF ok that] .
  have "rmtfs_mem_read s' None (word_of_nat a) buf (length d) = Inr (int (length d), d)"
    if "in_region s a (length d)"
    using rmtfs_mem_read_eq [OF ok' pos d(2,3) buf] that ret fit [OF that] by (auto simp: reg window)
  moreover have "mem_slice (shm_at s b) n (shm_bytes s') = mem_slice (shm_at s b) n (shm_bytes s)"
    if "in_region s a (length d)" "in_region s b n" "b + n \<le> a \<or> a + length d \<le> b" for b n
    using shm_at_slices [OF that(2,1,3)] ret that(1) fit [OF that(1)]
    by (auto intro!: mem_slice_put_disjoint)
  ultimately show ?thesis
    using w ok' ret by (auto split: if_splits)
qed

definition demo_shm :: shm where
  "demo_shm = (\<lparr>mem_address = 0x85e00000, mem_size = 16, mem_base = None, mem_fd = 4\<rparr>, demo_drv)"

theorem shm_write_read_witness:
  "\<exists>ret s'. rmtfs_mem_write demo_shm None (word_of_nat 0x85e00004) [7, 8] = Inr (ret, s') \<and>
     rmtfs_mem_read s' None (word_of_nat 0x85e00004) [0, 0] 2 = Inr (2, [7, 8])"
proof -
  have ok: "shm_ok demo_shm"
    by (simp add: shm_ok_def shm_bytes_def demo_shm_def demo_drv_def drv_ok_def)
  have "in_region demo_shm 0x85e00004 (length [7 :: u8, 8])"
    by (simp add: in_region_def demo_shm_def)
  then show ?thesis
    using shm_write_read [OF ok, of "[7, 8]" "0x85e00004" "[0, 0]"] by (auto simp: numeral_2_eq_2 [symmetric])
qed

text \<open>
  When one of the two device nodes serves the memory and \<open>fstat\<close> works, any number of
  opens, each followed by a close when it succeeded, releases every descriptor, mapping, udev
  object and heap block exactly once, whatever fails in between.
\<close>

theorem shm_open_close_balanced:
  assumes "list_all open_ok es"
  shows "balanced (concat (map (\<lambda>e. snd (rmtfs_mem_open e) @ shm_unload (fst (rmtfs_mem_open e))) es))"
proof (rule balanced_concat, clarsimp)
  fix e
  assume "e \<in> set es"
  with assms have "open_ok e"
    by (simp add: list_all_iff)
  then have "balanced (shm_cycle.cycle e)"
    by (rule shm_cycle.cycle_balanced)
  then show "balanced (snd (rmtfs_mem_open e) @ shm_unload (fst (rmtfs_mem_open e)))"
    by (auto simp: shm_cycle.cycle_def shm_load_def shm_unload_def split: prod.splits option.splits)
qed

definition demo_dev :: "int \<Rightarrow> dev_env" where
  "demo_dev fd =
     \<lparr>dv_open = fd, dv_fstat = None, dv_udev = None, dv_dev = None,
      dv_attrs = [''phys_addr'' \<mapsto> ''0x85e00000'', ''size'' \<mapsto> ''0x200000''], dv_mmap = Inl EINVAL\<rparr>"

definition demo_open :: "int \<Rightarrow> open_env" where
  "demo_open fd =
     \<lparr>oe_malloc = True, oe_rfsa = demo_dev fd, oe_uio = demo_dev (- ENODEV),
      oe_dt = \<lparr>dt_basefd = - 1, dt_fdopendir = False, dt_nodes = []\<rparr>,
      oe_devmem_open = - 1, oe_devmem_mmap = \<lambda>_ _. Inl EINVAL\<rparr>"

lemma demo_open_ok: "open_ok (demo_open fd)"
  by (simp add: open_ok_def dev_ok_def demo_open_def demo_dev_def rmtfs_mem_open_uio_def rmtfs_mem_open_dev_def)

theorem shm_open_close_balanced_witness:
  "balanced (concat (map (\<lambda>e. snd (rmtfs_mem_open e) @ shm_unload (fst (rmtfs_mem_open e)))
     [demo_open 3, demo_open (- ENOENT)]))"
  by (rule shm_open_close_balanced) (simp add: demo_open_ok)

text \<open>
  The error paths the previous property leaves out release twice: the descriptor of a
  device whose \<open>fstat\<close> fails is closed before and at the error label, and the directory of the
  device-tree search is closed again after \<open>closedir\<close> already did.
\<close>

theorem shm_double_close:
  assumes "0 \<le> dv_open e" and "dv_fstat e = Some err"
    and "0 \<le> dt_basefd d" and "dt_fdopendir d" and "\<forall>n \<in> set (dt_nodes d). dn_dirfd n \<noteq> dt_basefd d"
  shows "res_run (snd (snd (rmtfs_mem_open_rfsa m e))) [] = None \<and>
    res_run (snd (snd (rmtfs_mem_open_uio m e))) [] = None \<and>
    res_run (snd (snd (rmtfs_mem_enumerate m d))) [] = None"
proof -
  have scan: "\<exists>h. res_run (snd (snd (dt_scan m ns))) [Fd b] = Some h \<and> count_list h (Fd b) = 1"
    if "\<forall>n \<in> set ns. dn_dirfd n \<noteq> b" for ns b
    using that
  proof (induction ns)
    case Nil
    then show ?case by simp
  next
    case (Cons n ns)
    then show ?case by (cases "dt_read_reg m (dn_reg n)") auto
  qed
  have twice: "res_run [Rel (Fd b), Rel (Fd b)] h = None" if "count_list h (Fd b) = 1" for h b
    using that by (induction h) (auto split: if_splits simp: count_list_0_iff)
  obtain h where h: "res_run (snd (snd (dt_scan m (dt_nodes d)))) [Fd (dt_basefd d)] = Some h"
    "count_list h (Fd (dt_basefd d)) = 1"
    using scan assms(5) by blast
  have "res_run (snd (snd (rmtfs_mem_enumerate m d))) [] =
      res_run [Rel (Fd (dt_basefd d)), Rel (Fd (dt_basefd d))] h"
    using assms(3,4) h(1)
    by (cases "dt_scan m (dt_nodes d)") (simp add: rmtfs_mem_enumerate_def res_run_append)
  with twice [OF h(2)] show ?thesis
    using assms(1,2)
    by (simp add: rmtfs_mem_open_rfsa_def rmtfs_mem_open_uio_def rmtfs_mem_open_dev_def Let_def)
qed

theorem shm_double_close_witness:
  "res_run (snd (snd (rmtfs_mem_open_rfsa (fst demo_shm) ((demo_dev 3)\<lparr>dv_fstat := Some EBADF\<rparr>)))) [] = None"
  using shm_double_close [of "(demo_dev 3)\<lparr>dv_fstat := Some EBADF\<rparr>" EBADF
      "\<lparr>dt_basefd = 5, dt_fdopendir = True, dt_nodes = []\<rparr>" "fst demo_shm"]
  by (simp add: demo_dev_def)

end
