(* ===== verification/Rmtfs_Rproc.thy ===== *)
theory Rmtfs_Rproc
  imports Resources "HOL-Library.Sublist"
begin

text \<open>
  \<^verbatim>\<open>rproc.c\<close>: finding the control file of the modem's remote processor in sysfs, and starting
  and stopping the modem from detached threads. The directories are lists of entries with
  the answers of the system calls on them; descriptors are traced.
\<close>

section \<open>The search by module alias\<close>

datatype rproc_fd = RFd int

record modalias_entry =
  me_name :: string
  me_rproc_fd :: int
  me_modalias_fd :: int
  me_modalias :: "string option"
  me_state_fd :: int

record modalias_dir =
  md_base_fd :: int
  md_fdopendir :: bool
  md_entries :: "modalias_entry list"

definition dot_entry :: "string \<Rightarrow> bool" where
  "dot_entry name \<longleftrightarrow> name = ''.'' \<or> name = ''..''"

definition strstr :: "string \<Rightarrow> string \<Rightarrow> bool" where
  "strstr s pat = sublist pat s"

text \<open>The alias buffer has room for 255 characters and the terminating zero.\<close>

definition modem_alias :: "string \<Rightarrow> bool" where
  "modem_alias alias \<longleftrightarrow>
     (let s = takeWhile (\<lambda>c. c \<noteq> CHR 0x00) (take 255 alias) in strstr s ''-mpss-pas'' \<or> strstr s ''-mss-pil'')"

definition modalias_step :: "modalias_entry \<Rightarrow> int \<times> rproc_fd revent list" where
  "modalias_step e =
     (if dot_entry (me_name e) then (- 1, [])
      else if me_rproc_fd e < 0 then (- 1, [])
      else if me_modalias_fd e < 0 then (- 1, [Acq (RFd (me_rproc_fd e)), Rel (RFd (me_rproc_fd e))])
      else (let opened = [Acq (RFd (me_rproc_fd e)), Acq (RFd (me_modalias_fd e))];
                closed = [Rel (RFd (me_modalias_fd e)), Rel (RFd (me_rproc_fd e))] in
        case me_modalias e of
          None \<Rightarrow> (- 1, opened @ closed)
        | Some alias \<Rightarrow>
            if \<not> modem_alias alias then (- 1, opened @ closed)
            else if me_state_fd e < 0 then (me_state_fd e, opened @ closed)
            else (me_state_fd e, opened @ [Acq (RFd (me_state_fd e))] @ closed)))"

text \<open>The loop goes on while no state file is open; a refused one leaves its error behind.\<close>

fun modalias_loop :: "int \<Rightarrow> modalias_entry list \<Rightarrow> int \<times> rproc_fd revent list" where
  "modalias_loop state_fd [] = (state_fd, [])"
| "modalias_loop state_fd (e # es) =
     (if \<not> state_fd < 0 then (state_fd, [])
      else (case modalias_step e of (fd, t) \<Rightarrow>
            case modalias_loop fd es of (fd', t') \<Rightarrow> (fd', t @ t')))"

definition rproc_init_by_modalias :: "modalias_dir \<Rightarrow> int \<times> rproc_fd revent list" where
  "rproc_init_by_modalias d =
     (if md_base_fd d < 0 then (- 1, [])
      else if \<not> md_fdopendir d then (- 1, [Acq (RFd (md_base_fd d)), Rel (RFd (md_base_fd d))])
      else (case modalias_loop (- 1) (md_entries d) of (fd, t) \<Rightarrow>
            (fd, [Acq (RFd (md_base_fd d))] @ t @ [Rel (RFd (md_base_fd d)), Rel (RFd (md_base_fd d))])))"

section \<open>The search by driver\<close>

record mss_rproc =
  mr_name :: string
  mr_rproc_fd :: int
  mr_state_fd :: int

record mss_device =
  ms_name :: string
  ms_device_fd :: int
  ms_rproc_base_fd :: int
  ms_fdopendir :: bool
  ms_rprocs :: "mss_rproc list"

record mss_dir =
  mss_base_fd :: int
  mss_fdopendir :: bool
  mss_devices :: "mss_device list"

fun mss_rproc_loop :: "int \<Rightarrow> mss_rproc list \<Rightarrow> int \<times> rproc_fd revent list" where
  "mss_rproc_loop state_fd [] = (state_fd, [])"
| "mss_rproc_loop state_fd (r # rs) =
     (if \<not> state_fd < 0 then (state_fd, [])
      else if dot_entry (mr_name r) \<or> mr_rproc_fd r < 0 then mss_rproc_loop state_fd rs
      else (case mss_rproc_loop (mr_state_fd r) rs of (fd', t') \<Rightarrow>
            (fd', [Acq (RFd (mr_rproc_fd r))] @
                  (if mr_state_fd r < 0 then [] else [Acq (RFd (mr_state_fd r))]) @
                  [Rel (RFd (mr_rproc_fd r))] @ t')))"

text \<open>The stream of the inner directory is not checked before it is read.\<close>

fun mss_device_loop :: "int \<Rightarrow> mss_device list \<Rightarrow> (int \<times> rproc_fd revent list) outcome" where
  "mss_device_loop state_fd [] = Inr (state_fd, [])"
| "mss_device_loop state_fd (d # ds) =
     (if \<not> state_fd < 0 then Inr (state_fd, [])
      else if dot_entry (ms_name d) \<or> ms_device_fd d < 0 then mss_device_loop state_fd ds
      else if ms_rproc_base_fd d < 0
      then bind_outcome (mss_device_loop state_fd ds)
             (\<lambda>(fd, t). Inr (fd, [Acq (RFd (ms_device_fd d)), Rel (RFd (ms_device_fd d))] @ t))
      else if \<not> ms_fdopendir d then Inl Null_deref
      else (case mss_rproc_loop state_fd (ms_rprocs d) of (fd, t) \<Rightarrow>
            bind_outcome (mss_device_loop fd ds)
              (\<lambda>(fd', t'). Inr (fd',
                 [Acq (RFd (ms_device_fd d)), Acq (RFd (ms_rproc_base_fd d))] @ t @
                 [Rel (RFd (ms_rproc_base_fd d)), Rel (RFd (ms_rproc_base_fd d)), Rel (RFd (ms_device_fd d))] @ t'))))"

definition rproc_init_by_mss_driver :: "mss_dir \<Rightarrow> (int \<times> rproc_fd revent list) outcome" where
  "rproc_init_by_mss_driver d =
     (if mss_base_fd d < 0 then Inr (- 1, [])
      else if \<not> mss_fdopendir d then Inr (- 1, [Acq (RFd (mss_base_fd d)), Rel (RFd (mss_base_fd d))])
      else bind_outcome (mss_device_loop (- 1) (mss_devices d))
             (\<lambda>(fd, t). Inr (fd, [Acq (RFd (mss_base_fd d))] @ t @
                               [Rel (RFd (mss_base_fd d)), Rel (RFd (mss_base_fd d))])))"

section \<open>Initialisation, start and stop\<close>

record rproc =
  rproc_state_fd :: int
  rproc_pipe :: "int \<times> int"

text \<open>\<open>pipe\<close> gives the two ends or fails.\<close>

definition rproc_init ::
  "modalias_dir \<Rightarrow> mss_dir \<Rightarrow> (int \<times> int) option \<Rightarrow> rproc \<Rightarrow> (int \<times> rproc \<times> rproc_fd revent list) outcome" where
  "rproc_init md mss pipe rp =
     (case rproc_init_by_modalias md of (fd1, t1) \<Rightarrow>
      bind_outcome (if fd1 < 0 then rproc_init_by_mss_driver mss else Inr (fd1, []))
        (\<lambda>(state_fd, t2).
           if state_fd < 0 then Inr (- 1, rp, t1 @ t2)
           else case pipe of
                  None \<Rightarrow> Inr (- 1, rp, t1 @ t2 @ [Rel (RFd state_fd)])
                | Some (r, w) \<Rightarrow>
                    Inr (r, rp\<lparr>rproc_state_fd := state_fd, rproc_pipe := (r, w)\<rparr>,
                         t1 @ t2 @ [Acq (RFd r), Acq (RFd w)])))"

text \<open>What a thread does, in order.\<close>

datatype rproc_action = Write_state int string | Signal_loop int | Complain string | Exit_process

text \<open>\<open>pwrite\<close> of the command: the number of bytes written, or a negative number.\<close>

definition do_rproc_start :: "rproc \<Rightarrow> int \<Rightarrow> rproc_action list" where
  "do_rproc_start rp wrote =
     [Write_state (rproc_state_fd rp) ''start''] @
     (if wrote < 4 then [Complain ''failed to update start state''] else [])"

definition do_rproc_stop :: "rproc \<Rightarrow> int \<Rightarrow> int \<Rightarrow> rproc_action list" where
  "do_rproc_stop rp wrote signalled =
     [Write_state (rproc_state_fd rp) ''stop''] @
     (if wrote < 4 then [Complain ''failed to update stop state''] else []) @
     [Signal_loop (snd (rproc_pipe rp))] @
     (if signalled \<noteq> 1 then [Complain ''failed to signal event loop about exit'', Exit_process] else [])"

text \<open>The thread runs when \<open>pthread_create\<close> returns zero.\<close>

definition rproc_start :: "rproc \<Rightarrow> int \<Rightarrow> int \<Rightarrow> int \<times> rproc_action list" where
  "rproc_start rp create_ret wrote =
     (create_ret, if create_ret = 0 then do_rproc_start rp wrote else [])"

definition rproc_stop :: "rproc \<Rightarrow> int \<Rightarrow> int \<Rightarrow> int \<Rightarrow> int \<times> rproc_action list" where
  "rproc_stop rp create_ret wrote signalled =
     (create_ret, if create_ret = 0 then do_rproc_stop rp wrote signalled else [])"

section \<open>Property\<close>

definition usable_entry :: "modalias_entry \<Rightarrow> bool" where
  "usable_entry e \<longleftrightarrow> \<not> dot_entry (me_name e) \<and> 0 \<le> me_rproc_fd e \<and> 0 \<le> me_modalias_fd e \<and>
     (case me_modalias e of None \<Rightarrow> False | Some a \<Rightarrow> modem_alias a) \<and> 0 \<le> me_state_fd e"

lemma modalias_step_fd:
  "(if usable_entry e then fst (modalias_step e) = me_state_fd e else fst (modalias_step e) < 0)"
  by (auto simp: modalias_step_def usable_entry_def Let_def split: option.splits)

lemma modalias_step_trace:
  "res_run (snd (modalias_step e)) h = Some ((if usable_entry e then [RFd (me_state_fd e)] else []) @ h)"
proof (cases "me_modalias e")
  case None
  then show ?thesis
    by (simp add: modalias_step_def usable_entry_def Let_def)
next
  case (Some a)
  then show ?thesis
    by (cases "me_rproc_fd e = me_state_fd e"; cases "me_modalias_fd e = me_state_fd e";
        cases "me_modalias_fd e = me_rproc_fd e")
      (simp_all add: modalias_step_def usable_entry_def Let_def)
qed

lemma modalias_loop_done: "\<not> fd < 0 \<Longrightarrow> modalias_loop fd es = (fd, [])"
  by (cases es) simp_all

lemma modalias_loop_spec:
  assumes "fd < 0"
  shows "case find usable_entry es of
      Some e \<Rightarrow> fst (modalias_loop fd es) = me_state_fd e \<and>
        res_run (snd (modalias_loop fd es)) h = Some (RFd (me_state_fd e) # h)
    | None \<Rightarrow> fst (modalias_loop fd es) < 0 \<and> res_run (snd (modalias_loop fd es)) h = Some h"
  using assms
proof (induction es arbitrary: fd)
  case Nil
  then show ?case by simp
next
  case (Cons e es)
  obtain fd1 t1 where s: "modalias_step e = (fd1, t1)"
    by fastforce
  note fd = modalias_step_fd [of e] and tr = modalias_step_trace [of e h]
  show ?case
  proof (cases "usable_entry e")
    case True
    then have "\<not> fd1 < 0"
      using fd s by (auto simp: usable_entry_def)
    with True Cons.prems s fd tr show ?thesis
      by (simp add: modalias_loop_done)
  next
    case False
    with fd s have "fd1 < 0"
      by simp
    from Cons.IH [OF this] False Cons.prems s fd tr show ?thesis
      by (cases "modalias_loop fd1 es") (auto simp: res_run_append split: option.splits)
  qed
qed

text \<open>
  The search by alias opens the state file of the first entry of the class directory
  that is a modem and whose files can be opened, keeps exactly that descriptor of the
  entries, and fails when there is no such entry.
\<close>

theorem rproc_modalias_first:
  assumes "0 \<le> md_base_fd d" and "md_fdopendir d"
  shows "case find usable_entry (md_entries d) of
      Some e \<Rightarrow> fst (rproc_init_by_modalias d) = me_state_fd e \<and>
        res_run (snd (modalias_loop (- 1) (md_entries d))) [] = Some [RFd (me_state_fd e)]
    | None \<Rightarrow> fst (rproc_init_by_modalias d) < 0 \<and>
        res_run (snd (modalias_loop (- 1) (md_entries d))) [] = Some []"
  using assms modalias_loop_spec [of "- 1" "md_entries d" "[]"]
  by (cases "modalias_loop (- 1) (md_entries d)")
    (auto simp: rproc_init_by_modalias_def split: option.splits)

definition demo_entry :: "string \<Rightarrow> string \<Rightarrow> int \<Rightarrow> modalias_entry" where
  "demo_entry name alias fd =
     \<lparr>me_name = name, me_rproc_fd = 10, me_modalias_fd = 11, me_modalias = Some alias, me_state_fd = fd\<rparr>"

theorem rproc_modalias_first_witness:
  "fst (rproc_init_by_modalias \<lparr>md_base_fd = 9, md_fdopendir = True,
     md_entries = [demo_entry ''.'' '''' 1, demo_entry ''remoteproc0'' ''of:qcom,sc8180x-adsp-pas'' 12,
       demo_entry ''remoteproc1'' ''of:qcom,sc8180x-mpss-pas'' 13]\<rparr>) = 13"
proof -
  let ?d = "\<lparr>md_base_fd = 9, md_fdopendir = True,
     md_entries = [demo_entry ''.'' '''' 1, demo_entry ''remoteproc0'' ''of:qcom,sc8180x-adsp-pas'' 12,
       demo_entry ''remoteproc1'' ''of:qcom,sc8180x-mpss-pas'' 13]\<rparr>"
  have "find usable_entry (md_entries ?d) = Some (demo_entry ''remoteproc1'' ''of:qcom,sc8180x-mpss-pas'' 13)"
    by code_simp
  with rproc_modalias_first [of ?d] show ?thesis
    by (simp add: demo_entry_def)
qed

end
