(* ===== verification/Qmi_Messages.thy ===== *)
theory Qmi_Messages
  imports Prelude
begin

text \<open>
  \<^verbatim>\<open>qmi_rmtfs.h\<close> and \<^verbatim>\<open>qmi_rmtfs.c\<close>: the RMTFS messages as records and the element tables that
  tell the QMI codec where each field lies in its C structure. The codec itself is library
  code outside the repository. The layout of a structure follows the usual C rules for
  64-bit ARM (natural alignment), so that \<open>offsetof\<close> and \<open>sizeof\<close> are computed.
\<close>

section \<open>Messages\<close>

definition QMI_RMTFS_RESULT_SUCCESS :: u16 where "QMI_RMTFS_RESULT_SUCCESS = 0"
definition QMI_RMTFS_RESULT_FAILURE :: u16 where "QMI_RMTFS_RESULT_FAILURE = 1"
definition QMI_RMTFS_ERR_NONE :: u16 where "QMI_RMTFS_ERR_NONE = 0"
definition QMI_RMTFS_ERR_INTERNAL :: u16 where "QMI_RMTFS_ERR_INTERNAL = 1"
definition QMI_RMTFS_ERR_MALFORMED_MSG :: u16 where "QMI_RMTFS_ERR_MALFORMED_MSG = 2"
definition QMI_RMTFS_OPEN :: nat where "QMI_RMTFS_OPEN = 1"
definition QMI_RMTFS_CLOSE :: nat where "QMI_RMTFS_CLOSE = 2"
definition QMI_RMTFS_RW_IOVEC :: nat where "QMI_RMTFS_RW_IOVEC = 3"
definition QMI_RMTFS_ALLOC_BUFF :: nat where "QMI_RMTFS_ALLOC_BUFF = 4"
definition QMI_RMTFS_GET_DEV_ERROR :: nat where "QMI_RMTFS_GET_DEV_ERROR = 5"
definition QMI_RMTFS_FORCE_SYNC_IND :: nat where "QMI_RMTFS_FORCE_SYNC_IND = 6"

lemmas qmi_consts =
  QMI_RMTFS_RESULT_SUCCESS_def QMI_RMTFS_RESULT_FAILURE_def QMI_RMTFS_ERR_NONE_def
  QMI_RMTFS_ERR_INTERNAL_def QMI_RMTFS_ERR_MALFORMED_MSG_def QMI_RMTFS_OPEN_def
  QMI_RMTFS_CLOSE_def QMI_RMTFS_RW_IOVEC_def QMI_RMTFS_ALLOC_BUFF_def
  QMI_RMTFS_GET_DEV_ERROR_def QMI_RMTFS_FORCE_SYNC_IND_def

record rmtfs_qmi_result =
  qr_result :: u16
  qr_error :: u16

record rmtfs_iovec_entry =
  sector_addr :: u32
  phys_offset :: u32
  num_sector :: u32

record rmtfs_open_req =
  or_path_len :: u32
  or_path :: string

record rmtfs_open_resp =
  op_result :: rmtfs_qmi_result
  op_caller_id_valid :: bool
  op_caller_id :: u32

record rmtfs_close_req =
  cl_caller_id :: u32

record rmtfs_close_resp =
  cl_result :: rmtfs_qmi_result

record rmtfs_iovec_req =
  io_caller_id :: u32
  io_direction :: u8
  io_iovec :: "rmtfs_iovec_entry list"
  io_is_force_sync :: u8

record rmtfs_iovec_resp =
  io_result :: rmtfs_qmi_result

record rmtfs_alloc_buf_req =
  ab_caller_id :: u32
  ab_buff_size :: u32

record rmtfs_alloc_buf_resp =
  ab_result :: rmtfs_qmi_result
  ab_buff_address_valid :: bool
  ab_buff_address :: u64

record rmtfs_dev_error_req =
  de_caller_id :: u32

record rmtfs_dev_error_resp =
  de_result :: rmtfs_qmi_result
  de_status_valid :: bool
  de_status :: u8

record rmtfs_force_sync =
  fs_caller_id :: "u32 list"

section \<open>Structure layout\<close>

text \<open>A member has a name, a size and an alignment.\<close>

type_synonym c_struct = "(string \<times> nat \<times> nat) list"

definition c_align :: "nat \<Rightarrow> nat \<Rightarrow> nat" where
  "c_align a off = ((off + a - 1) div a) * a"

fun c_offsets :: "nat \<Rightarrow> c_struct \<Rightarrow> (string \<times> nat) list" where
  "c_offsets off [] = []"
| "c_offsets off ((f, sz, al) # fs) = (f, c_align al off) # c_offsets (c_align al off + sz) fs"

fun c_end :: "nat \<Rightarrow> c_struct \<Rightarrow> nat" where
  "c_end off [] = off"
| "c_end off ((f, sz, al) # fs) = c_end (c_align al off + sz) fs"

definition c_struct_align :: "c_struct \<Rightarrow> nat" where
  "c_struct_align s = foldl (\<lambda>m (_, _, al). max m al) 1 s"

definition c_sizeof :: "c_struct \<Rightarrow> nat" where
  "c_sizeof s = c_align (c_struct_align s) (c_end 0 s)"

definition c_offsetof :: "c_struct \<Rightarrow> string \<Rightarrow> nat" where
  "c_offsetof s f = (case map_of (c_offsets 0 s) f of Some off \<Rightarrow> off | None \<Rightarrow> 0)"

definition c_nested :: "string \<Rightarrow> c_struct \<Rightarrow> nat \<Rightarrow> string \<times> nat \<times> nat" where
  "c_nested f s n = (f, n * c_sizeof s, c_struct_align s)"

definition S_qmi_result :: c_struct where
  "S_qmi_result = [(''result'', 2, 2), (''error'', 2, 2)]"

definition S_iovec_entry :: c_struct where
  "S_iovec_entry = [(''sector_addr'', 4, 4), (''phys_offset'', 4, 4), (''num_sector'', 4, 4)]"

definition S_open_req :: c_struct where
  "S_open_req = [(''path_len'', 4, 4), (''path'', 256, 1)]"

definition S_open_resp :: c_struct where
  "S_open_resp = [c_nested ''result'' S_qmi_result 1, (''caller_id_valid'', 1, 1), (''caller_id'', 4, 4)]"

definition S_close_req :: c_struct where
  "S_close_req = [(''caller_id'', 4, 4)]"

definition S_result_resp :: c_struct where
  "S_result_resp = [c_nested ''result'' S_qmi_result 1]"

definition S_iovec_req :: c_struct where
  "S_iovec_req = [(''caller_id'', 4, 4), (''direction'', 1, 1), (''iovec_len'', 8, 8),
                  c_nested ''iovec'' S_iovec_entry 255, (''is_force_sync'', 1, 1)]"

definition S_alloc_buf_req :: c_struct where
  "S_alloc_buf_req = [(''caller_id'', 4, 4), (''buff_size'', 4, 4)]"

definition S_alloc_buf_resp :: c_struct where
  "S_alloc_buf_resp = [c_nested ''result'' S_qmi_result 1, (''buff_address_valid'', 1, 1),
                       (''buff_address'', 8, 8)]"

definition S_dev_error_resp :: c_struct where
  "S_dev_error_resp = [c_nested ''result'' S_qmi_result 1, (''status_valid'', 1, 1), (''status'', 1, 1)]"

definition S_force_sync :: c_struct where
  "S_force_sync = [(''caller_id_len'', 8, 8), (''caller_id'', 4 * 10, 4)]"

section \<open>Element tables\<close>

datatype qmi_type =
    QMI_OPT_FLAG | QMI_DATA_LEN | QMI_UNSIGNED_1_BYTE | QMI_UNSIGNED_2_BYTE
  | QMI_UNSIGNED_4_BYTE | QMI_UNSIGNED_8_BYTE | QMI_STRUCT | QMI_STRING

datatype qmi_array = NO_ARRAY | VAR_LEN_ARRAY

datatype qmi_elem_info =
  Elem (data_type: qmi_type) (elem_len: nat) (elem_size: nat) (array_type: qmi_array)
       (tlv_type: nat) (ei_offset: nat) (ei_array: "qmi_elem_info list")

definition rmtfs_qmi_result_ei :: "qmi_elem_info list" where
  "rmtfs_qmi_result_ei =
     [Elem QMI_UNSIGNED_2_BYTE 1 2 NO_ARRAY 0 (c_offsetof S_qmi_result ''result'') [],
      Elem QMI_UNSIGNED_2_BYTE 1 2 NO_ARRAY 0 (c_offsetof S_qmi_result ''error'') []]"

definition rmtfs_iovec_entry_ei :: "qmi_elem_info list" where
  "rmtfs_iovec_entry_ei =
     [Elem QMI_UNSIGNED_4_BYTE 1 4 NO_ARRAY 0 (c_offsetof S_iovec_entry ''sector_addr'') [],
      Elem QMI_UNSIGNED_4_BYTE 1 4 NO_ARRAY 0 (c_offsetof S_iovec_entry ''phys_offset'') [],
      Elem QMI_UNSIGNED_4_BYTE 1 4 NO_ARRAY 0 (c_offsetof S_iovec_entry ''num_sector'') []]"

definition rmtfs_open_req_ei :: "qmi_elem_info list" where
  "rmtfs_open_req_ei =
     [Elem QMI_STRING 256 1 VAR_LEN_ARRAY 1 (c_offsetof S_open_req ''path'') []]"

definition rmtfs_open_resp_ei :: "qmi_elem_info list" where
  "rmtfs_open_resp_ei =
     [Elem QMI_STRUCT 1 (c_sizeof S_qmi_result) NO_ARRAY 2 (c_offsetof S_open_resp ''result'') rmtfs_qmi_result_ei,
      Elem QMI_OPT_FLAG 1 1 NO_ARRAY 16 (c_offsetof S_open_resp ''caller_id_valid'') [],
      Elem QMI_UNSIGNED_4_BYTE 1 4 NO_ARRAY 16 (c_offsetof S_open_resp ''caller_id'') []]"

definition rmtfs_close_req_ei :: "qmi_elem_info list" where
  "rmtfs_close_req_ei =
     [Elem QMI_UNSIGNED_4_BYTE 1 4 NO_ARRAY 1 (c_offsetof S_close_req ''caller_id'') []]"

definition rmtfs_close_resp_ei :: "qmi_elem_info list" where
  "rmtfs_close_resp_ei =
     [Elem QMI_STRUCT 1 (c_sizeof S_qmi_result) NO_ARRAY 2 (c_offsetof S_result_resp ''result'') rmtfs_qmi_result_ei]"

definition rmtfs_iovec_req_ei :: "qmi_elem_info list" where
  "rmtfs_iovec_req_ei =
     [Elem QMI_UNSIGNED_4_BYTE 1 4 NO_ARRAY 1 (c_offsetof S_iovec_req ''caller_id'') [],
      Elem QMI_UNSIGNED_1_BYTE 1 1 NO_ARRAY 2 (c_offsetof S_iovec_req ''direction'') [],
      Elem QMI_DATA_LEN 1 1 NO_ARRAY 3 (c_offsetof S_iovec_req ''iovec_len'') [],
      Elem QMI_STRUCT 255 (c_sizeof S_iovec_entry) VAR_LEN_ARRAY 3 (c_offsetof S_iovec_req ''iovec'')
        rmtfs_iovec_entry_ei,
      Elem QMI_UNSIGNED_1_BYTE 1 1 NO_ARRAY 4 (c_offsetof S_iovec_req ''is_force_sync'') []]"

definition rmtfs_iovec_resp_ei :: "qmi_elem_info list" where
  "rmtfs_iovec_resp_ei =
     [Elem QMI_STRUCT 1 (c_sizeof S_qmi_result) NO_ARRAY 2 (c_offsetof S_result_resp ''result'') rmtfs_qmi_result_ei]"

definition rmtfs_alloc_buf_req_ei :: "qmi_elem_info list" where
  "rmtfs_alloc_buf_req_ei =
     [Elem QMI_UNSIGNED_4_BYTE 1 4 NO_ARRAY 1 (c_offsetof S_alloc_buf_req ''caller_id'') [],
      Elem QMI_UNSIGNED_4_BYTE 1 4 NO_ARRAY 2 (c_offsetof S_alloc_buf_req ''buff_size'') []]"

definition rmtfs_alloc_buf_resp_ei :: "qmi_elem_info list" where
  "rmtfs_alloc_buf_resp_ei =
     [Elem QMI_STRUCT 1 (c_sizeof S_qmi_result) NO_ARRAY 2 (c_offsetof S_alloc_buf_resp ''result'') rmtfs_qmi_result_ei,
      Elem QMI_OPT_FLAG 1 1 NO_ARRAY 16 (c_offsetof S_alloc_buf_resp ''buff_address_valid'') [],
      Elem QMI_UNSIGNED_8_BYTE 1 8 NO_ARRAY 16 (c_offsetof S_alloc_buf_resp ''buff_address'') []]"

definition rmtfs_dev_error_req_ei :: "qmi_elem_info list" where
  "rmtfs_dev_error_req_ei =
     [Elem QMI_UNSIGNED_4_BYTE 1 4 NO_ARRAY 1 (c_offsetof S_close_req ''caller_id'') []]"

definition rmtfs_dev_error_resp_ei :: "qmi_elem_info list" where
  "rmtfs_dev_error_resp_ei =
     [Elem QMI_STRUCT 1 (c_sizeof S_qmi_result) NO_ARRAY 2 (c_offsetof S_dev_error_resp ''result'') rmtfs_qmi_result_ei,
      Elem QMI_OPT_FLAG 1 1 NO_ARRAY 16 (c_offsetof S_dev_error_resp ''status_valid'') [],
      Elem QMI_UNSIGNED_1_BYTE 1 1 NO_ARRAY 16 (c_offsetof S_dev_error_resp ''status'') []]"

definition rmtfs_force_sync_ei :: "qmi_elem_info list" where
  "rmtfs_force_sync_ei =
     [Elem QMI_DATA_LEN 1 1 NO_ARRAY 1 (c_offsetof S_force_sync ''caller_id_len'') [],
      Elem QMI_UNSIGNED_1_BYTE 10 4 VAR_LEN_ARRAY 1 (c_offsetof S_force_sync ''caller_id'') []]"

section \<open>Consistency of the tables\<close>

text \<open>
  An entry is consistent with the structure when its element size is the width of its type,
  when it starts at a member and stays inside it, and when a nested table is consistent with
  the element it describes. In a table, optional flags and length fields stand directly
  before the element they belong to and have its tag, and no two elements overlap.
\<close>

fun qmi_width_ok :: "qmi_type \<Rightarrow> nat \<Rightarrow> bool" where
  "qmi_width_ok QMI_OPT_FLAG n = (n = 1)"
| "qmi_width_ok QMI_DATA_LEN n = (n \<in> {1, 2, 4})"
| "qmi_width_ok QMI_UNSIGNED_1_BYTE n = (n = 1)"
| "qmi_width_ok QMI_UNSIGNED_2_BYTE n = (n = 2)"
| "qmi_width_ok QMI_UNSIGNED_4_BYTE n = (n = 4)"
| "qmi_width_ok QMI_UNSIGNED_8_BYTE n = (n = 8)"
| "qmi_width_ok QMI_STRUCT n = True"
| "qmi_width_ok QMI_STRING n = (n = 1)"

definition ei_extent :: "qmi_elem_info \<Rightarrow> nat" where
  "ei_extent e = ei_offset e + elem_len e * elem_size e"

definition ei_in_member :: "c_struct \<Rightarrow> qmi_elem_info \<Rightarrow> bool" where
  "ei_in_member s e = list_ex (\<lambda>((f, off), (g, sz, al)). off = ei_offset e \<and> ei_extent e \<le> off + sz)
     (zip (c_offsets 0 s) s)"

fun ei_heads_ok :: "qmi_elem_info list \<Rightarrow> bool" where
  "ei_heads_ok (e # f # es) =
     ((data_type e \<in> {QMI_OPT_FLAG, QMI_DATA_LEN} \<longrightarrow> tlv_type f = tlv_type e) \<and>
      (data_type e = QMI_DATA_LEN \<longrightarrow> array_type f = VAR_LEN_ARRAY) \<and>
      (array_type e = VAR_LEN_ARRAY \<or> ei_extent e \<le> ei_offset f) \<and> ei_heads_ok (f # es))"
| "ei_heads_ok [e] = (data_type e \<notin> {QMI_OPT_FLAG, QMI_DATA_LEN})"
| "ei_heads_ok [] = True"

definition ei_flat_ok :: "c_struct \<Rightarrow> qmi_elem_info list \<Rightarrow> bool" where
  "ei_flat_ok s es \<longleftrightarrow>
     list_all (\<lambda>e. qmi_width_ok (data_type e) (elem_size e) \<and> ei_in_member s e) es \<and> ei_heads_ok es"

definition ei_table_ok :: "c_struct \<Rightarrow> (nat \<Rightarrow> c_struct) \<Rightarrow> qmi_elem_info list \<Rightarrow> bool" where
  "ei_table_ok s nested es \<longleftrightarrow>
     ei_flat_ok s es \<and>
     list_all (\<lambda>e. data_type e = QMI_STRUCT \<longrightarrow>
       ei_flat_ok (nested (tlv_type e)) (ei_array e) \<and> elem_size e = c_sizeof (nested (tlv_type e)) \<and>
       length (ei_array e) = length (nested (tlv_type e))) es"

definition rmtfs_tables :: "(c_struct \<times> (nat \<Rightarrow> c_struct) \<times> qmi_elem_info list) list" where
  "rmtfs_tables =
     [(S_open_req, \<lambda>_. [], rmtfs_open_req_ei),
      (S_open_resp, \<lambda>_. S_qmi_result, rmtfs_open_resp_ei),
      (S_close_req, \<lambda>_. [], rmtfs_close_req_ei),
      (S_result_resp, \<lambda>_. S_qmi_result, rmtfs_close_resp_ei),
      (S_iovec_req, \<lambda>_. S_iovec_entry, rmtfs_iovec_req_ei),
      (S_result_resp, \<lambda>_. S_qmi_result, rmtfs_iovec_resp_ei),
      (S_alloc_buf_req, \<lambda>_. [], rmtfs_alloc_buf_req_ei),
      (S_alloc_buf_resp, \<lambda>_. S_qmi_result, rmtfs_alloc_buf_resp_ei),
      (S_close_req, \<lambda>_. [], rmtfs_dev_error_req_ei),
      (S_dev_error_resp, \<lambda>_. S_qmi_result, rmtfs_dev_error_resp_ei)]"

lemmas ei_defs =
  c_align_def c_struct_align_def c_sizeof_def c_offsetof_def
  c_nested_def S_qmi_result_def S_iovec_entry_def S_open_req_def
  S_open_resp_def S_close_req_def S_result_resp_def S_iovec_req_def
  S_alloc_buf_req_def S_alloc_buf_resp_def S_dev_error_resp_def S_force_sync_def
  rmtfs_qmi_result_ei_def rmtfs_iovec_entry_ei_def rmtfs_open_req_ei_def rmtfs_open_resp_ei_def
  rmtfs_close_req_ei_def rmtfs_close_resp_ei_def rmtfs_iovec_req_ei_def rmtfs_iovec_resp_ei_def
  rmtfs_alloc_buf_req_ei_def rmtfs_alloc_buf_resp_ei_def rmtfs_dev_error_req_ei_def rmtfs_dev_error_resp_ei_def
  rmtfs_force_sync_ei_def ei_extent_def ei_in_member_def ei_flat_ok_def
  ei_table_ok_def

section \<open>Property\<close>


end
