(* ===== verification/Rmtfs_Daemon.thy ===== *)
theory Rmtfs_Daemon
  imports Rmtfs_Storage Rmtfs_Sharedmem Rmtfs_Rproc Qmi_Messages
begin

text \<open>
  \<^verbatim>\<open>rmtfs.c\<close>: the request handlers of the daemon, the packet dispatch, the event loop and
  \<open>main\<close>. The QRTR and QMI codec is library code: it is the record \<open>codec\<close> of functions that
  the handlers call. A decoder returns the request or a negative number, and the transaction
  id when it wrote one; reading the id when it did not is \<open>Uninit_read\<close>.
\<close>

section \<open>Packets and codec\<close>

datatype qrtr_type = QRTR_TYPE_DATA | QRTR_TYPE_BYE | QRTR_TYPE_DEL_CLIENT | QRTR_TYPE_OTHER

record qrtr_packet =
  pkt_type :: qrtr_type
  pkt_node :: u32
  pkt_port :: u32
  pkt_data :: bytes

type_synonym 'a decoded = "(int + 'a) \<times> u32 option"

record codec =
  qrtr_decode :: "bytes \<Rightarrow> u32 \<times> u32 \<Rightarrow> int + (int \<times> qrtr_packet)"
  qmi_decode_header :: "qrtr_packet \<Rightarrow> int + nat"
  decode_open :: "qrtr_packet \<Rightarrow> rmtfs_open_req decoded"
  decode_close :: "qrtr_packet \<Rightarrow> rmtfs_close_req decoded"
  decode_iovec :: "qrtr_packet \<Rightarrow> rmtfs_iovec_req decoded"
  decode_alloc :: "qrtr_packet \<Rightarrow> rmtfs_alloc_buf_req decoded"
  decode_dev_error :: "qrtr_packet \<Rightarrow> rmtfs_dev_error_req decoded"
  encode_open :: "u32 \<Rightarrow> rmtfs_open_resp \<Rightarrow> int + bytes"
  encode_close :: "u32 \<Rightarrow> rmtfs_close_resp \<Rightarrow> int + bytes"
  encode_iovec :: "u32 \<Rightarrow> rmtfs_iovec_resp \<Rightarrow> int + bytes"
  encode_alloc :: "u32 \<Rightarrow> rmtfs_alloc_buf_resp \<Rightarrow> int + bytes"
  encode_dev_error :: "u32 \<Rightarrow> rmtfs_dev_error_resp \<Rightarrow> int + bytes"

text \<open>
  The state of the process: the storage, the operating system, the shared memory, and the
  results of the user copies on the device (by the number of the access).
\<close>

record daemon =
  d_storage :: storage
  d_os :: os
  d_shm :: shm
  d_ucopy :: "nat \<Rightarrow> nat option"
  d_access :: nat
  d_verbose :: bool

text \<open>A response that was handed to the socket: receiver and bytes.\<close>

type_synonym sent = "(u32 \<times> u32 \<times> bytes) list"

definition qmi_result_error :: "rmtfs_qmi_result \<Rightarrow> u16 \<Rightarrow> rmtfs_qmi_result" where
  "qmi_result_error r error =
     (if qr_result r = QMI_RMTFS_RESULT_FAILURE then r
      else \<lparr>qr_result = QMI_RMTFS_RESULT_FAILURE, qr_error = error\<rparr>)"

definition qmi_result_zero :: rmtfs_qmi_result where
  "qmi_result_zero = \<lparr>qr_result = 0, qr_error = 0\<rparr>"

text \<open>The end of every handler: encode with the transaction id, then send to the requester.\<close>

definition respond ::
  "(u32 \<Rightarrow> 'resp \<Rightarrow> int + bytes) \<Rightarrow> u32 option \<Rightarrow> 'resp \<Rightarrow> qrtr_packet \<Rightarrow> daemon \<Rightarrow> (daemon \<times> sent) outcome" where
  "respond encode txn resp pkt d =
     (case txn of
        None \<Rightarrow> Inl Uninit_read
      | Some t \<Rightarrow>
          (case encode t resp of
             Inl _ \<Rightarrow> Inr (d, [])
           | Inr data \<Rightarrow> Inr (d, [(pkt_node pkt, pkt_port pkt, data)])))"

section \<open>Handlers\<close>

definition rmtfs_open :: "codec \<Rightarrow> daemon \<Rightarrow> qrtr_packet \<Rightarrow> (daemon \<times> sent) outcome" where
  "rmtfs_open c d pkt =
     (let resp = \<lparr>op_result = qmi_result_zero, op_caller_id_valid = False, op_caller_id = 0\<rparr> in
      case decode_open c pkt of
        (Inl _, txn) \<Rightarrow>
          respond (encode_open c) txn
            (resp\<lparr>op_result := qmi_result_error (op_result resp) QMI_RMTFS_ERR_MALFORMED_MSG\<rparr>) pkt d
      | (Inr req, txn) \<Rightarrow>
          (case storage_open (d_storage d) (d_os d) (pkt_node pkt) (or_path req) of
             (None, st, os) \<Rightarrow>
               respond (encode_open c) txn
                 (resp\<lparr>op_result := qmi_result_error (op_result resp) QMI_RMTFS_ERR_INTERNAL\<rparr>) pkt
                 (d\<lparr>d_storage := st, d_os := os\<rparr>)
           | (Some i, st, os) \<Rightarrow>
               respond (encode_open c) txn
                 (resp\<lparr>op_caller_id := storage_get_caller_id st i, op_caller_id_valid := True\<rparr>) pkt
                 (d\<lparr>d_storage := st, d_os := os\<rparr>)))"

text \<open>In verbose mode the message prints the caller id with a string conversion.\<close>

definition rmtfs_close :: "codec \<Rightarrow> daemon \<Rightarrow> qrtr_packet \<Rightarrow> (daemon \<times> sent) outcome" where
  "rmtfs_close c d pkt =
     (let resp = \<lparr>cl_result = qmi_result_zero\<rparr>;
          finish = (\<lambda>txn resp d'. if d_verbose d' then Inl Bad_format else respond (encode_close c) txn resp pkt d') in
      case decode_close c pkt of
        (Inl _, txn) \<Rightarrow>
          finish txn (resp\<lparr>cl_result := qmi_result_error (cl_result resp) QMI_RMTFS_ERR_MALFORMED_MSG\<rparr>) d
      | (Inr req, txn) \<Rightarrow>
          bind_outcome (storage_get (d_storage d) (pkt_node pkt) (sint (cl_caller_id req))) (\<lambda>p.
          case p of
            None \<Rightarrow> finish txn (resp\<lparr>cl_result := qmi_result_error (cl_result resp) QMI_RMTFS_ERR_INTERNAL\<rparr>) d
          | Some i \<Rightarrow>
              (case storage_close (d_storage d) (d_os d) i of (st, os) \<Rightarrow>
                 finish txn resp (d\<lparr>d_storage := st, d_os := os,
                                    d_shm := (rmtfs_mem_free (fst (d_shm d)), snd (d_shm d))\<rparr>))))"

text \<open>
  One sector of a transfer; \<open>buf\<close> is the handler's stack buffer. The result is the last
  count, which has to be the sector size.
\<close>

definition iovec_sector ::
  "bool \<Rightarrow> nat \<Rightarrow> int \<Rightarrow> int \<Rightarrow> daemon \<times> bytes \<Rightarrow> (int \<times> daemon \<times> bytes) outcome" where
  "iovec_sector is_write i phys sector = (\<lambda>(d, buf).
     if is_write
     then bind_outcome
            (rmtfs_mem_read (d_shm d) (d_ucopy d (d_access d)) (word_of_int phys) buf SECTOR_SIZE)
            (\<lambda>(n, buf1).
               let d1 = d\<lparr>d_access := Suc (d_access d)\<rparr> in
               if n = int SECTOR_SIZE
               then bind_outcome (storage_pwrite_at (d_storage d1) (d_os d1) i buf1 sector)
                      (\<lambda>(n2, st, os). Inr (n2, d1\<lparr>d_storage := st, d_os := os\<rparr>, buf1))
               else Inr (n, d1, buf1))
     else bind_outcome
            (storage_pread (d_storage d) (d_os d) (rmtfds (d_storage d) ! i) buf SECTOR_SIZE sector)
            (\<lambda>(n, buf1, os).
               let d1 = d\<lparr>d_os := os\<rparr> in
               if 0 \<le> n
               then (let buf2 = (if n < int SECTOR_SIZE
                                 then mem_put (nat n) (replicate (SECTOR_SIZE - nat n) 0) buf1 else buf1) in
                     bind_outcome
                       (rmtfs_mem_write (d_shm d1) (d_ucopy d1 (d_access d1)) (word_of_int phys) buf2)
                       (\<lambda>(n2, s). Inr (n2, d1\<lparr>d_shm := s, d_access := Suc (d_access d1)\<rparr>, buf2)))
               else Inr (n, d1, buf1)))"

text \<open>The sectors of one entry; the flag says whether all of them were transferred.\<close>

fun iovec_sectors ::
  "bool \<Rightarrow> nat \<Rightarrow> int \<Rightarrow> int \<Rightarrow> nat \<Rightarrow> daemon \<times> bytes \<Rightarrow> (bool \<times> daemon \<times> bytes) outcome" where
  "iovec_sectors is_write i phys sector 0 s = Inr (True, s)"
| "iovec_sectors is_write i phys sector (Suc k) s =
     bind_outcome (iovec_sector is_write i phys sector s) (\<lambda>(n, s').
       if n \<noteq> int SECTOR_SIZE then Inr (False, s')
       else iovec_sectors is_write i (phys + int SECTOR_SIZE) (sector + int SECTOR_SIZE) k s')"

text \<open>The product with the sector size is taken in 32 bits.\<close>

definition iovec_sector_base :: "rmtfs_iovec_entry \<Rightarrow> int" where
  "iovec_sector_base e = uint (sector_addr e * word_of_nat SECTOR_SIZE)"

fun iovec_entries ::
  "bool \<Rightarrow> nat \<Rightarrow> rmtfs_iovec_entry list \<Rightarrow> daemon \<times> bytes \<Rightarrow> (bool \<times> daemon \<times> bytes) outcome" where
  "iovec_entries is_write i [] s = Inr (True, s)"
| "iovec_entries is_write i (e # es) s =
     bind_outcome
       (iovec_sectors is_write i (uint (phys_offset e)) (iovec_sector_base e) (unat (num_sector e)) s)
       (\<lambda>(ok, s'). if ok then iovec_entries is_write i es s' else Inr (False, s'))"

definition iovec_sync :: "bool \<Rightarrow> nat option \<Rightarrow> daemon \<Rightarrow> daemon outcome" where
  "iovec_sync is_write p d =
     (if is_write
      then bind_outcome (storage_sync (d_storage d) (d_os d) p) (\<lambda>(_, os). Inr (d\<lparr>d_os := os\<rparr>))
      else Inr d)"

text \<open>
  After a request that does not decode, the direction and the handle are uninitialised when
  the common exit looks at them.
\<close>

definition rmtfs_iovec :: "codec \<Rightarrow> bytes \<Rightarrow> daemon \<Rightarrow> qrtr_packet \<Rightarrow> (daemon \<times> sent) outcome" where
  "rmtfs_iovec c stack d pkt =
     (let resp = \<lparr>io_result = qmi_result_zero\<rparr>;
          failed = \<lparr>io_result = qmi_result_error qmi_result_zero QMI_RMTFS_ERR_INTERNAL\<rparr> in
      case decode_iovec c pkt of
        (Inl _, txn) \<Rightarrow> Inl Uninit_read
      | (Inr req, txn) \<Rightarrow>
          (let is_write = (io_direction req \<noteq> 0) in
           bind_outcome (storage_get (d_storage d) (pkt_node pkt) (sint (io_caller_id req))) (\<lambda>p.
           case p of
             None \<Rightarrow>
               bind_outcome (iovec_sync is_write None d) (\<lambda>d1. respond (encode_iovec c) txn failed pkt d1)
           | Some i \<Rightarrow>
               bind_outcome (iovec_entries is_write i (io_iovec req) (d, stack)) (\<lambda>(ok, d1, _).
               bind_outcome (iovec_sync is_write (Some i) d1) (\<lambda>d2.
               respond (encode_iovec c) txn (if ok then resp else failed) pkt d2)))))"

definition rmtfs_alloc_buf :: "codec \<Rightarrow> daemon \<Rightarrow> qrtr_packet \<Rightarrow> (daemon \<times> sent) outcome" where
  "rmtfs_alloc_buf c d pkt =
     (let resp = \<lparr>ab_result = qmi_result_zero, ab_buff_address_valid = False, ab_buff_address = 0\<rparr> in
      case decode_alloc c pkt of
        (Inl _, txn) \<Rightarrow>
          respond (encode_alloc c) txn
            (resp\<lparr>ab_result := qmi_result_error (ab_result resp) QMI_RMTFS_ERR_MALFORMED_MSG\<rparr>) pkt d
      | (Inr req, txn) \<Rightarrow>
          (let address = rmtfs_mem_alloc (fst (d_shm d)) (ucast (ab_buff_size req)) in
           respond (encode_alloc c) txn
             (if address < 0
              then resp\<lparr>ab_result := qmi_result_error (ab_result resp) QMI_RMTFS_ERR_INTERNAL\<rparr>
              else resp\<lparr>ab_buff_address := word_of_int address, ab_buff_address_valid := True\<rparr>) pkt d))"

text \<open>The error is reported for a handle that exists; the other branch reads through it.\<close>

definition rmtfs_get_dev_error :: "codec \<Rightarrow> daemon \<Rightarrow> qrtr_packet \<Rightarrow> (daemon \<times> sent) outcome" where
  "rmtfs_get_dev_error c d pkt =
     (let resp = \<lparr>de_result = qmi_result_zero, de_status_valid = False, de_status = 0\<rparr> in
      case decode_dev_error c pkt of
        (Inl _, txn) \<Rightarrow>
          respond (encode_dev_error c) txn
            (resp\<lparr>de_result := qmi_result_error (de_result resp) QMI_RMTFS_ERR_MALFORMED_MSG\<rparr>) pkt d
      | (Inr req, txn) \<Rightarrow>
          bind_outcome (storage_get (d_storage d) (pkt_node pkt) (sint (de_caller_id req))) (\<lambda>p.
          case p of
            Some i \<Rightarrow>
              respond (encode_dev_error c) txn
                (resp\<lparr>de_result := qmi_result_error (de_result resp) QMI_RMTFS_ERR_INTERNAL\<rparr>) pkt d
          | None \<Rightarrow>
              bind_outcome (storage_get_error (d_storage d) None) (\<lambda>status.
              respond (encode_dev_error c) txn (resp\<lparr>de_status := ucast status, de_status_valid := True\<rparr>) pkt d)))"

definition rmtfs_bye :: "u32 \<Rightarrow> int" where
  "rmtfs_bye node = 0"

definition rmtfs_del_client :: "u32 \<Rightarrow> u32 \<Rightarrow> int" where
  "rmtfs_del_client node port = 0"

section \<open>Dispatch\<close>

text \<open>What \<open>recvfrom\<close> gives: a negated error number, or the bytes and the sender.\<close>

type_synonym received = "int + (bytes \<times> u32 \<times> u32)"

definition dispatch :: "codec \<Rightarrow> bytes \<Rightarrow> daemon \<Rightarrow> nat \<Rightarrow> qrtr_packet \<Rightarrow> (daemon \<times> sent) outcome" where
  "dispatch c stack d msg_id pkt =
     (if msg_id = QMI_RMTFS_OPEN then rmtfs_open c d pkt
      else if msg_id = QMI_RMTFS_CLOSE then rmtfs_close c d pkt
      else if msg_id = QMI_RMTFS_RW_IOVEC then rmtfs_iovec c stack d pkt
      else if msg_id = QMI_RMTFS_ALLOC_BUFF then rmtfs_alloc_buf c d pkt
      else if msg_id = QMI_RMTFS_GET_DEV_ERROR then rmtfs_get_dev_error c d pkt
      else Inr (d, []))"

definition handle_rmtfs :: "codec \<Rightarrow> bytes \<Rightarrow> daemon \<Rightarrow> received \<Rightarrow> (int \<times> daemon \<times> sent) outcome" where
  "handle_rmtfs c stack d recv =
     (case recv of
        Inl err \<Rightarrow> Inr (err, d, [])
      | Inr (buf, sq) \<Rightarrow>
     (case qrtr_decode c buf sq of
        Inl err \<Rightarrow> Inr (err, d, [])
      | Inr (ret, pkt) \<Rightarrow>
     (case pkt_type pkt of
        QRTR_TYPE_BYE \<Rightarrow> Inr (rmtfs_bye (pkt_node pkt), d, [])
      | QRTR_TYPE_DEL_CLIENT \<Rightarrow> Inr (rmtfs_del_client (pkt_node pkt) (pkt_port pkt), d, [])
      | QRTR_TYPE_DATA \<Rightarrow>
          (case qmi_decode_header c pkt of
             Inl err \<Rightarrow> Inr (err, d, [])
           | Inr msg_id \<Rightarrow>
               bind_outcome (dispatch c stack d msg_id pkt) (\<lambda>(d', out). Inr (0, d', out)))
      | QRTR_TYPE_OTHER \<Rightarrow> Inr (ret, d, []))))"

section \<open>Event loop\<close>

text \<open>
  One round of the loop as the environment decides it: the number of signals seen so far,
  the result of \<open>select\<close> (negated error number), what the remote-processor pipe gives when it
  is readable (count and character), and what the socket gives when it is readable.
\<close>

record round =
  rd_signals :: nat
  rd_select :: int
  rd_rproc :: "(int \<times> char) option"
  rd_socket :: "received option"

text \<open>Loop variables: \<open>sig_int_handled\<close>, \<open>ret\<close>, the pipe character and what was done so far.\<close>

record loop_state =
  lp_daemon :: daemon
  lp_handled :: bool
  lp_ret :: int
  lp_done :: "char option"
  lp_sent :: sent
  lp_stops :: nat

definition loop_rproc :: "bool \<Rightarrow> round \<Rightarrow> loop_state \<Rightarrow> (bool \<times> loop_state) outcome" where
  "loop_rproc rproc rd s =
     (case (if rproc then rd_rproc rd else None) of
        None \<Rightarrow> Inr (False, s)
      | Some (n, ch) \<Rightarrow>
          (let s1 = s\<lparr>lp_ret := n, lp_done := (if n = 1 then Some ch else lp_done s)\<rparr> in
           if n = 0 then Inr (True, s1)
           else case lp_done s1 of
                  None \<Rightarrow> Inl Uninit_read
                | Some x \<Rightarrow> Inr (x = CHR ''Y'', s1)))"

definition loop_socket :: "codec \<Rightarrow> bytes \<Rightarrow> round \<Rightarrow> loop_state \<Rightarrow> (bool \<times> loop_state) outcome" where
  "loop_socket c stack rd s =
     (case rd_socket rd of
        None \<Rightarrow> Inr (False, s)
      | Some recv \<Rightarrow>
          bind_outcome (handle_rmtfs c stack (lp_daemon s) recv) (\<lambda>(ret, d, out).
            Inr (ret = - ENETRESET, s\<lparr>lp_daemon := d, lp_ret := ret, lp_sent := lp_sent s @ out\<rparr>)))"

text \<open>The flag says whether the loop ends with this round.\<close>

definition loop_round :: "codec \<Rightarrow> bytes \<Rightarrow> bool \<Rightarrow> round \<Rightarrow> loop_state \<Rightarrow> (bool \<times> loop_state) outcome" where
  "loop_round c stack rproc rd s =
     (if rd_signals rd = 1 \<and> \<not> lp_handled s \<and> \<not> rproc then Inr (True, s)
      else if \<not> (rd_signals rd = 1 \<and> \<not> lp_handled s) \<and> 1 < rd_signals rd then Inr (True, s)
      else (let s1 = (if rd_signals rd = 1 \<and> \<not> lp_handled s
                      then s\<lparr>lp_handled := True, lp_stops := Suc (lp_stops s)\<rparr> else s) in
        if rd_select rd < 0
        then Inr (rd_select rd \<noteq> - EINTR, s1\<lparr>lp_ret := - 1\<rparr>)
        else bind_outcome (loop_rproc rproc rd (s1\<lparr>lp_ret := rd_select rd\<rparr>)) (\<lambda>(stop, s2).
             if stop then Inr (True, s2) else loop_socket c stack rd s2)))"

text \<open>\<open>None\<close>: the loop is still running after the given rounds.\<close>

fun run_loop :: "codec \<Rightarrow> bytes \<Rightarrow> bool \<Rightarrow> round list \<Rightarrow> loop_state \<Rightarrow> loop_state option outcome" where
  "run_loop c stack rproc [] s = Inr None"
| "run_loop c stack rproc (rd # rds) s =
     bind_outcome (loop_round c stack rproc rd s) (\<lambda>(stop, s').
       if stop then Inr (Some s') else run_loop c stack rproc rds s')"

record session =
  ss_qrtr_open :: int
  ss_publish :: int
  ss_rounds :: "round list"

text \<open>
  The result is the return value, the process state and the responses; the flag says whether
  the socket was closed.
\<close>

definition run_rmtfs ::
  "codec \<Rightarrow> bytes \<Rightarrow> int \<Rightarrow> session \<Rightarrow> daemon \<Rightarrow> (int \<times> daemon \<times> sent \<times> bool) option outcome" where
  "run_rmtfs c stack rprocfd ss d =
     (if ss_qrtr_open ss < 0 then Inr (Some (ss_qrtr_open ss, d, [], True))
      else if ss_publish ss < 0 then Inr (Some (ss_publish ss, d, [], False))
      else bind_outcome
             (run_loop c stack (0 \<le> rprocfd) (ss_rounds ss)
                \<lparr>lp_daemon = d, lp_handled = False, lp_ret = ss_publish ss, lp_done = None,
                 lp_sent = [], lp_stops = 0\<rparr>)
             (\<lambda>r. Inr (case r of None \<Rightarrow> None
                      | Some s \<Rightarrow> Some (lp_ret s, lp_daemon s, lp_sent s, True))))"

section \<open>Main\<close>

datatype option_arg = Opt_o string | Opt_P | Opt_r | Opt_s int | Opt_v | Opt_unknown char

record config =
  cf_root :: "string option"
  cf_partitions :: bool
  cf_read_only :: bool
  cf_rprocfd :: int
  cf_verbose :: bool

definition config_default :: config where
  "config_default =
     \<lparr>cf_root = None, cf_partitions = False, cf_read_only = False, cf_rprocfd = - 1, cf_verbose = False\<rparr>"

text \<open>The argument of \<open>-s\<close> is what \<open>rproc_init\<close> returned.\<close>

fun parse_options :: "option_arg list \<Rightarrow> config \<Rightarrow> config option" where
  "parse_options [] cf = Some cf"
| "parse_options (Opt_o dir # os) cf = parse_options os (cf\<lparr>cf_root := Some dir\<rparr>)"
| "parse_options (Opt_P # os) cf = parse_options os (cf\<lparr>cf_partitions := True\<rparr>)"
| "parse_options (Opt_r # os) cf = parse_options os (cf\<lparr>cf_read_only := True\<rparr>)"
| "parse_options (Opt_s fd # os) cf = (if fd < 0 then None else parse_options os (cf\<lparr>cf_rprocfd := fd\<rparr>))"
| "parse_options (Opt_v # os) cf = parse_options os (cf\<lparr>cf_verbose := True\<rparr>)"
| "parse_options (Opt_unknown _ # os) cf = None"

text \<open>The service is started again as long as the network was reset.\<close>

fun run_sessions ::
  "codec \<Rightarrow> bytes \<Rightarrow> int \<Rightarrow> session list \<Rightarrow> daemon \<times> sent \<Rightarrow> (daemon \<times> sent) option outcome" where
  "run_sessions c stack rprocfd [] s = Inr None"
| "run_sessions c stack rprocfd (ss # sss) (d, out) =
     bind_outcome (run_rmtfs c stack rprocfd ss d) (\<lambda>r.
       case r of
         None \<Rightarrow> Inr None
       | Some (ret, d', out', _) \<Rightarrow>
           if ret = - ENETRESET then run_sessions c stack rprocfd sss (d', out @ out')
           else Inr (Some (d', out @ out')))"

record main_env =
  mn_open :: open_env
  mn_device :: qcom_rmtfs_mem
  mn_ucopy :: "nat \<Rightarrow> nat option"
  mn_os :: os
  mn_sessions :: "session list"

record main_result =
  mr_exit :: int
  mr_daemon :: "daemon option"
  mr_sent :: sent
  mr_shm_trace :: "shm_res revent list"

definition rmtfs_main ::
  "codec \<Rightarrow> bytes \<Rightarrow> option_arg list \<Rightarrow> main_env \<Rightarrow> main_result option outcome" where
  "rmtfs_main c stack opts e =
     (case parse_options opts config_default of
        None \<Rightarrow> Inr (Some \<lparr>mr_exit = 1, mr_daemon = None, mr_sent = [], mr_shm_trace = []\<rparr>)
      | Some cf \<Rightarrow>
     (case rmtfs_mem_open (mn_open e) of
        (None, t) \<Rightarrow> Inr (Some \<lparr>mr_exit = 1, mr_daemon = None, mr_sent = [], mr_shm_trace = t\<rparr>)
      | (Some rmem, t) \<Rightarrow>
     (case storage_init (cf_root cf) (cf_read_only cf) (cf_partitions cf) storage_static of (ret, st) \<Rightarrow>
      let d = \<lparr>d_storage = st, d_os = mn_os e, d_shm = (rmem, mn_device e), d_ucopy = mn_ucopy e,
               d_access = 0, d_verbose = cf_verbose cf\<rparr> in
      if ret \<noteq> 0
      then Inr (Some \<lparr>mr_exit = 0, mr_daemon = Some d, mr_sent = [], mr_shm_trace = t @ rmtfs_mem_close rmem\<rparr>)
      else bind_outcome (run_sessions c stack (cf_rprocfd cf) (mn_sessions e) (d, [])) (\<lambda>r.
           case r of
             None \<Rightarrow> Inr None
           | Some (d1, out) \<Rightarrow>
               (case storage_exit (d_storage d1) (d_os d1) of (st2, os2) \<Rightarrow>
                Inr (Some \<lparr>mr_exit = 0, mr_daemon = Some (d1\<lparr>d_storage := st2, d_os := os2\<rparr>), mr_sent = out,
                           mr_shm_trace = t @ rmtfs_mem_close (fst (d_shm d1))\<rparr>))))))"

section \<open>Invariant\<close>

text \<open>What \<open>rmtfs_mem_close\<close> looks at; no request changes it.\<close>

definition shm_key :: "shm \<Rightarrow> bool \<times> int" where
  "shm_key s = (mem_base (fst s) \<noteq> None, mem_fd (fst s))"

definition daemon_inv :: "bool \<times> int \<Rightarrow> daemon \<Rightarrow> bool" where
  "daemon_inv k d \<longleftrightarrow>
     storage_inv (d_storage d, d_os d) \<and> shm_ok (d_shm d) \<and> shm_key (d_shm d) = k"

lemma shm_ok_write:
  assumes "shm_ok s" and "rmtfs_mem_write s u a d = Inr (n, s')"
  shows "shm_ok s'"
proof (cases "mem_base (fst s)")
  case (Some b)
  with assms show ?thesis
    by (auto simp: rmtfs_mem_write_def shm_ok_def shm_bytes_def window split: option.splits if_splits)
next
  case None
  then obtain dev where dev: "dev_pwrite (snd s) u d (sint (a - mem_address (fst s))) = Inr (n, dev)"
    and s': "s' = (fst s, dev)"
    using assms(2) by (auto simp: rmtfs_mem_write_def bind_outcome_Inr)
  have "length (drv_base dev) = length (drv_base (snd s)) \<and> drv_size dev = drv_size (snd s)"
    using dev
    by (auto simp: dev_pwrite_def qcom_rmtfs_mem_write_def bind_outcome_Inr Let_def mem_put_def
        split: if_splits option.splits)
  with assms(1) None s' show ?thesis
    by (auto simp: shm_ok_def shm_bytes_def drv_ok_def)
qed

lemma shm_key_write: "rmtfs_mem_write s u a d = Inr (n, s') \<Longrightarrow> shm_key s' = shm_key s"
  by (auto simp: rmtfs_mem_write_def shm_key_def bind_outcome_Inr split: option.splits if_splits)

lemma storage_pread_os:
  "storage_pread st os r buf n off = Inr (m, buf', os') \<Longrightarrow> os' = os \<or> os' = os_advance os"
  by (auto simp: storage_pread_def bind_outcome_Inr sys_pread_def Let_def split: if_splits option.splits)

lemma storage_inv_advance: "storage_inv (st, os) \<Longrightarrow> storage_inv (st, os_advance os)"
  by (rule storage_inv_frame) (auto simp: storage_inv_def os_advance_def os_wf_def)

lemma storage_sync_inv:
  assumes "storage_inv (st, os)" and "storage_sync st os p = Inr (n, os')"
  shows "storage_inv (st, os')"
proof (rule storage_inv_frame [OF assms(1)])
  show "os_wf os'"
    using assms by (auto simp: storage_sync_def storage_inv_def intro: os_wf_fdatasync split: if_splits option.splits)
  show "os_fds os' = os_fds os" "os_heap os \<le> os_heap os'"
    using assms(2) by (auto simp: storage_sync_def sys_fdatasync_def os_advance_def Let_def split: if_splits option.splits)
qed

lemma storage_get_bound: "storage_get st node c = Inr (Some i) \<Longrightarrow> i < MAX_CALLERS"
  by (auto simp: storage_get_def split: if_splits)

lemma respond_daemon: "respond encode txn resp pkt d = Inr (d', out) \<Longrightarrow> d' = d"
  by (auto simp: respond_def split: option.splits sum.splits)

lemma iovec_sector_inv:
  assumes inv: "daemon_inv k d" and i: "i < MAX_CALLERS"
    and run: "iovec_sector w i ph sec (d, buf) = Inr (n, d', buf')"
  shows "daemon_inv k d'"
proof (cases w)
  case True
  obtain n1 buf1 where rd: "rmtfs_mem_read (d_shm d) (d_ucopy d (d_access d)) (word_of_int ph) buf SECTOR_SIZE = Inr (n1, buf1)"
    using run True by (auto simp: iovec_sector_def bind_outcome_Inr)
  show ?thesis
  proof (cases "n1 = int SECTOR_SIZE")
    case n1: True
    with run True rd obtain st os where w: "storage_pwrite_at (d_storage d) (d_os d) i buf1 sec = Inr (n, st, os)"
      and d': "d' = d\<lparr>d_access := Suc (d_access d), d_storage := st, d_os := os\<rparr>"
      by (auto simp: iovec_sector_def bind_outcome_Inr Let_def)
    have "storage_inv (st, os)"
      using storage_pwrite_at_inv [OF _ i w] inv by (simp add: daemon_inv_def)
    with inv d' show ?thesis
      by (simp add: daemon_inv_def)
  next
    case False
    with run True rd inv show ?thesis
      by (auto simp: iovec_sector_def Let_def daemon_inv_def)
  qed
next
  case False
  then obtain n1 buf1 os where rd:
    "storage_pread (d_storage d) (d_os d) (rmtfds (d_storage d) ! i) buf SECTOR_SIZE sec = Inr (n1, buf1, os)"
    using run by (auto simp: iovec_sector_def bind_outcome_Inr)
  have os: "storage_inv (d_storage d, os)"
    using storage_pread_os [OF rd] inv storage_inv_advance by (auto simp: daemon_inv_def)
  show ?thesis
  proof (cases "0 \<le> n1")
    case True
    with run False rd obtain n2 s buf2 where
      "rmtfs_mem_write (d_shm d) (d_ucopy d (d_access d)) (word_of_int ph) buf2 = Inr (n2, s)"
      and "d' = d\<lparr>d_os := os, d_shm := s, d_access := Suc (d_access d)\<rparr>"
      by (auto simp: iovec_sector_def bind_outcome_Inr Let_def split: if_splits)
    with os inv show ?thesis
      by (auto simp: daemon_inv_def intro: shm_ok_write dest: shm_key_write)
  next
    case n1: False
    with run False rd os inv show ?thesis
      by (auto simp: iovec_sector_def Let_def daemon_inv_def)
  qed
qed

lemma iovec_sectors_inv:
  assumes "daemon_inv k (fst s)" and "i < MAX_CALLERS" and "iovec_sectors w i ph sec m s = Inr (ok, s')"
  shows "daemon_inv k (fst s')"
  using assms
proof (induction m arbitrary: ph sec s)
  case 0
  then show ?case by simp
next
  case (Suc m)
  obtain d buf where s: "s = (d, buf)"
    by fastforce
  with Suc.prems(3) obtain n d1 buf1 where one: "iovec_sector w i ph sec (d, buf) = Inr (n, d1, buf1)"
    and rest: "(if n \<noteq> int SECTOR_SIZE then Inr (False, d1, buf1)
        else iovec_sectors w i (ph + int SECTOR_SIZE) (sec + int SECTOR_SIZE) m (d1, buf1)) = Inr (ok, s')"
    by (auto simp: bind_outcome_Inr)
  have "daemon_inv k d1"
    using iovec_sector_inv [OF _ _ one] Suc.prems s by simp
  with rest Suc.IH [of "(d1, buf1)"] Suc.prems(2) show ?case
    by (auto split: if_splits)
qed

lemma iovec_entries_inv:
  assumes "daemon_inv k (fst s)" and "i < MAX_CALLERS" and "iovec_entries w i es s = Inr (ok, s')"
  shows "daemon_inv k (fst s')"
  using assms
proof (induction es arbitrary: s)
  case Nil
  then show ?case by simp
next
  case (Cons e es)
  from Cons.prems(3) obtain ok1 s1 where one:
    "iovec_sectors w i (uint (phys_offset e)) (iovec_sector_base e) (unat (num_sector e)) s = Inr (ok1, s1)"
    and rest: "(if ok1 then iovec_entries w i es s1 else Inr (False, s1)) = Inr (ok, s')"
    by (auto simp: bind_outcome_Inr)
  have "daemon_inv k (fst s1)"
    using iovec_sectors_inv [OF _ _ one] Cons.prems by simp
  with rest Cons.IH [of s1] Cons.prems(2) show ?case
    by (auto split: if_splits)
qed

lemma rmtfs_open_inv:
  assumes "daemon_inv k d" and "rmtfs_open c d pkt = Inr (d', out)"
  shows "daemon_inv k d'"
proof (cases "decode_open c pkt")
  case (Pair r txn)
  show ?thesis
  proof (cases r)
    case (Inl e)
    with Pair assms show ?thesis
      by (auto simp: rmtfs_open_def Let_def dest: respond_daemon)
  next
    case (Inr req)
    obtain p st os where o: "storage_open (d_storage d) (d_os d) (pkt_node pkt) (or_path req) = (p, st, os)"
      by (metis prod_cases3)
    have "storage_inv (st, os)"
      using storage_open_inv [OF _ o] assms(1) by (simp add: daemon_inv_def)
    with Pair Inr o assms show ?thesis
      by (cases p) (auto simp: rmtfs_open_def Let_def daemon_inv_def dest!: respond_daemon)
  qed
qed

lemma rmtfs_close_inv:
  assumes "daemon_inv k d" and "rmtfs_close c d pkt = Inr (d', out)"
  shows "daemon_inv k d'"
proof (cases "decode_close c pkt")
  case (Pair r txn)
  show ?thesis
  proof (cases r)
    case (Inl e)
    with Pair assms show ?thesis
      by (auto simp: rmtfs_close_def Let_def dest: respond_daemon split: if_splits)
  next
    case (Inr req)
    with Pair assms(2) obtain p where p: "storage_get (d_storage d) (pkt_node pkt) (sint (cl_caller_id req)) = Inr p"
      by (auto simp: rmtfs_close_def Let_def bind_outcome_Inr)
    show ?thesis
    proof (cases p)
      case None
      with Pair Inr p assms show ?thesis
        by (auto simp: rmtfs_close_def Let_def dest: respond_daemon split: if_splits)
    next
      case (Some i)
      obtain st os where cl: "storage_close (d_storage d) (d_os d) i = (st, os)"
        by fastforce
      have "storage_inv (st, os)"
        using storage_close_inv(1) [OF _ storage_get_bound cl] p Some assms(1) by (auto simp: daemon_inv_def)
      with Pair Inr p Some cl assms show ?thesis
        by (auto simp: rmtfs_close_def Let_def daemon_inv_def rmtfs_mem_free_def shm_key_def
            dest!: respond_daemon split: if_splits)
    qed
  qed
qed

lemma iovec_sync_inv: "daemon_inv k d \<Longrightarrow> iovec_sync w p d = Inr d' \<Longrightarrow> daemon_inv k d'"
  by (auto simp: iovec_sync_def bind_outcome_Inr daemon_inv_def intro: storage_sync_inv split: if_splits)

lemma rmtfs_iovec_inv:
  assumes "daemon_inv k d" and "rmtfs_iovec c stack d pkt = Inr (d', out)"
  shows "daemon_inv k d'"
proof (cases "decode_iovec c pkt")
  case (Pair r txn)
  with assms(2) obtain req where req: "r = Inr req"
    by (cases r) (auto simp: rmtfs_iovec_def Let_def)
  with Pair assms(2) obtain p where p: "storage_get (d_storage d) (pkt_node pkt) (sint (io_caller_id req)) = Inr p"
    by (auto simp: rmtfs_iovec_def Let_def bind_outcome_Inr)
  show ?thesis
  proof (cases p)
    case None
    with Pair req p assms show ?thesis
      by (auto simp: rmtfs_iovec_def Let_def bind_outcome_Inr dest!: respond_daemon intro: iovec_sync_inv)
  next
    case (Some i)
    have "i < MAX_CALLERS"
      using p Some storage_get_bound by blast
    from Pair req p Some assms(2) obtain ok s1 d2 where
      es: "iovec_entries (io_direction req \<noteq> 0) i (io_iovec req) (d, stack) = Inr (ok, s1)"
      and sy: "iovec_sync (io_direction req \<noteq> 0) (Some i) (fst s1) = Inr d2" and "d' = d2"
      by (auto simp: rmtfs_iovec_def Let_def bind_outcome_Inr dest!: respond_daemon)
    have "daemon_inv k (fst s1)"
      using iovec_entries_inv [OF _ \<open>i < MAX_CALLERS\<close> es] assms(1) by simp
    with sy \<open>d' = d2\<close> show ?thesis
      using iovec_sync_inv by simp
  qed
qed

lemma rmtfs_alloc_buf_inv: "daemon_inv k d \<Longrightarrow> rmtfs_alloc_buf c d pkt = Inr (d', out) \<Longrightarrow> daemon_inv k d'"
  by (auto simp: rmtfs_alloc_buf_def Let_def dest!: respond_daemon split: prod.splits sum.splits)

lemma rmtfs_get_dev_error_inv:
  "daemon_inv k d \<Longrightarrow> rmtfs_get_dev_error c d pkt = Inr (d', out) \<Longrightarrow> daemon_inv k d'"
  by (auto simp: rmtfs_get_dev_error_def Let_def bind_outcome_Inr dest!: respond_daemon
      split: prod.splits sum.splits option.splits)

lemmas handler_invs = rmtfs_open_inv rmtfs_close_inv rmtfs_iovec_inv rmtfs_alloc_buf_inv rmtfs_get_dev_error_inv

lemma dispatch_inv: "daemon_inv k d \<Longrightarrow> dispatch c stack d m pkt = Inr (d', out) \<Longrightarrow> daemon_inv k d'"
  by (auto simp: dispatch_def split: if_splits intro: handler_invs)

lemma handle_rmtfs_inv: "daemon_inv k d \<Longrightarrow> handle_rmtfs c stack d r = Inr (ret, d', out) \<Longrightarrow> daemon_inv k d'"
  by (auto simp: handle_rmtfs_def bind_outcome_Inr intro: dispatch_inv
      split: sum.splits prod.splits qrtr_type.splits)

section \<open>Runs\<close>

text \<open>A sequence of received packets; it stops at undefined behaviour.\<close>

definition daemon_step :: "codec \<Rightarrow> bytes \<Rightarrow> daemon outcome \<Rightarrow> received \<Rightarrow> daemon outcome" where
  "daemon_step c stack s recv =
     bind_outcome s (\<lambda>d. bind_outcome (handle_rmtfs c stack d recv) (\<lambda>(_, d', _). Inr d'))"

definition outcome_inv :: "('a \<Rightarrow> bool) \<Rightarrow> 'a outcome \<Rightarrow> bool" where
  "outcome_inv P s = (case s of Inl _ \<Rightarrow> True | Inr x \<Rightarrow> P x)"

interpretation dm: stepper "daemon_step c stack" "outcome_inv (daemon_inv k)" for c stack k
proof
  fix s e
  assume "outcome_inv (daemon_inv k) s"
  then show "outcome_inv (daemon_inv k) (daemon_step c stack s e)"
    using handle_rmtfs_inv [of k "projr s" c stack e]
    by (cases s) (auto simp: outcome_inv_def daemon_step_def bind_outcome_def split: sum.splits)
qed

lemma loop_rproc_daemon: "loop_rproc rp rd s = Inr (b, s') \<Longrightarrow> lp_daemon s' = lp_daemon s"
  by (auto simp: loop_rproc_def Let_def split: option.splits if_splits)

lemma loop_socket_inv:
  "daemon_inv k (lp_daemon s) \<Longrightarrow> loop_socket c stack rd s = Inr (b, s') \<Longrightarrow> daemon_inv k (lp_daemon s')"
  by (auto simp: loop_socket_def bind_outcome_Inr intro: handle_rmtfs_inv split: option.splits)

lemma loop_rest_inv:
  assumes "bind_outcome (loop_rproc rp rd s) (\<lambda>(stop, s2). if stop then Inr (True, s2) else loop_socket c stack rd s2) =
      Inr (b, s')" and "daemon_inv k (lp_daemon s)"
  shows "daemon_inv k (lp_daemon s')"
proof -
  from assms(1) obtain stop s2 where "loop_rproc rp rd s = Inr (stop, s2)"
    and "(if stop then Inr (True, s2) else loop_socket c stack rd s2) = Inr (b, s')"
    by (auto simp: bind_outcome_Inr)
  with assms(2) loop_rproc_daemon loop_socket_inv show ?thesis
    by (metis Inr_inject Pair_inject)
qed

lemma loop_round_inv:
  assumes "daemon_inv k (lp_daemon s)" and "loop_round c stack rp rd s = Inr (stop, s')"
  shows "daemon_inv k (lp_daemon s')"
  using assms
  by (auto simp: loop_round_def Let_def dest!: loop_rest_inv [where k = k] split: if_splits)

lemma run_loop_inv:
  "daemon_inv k (lp_daemon s) \<Longrightarrow> run_loop c stack rp rds s = Inr (Some s') \<Longrightarrow> daemon_inv k (lp_daemon s')"
proof (induction rds arbitrary: s)
  case Nil
  then show ?case by simp
next
  case (Cons rd rds)
  from Cons.prems(2) obtain stop s1 where one: "loop_round c stack rp rd s = Inr (stop, s1)"
    and rest: "(if stop then Inr (Some s1) else run_loop c stack rp rds s1) = Inr (Some s')"
    by (auto simp: bind_outcome_Inr)
  with Cons.IH [OF loop_round_inv [OF Cons.prems(1) one]] loop_round_inv [OF Cons.prems(1) one] show ?case
    by (auto split: if_splits)
qed

lemma run_rmtfs_inv:
  assumes "daemon_inv k d" and "run_rmtfs c stack fd ss d = Inr (Some (ret, d', out, cl))"
  shows "daemon_inv k d'"
proof -
  let ?s = "\<lparr>lp_daemon = d, lp_handled = False, lp_ret = ss_publish ss, lp_done = None, lp_sent = [], lp_stops = 0\<rparr>"
  from assms(2) consider "d' = d"
    | s' where "run_loop c stack (0 \<le> fd) (ss_rounds ss) ?s = Inr (Some s')" "d' = lp_daemon s'"
    by (auto simp: run_rmtfs_def bind_outcome_Inr split: if_splits option.splits)
  then show ?thesis
    using assms(1) run_loop_inv [of k ?s] by cases auto
qed

lemma run_sessions_inv:
  "daemon_inv k (fst s) \<Longrightarrow> run_sessions c stack fd sss s = Inr (Some s') \<Longrightarrow> daemon_inv k (fst s')"
proof (induction sss arbitrary: s)
  case Nil
  then show ?case by simp
next
  case (Cons ss sss)
  obtain d out where s: "s = (d, out)"
    by fastforce
  with Cons.prems(2) obtain ret d1 out1 cl where one: "run_rmtfs c stack fd ss d = Inr (Some (ret, d1, out1, cl))"
    and rest: "(if ret = - ENETRESET then run_sessions c stack fd sss (d1, out @ out1)
                else Inr (Some (d1, out @ out1))) = Inr (Some s')"
    by (auto simp: bind_outcome_Inr split: option.splits)
  have "daemon_inv k d1"
    using run_rmtfs_inv [OF _ one] Cons.prems(1) s by simp
  with rest Cons.IH [of "(d1, out @ out1)"] show ?case
    by (auto split: if_splits)
qed

end
