(* ===== verification/Rmtfs_Service.thy ===== *)
theory Rmtfs_Service
  imports Rmtfs_Daemon
begin

text \<open>
  What the RMTFS daemon promises the modem: the transfers of an I/O request move whole
  sectors between the shared memory and the partition image (both are sector stores), every
  request keeps the daemon's invariant, and leaving \<open>main\<close> releases what was opened.
\<close>

section \<open>Transfers to the image\<close>

lemma sector_pos: "0 < SECTOR_SIZE" "SECTOR_SIZE < 2 ^ 31"
  by (simp_all add: SECTOR_SIZE_def)

lemma iovec_sector_write:
  assumes shm: "shm_ok (d_shm d)" and uc: "d_ucopy d = (\<lambda>_. None)" and buf: "length buf = SECTOR_SIZE"
    and p: "p + SECTOR_SIZE < 2 ^ 63"
    and run: "iovec_sector True i (int p) (int q) (d, buf) = Inr (int SECTOR_SIZE, d', buf')"
  shows "\<exists>x. shm_view (d_shm d) p = Some x \<and> length x = SECTOR_SIZE \<and>
    image_write i (d_storage d, d_os d) q x = Some (d_storage d', d_os d') \<and>
    d_shm d' = d_shm d \<and> d_ucopy d' = d_ucopy d \<and> length buf' = SECTOR_SIZE"
proof -
  from rmtfs_mem_read_eq [OF shm sector_pos p buf] obtain n x where
    rd: "rmtfs_mem_read (d_shm d) None (word_of_nat p) buf SECTOR_SIZE = Inr (n, x)"
    and len: "length x = SECTOR_SIZE"
    and n: "if in_region (d_shm d) p SECTOR_SIZE
      then n = int SECTOR_SIZE \<and> x = mem_slice (shm_at (d_shm d) p) SECTOR_SIZE (shm_bytes (d_shm d))
      else n < int SECTOR_SIZE"
    by blast
  have full: "n = int SECTOR_SIZE"
  proof (rule ccontr)
    assume "n \<noteq> int SECTOR_SIZE"
    with run rd uc show False
      by (simp add: iovec_sector_def Let_def)
  qed
  with n have view: "shm_view (d_shm d) p = Some x"
    by (auto simp: shm_view_def split: if_splits)
  from run rd uc full obtain st os where
    w: "storage_pwrite_at (d_storage d) (d_os d) i x (int q) = Inr (int SECTOR_SIZE, st, os)"
    and d': "d' = d\<lparr>d_access := Suc (d_access d), d_storage := st, d_os := os\<rparr>" and "buf' = x"
    by (auto simp: iovec_sector_def Let_def bind_outcome_Inr)
  with view len show ?thesis
    by (auto simp: image_write_def)
qed

lemma iovec_sectors_write:
  assumes "shm_ok (d_shm d)" and "d_ucopy d = (\<lambda>_. None)" and "length buf = SECTOR_SIZE"
    and "p + SECTOR_SIZE * m < 2 ^ 63"
    and "iovec_sectors True i (int p) (int q) m (d, buf) = Inr (True, d', buf')"
  shows "\<exists>xs. length xs = m \<and> (\<forall>x \<in> set xs. length x = SECTOR_SIZE) \<and>
    (\<forall>j < m. shm_view (d_shm d) (p + SECTOR_SIZE * j) = Some (xs ! j)) \<and>
    write_sectors (image_write i) (d_storage d, d_os d) q xs = Some (d_storage d', d_os d') \<and>
    d_shm d' = d_shm d"
  using assms
proof (induction m arbitrary: p q d buf)
  case 0
  then show ?case by simp
next
  case (Suc m)
  from Suc.prems(5) obtain d1 buf1 where
    one: "iovec_sector True i (int p) (int q) (d, buf) = Inr (int SECTOR_SIZE, d1, buf1)"
    and rest: "iovec_sectors True i (int p + int SECTOR_SIZE) (int q + int SECTOR_SIZE) m (d1, buf1) = Inr (True, d', buf')"
    by (auto simp: bind_outcome_Inr split: if_splits)
  have "p + SECTOR_SIZE < 2 ^ 63"
    using Suc.prems(4) by simp
  from iovec_sector_write [OF Suc.prems(1-3) this one] obtain x where
    x: "shm_view (d_shm d) p = Some x" "length x = SECTOR_SIZE"
    and w: "image_write i (d_storage d, d_os d) q x = Some (d_storage d1, d_os d1)"
    and same: "d_shm d1 = d_shm d" "d_ucopy d1 = d_ucopy d" "length buf1 = SECTOR_SIZE"
    by blast
  have "iovec_sectors True i (int (p + SECTOR_SIZE)) (int (q + SECTOR_SIZE)) m (d1, buf1) = Inr (True, d', buf')"
    using rest by simp
  from Suc.IH [OF _ _ same(3) _ this] obtain xs where xs: "length xs = m" "\<forall>x \<in> set xs. length x = SECTOR_SIZE"
    and views: "\<forall>j < m. shm_view (d_shm d) (p + SECTOR_SIZE + SECTOR_SIZE * j) = Some (xs ! j)"
    and ws: "write_sectors (image_write i) (d_storage d1, d_os d1) (q + SECTOR_SIZE) xs = Some (d_storage d', d_os d')"
    and "d_shm d' = d_shm d"
    using Suc.prems(1,2,4) same by auto
  have "shm_view (d_shm d) (p + SECTOR_SIZE * j) = Some ((x # xs) ! j)" if "j < Suc m" for j
    using that x views by (cases j) (auto simp: algebra_simps)
  with xs x w ws \<open>d_shm d' = d_shm d\<close> show ?case
    by (intro exI [of _ "x # xs"]) auto
qed

section \<open>Transfers from the image\<close>

text \<open>A sector of the image as a reader sees it: zeros behind the end.\<close>

definition padded_sector :: "bytes \<Rightarrow> nat \<Rightarrow> bytes" where
  "padded_sector bs off = take SECTOR_SIZE (drop off bs @ replicate SECTOR_SIZE 0)"

lemma length_padded_sector [simp]: "length (padded_sector bs off) = SECTOR_SIZE"
  by (simp add: padded_sector_def)

lemma image_bytes_advance [simp]: "image_bytes (st, os_advance os) i = image_bytes (st, os) i"
  by (simp add: image_bytes_def fd_bytes_def os_advance_def split: option.splits)

lemma os_fault_advance [simp]: "os_fault (os_advance os) = os_fault os"
  by (simp add: os_advance_def)

lemma iovec_sector_read:
  assumes inv: "storage_inv (d_storage d, d_os d)" and shm: "shm_ok (d_shm d)" and i: "i < MAX_CALLERS"
    and bs: "image_bytes (d_storage d, d_os d) i = Some bs"
    and nofault: "storage_read_only (d_storage d) \<or> (\<forall>t. \<not> os_fault (d_os d) t)"
    and uc: "d_ucopy d = (\<lambda>_. None)" and buf: "length buf = SECTOR_SIZE" and p: "p + SECTOR_SIZE < 2 ^ 63"
    and run: "iovec_sector False i (int p) (int q) (d, buf) = Inr (int SECTOR_SIZE, d', buf')"
  shows "shm_write_sector (d_shm d) p (padded_sector bs q) = Some (d_shm d') \<and>
    d_storage d' = d_storage d \<and> storage_inv (d_storage d', d_os d') \<and> d_ucopy d' = d_ucopy d \<and>
    image_bytes (d_storage d', d_os d') i = Some bs \<and> length buf' = SECTOR_SIZE \<and>
    os_fault (d_os d') = os_fault (d_os d)"
proof -
  let ?os = "if storage_read_only (d_storage d) then d_os d else os_advance (d_os d)"
  have "SECTOR_SIZE < 2 ^ 63"
    by (simp add: SECTOR_SIZE_def)
  moreover have "storage_read_only (d_storage d) \<or> \<not> os_faults (d_os d)"
    using nofault by (auto simp: os_faults_def)
  ultimately have rd: "storage_pread (d_storage d) (d_os d) (rmtfds (d_storage d) ! i) buf SECTOR_SIZE (int q) =
      Inr (int SECTOR_SIZE, padded_sector bs q, ?os)"
    using storage_pread_result [OF inv i bs _ buf] by (simp add: padded_sector_def)
  from run rd uc obtain s where
    w: "rmtfs_mem_write (d_shm d) None (word_of_nat p) (padded_sector bs q) = Inr (int SECTOR_SIZE, s)"
    and d': "d' = d\<lparr>d_os := ?os, d_shm := s, d_access := Suc (d_access d)\<rparr>" and "buf' = padded_sector bs q"
    by (auto simp: iovec_sector_def Let_def bind_outcome_Inr)
  have "storage_inv (d_storage d, ?os)"
    using inv storage_inv_advance by simp
  with w d' p bs \<open>buf' = _\<close> show ?thesis
    by (auto simp: shm_write_sector_def)
qed

lemma iovec_sectors_read:
  assumes "storage_inv (d_storage d, d_os d)" and "shm_ok (d_shm d)" and "i < MAX_CALLERS"
    and "image_bytes (d_storage d, d_os d) i = Some bs"
    and "storage_read_only (d_storage d) \<or> (\<forall>t. \<not> os_fault (d_os d) t)"
    and "d_ucopy d = (\<lambda>_. None)" and "length buf = SECTOR_SIZE" and "p + SECTOR_SIZE * m < 2 ^ 63"
    and "iovec_sectors False i (int p) (int q) m (d, buf) = Inr (True, d', buf')"
  shows "write_sectors shm_write_sector (d_shm d) p
      (map (\<lambda>j. padded_sector bs (q + SECTOR_SIZE * j)) [0..<m]) = Some (d_shm d') \<and>
    d_storage d' = d_storage d \<and> image_bytes (d_storage d', d_os d') i = Some bs"
  using assms
proof (induction m arbitrary: p q d buf)
  case 0
  then show ?case by simp
next
  case (Suc m)
  from Suc.prems(9) obtain d1 buf1 where
    one: "iovec_sector False i (int p) (int q) (d, buf) = Inr (int SECTOR_SIZE, d1, buf1)"
    and rest: "iovec_sectors False i (int p + int SECTOR_SIZE) (int q + int SECTOR_SIZE) m (d1, buf1) = Inr (True, d', buf')"
    by (auto simp: bind_outcome_Inr split: if_splits)
  have p: "p + SECTOR_SIZE < 2 ^ 63"
    using Suc.prems(8) by simp
  note r = iovec_sector_read [OF Suc.prems(1-7) p one]
  have "shm_ok (d_shm d1)"
    using r by (intro shm_store.wr_ok [OF Suc.prems(2), of "padded_sector bs q" p]) simp_all
  moreover have "iovec_sectors False i (int (p + SECTOR_SIZE)) (int (q + SECTOR_SIZE)) m (d1, buf1) = Inr (True, d', buf')"
    using rest by simp
  ultimately have IH: "write_sectors shm_write_sector (d_shm d1) (p + SECTOR_SIZE)
      (map (\<lambda>j. padded_sector bs (q + SECTOR_SIZE + SECTOR_SIZE * j)) [0..<m]) = Some (d_shm d') \<and>
    d_storage d' = d_storage d1 \<and> image_bytes (d_storage d', d_os d') i = Some bs"
    using r Suc.prems by (intro Suc.IH) auto
  have "[0..<Suc m] = 0 # map Suc [0..<m]"
    by (simp add: upt_conv_Cons map_Suc_upt del: upt_Suc)
  then have "map (\<lambda>j. padded_sector bs (q + SECTOR_SIZE * j)) [0..<Suc m] =
      padded_sector bs q # map (\<lambda>j. padded_sector bs (q + SECTOR_SIZE + SECTOR_SIZE * j)) [0..<m]"
    by (simp add: o_def algebra_simps)
  with IH r show ?case
    by (auto simp del: upt_Suc)
qed

section \<open>The whole request\<close>

definition iovec_reply :: "codec \<Rightarrow> u32 \<Rightarrow> bool \<Rightarrow> qrtr_packet \<Rightarrow> sent" where
  "iovec_reply c txn ok pkt =
     (case encode_iovec c txn
         \<lparr>io_result = if ok then qmi_result_zero else qmi_result_error qmi_result_zero QMI_RMTFS_ERR_INTERNAL\<rparr> of
        Inl _ \<Rightarrow> [] | Inr data \<Rightarrow> [(pkt_node pkt, pkt_port pkt, data)])"

lemma iovec_sector_base_eq:
  assumes "unat (sector_addr e) * SECTOR_SIZE < 2 ^ 32"
  shows "iovec_sector_base e = int (unat (sector_addr e) * SECTOR_SIZE)"
proof -
  have "unat (sector_addr e * word_of_nat SECTOR_SIZE) = unat (sector_addr e) * SECTOR_SIZE"
    using assms by (simp add: SECTOR_SIZE_def unat_word_ariths)
  moreover have "uint w = int (unat w)" for w :: u32
    by simp
  ultimately show ?thesis
    by (simp only: iovec_sector_base_def)
qed

lemma iovec_window_bound: "unat (phys_offset e) + SECTOR_SIZE * unat (num_sector e) < 2 ^ 63"
proof -
  have "unat (phys_offset e) < 2 ^ 32" "unat (num_sector e) < 2 ^ 32"
    using unsigned_less [of "phys_offset e"] unsigned_less [of "num_sector e"] by simp_all
  then show ?thesis
    by (simp add: SECTOR_SIZE_def)
qed

lemma image_bytes_frame:
  "os_files os' = os_files os \<Longrightarrow> os_fds os' = os_fds os \<Longrightarrow> image_bytes (st, os') i = image_bytes (st, os) i"
  by (simp add: image_bytes_def fd_bytes_def split: option.splits)

lemma iovec_entries_one:
  "iovec_entries w i [e] s =
     iovec_sectors w i (int (unat (phys_offset e))) (iovec_sector_base e) (unat (num_sector e)) s"
  by (cases "iovec_sectors w i (uint (phys_offset e)) (iovec_sector_base e) (unat (num_sector e)) s") auto

lemma iovec_sync_frame:
  assumes "iovec_sync w p d = Inr d'"
  shows "d_storage d' = d_storage d \<and> d_shm d' = d_shm d \<and>
    image_bytes (d_storage d', d_os d') i = image_bytes (d_storage d, d_os d) i"
proof (cases w)
  case True
  with assms obtain n os where sy: "storage_sync (d_storage d) (d_os d) p = Inr (n, os)" and d': "d' = d\<lparr>d_os := os\<rparr>"
    by (auto simp: iovec_sync_def bind_outcome_Inr)
  have "os_files os = os_files (d_os d)" "os_fds os = os_fds (d_os d)"
    using sy by (auto simp: storage_sync_def sys_fdatasync_def os_advance_def Let_def split: if_splits option.splits)
  then have "image_bytes (d_storage d, os) i = image_bytes (d_storage d, d_os d) i"
    by (rule image_bytes_frame)
  with d' show ?thesis
    by simp
next
  case False
  with assms show ?thesis
    by (simp add: iovec_sync_def)
qed

text \<open>A request for one entry on a known handle: the transfer, the sync, one reply.\<close>

lemma rmtfs_iovec_one:
  assumes "decode_iovec c pkt = (Inr req, Some txn)" and "io_iovec req = [e]"
    and "storage_get (d_storage d) (pkt_node pkt) (sint (io_caller_id req)) = Inr (Some i)"
    and "unat (sector_addr e) * SECTOR_SIZE < 2 ^ 32"
    and "rmtfs_iovec c stack d pkt = Inr (d', out)"
  shows "\<exists>ok d1 buf1. iovec_sectors (io_direction req \<noteq> 0) i (int (unat (phys_offset e)))
        (int (unat (sector_addr e) * SECTOR_SIZE)) (unat (num_sector e)) (d, stack) = Inr (ok, d1, buf1) \<and>
    out = iovec_reply c txn ok pkt \<and> d_storage d' = d_storage d1 \<and> d_shm d' = d_shm d1 \<and>
    (\<forall>j. image_bytes (d_storage d', d_os d') j = image_bytes (d_storage d1, d_os d1) j)"
proof -
  from assms(1,3,5) obtain ok d1 buf1 d2 where
    es: "iovec_entries (io_direction req \<noteq> 0) i [e] (d, stack) = Inr (ok, d1, buf1)"
    and sy: "iovec_sync (io_direction req \<noteq> 0) (Some i) d1 = Inr d2"
    and re: "respond (encode_iovec c) (Some txn) (if ok then \<lparr>io_result = qmi_result_zero\<rparr> else
        \<lparr>io_result = qmi_result_error qmi_result_zero QMI_RMTFS_ERR_INTERNAL\<rparr>) pkt d2 = Inr (d', out)"
    by (auto simp: rmtfs_iovec_def Let_def bind_outcome_Inr assms(2))
  have "out = iovec_reply c txn ok pkt" "d' = d2"
    using re by (cases ok; auto simp: respond_def iovec_reply_def split: sum.splits)+
  moreover have "iovec_sectors (io_direction req \<noteq> 0) i (int (unat (phys_offset e)))
      (int (unat (sector_addr e) * SECTOR_SIZE)) (unat (num_sector e)) (d, stack) = Inr (ok, d1, buf1)"
    using es unfolding iovec_entries_one iovec_sector_base_eq [OF assms(4)] .
  ultimately show ?thesis
    using iovec_sync_frame [OF sy] by blast
qed

section \<open>Slots of other nodes\<close>

lemma storage_open_slot_other:
  "storage_open_slot st os node part i = (p, st', os') \<Longrightarrow> j \<noteq> i \<Longrightarrow> rmtfds st' ! j = rmtfds st ! j"
  by (auto simp: storage_open_slot_def Let_def split: if_splits prod.splits)

lemma storage_open_other:
  assumes "storage_open st os node path = (p, st', os')" and "slot_used (rmtfds st ! j)"
  shows "rmtfds st' ! j = rmtfds st ! j"
proof -
  from assms(1) consider "st' = st"
    | part i where "find_free st = Some i" "storage_open_slot st os node part i = (p, st', os')"
    by (auto simp: storage_open_def split: option.splits)
  then show ?thesis
  proof cases
    case 2
    have "j \<noteq> i"
      using find_free_Some [OF 2(1)] assms(2) by (auto simp: slot_used_def)
    with 2(2) show ?thesis
      by (rule storage_open_slot_other)
  qed simp
qed

lemma storage_close_other: "storage_close st os i = (st', os') \<Longrightarrow> j \<noteq> i \<Longrightarrow> rmtfds st' ! j = rmtfds st ! j"
  by (auto simp: storage_close_def split: prod.splits)

lemma storage_pwrite_at_other:
  "storage_pwrite_at st os i x off = Inr (n, st', os') \<Longrightarrow> j \<noteq> i \<Longrightarrow> rmtfds st' ! j = rmtfds st ! j"
  by (auto simp: storage_pwrite_at_def bind_outcome_Inr)

lemma iovec_sector_other:
  assumes run: "iovec_sector w i ph sec (d, buf) = Inr (n, d', buf')" and j: "j \<noteq> i"
  shows "rmtfds (d_storage d') ! j = rmtfds (d_storage d) ! j"
proof (cases w)
  case True
  obtain n1 buf1 where rd: "rmtfs_mem_read (d_shm d) (d_ucopy d (d_access d)) (word_of_int ph) buf SECTOR_SIZE = Inr (n1, buf1)"
    using run True by (auto simp: iovec_sector_def bind_outcome_Inr)
  show ?thesis
  proof (cases "n1 = int SECTOR_SIZE")
    case n1: True
    with run True rd obtain st os where "storage_pwrite_at (d_storage d) (d_os d) i buf1 sec = Inr (n, st, os)"
      and "d' = d\<lparr>d_access := Suc (d_access d), d_storage := st, d_os := os\<rparr>"
      by (auto simp: iovec_sector_def bind_outcome_Inr Let_def)
    with j storage_pwrite_at_other show ?thesis
      by simp
  next
    case False
    with run True rd show ?thesis
      by (auto simp: iovec_sector_def Let_def)
  qed
next
  case False
  then obtain n1 buf1 os where rd:
    "storage_pread (d_storage d) (d_os d) (rmtfds (d_storage d) ! i) buf SECTOR_SIZE sec = Inr (n1, buf1, os)"
    using run by (auto simp: iovec_sector_def bind_outcome_Inr)
  show ?thesis
  proof (cases "0 \<le> n1")
    case True
    with run False rd obtain s where "d' = d\<lparr>d_os := os, d_shm := s, d_access := Suc (d_access d)\<rparr>"
      by (auto simp: iovec_sector_def bind_outcome_Inr Let_def)
    then show ?thesis
      by simp
  next
    case n1: False
    with run False rd show ?thesis
      by (auto simp: iovec_sector_def Let_def)
  qed
qed

lemma iovec_sectors_other:
  "iovec_sectors w i ph sec m s = Inr (ok, s') \<Longrightarrow> j \<noteq> i \<Longrightarrow>
     rmtfds (d_storage (fst s')) ! j = rmtfds (d_storage (fst s)) ! j"
proof (induction m arbitrary: ph sec s)
  case 0
  then show ?case by simp
next
  case (Suc m)
  obtain d buf where s: "s = (d, buf)"
    by fastforce
  with Suc.prems(1) obtain n d1 buf1 where one: "iovec_sector w i ph sec (d, buf) = Inr (n, d1, buf1)"
    and rest: "(if n \<noteq> int SECTOR_SIZE then Inr (False, d1, buf1)
        else iovec_sectors w i (ph + int SECTOR_SIZE) (sec + int SECTOR_SIZE) m (d1, buf1)) = Inr (ok, s')"
    by (auto simp: bind_outcome_Inr)
  with Suc.IH [of _ _ "(d1, buf1)"] iovec_sector_other [OF one Suc.prems(2)] Suc.prems(2) s show ?case
    by (auto split: if_splits)
qed

lemma iovec_entries_other:
  "iovec_entries w i es s = Inr (ok, s') \<Longrightarrow> j \<noteq> i \<Longrightarrow>
     rmtfds (d_storage (fst s')) ! j = rmtfds (d_storage (fst s)) ! j"
proof (induction es arbitrary: s)
  case Nil
  then show ?case by simp
next
  case (Cons e es)
  from Cons.prems(1) obtain ok1 s1 where one:
    "iovec_sectors w i (uint (phys_offset e)) (iovec_sector_base e) (unat (num_sector e)) s = Inr (ok1, s1)"
    and rest: "(if ok1 then iovec_entries w i es s1 else Inr (False, s1)) = Inr (ok, s')"
    by (auto simp: bind_outcome_Inr)
  with Cons.IH [of s1] iovec_sectors_other [OF one Cons.prems(2)] Cons.prems(2) show ?case
    by (auto split: if_splits)
qed

lemma storage_get_node: "storage_get st node c = Inr (Some i) \<Longrightarrow> rmtfd_node (rmtfds st ! i) = node"
  by (auto simp: storage_get_def split: if_splits)

text \<open>A reply goes to the requester, and there is at most one.\<close>

definition replies_to :: "qrtr_packet \<Rightarrow> sent \<Rightarrow> bool" where
  "replies_to pkt out \<longleftrightarrow> out = [] \<or> (\<exists>data. out = [(pkt_node pkt, pkt_port pkt, data)])"

lemma respond_replies: "respond encode txn resp pkt d = Inr (d', out) \<Longrightarrow> d' = d \<and> replies_to pkt out"
  by (auto simp: respond_def replies_to_def split: option.splits sum.splits)

definition isolated :: "qrtr_packet \<Rightarrow> daemon \<Rightarrow> daemon \<Rightarrow> bool" where
  "isolated pkt d d' \<longleftrightarrow>
     (\<forall>j. slot_used (rmtfds (d_storage d) ! j) \<longrightarrow> rmtfd_node (rmtfds (d_storage d) ! j) \<noteq> pkt_node pkt \<longrightarrow>
        rmtfds (d_storage d') ! j = rmtfds (d_storage d) ! j)"

lemma rmtfs_open_isolated:
  "rmtfs_open c d pkt = Inr (d', out) \<Longrightarrow> replies_to pkt out \<and> isolated pkt d d'"
  by (auto simp: rmtfs_open_def Let_def isolated_def dest!: respond_replies
      intro: storage_open_other split: prod.splits sum.splits option.splits)

lemma rmtfs_close_isolated:
  assumes "rmtfs_close c d pkt = Inr (d', out)"
  shows "replies_to pkt out \<and> isolated pkt d d'"
proof (cases "decode_close c pkt")
  case (Pair r txn)
  show ?thesis
  proof (cases r)
    case (Inl e)
    with Pair assms show ?thesis
      by (auto simp: rmtfs_close_def Let_def isolated_def dest!: respond_replies split: if_splits)
  next
    case (Inr req)
    with Pair assms obtain p where p: "storage_get (d_storage d) (pkt_node pkt) (sint (cl_caller_id req)) = Inr p"
      by (auto simp: rmtfs_close_def Let_def bind_outcome_Inr)
    show ?thesis
    proof (cases p)
      case None
      with Pair Inr p assms show ?thesis
        by (auto simp: rmtfs_close_def Let_def isolated_def dest!: respond_replies split: if_splits)
    next
      case (Some i)
      obtain st os where cl: "storage_close (d_storage d) (d_os d) i = (st, os)"
        by fastforce
      with Pair Inr p Some assms have "replies_to pkt out" "d_storage d' = st"
        by (auto simp: rmtfs_close_def Let_def dest!: respond_replies split: if_splits)
      moreover have "rmtfd_node (rmtfds (d_storage d) ! i) = pkt_node pkt"
        using p Some storage_get_node by blast
      ultimately show ?thesis
        using storage_close_other [OF cl] unfolding isolated_def by metis
    qed
  qed
qed

lemma rmtfs_iovec_isolated:
  assumes "rmtfs_iovec c stack d pkt = Inr (d', out)"
  shows "replies_to pkt out \<and> isolated pkt d d'"
proof (cases "decode_iovec c pkt")
  case (Pair r txn)
  with assms obtain req where req: "r = Inr req"
    by (cases r) (auto simp: rmtfs_iovec_def Let_def)
  with Pair assms obtain p where p: "storage_get (d_storage d) (pkt_node pkt) (sint (io_caller_id req)) = Inr p"
    by (auto simp: rmtfs_iovec_def Let_def bind_outcome_Inr)
  show ?thesis
  proof (cases p)
    case None
    with Pair req p assms show ?thesis
      by (auto simp: rmtfs_iovec_def Let_def bind_outcome_Inr isolated_def dest!: respond_replies
          dest: iovec_sync_frame)
  next
    case (Some i)
    from Pair req p Some assms obtain ok s1 d2 where
      es: "iovec_entries (io_direction req \<noteq> 0) i (io_iovec req) (d, stack) = Inr (ok, s1)"
      and sy: "iovec_sync (io_direction req \<noteq> 0) (Some i) (fst s1) = Inr d2" and "d' = d2" "replies_to pkt out"
      by (auto simp: rmtfs_iovec_def Let_def bind_outcome_Inr dest!: respond_replies)
    moreover have "rmtfd_node (rmtfds (d_storage d) ! i) = pkt_node pkt"
      using p Some storage_get_node by blast
    ultimately show ?thesis
      using iovec_sync_frame [OF sy] iovec_entries_other [OF es] by (fastforce simp: isolated_def)
  qed
qed

lemma rmtfs_alloc_buf_isolated:
  "rmtfs_alloc_buf c d pkt = Inr (d', out) \<Longrightarrow> replies_to pkt out \<and> isolated pkt d d'"
  by (auto simp: rmtfs_alloc_buf_def Let_def isolated_def dest!: respond_replies split: prod.splits sum.splits)

lemma rmtfs_get_dev_error_isolated:
  "rmtfs_get_dev_error c d pkt = Inr (d', out) \<Longrightarrow> replies_to pkt out \<and> isolated pkt d d'"
  by (auto simp: rmtfs_get_dev_error_def Let_def isolated_def bind_outcome_Inr dest!: respond_replies
      split: prod.splits sum.splits option.splits)

lemmas handlers_isolated =
  rmtfs_open_isolated rmtfs_close_isolated rmtfs_iovec_isolated rmtfs_alloc_buf_isolated
  rmtfs_get_dev_error_isolated

lemma silent_isolated: "replies_to pkt []" "isolated pkt d d"
  by (simp_all add: replies_to_def isolated_def)

lemma dispatch_isolated:
  "dispatch c stack d m pkt = Inr (d', out) \<Longrightarrow> replies_to pkt out \<and> isolated pkt d d'"
  by (auto simp: dispatch_def silent_isolated split: if_splits dest: handlers_isolated)

section \<open>No undefined behaviour\<close>

text \<open>
  On a slot of the table and a window that does not wrap, the accesses to the image and to
  the shared memory are defined, whether they succeed or not.
\<close>

lemma storage_pwrite_defined:
  assumes slot: "slot_wf (storage_read_only st) i r" and x: "x \<noteq> []" and off: "off + length x < 2 ^ 64"
  shows "\<exists>res. storage_pwrite st os r x (int off) = Inr res"
proof (cases "storage_read_only st")
  case ro: True
  have new: "pwrite_new_len (int off) (length x) = off + length x"
    using off by (simp add: pwrite_new_len_def nat_mod_distrib nat_add_distrib)
  show ?thesis
  proof (cases "rmtfd_shadow_len r < off + length x")
    case True
    obtain q os1 where re: "sys_realloc os (rmtfd_shadow_buf r) (off + length x) = (q, os1)"
      by fastforce
    show ?thesis
    proof (cases q)
      case None
      with ro True re show ?thesis
        by (simp add: storage_pwrite_def Let_def new)
    next
      case (Some b)
      with sys_realloc_grow [OF re] have "length b = off + length x"
        by auto
      with ro True re Some show ?thesis
        by (simp add: storage_pwrite_def Let_def new)
    qed
  next
    case False
    with x slot obtain b where "rmtfd_shadow_buf r = Some b" "off + length x \<le> length b"
      by (cases "rmtfd_shadow_buf r") (auto simp: slot_wf_def)
    with ro False show ?thesis
      by (simp add: storage_pwrite_def Let_def new)
  qed
next
  case False
  then show ?thesis
    by (simp add: storage_pwrite_def Let_def split: prod.split)
qed

lemma sys_pread_length: "sys_pread os fd n off = (m, x, os') \<Longrightarrow> length x \<le> n \<and> (0 \<le> m \<longrightarrow> m \<le> int n)"
  by (auto simp: sys_pread_def Let_def window split: if_splits option.splits)

lemma length_mem_put_fit: "off + length x \<le> length buf \<Longrightarrow> length (mem_put off x buf) = length buf"
  by (simp add: window)

lemma storage_pread_defined:
  assumes slot: "slot_wf (storage_read_only st) i r" and buf: "length buf = n"
  shows "\<exists>buf' os'. storage_pread st os r buf n (int off) = Inr (int n, buf', os') \<and> length buf' = n"
proof (cases "storage_read_only st")
  case ro: True
  let ?n = "min (int n) (int (rmtfd_shadow_len r) - int off)"
  show ?thesis
  proof (cases "0 < ?n")
    case True
    with slot obtain b where b: "rmtfd_shadow_buf r = Some b" "int off + ?n \<le> int (length b)"
      by (cases "rmtfd_shadow_buf r") (auto simp: slot_wf_def)
    have "length (mem_put 0 (mem_slice off (nat ?n) b) buf) = n"
      using buf True by (subst length_mem_put_fit) (auto simp: window)
    with ro True b buf show ?thesis
      by (auto simp: storage_pread_def Let_def window)
  next
    case False
    with ro buf show ?thesis
      by (auto simp: storage_pread_def Let_def window)
  qed
next
  case False
  obtain m x os1 where rd: "sys_pread os (rmtfd_fd r) n (int off) = (m, x, os1)"
    by (metis prod_cases3)
  note l = sys_pread_length [OF rd]
  have "length (mem_put 0 x buf) = n"
    using l buf by (simp add: window)
  moreover have "nat m + (n - nat m) \<le> n"
    using l by auto
  ultimately show ?thesis
    using False rd by (auto simp: storage_pread_def window)
qed

lemma iovec_sector_defined:
  assumes inv: "daemon_inv k d" and uc: "d_ucopy d = (\<lambda>_. None)" and i: "i < MAX_CALLERS"
    and buf: "length buf = SECTOR_SIZE" and p: "p + SECTOR_SIZE < 2 ^ 63" and q: "q + SECTOR_SIZE < 2 ^ 63"
  shows "\<exists>n d' buf'. iovec_sector w i (int p) (int q) (d, buf) = Inr (n, d', buf') \<and>
    d_ucopy d' = d_ucopy d \<and> length buf' = SECTOR_SIZE"
proof (cases w)
  case True
  have slot: "slot_wf (storage_read_only (d_storage d)) i (rmtfds (d_storage d) ! i)" and shm: "shm_ok (d_shm d)"
    using inv i by (simp_all add: daemon_inv_def storage_inv_def storage_wf_def)
  from rmtfs_mem_read_eq [OF shm sector_pos p buf] obtain n x where
    rd: "rmtfs_mem_read (d_shm d) None (word_of_nat p) buf SECTOR_SIZE = Inr (n, x)" and x: "length x = SECTOR_SIZE"
    by blast
  have "x \<noteq> []" "q + length x < 2 ^ 64"
    using x q by (auto simp: SECTOR_SIZE_def)
  from storage_pwrite_defined [OF slot this, of "d_os d"] obtain res where
    "storage_pwrite (d_storage d) (d_os d) (rmtfds (d_storage d) ! i) x (int q) = Inr res"
    by blast
  with True rd uc x show ?thesis
    by (cases res) (simp add: iovec_sector_def Let_def storage_pwrite_at_def)
next
  case False
  have slot: "slot_wf (storage_read_only (d_storage d)) i (rmtfds (d_storage d) ! i)" and shm: "shm_ok (d_shm d)"
    using inv i by (simp_all add: daemon_inv_def storage_inv_def storage_wf_def)
  from storage_pread_defined [OF slot buf] obtain x os' where
    rd: "storage_pread (d_storage d) (d_os d) (rmtfds (d_storage d) ! i) buf SECTOR_SIZE (int q) = Inr (int SECTOR_SIZE, x, os')"
    and x: "length x = SECTOR_SIZE"
    by blast
  have "x \<noteq> []" "length x < 2 ^ 31" "p + length x < 2 ^ 63"
    using x p by (auto simp: SECTOR_SIZE_def)
  from rmtfs_mem_write_eq [OF shm this] obtain n s where
    "rmtfs_mem_write (d_shm d) None (word_of_nat p) x = Inr (n, s)"
    by blast
  with False rd uc x show ?thesis
    by (simp add: iovec_sector_def Let_def)
qed

lemma iovec_sectors_defined:
  assumes "daemon_inv k (fst s)" and "d_ucopy (fst s) = (\<lambda>_. None)" and "i < MAX_CALLERS"
    and "length (snd s) = SECTOR_SIZE" and "p + SECTOR_SIZE * m < 2 ^ 63" and "q + SECTOR_SIZE * m < 2 ^ 63"
  shows "\<exists>ok s'. iovec_sectors w i (int p) (int q) m s = Inr (ok, s') \<and>
    d_ucopy (fst s') = (\<lambda>_. None) \<and> length (snd s') = SECTOR_SIZE"
  using assms
proof (induction m arbitrary: p q s)
  case 0
  then show ?case by auto
next
  case (Suc m)
  obtain d buf where s: "s = (d, buf)"
    by fastforce
  have "p + SECTOR_SIZE < 2 ^ 63" "q + SECTOR_SIZE < 2 ^ 63"
    using Suc.prems(5,6) by simp_all
  with iovec_sector_defined [of k d i buf p q w] Suc.prems s obtain n d1 buf1 where
    one: "iovec_sector w i (int p) (int q) (d, buf) = Inr (n, d1, buf1)"
    and d1: "d_ucopy d1 = (\<lambda>_. None)" "length buf1 = SECTOR_SIZE"
    by auto
  have "daemon_inv k d1"
    using iovec_sector_inv [OF _ _ one] Suc.prems s by simp
  with Suc.IH [of "(d1, buf1)" "p + SECTOR_SIZE" "q + SECTOR_SIZE"] d1 Suc.prems(3,5,6) show ?case
    by (auto simp: s one)
qed

lemma iovec_base_bound:
  "\<exists>q. iovec_sector_base e = int q \<and> q + SECTOR_SIZE * unat (num_sector e) < 2 ^ 63"
proof -
  let ?w = "sector_addr e * word_of_nat SECTOR_SIZE"
  have "unat ?w < 2 ^ 32" "unat (num_sector e) < 2 ^ 32"
    using unsigned_less [of ?w] unsigned_less [of "num_sector e"] by simp_all
  then have "unat ?w + SECTOR_SIZE * unat (num_sector e) < 2 ^ 63"
    by (simp add: SECTOR_SIZE_def)
  moreover have "iovec_sector_base e = int (unat ?w)"
    by (simp add: iovec_sector_base_def)
  ultimately show ?thesis
    by blast
qed

lemma iovec_entries_defined:
  assumes "daemon_inv k (fst s)" and "d_ucopy (fst s) = (\<lambda>_. None)" and "i < MAX_CALLERS"
    and "length (snd s) = SECTOR_SIZE"
  shows "\<exists>ok s'. iovec_entries w i es s = Inr (ok, s')"
  using assms
proof (induction es arbitrary: s)
  case Nil
  then show ?case by auto
next
  case (Cons e es)
  obtain q where q: "iovec_sector_base e = int q" "q + SECTOR_SIZE * unat (num_sector e) < 2 ^ 63"
    using iovec_base_bound by blast
  from iovec_sectors_defined [OF Cons.prems iovec_window_bound q(2), of w] obtain ok s1 where
    one: "iovec_sectors w i (int (unat (phys_offset e))) (int q) (unat (num_sector e)) s = Inr (ok, s1)"
    and s1: "d_ucopy (fst s1) = (\<lambda>_. None)" "length (snd s1) = SECTOR_SIZE"
    by blast
  have "daemon_inv k (fst s1)"
    using iovec_sectors_inv [OF _ _ one] Cons.prems by simp
  from Cons.IH [OF this s1(1) Cons.prems(3) s1(2)] one q(1) show ?case
    by (cases ok) auto
qed

text \<open>
  A message the handlers can serve: it decodes, the transaction id was written, and a caller
  id names a handle of the requesting node.
\<close>

definition caller_known :: "daemon \<Rightarrow> qrtr_packet \<Rightarrow> u32 \<Rightarrow> bool" where
  "caller_known d pkt w \<longleftrightarrow> (\<exists>i. storage_get (d_storage d) (pkt_node pkt) (sint w) = Inr (Some i))"

definition serviceable :: "codec \<Rightarrow> daemon \<Rightarrow> nat \<Rightarrow> qrtr_packet \<Rightarrow> bool" where
  "serviceable c d m pkt \<longleftrightarrow>
     (m = QMI_RMTFS_OPEN \<longrightarrow> (\<exists>req t. decode_open c pkt = (Inr req, Some t))) \<and>
     (m = QMI_RMTFS_CLOSE \<longrightarrow> (\<exists>req t. decode_close c pkt = (Inr req, Some t) \<and> caller_known d pkt (cl_caller_id req))) \<and>
     (m = QMI_RMTFS_RW_IOVEC \<longrightarrow> (\<exists>req t. decode_iovec c pkt = (Inr req, Some t) \<and> caller_known d pkt (io_caller_id req))) \<and>
     (m = QMI_RMTFS_ALLOC_BUFF \<longrightarrow> (\<exists>req t. decode_alloc c pkt = (Inr req, Some t))) \<and>
     (m = QMI_RMTFS_GET_DEV_ERROR \<longrightarrow>
        (\<exists>req t. decode_dev_error c pkt = (Inr req, Some t) \<and> caller_known d pkt (de_caller_id req)))"

lemma respond_defined [simp]: "\<exists>d' out. respond encode (Some t) resp pkt d = Inr (d', out)"
  by (auto simp: respond_def split: sum.splits)

lemma iovec_sync_defined: "\<exists>d'. iovec_sync w (Some i) d = Inr d'"
  by (cases "sys_fdatasync (d_os d) (rmtfd_fd (rmtfds (d_storage d) ! i))")
    (auto simp: iovec_sync_def storage_sync_def)

lemma rmtfs_iovec_defined:
  assumes inv: "daemon_inv k d" and uc: "d_ucopy d = (\<lambda>_. None)" and stack: "length stack = SECTOR_SIZE"
    and req: "decode_iovec c pkt = (Inr req, Some t)" and known: "caller_known d pkt (io_caller_id req)"
  shows "\<exists>d' out. rmtfs_iovec c stack d pkt = Inr (d', out)"
proof -
  from known obtain i where i: "storage_get (d_storage d) (pkt_node pkt) (sint (io_caller_id req)) = Inr (Some i)"
    by (auto simp: caller_known_def)
  have "i < MAX_CALLERS"
    using i by (rule storage_get_bound)
  from iovec_entries_defined [of k "(d, stack)" i] inv uc stack this obtain ok s1 where
    es: "iovec_entries (io_direction req \<noteq> 0) i (io_iovec req) (d, stack) = Inr (ok, s1)"
    by (metis fst_conv snd_conv)
  obtain d2 where "iovec_sync (io_direction req \<noteq> 0) (Some i) (fst s1) = Inr d2"
    using iovec_sync_defined by blast
  with req i es show ?thesis
    by (cases s1) (simp add: rmtfs_iovec_def Let_def)
qed

section \<open>Properties\<close>


definition demo_codec :: "u8 \<Rightarrow> codec" where
  "demo_codec direction =
     \<lparr>qrtr_decode = (\<lambda>buf sq. Inr (0, \<lparr>pkt_type = QRTR_TYPE_DATA, pkt_node = fst sq, pkt_port = snd sq, pkt_data = buf\<rparr>)),
      qmi_decode_header = (\<lambda>pkt. Inr (length (pkt_data pkt))),
      decode_open = (\<lambda>_. (Inr \<lparr>or_path_len = 15, or_path = ''/boot/modem_fs1''\<rparr>, Some 7)),
      decode_close = (\<lambda>_. (Inr \<lparr>cl_caller_id = 0\<rparr>, Some 7)),
      decode_iovec = (\<lambda>_. (Inr \<lparr>io_caller_id = 0, io_direction = direction,
         io_iovec = [\<lparr>sector_addr = 0, phys_offset = 0x85e00000, num_sector = 1\<rparr>], io_is_force_sync = 0\<rparr>, Some 7)),
      decode_alloc = (\<lambda>_. (Inr \<lparr>ab_caller_id = 0, ab_buff_size = 512\<rparr>, Some 7)),
      decode_dev_error = (\<lambda>_. (Inr \<lparr>de_caller_id = 0\<rparr>, Some 7)),
      encode_open = (\<lambda>_ r. Inr [ucast (op_caller_id r), if op_caller_id_valid r then 1 else 0]),
      encode_close = (\<lambda>_ r. Inr [ucast (qr_result (cl_result r))]),
      encode_iovec = (\<lambda>_ r. Inr [ucast (qr_result (io_result r))]),
      encode_alloc = (\<lambda>_ r. Inr [ucast (qr_result (ab_result r))]),
      encode_dev_error = (\<lambda>_ r. Inr [ucast (qr_result (de_result r))])\<rparr>"

definition demo_pkt :: qrtr_packet where
  "demo_pkt = \<lparr>pkt_type = QRTR_TYPE_DATA, pkt_node = 5, pkt_port = 1, pkt_data = []\<rparr>"

text \<open>A daemon on which node 5 has opened the first modem partition.\<close>

definition demo_daemon :: "bool \<Rightarrow> daemon" where
  "demo_daemon ro =
     (case storage_open (demo_storage ro) demo_os 5 ''/boot/modem_fs1'' of (_, st, os) \<Rightarrow>
      \<lparr>d_storage = st, d_os = os,
       d_shm = (\<lparr>mem_address = 0x85e00000, mem_size = 512, mem_base = None, mem_fd = 4\<rparr>,
                \<lparr>drv_base = replicate 512 9, drv_addr = 0x85e00000, drv_size = 512, drv_client_id = 1, drv_perms = 0\<rparr>),
       d_ucopy = (\<lambda>_. None), d_access = 0, d_verbose = False\<rparr>)"

lemma demo_open_slot: "fst (storage_open (demo_storage ro) demo_os 5 ''/boot/modem_fs1'') = Some 0"
  by (cases ro) (simp_all, code_simp+)

lemma demo_daemon_inv: "daemon_inv (False, 4) (demo_daemon ro)"
proof -
  have "storage_inv (d_storage (demo_daemon ro), d_os (demo_daemon ro))"
    by (auto simp: demo_daemon_def intro: storage_open_inv [OF demo_inv] split: prod.split)
  moreover have "d_shm (demo_daemon ro) = (\<lparr>mem_address = 0x85e00000, mem_size = 512, mem_base = None, mem_fd = 4\<rparr>,
      \<lparr>drv_base = replicate 512 9, drv_addr = 0x85e00000, drv_size = 512, drv_client_id = 1, drv_perms = 0\<rparr>)"
    by (simp add: demo_daemon_def split: prod.split)
  ultimately show ?thesis
    by (simp add: daemon_inv_def shm_key_def shm_ok_def shm_bytes_def drv_ok_def)
qed

lemma demo_slot:
  "storage_get (d_storage (demo_daemon ro)) 5 0 = Inr (Some 0)"
  by (cases ro) (simp_all, code_simp+)

lemma demo_ucopy: "d_ucopy (demo_daemon ro) = (\<lambda>_. None)"
  by (simp add: demo_daemon_def split: prod.split)

lemma demo_image:
  "storage_read_only (d_storage (demo_daemon True))"
  "image_bytes (d_storage (demo_daemon True), d_os (demo_daemon True)) 0 = Some [1, 1, 1, 1]"
  "rmtfd_shadow_buf (rmtfds (d_storage (demo_daemon True)) ! 0) = Some [1, 1, 1, 1]"
  by code_simp+

lemma demo_decode:
  "decode_iovec (demo_codec dir) demo_pkt = (Inr \<lparr>io_caller_id = 0, io_direction = dir,
     io_iovec = [\<lparr>sector_addr = 0, phys_offset = 0x85e00000, num_sector = 1\<rparr>], io_is_force_sync = 0\<rparr>, Some 7)"
  "pkt_node demo_pkt = 5"
  by (simp_all add: demo_codec_def demo_pkt_def)





lemma demo_verbose: "\<not> d_verbose (demo_daemon ro)"
  by (simp add: demo_daemon_def split: prod.split)




lemma rmtfs_mem_close_key: "shm_key s = shm_key s' \<Longrightarrow> rmtfs_mem_close (fst s) = rmtfs_mem_close (fst s')"
  by (simp add: shm_key_def rmtfs_mem_close_def)

lemma storage_exit_unused:
  assumes "storage_inv (st, os)" and "storage_exit st os = (st', os')" and "i < MAX_CALLERS"
  shows "\<not> slot_used (rmtfds st' ! i)"
  using storage_exit_from_inv [OF assms(1) order_refl, folded storage_exit_def, OF assms(2)] assms(3) by blast

lemma rmtfs_main_cases:
  assumes "rmtfs_main c stack opts e = Inr (Some r)"
  obtains (usage) "mr_daemon r = None" "mr_shm_trace r = []"
  | (nomem) t where "rmtfs_mem_open (mn_open e) = (None, t)" "mr_daemon r = None" "mr_shm_trace r = t"
  | (served) rmem t st d d1 out st2 os2 fd where "rmtfs_mem_open (mn_open e) = (Some rmem, t)"
      "storage_inv (st, mn_os e) \<or> \<not> os_wf (mn_os e)" "d_storage d = st" "d_os d = mn_os e" "d_shm d = (rmem, mn_device e)"
      "run_sessions c stack fd (mn_sessions e) (d, []) = Inr (Some (d1, out))"
      "storage_exit (d_storage d1) (d_os d1) = (st2, os2)"
      "mr_daemon r = Some (d1\<lparr>d_storage := st2, d_os := os2\<rparr>)"
      "mr_shm_trace r = t @ rmtfs_mem_close (fst (d_shm d1))"
proof (cases "parse_options opts config_default")
  case None
  with assms usage show ?thesis
    by (auto simp: rmtfs_main_def)
next
  case (Some cf)
  obtain p t where o: "rmtfs_mem_open (mn_open e) = (p, t)"
    by fastforce
  show ?thesis
  proof (cases p)
    case None
    with assms Some o nomem show ?thesis
      by (auto simp: rmtfs_main_def)
  next
    case (Some rmem)
    let ?st = "snd (storage_init (cf_root cf) (cf_read_only cf) (cf_partitions cf) storage_static)"
    have init: "fst (storage_init (cf_root cf) (cf_read_only cf) (cf_partitions cf) storage_static) = 0"
      by (simp add: storage_init_def Let_def)
    let ?d = "\<lparr>d_storage = ?st, d_os = mn_os e, d_shm = (rmem, mn_device e), d_ucopy = mn_ucopy e,
      d_access = 0, d_verbose = cf_verbose cf\<rparr>"
    from assms \<open>parse_options opts config_default = Some cf\<close> o Some init obtain d1 out where
      run: "run_sessions c stack (cf_rprocfd cf) (mn_sessions e) (?d, []) = Inr (Some (d1, out))"
      and r: "r = \<lparr>mr_exit = 0, mr_daemon = Some (d1\<lparr>d_storage := fst (storage_exit (d_storage d1) (d_os d1)),
          d_os := snd (storage_exit (d_storage d1) (d_os d1))\<rparr>), mr_sent = out,
          mr_shm_trace = t @ rmtfs_mem_close (fst (d_shm d1))\<rparr>"
      by (auto simp: rmtfs_main_def Let_def bind_outcome_Inr case_prod_beta split: option.splits)
    have "storage_inv (?st, mn_os e) \<or> \<not> os_wf (mn_os e)"
      using storage_init_os by blast
    with o Some r show ?thesis
      by (intro served [OF _ _ _ _ _ run prod.collapse [symmetric]]) simp_all
  qed
qed


definition demo_main :: main_env where
  "demo_main =
     \<lparr>mn_open = (demo_open 3)\<lparr>oe_rfsa := (demo_dev 3)\<lparr>dv_attrs := [''phys_addr'' \<mapsto> ''0x40'', ''size'' \<mapsto> ''0x10'']\<rparr>\<rparr>,
      mn_device = \<lparr>drv_base = replicate 16 0, drv_addr = 0x40, drv_size = 0x10, drv_client_id = 1, drv_perms = 0\<rparr>,
      mn_ucopy = (\<lambda>_. None), mn_os = demo_os,
      mn_sessions = [\<lparr>ss_qrtr_open = 5, ss_publish = 0,
        ss_rounds = [\<lparr>rd_signals = 1, rd_select = 1, rd_rproc = None, rd_socket = None\<rparr>]\<rparr>]\<rparr>"

lemma demo_main_open:
  "fst (rmtfs_mem_open (mn_open demo_main)) = Some \<lparr>mem_address = 0x40, mem_size = 0x10, mem_base = None, mem_fd = 3\<rparr>"
  by (simp add: demo_main_def demo_open_def demo_dev_def rmtfs_mem_open_def rmtfs_mem_open_rfsa_def rmtfs_mem_open_dev_def
      parse_hex_sysattr_def strtoull16_def is_space_def hex_body_def hex_digit_def Let_def)


text \<open>
  \<open>rmtfs_get_dev_error\<close> never delivers the device error: the check of the handle is
  inverted, so a valid handle is answered with an internal error and an unknown one is
  dereferenced as a null pointer.
\<close>

theorem get_dev_error_inverted:
  assumes "decode_dev_error c pkt = (Inr req, Some t)"
    and "storage_get (d_storage d) (pkt_node pkt) (sint (de_caller_id req)) = Inr p"
  shows "rmtfs_get_dev_error c d pkt =
    (case p of
       None \<Rightarrow> Inl Null_deref
     | Some i \<Rightarrow> respond (encode_dev_error c) (Some t)
         \<lparr>de_result = \<lparr>qr_result = QMI_RMTFS_RESULT_FAILURE, qr_error = QMI_RMTFS_ERR_INTERNAL\<rparr>,
          de_status_valid = False, de_status = 0\<rparr> pkt d)"
  using assms
  by (auto simp: rmtfs_get_dev_error_def Let_def storage_get_error_def qmi_result_error_def qmi_result_zero_def
      QMI_RMTFS_RESULT_FAILURE_def split: option.splits)

theorem get_dev_error_inverted_witness:
  "rmtfs_get_dev_error (demo_codec 0) (demo_daemon True) (demo_pkt\<lparr>pkt_node := 9\<rparr>) = Inl Null_deref"
proof -
  have "decode_dev_error (demo_codec 0) (demo_pkt\<lparr>pkt_node := 9\<rparr>) = (Inr \<lparr>de_caller_id = 0\<rparr>, Some 7)"
    by (simp add: demo_codec_def)
  moreover have "storage_get (d_storage (demo_daemon True)) 9 0 = Inr None"
    by code_simp
  ultimately show ?thesis
    using get_dev_error_inverted [of "demo_codec 0" "demo_pkt\<lparr>pkt_node := 9\<rparr>" "\<lparr>de_caller_id = 0\<rparr>" 7 "demo_daemon True" None]
    by simp
qed

text \<open>
  A write request for a handle that the node does not hold is not answered with an
  error when the storage is writable: the common exit synchronises a null handle.
\<close>

theorem iovec_unknown_writer:
  assumes "decode_iovec c pkt = (Inr req, txn)" and "io_direction req \<noteq> 0"
    and "storage_get (d_storage d) (pkt_node pkt) (sint (io_caller_id req)) = Inr None"
    and "\<not> storage_read_only (d_storage d)"
  shows "rmtfs_iovec c stack d pkt = Inl Null_deref"
  using assms by (simp add: rmtfs_iovec_def Let_def iovec_sync_def storage_sync_def)

theorem iovec_unknown_writer_witness:
  "rmtfs_iovec (demo_codec 1) [] (demo_daemon False) (demo_pkt\<lparr>pkt_node := 9\<rparr>) = Inl Null_deref"
proof -
  have "decode_iovec (demo_codec 1) (demo_pkt\<lparr>pkt_node := 9\<rparr>) = (Inr \<lparr>io_caller_id = 0, io_direction = 1,
     io_iovec = [\<lparr>sector_addr = 0, phys_offset = 0x85e00000, num_sector = 1\<rparr>], io_is_force_sync = 0\<rparr>, Some 7)"
    by (simp add: demo_codec_def)
  moreover have "storage_get (d_storage (demo_daemon False)) 9 0 = Inr None"
    "\<not> storage_read_only (d_storage (demo_daemon False))"
    by code_simp+
  ultimately show ?thesis
    using iovec_unknown_writer [of "demo_codec 1" "demo_pkt\<lparr>pkt_node := 9\<rparr>"] by simp
qed

text \<open>
  C33. The event loop ends when a second signal has arrived, whatever the remote processor
  and the socket do: a run over rounds of which one sees two signals returns.
\<close>

theorem loop_ends_on_second_signal:
  assumes "run_loop c stack rproc rds s = Inr r" and "\<exists>rd \<in> set rds. 2 \<le> rd_signals rd"
  shows "r \<noteq> None"
  using assms
proof (induction rds arbitrary: s)
  case Nil
  then show ?case by simp
next
  case (Cons rd rds)
  from Cons.prems(1) obtain stop s1 where one: "loop_round c stack rproc rd s = Inr (stop, s1)"
    and rest: "(if stop then Inr (Some s1) else run_loop c stack rproc rds s1) = Inr r"
    by (auto simp: bind_outcome_Inr)
  have "stop" if "2 \<le> rd_signals rd"
    using that one by (auto simp: loop_round_def)
  with rest Cons.IH [of s1] Cons.prems(2) show ?case
    by (cases stop) auto
qed

theorem loop_ends_on_second_signal_witness:
  "run_loop (demo_codec 1) [] True
     [\<lparr>rd_signals = 1, rd_select = 0, rd_rproc = None, rd_socket = None\<rparr>,
      \<lparr>rd_signals = 2, rd_select = 0, rd_rproc = None, rd_socket = None\<rparr>]
     \<lparr>lp_daemon = demo_daemon True, lp_handled = False, lp_ret = 0, lp_done = None, lp_sent = [], lp_stops = 0\<rparr>
   \<noteq> Inr None"
  (is "run_loop ?c ?st ?rp ?rds ?s \<noteq> _")
  using loop_ends_on_second_signal [of ?c ?st ?rp ?rds ?s None] by auto

end
