(* ===== verification/Qmi_Tlv.thy ===== *)
theory Qmi_Tlv
  imports Posix
begin

text \<open>
  \<^verbatim>\<open>qmi_tlv.c\<close>: building and reading the type-length-value items of a QMI packet in one byte
  buffer. A \<open>qmi_tlv\<close> holds the buffer \<open>buf\<close> points to; \<open>tlv_allocated\<close> says whether the
  buffer is the builder's own heap block (then \<open>allocated = buf\<close>) or the caller's. Item
  pointers are offsets, and a load or store outside the buffer is \<open>Out_of_bounds\<close>.
\<close>

section \<open>Layout\<close>

text \<open>
  \<open>struct qmi_packet\<close> is packed: flags, transaction id, message id and message length take
  one, two, two and two bytes. \<open>struct qmi_tlv_item\<close> is packed too: one byte of key, two of
  length.
\<close>

definition QMI_PACKET_SIZE :: nat where
  "QMI_PACKET_SIZE = 7"

definition QMI_ITEM_SIZE :: nat where
  "QMI_ITEM_SIZE = 3"

record qmi_tlv =
  tlv_allocated :: bool
  tlv_buf :: bytes
  tlv_size :: nat
  tlv_error :: int

text \<open>Loads and stores of a little-endian unsigned integer of \<open>n\<close> bytes.\<close>

definition load_le :: "nat \<Rightarrow> bytes \<Rightarrow> nat \<Rightarrow> nat outcome" where
  "load_le n buf pos =
     (if pos + n \<le> length buf then Inr (le_val (mem_slice pos n buf)) else Inl Out_of_bounds)"

definition store_bytes :: "bytes \<Rightarrow> bytes \<Rightarrow> nat \<Rightarrow> bytes outcome" where
  "store_bytes d buf pos =
     (if pos + length d \<le> length buf then Inr (mem_put pos d buf) else Inl Out_of_bounds)"

section \<open>Operations\<close>

definition qmi_packet_header :: "nat \<Rightarrow> nat \<Rightarrow> nat \<Rightarrow> nat \<Rightarrow> bytes" where
  "qmi_packet_header flags txn msg_id msg_len =
     le_bytes 1 flags @ le_bytes 2 txn @ le_bytes 2 msg_id @ le_bytes 2 msg_len"

text \<open>Neither allocation is checked: a failed one is dereferenced.\<close>

definition qmi_tlv_init :: "os \<Rightarrow> nat \<Rightarrow> nat \<Rightarrow> nat \<Rightarrow> (qmi_tlv \<times> os) outcome" where
  "qmi_tlv_init os txn msg_id msg_type =
     (case sys_realloc os None 32 of
        (None, _) \<Rightarrow> Inl Null_deref
      | (Some _, os1) \<Rightarrow>
          (case sys_realloc os1 None QMI_PACKET_SIZE of
             (None, _) \<Rightarrow> Inl Null_deref
           | (Some p, os2) \<Rightarrow>
               bind_outcome (store_bytes (qmi_packet_header msg_type txn msg_id 0) p 0)
                 (\<lambda>buf. Inr (\<lparr>tlv_allocated = True, tlv_buf = buf, tlv_size = QMI_PACKET_SIZE,
                              tlv_error = 0\<rparr>, os2))))"

text \<open>The result is the view and, when the caller asked for it, the transaction id.\<close>

definition qmi_tlv_decode ::
  "os \<Rightarrow> bytes \<Rightarrow> nat \<Rightarrow> bool \<Rightarrow> u32 \<Rightarrow> ((qmi_tlv \<times> nat option) option \<times> os) outcome" where
  "qmi_tlv_decode os buf len want_txn msg_type =
     bind_outcome (load_le 1 buf 0) (\<lambda>flags.
     if flags \<noteq> unat msg_type then Inr (None, os)
     else case sys_realloc os None 32 of
            (None, _) \<Rightarrow> Inl Null_deref
          | (Some _, os1) \<Rightarrow>
              (let tlv = \<lparr>tlv_allocated = False, tlv_buf = buf, tlv_size = len, tlv_error = 0\<rparr> in
               if want_txn
               then bind_outcome (load_le 2 buf 1) (\<lambda>txn. Inr (Some (tlv, Some txn), os1))
               else Inr (Some (tlv, None), os1)))"

definition qmi_tlv_encode :: "qmi_tlv option \<Rightarrow> (qmi_tlv \<times> nat) option outcome" where
  "qmi_tlv_encode p =
     (case p of
        None \<Rightarrow> Inr None
      | Some tlv \<Rightarrow>
          if tlv_error tlv \<noteq> 0 then Inr None
          else bind_outcome
                 (store_bytes (le_bytes 2 (nat ((int (tlv_size tlv) - int QMI_PACKET_SIZE) mod 2 ^ 64)))
                    (tlv_buf tlv) 5)
                 (\<lambda>buf. Inr (Some (tlv\<lparr>tlv_buf := buf\<rparr>, tlv_size tlv))))"

definition qmi_tlv_free :: "os \<Rightarrow> qmi_tlv option \<Rightarrow> os outcome" where
  "qmi_tlv_free os p =
     (case p of
        None \<Rightarrow> Inl Null_deref
      | Some tlv \<Rightarrow>
          Inr (sys_free (sys_free os (if tlv_allocated tlv then Some (tlv_buf tlv) else None)) (Some [])))"

text \<open>
  The search loop. \<open>offset\<close> is a 32-bit unsigned that is compared with the whole packet
  size although it counts from the end of the header, and it may wrap, so the loop need not
  end: \<open>None\<close> is a run that does not return.
\<close>

partial_function (option) qmi_tlv_get_item_from ::
  "bytes \<Rightarrow> nat \<Rightarrow> u32 \<Rightarrow> nat \<Rightarrow> nat option outcome option" where
  [code]: "qmi_tlv_get_item_from buf sz ident offset =
     (if offset < sz
      then (case load_le 1 buf (QMI_PACKET_SIZE + offset) of
              Inl e \<Rightarrow> Some (Inl e)
            | Inr key \<Rightarrow>
                if key = unat ident then Some (Inr (Some (QMI_PACKET_SIZE + offset)))
                else (case load_le 2 buf (QMI_PACKET_SIZE + offset + 1) of
                        Inl e \<Rightarrow> Some (Inl e)
                      | Inr len \<Rightarrow>
                          qmi_tlv_get_item_from buf sz ident ((offset + (QMI_ITEM_SIZE + len)) mod 2 ^ 32)))
      else Some (Inr None))"

definition qmi_tlv_get_item :: "qmi_tlv \<Rightarrow> u32 \<Rightarrow> nat option outcome option" where
  "qmi_tlv_get_item tlv ident = qmi_tlv_get_item_from (tlv_buf tlv) (tlv_size tlv) ident 0"

text \<open>The result is the position and the length of the value.\<close>

definition qmi_tlv_get :: "qmi_tlv \<Rightarrow> u32 \<Rightarrow> (nat \<times> nat) option outcome option" where
  "qmi_tlv_get tlv ident =
     (case qmi_tlv_get_item tlv ident of
        None \<Rightarrow> None
      | Some r \<Rightarrow> Some (bind_outcome r (\<lambda>p. case p of
            None \<Rightarrow> Inr None
          | Some item \<Rightarrow>
              bind_outcome (load_le 2 (tlv_buf tlv) (item + 1))
                (\<lambda>len. Inr (Some (item + QMI_ITEM_SIZE, len))))))"

text \<open>
  The element count is loaded with the width the caller names, but the \<open>void\<close> pointer
  advances by one byte for every width. The result is the position of the elements, their
  number and their size.
\<close>

definition qmi_tlv_get_array ::
  "qmi_tlv \<Rightarrow> u32 \<Rightarrow> nat \<Rightarrow> (nat \<times> nat \<times> nat) option outcome option" where
  "qmi_tlv_get_array tlv ident len_size =
     (case qmi_tlv_get_item tlv ident of
        None \<Rightarrow> None
      | Some r \<Rightarrow> Some (bind_outcome r (\<lambda>p. case p of
            None \<Rightarrow> Inr None
          | Some item \<Rightarrow>
              (let ptr = item + QMI_ITEM_SIZE in
               bind_outcome
                 (if len_size \<in> {1, 2, 4} then load_le len_size (tlv_buf tlv) ptr else Inl Uninit_read)
                 (\<lambda>count.
                    bind_outcome (load_le 2 (tlv_buf tlv) (item + 1)) (\<lambda>len.
                    if count = 0 then Inl Div_by_zero
                    else Inr (Some (ptr + 1, count,
                           nat ((int len - int len_size) mod 2 ^ 32) div count))))))))"

text \<open>The result is the position of the new item, \<open>None\<close> when there is no memory.\<close>

definition qmi_tlv_alloc_item ::
  "os \<Rightarrow> qmi_tlv \<Rightarrow> nat \<Rightarrow> nat \<Rightarrow> (nat option \<times> qmi_tlv \<times> os) outcome" where
  "qmi_tlv_alloc_item os tlv ident len =
     (let new_size = (tlv_size tlv + QMI_ITEM_SIZE + len) mod 2 ^ 64 in
      case sys_realloc os (if tlv_allocated tlv then Some (tlv_buf tlv) else None) new_size of
        (None, os') \<Rightarrow> Inr (None, tlv, os')
      | (Some p, os') \<Rightarrow>
          bind_outcome
            (if tlv_allocated tlv then Inr p
             else if length (tlv_buf tlv) < tlv_size tlv then Inl Out_of_bounds
             else store_bytes (take (tlv_size tlv) (tlv_buf tlv)) p 0)
            (\<lambda>newp.
               bind_outcome (store_bytes (le_bytes 1 ident @ le_bytes 2 len) newp (tlv_size tlv))
                 (\<lambda>newp'. Inr (Some (tlv_size tlv),
                    tlv\<lparr>tlv_allocated := True, tlv_buf := newp', tlv_size := new_size\<rparr>, os'))))"

text \<open>\<open>len\<close> is the length of the caller's buffer.\<close>

definition qmi_tlv_set ::
  "os \<Rightarrow> qmi_tlv option \<Rightarrow> nat \<Rightarrow> bytes \<Rightarrow> (int \<times> qmi_tlv option \<times> os) outcome" where
  "qmi_tlv_set os p ident buf =
     (case p of
        None \<Rightarrow> Inr (- EINVAL, None, os)
      | Some tlv \<Rightarrow>
          bind_outcome (qmi_tlv_alloc_item os tlv ident (length buf)) (\<lambda>(item, tlv1, os1).
          case item of
            None \<Rightarrow> Inr (- ENOMEM, Some (tlv1\<lparr>tlv_error := ENOMEM\<rparr>), os1)
          | Some q \<Rightarrow>
              bind_outcome (store_bytes buf (tlv_buf tlv1) (q + QMI_ITEM_SIZE))
                (\<lambda>b. Inr (0, Some (tlv1\<lparr>tlv_buf := b\<rparr>), os1))))"

definition qmi_tlv_set_array ::
  "os \<Rightarrow> qmi_tlv option \<Rightarrow> nat \<Rightarrow> nat \<Rightarrow> bytes \<Rightarrow> nat \<Rightarrow> nat \<Rightarrow>
     (int \<times> qmi_tlv option \<times> os) outcome" where
  "qmi_tlv_set_array os p ident len_size buf len elem_size =
     (case p of
        None \<Rightarrow> Inr (- EINVAL, None, os)
      | Some tlv \<Rightarrow>
          (let array_size = (len * elem_size) mod 2 ^ 64 in
           bind_outcome (qmi_tlv_alloc_item os tlv ident (len_size + array_size)) (\<lambda>(item, tlv1, os1).
           case item of
             None \<Rightarrow> Inr (- ENOMEM, Some (tlv1\<lparr>tlv_error := ENOMEM\<rparr>), os1)
           | Some q \<Rightarrow>
               (let ptr = q + QMI_ITEM_SIZE in
                bind_outcome
                  (if len_size \<in> {1, 2, 4}
                   then bind_outcome (store_bytes (le_bytes len_size len) (tlv_buf tlv1) ptr)
                          (\<lambda>b. Inr (ptr + 1, b))
                   else Inr (ptr, tlv_buf tlv1))
                  (\<lambda>(ptr', b).
                     if length buf < array_size then Inl Out_of_bounds
                     else bind_outcome (store_bytes (take array_size buf) b ptr')
                            (\<lambda>b'. Inr (0, Some (tlv1\<lparr>tlv_buf := b'\<rparr>), os1)))))))"

section \<open>Packets as lists of items\<close>

text \<open>The abstract content of a packet that is being built: its header and its items in order.\<close>

definition enc_item :: "u8 \<times> bytes \<Rightarrow> bytes" where
  "enc_item = (\<lambda>(k, d). k # le_bytes 2 (length d) @ d)"

definition enc_items :: "(u8 \<times> bytes) list \<Rightarrow> bytes" where
  "enc_items items = concat (map enc_item items)"

definition items_ok :: "(u8 \<times> bytes) list \<Rightarrow> bool" where
  "items_ok items \<longleftrightarrow> (\<forall>(k, d) \<in> set items. length d < 2 ^ 16)"

definition tlv_rep :: "qmi_tlv \<Rightarrow> bytes \<Rightarrow> (u8 \<times> bytes) list \<Rightarrow> bool" where
  "tlv_rep tlv hdr items \<longleftrightarrow>
     length hdr = QMI_PACKET_SIZE \<and> tlv_buf tlv = hdr @ enc_items items \<and>
     tlv_size tlv = length (tlv_buf tlv)"

lemma enc_items_simps [simp]:
  "enc_items [] = []" "enc_items (i # items) = enc_item i @ enc_items items"
  "enc_items (items @ items') = enc_items items @ enc_items items'"
  by (simp_all add: enc_items_def)

lemma length_enc_item [simp]: "length (enc_item (k, d)) = QMI_ITEM_SIZE + length d"
  by (simp add: enc_item_def QMI_ITEM_SIZE_def)

lemma le_bytes_1 [simp]: "le_bytes (Suc 0) n = [word_of_nat n]"
  by simp

lemma take_1_le_bytes: "0 < k \<Longrightarrow> take 1 (le_bytes k n) = [word_of_nat n]"
  by (cases k) simp_all

lemma take_drop_append [simp]: "take n xs @ drop n xs @ ys = xs @ ys"
  by (metis append.assoc append_take_drop_id)

lemma split_length: "length xs = m + n \<Longrightarrow> \<exists>ys zs. xs = ys @ zs \<and> length ys = m \<and> length zs = n"
  by (intro exI [of _ "take m xs"] exI [of _ "drop m xs"]) simp

lemma length_header [simp]: "length (qmi_packet_header f t m l) = QMI_PACKET_SIZE"
  by (simp add: qmi_packet_header_def QMI_PACKET_SIZE_def)

text \<open>Loads inside a known prefix of the buffer.\<close>

lemma load_le_at:
  assumes "length pre = pos" and "length d = n"
  shows "load_le n (pre @ d @ post) pos = Inr (le_val d)"
  using assms by (auto simp: load_le_def mem_slice_def)

lemma load_key:
  assumes "length pre = pos"
  shows "load_le 1 (pre @ enc_item (k, d) @ post) pos = Inr (unat k)"
  using load_le_at [OF assms, of "[k]" 1] by (simp add: enc_item_def)

lemma load_len:
  assumes "length pre = pos" and "length d < 2 ^ 16"
  shows "load_le 2 (pre @ enc_item (k, d) @ post) (pos + 1) = Inr (length d)"
  using load_le_at [of "pre @ [k]" "pos + 1" "le_bytes 2 (length d)" 2 "d @ post"] assms
  by (simp add: enc_item_def le_val_le_bytes)

lemma load_end: "length buf \<le> pos \<Longrightarrow> 0 < n \<Longrightarrow> load_le n buf pos = Inl Out_of_bounds"
  by (simp add: load_le_def)

lemma slice_value:
  assumes "length pre = pos"
  shows "mem_slice (pos + QMI_ITEM_SIZE) (length d) (pre @ enc_item (k, d) @ post) = d"
  using assms by (simp add: mem_slice_def enc_item_def QMI_ITEM_SIZE_def)

section \<open>Searching\<close>

text \<open>
  The search returns the first item with the key. Without such an item the loop runs past
  the last item, because the bound is the packet size and not the size of the items.
\<close>

lemma qmi_tlv_get_item_from_rep:
  assumes "length hdr = QMI_PACKET_SIZE" and "items_ok items"
    and "length (hdr @ pre @ enc_items items) < 2 ^ 31"
  shows "qmi_tlv_get_item_from (hdr @ pre @ enc_items items)
           (length (hdr @ pre @ enc_items items)) (ucast k) (length pre) =
    Some (case map_of items k of
       None \<Rightarrow> Inl Out_of_bounds
     | Some _ \<Rightarrow>
         Inr (Some (length hdr + length pre + length (enc_items (takeWhile (\<lambda>i. fst i \<noteq> k) items)))))"
  using assms
proof (induction items arbitrary: pre)
  case Nil
  then show ?case
    by (subst qmi_tlv_get_item_from.simps) (simp add: load_end QMI_PACKET_SIZE_def)
next
  case (Cons i items)
  obtain k' d where i: "i = (k', d)"
    by fastforce
  let ?buf = "hdr @ pre @ enc_items (i # items)"
  have d: "length d < 2 ^ 16" and ok: "items_ok items"
    using Cons.prems by (auto simp: items_ok_def i)
  have key: "load_le 1 ?buf (QMI_PACKET_SIZE + length pre) = Inr (unat k')"
    using load_key [of "hdr @ pre" _ k' d "enc_items items"] Cons.prems by (simp add: i)
  have len: "load_le 2 ?buf (QMI_PACKET_SIZE + length pre + 1) = Inr (length d)"
    using load_len [of "hdr @ pre" _ d k' "enc_items items"] Cons.prems d by (simp add: i)
  have cont: "length pre < length ?buf"
    using Cons.prems by (simp add: i QMI_ITEM_SIZE_def)
  show ?case
  proof (cases "k' = k")
    case True
    then show ?thesis
      using cont key Cons.prems
      by (subst qmi_tlv_get_item_from.simps) (simp add: i)
  next
    case False
    then have ne: "unat k' \<noteq> unat (ucast k :: u32)"
      by (auto dest: unsigned_word_eqI)
    have off: "(length pre + (QMI_ITEM_SIZE + length d)) mod 2 ^ 32 = length (pre @ enc_item i)"
      using Cons.prems by (simp add: i)
    have "qmi_tlv_get_item_from ?buf (length ?buf) (ucast k) (length pre) =
        qmi_tlv_get_item_from (hdr @ (pre @ enc_item i) @ enc_items items)
          (length (hdr @ (pre @ enc_item i) @ enc_items items)) (ucast k) (length (pre @ enc_item i))"
      using cont key len ne off by (subst qmi_tlv_get_item_from.simps) simp
    with Cons.IH [of "pre @ enc_item i"] Cons.prems ok False show ?thesis
      by (simp add: i split: option.splits)
  qed
qed

lemma map_of_snoc: "k \<notin> fst ` set items \<Longrightarrow> map_of (items @ [(k, d)]) k = Some d"
  by (induction items) auto

lemma takeWhile_split:
  assumes "map_of items k = Some d"
  shows "items = takeWhile (\<lambda>i. fst i \<noteq> k) items @ (k, d) # tl (dropWhile (\<lambda>i. fst i \<noteq> k) items)"
  using assms by (induction items) auto

lemma qmi_tlv_get_rep:
  assumes rep: "tlv_rep tlv hdr items" and ok: "items_ok items" and size: "tlv_size tlv < 2 ^ 31"
    and d: "map_of items k = Some d"
  shows "\<exists>p. qmi_tlv_get tlv (ucast k) = Some (Inr (Some (p, length d))) \<and>
    mem_slice p (length d) (tlv_buf tlv) = d"
proof -
  let ?pre = "takeWhile (\<lambda>i. fst i \<noteq> k) items" and ?post = "tl (dropWhile (\<lambda>i. fst i \<noteq> k) items)"
  let ?h = "hdr @ enc_items ?pre"
  have hdr: "length hdr = QMI_PACKET_SIZE" and buf: "tlv_buf tlv = hdr @ enc_items items"
    and sz: "tlv_size tlv = length (tlv_buf tlv)"
    using rep by (simp_all add: tlv_rep_def)
  have split: "tlv_buf tlv = ?h @ enc_item (k, d) @ enc_items ?post"
    unfolding buf by (subst takeWhile_split [OF d]) simp
  have item: "qmi_tlv_get_item tlv (ucast k) = Some (Inr (Some (length ?h)))"
    using qmi_tlv_get_item_from_rep [OF hdr ok, of "[]" k] size d
    by (simp add: qmi_tlv_get_item_def sz buf)
  have "length d < 2 ^ 16"
    using ok map_of_SomeD [OF d] by (auto simp: items_ok_def)
  then have "load_le 2 (tlv_buf tlv) (length ?h + 1) = Inr (length d)"
    unfolding split by (intro load_len) simp_all
  with item have "qmi_tlv_get tlv (ucast k) = Some (Inr (Some (length ?h + QMI_ITEM_SIZE, length d)))"
    by (simp add: qmi_tlv_get_def)
  moreover have "mem_slice (length ?h + QMI_ITEM_SIZE) (length d) (tlv_buf tlv) = d"
    unfolding split by (intro slice_value) simp
  ultimately show ?thesis
    by blast
qed

section \<open>Building\<close>

lemma store_bytes_at:
  assumes "length pre = pos" and "length old = length d"
  shows "store_bytes d (pre @ old @ post) pos = Inr (pre @ d @ post)"
  using assms by (auto simp: store_bytes_def mem_put_def)

lemma sys_realloc_ok:
  assumes "\<not> os_faults os"
  shows "\<exists>fr os'. sys_realloc os p n = (Some (take n (case p of None \<Rightarrow> fr | Some b \<Rightarrow> b @ fr)), os') \<and>
    length fr \<ge> n"
  using assms
  by (cases p) (auto simp: sys_realloc_def Let_def window intro!: exI [of _ "pad_to n (os_fresh os (os_tick os))"])

text \<open>A new item goes behind the others; the key is cut to a byte and the length to 16 bits.\<close>

lemma qmi_tlv_alloc_item_ok:
  assumes "length (tlv_buf tlv) = tlv_size tlv" and "\<not> os_faults os"
    and "tlv_size tlv + QMI_ITEM_SIZE + len < 2 ^ 64"
  shows "\<exists>fr os'. length fr = len \<and> qmi_tlv_alloc_item os tlv ident len =
    Inr (Some (tlv_size tlv),
      tlv\<lparr>tlv_allocated := True,
          tlv_buf := tlv_buf tlv @ (le_bytes 1 ident @ le_bytes 2 len) @ fr,
          tlv_size := tlv_size tlv + QMI_ITEM_SIZE + len\<rparr>, os')"
proof -
  let ?n = "tlv_size tlv + QMI_ITEM_SIZE + len"
  let ?p = "if tlv_allocated tlv then Some (tlv_buf tlv) else None"
  obtain fr os' where re: "sys_realloc os ?p ?n = (Some (take ?n (case ?p of None \<Rightarrow> fr | Some b \<Rightarrow> b @ fr)), os')"
    and fr: "?n \<le> length fr"
    using sys_realloc_ok [OF assms(2)] by blast
  define rest where "rest = (if tlv_allocated tlv then take (QMI_ITEM_SIZE + len) fr
                             else drop (tlv_size tlv) (take ?n fr))"
  have rest: "length rest = QMI_ITEM_SIZE + len"
    using fr by (simp add: rest_def)
  have "(if tlv_allocated tlv then Inr (take ?n (case ?p of None \<Rightarrow> fr | Some b \<Rightarrow> b @ fr))
         else if length (tlv_buf tlv) < tlv_size tlv then Inl Out_of_bounds
         else store_bytes (take (tlv_size tlv) (tlv_buf tlv)) (take ?n (case ?p of None \<Rightarrow> fr | Some b \<Rightarrow> b @ fr)) 0) =
        Inr (tlv_buf tlv @ rest)"
    using assms(1) fr by (auto simp: rest_def store_bytes_def mem_put_def add.commute add.left_commute)
  moreover have "store_bytes (le_bytes 1 ident @ le_bytes 2 len) (tlv_buf tlv @ rest) (tlv_size tlv) =
      Inr (tlv_buf tlv @ (le_bytes 1 ident @ le_bytes 2 len) @ drop QMI_ITEM_SIZE rest)"
    using store_bytes_at [OF assms(1), of "take QMI_ITEM_SIZE rest" "le_bytes 1 ident @ le_bytes 2 len"
        "drop QMI_ITEM_SIZE rest"] rest by (simp add: QMI_ITEM_SIZE_def)
  ultimately show ?thesis
    using re assms(3) rest
    by (intro exI [of _ "drop QMI_ITEM_SIZE rest"] exI [of _ os'])
      (simp add: qmi_tlv_alloc_item_def Let_def)
qed

lemma qmi_tlv_set_ok:
  assumes rep: "tlv_rep tlv hdr items" and "\<not> os_faults os"
    and "tlv_size tlv + QMI_ITEM_SIZE + length d < 2 ^ 64"
  shows "\<exists>tlv' os'. qmi_tlv_set os (Some tlv) (unat k) d = Inr (0, Some tlv', os') \<and>
    tlv_rep tlv' hdr (items @ [(k, d)]) \<and> tlv_error tlv' = tlv_error tlv"
proof -
  have len: "length (tlv_buf tlv) = tlv_size tlv"
    using rep by (simp add: tlv_rep_def)
  from qmi_tlv_alloc_item_ok [OF len assms(2,3)] obtain fr os' where fr: "length fr = length d"
    and al: "qmi_tlv_alloc_item os tlv (unat k) (length d) = Inr (Some (tlv_size tlv),
      tlv\<lparr>tlv_allocated := True, tlv_buf := tlv_buf tlv @ (le_bytes 1 (unat k) @ le_bytes 2 (length d)) @ fr,
          tlv_size := tlv_size tlv + QMI_ITEM_SIZE + length d\<rparr>, os')"
    by blast
  have st: "store_bytes d (tlv_buf tlv @ (le_bytes 1 (unat k) @ le_bytes 2 (length d)) @ fr)
      (tlv_size tlv + QMI_ITEM_SIZE) = Inr (tlv_buf tlv @ enc_item (k, d))"
    using store_bytes_at [of "tlv_buf tlv @ le_bytes 1 (unat k) @ le_bytes 2 (length d)" _ fr d "[]"] len fr
    by (simp add: QMI_ITEM_SIZE_def enc_item_def)
  have "qmi_tlv_set os (Some tlv) (unat k) d =
      Inr (0, Some (tlv\<lparr>tlv_allocated := True, tlv_size := tlv_size tlv + QMI_ITEM_SIZE + length d,
        tlv_buf := tlv_buf tlv @ enc_item (k, d)\<rparr>), os')"
    using st [simplified] by (simp add: qmi_tlv_set_def al)
  with rep show ?thesis
    by (simp add: tlv_rep_def)
qed

text \<open>
  An array item. Behind the first byte of the count come the elements; of a wider count only
  the low byte survives, and the bytes behind the elements are what the allocator left.
\<close>

lemma qmi_tlv_set_array_ok:
  assumes rep: "tlv_rep tlv hdr items" and ls: "ls \<in> {1, 2, 4}" and n: "len * sz = length buf"
    and "\<not> os_faults os" and small: "tlv_size tlv + QMI_ITEM_SIZE + (ls + length buf) < 2 ^ 64"
  shows "\<exists>tlv' os' tail. length tail = ls - 1 \<and>
    qmi_tlv_set_array os (Some tlv) (unat k) ls buf len sz = Inr (0, Some tlv', os') \<and>
    tlv_rep tlv' hdr (items @ [(k, word_of_nat len # buf @ tail)])"
proof -
  have len: "length (tlv_buf tlv) = tlv_size tlv"
    using rep by (simp add: tlv_rep_def)
  define h where "h = tlv_buf tlv @ le_bytes 1 (unat k) @ le_bytes 2 (ls + length buf)"
  from qmi_tlv_alloc_item_ok [OF len assms(4) small, of "unat k"] obtain fr os'
    where fr: "length fr = ls + length buf"
    and al: "qmi_tlv_alloc_item os tlv (unat k) (ls + length buf) = Inr (Some (tlv_size tlv),
      tlv\<lparr>tlv_allocated := True, tlv_buf := h @ fr, tlv_size := tlv_size tlv + QMI_ITEM_SIZE + (ls + length buf)\<rparr>, os')"
    by (auto simp: h_def)
  have h: "length h = tlv_size tlv + QMI_ITEM_SIZE"
    using len by (simp add: h_def QMI_ITEM_SIZE_def)
  have "le_bytes ls len = word_of_nat len # tl (le_bytes ls len)"
    using ls by (cases ls) auto
  then have "le_bytes ls len @ drop ls fr = word_of_nat len # tl (le_bytes ls len) @ drop ls fr"
    by (metis append_Cons)
  moreover have "length (tl (le_bytes ls len) @ drop ls fr) = length buf + (ls - 1)"
    using fr ls by auto
  ultimately obtain old tail where mid: "le_bytes ls len @ drop ls fr = word_of_nat len # old @ tail"
    and len2: "length old = length buf" "length tail = ls - 1"
    using split_length by metis
  have s1: "store_bytes (le_bytes ls len) (h @ fr) (tlv_size tlv + QMI_ITEM_SIZE) =
      Inr (h @ word_of_nat len # old @ tail)"
    using store_bytes_at [OF h, of "take ls fr" "le_bytes ls len" "drop ls fr"] fr mid by simp
  have s2: "store_bytes buf (h @ word_of_nat len # old @ tail) (Suc (tlv_size tlv + QMI_ITEM_SIZE)) =
      Inr (h @ word_of_nat len # buf @ tail)"
    using store_bytes_at [of "h @ [word_of_nat len]" _ old buf tail] h len2 by simp
  have "length buf < 2 ^ 64"
    using small by simp
  then have run: "qmi_tlv_set_array os (Some tlv) (unat k) ls buf len sz =
      Inr (0, Some (tlv\<lparr>tlv_allocated := True, tlv_size := tlv_size tlv + QMI_ITEM_SIZE + (ls + length buf),
        tlv_buf := h @ word_of_nat len # buf @ tail\<rparr>), os')"
    using ls by (simp add: qmi_tlv_set_array_def n Let_def al s1 s2)
  have v: "length (word_of_nat len # buf @ tail) = ls + length buf"
    using ls len2 by auto
  have "h @ word_of_nat len # buf @ tail = tlv_buf tlv @ enc_item (k, word_of_nat len # buf @ tail)"
    unfolding enc_item_def prod.case v by (simp add: h_def)
  then have "tlv_rep (tlv\<lparr>tlv_allocated := True, tlv_size := tlv_size tlv + QMI_ITEM_SIZE + (ls + length buf),
        tlv_buf := h @ word_of_nat len # buf @ tail\<rparr>) hdr (items @ [(k, word_of_nat len # buf @ tail)])"
    using rep v by (simp add: tlv_rep_def)
  with run len2(2) show ?thesis
    by blast
qed

section \<open>Properties\<close>

text \<open>
  C11. Adding an item to a packet succeeds when there is memory and appends exactly that item;
  afterwards every key of the packet, old or new, is found with the value it was first given.
\<close>

theorem qmi_tlv_set_get:
  assumes "tlv_rep tlv hdr items" and "items_ok (items @ [(k, d)])" and "\<not> os_faults os"
    and "tlv_size tlv + QMI_ITEM_SIZE + length d < 2 ^ 31"
  shows "\<exists>tlv' os'. qmi_tlv_set os (Some tlv) (unat k) d = Inr (0, Some tlv', os') \<and>
    tlv_rep tlv' hdr (items @ [(k, d)]) \<and>
    (\<forall>j e. map_of (items @ [(k, d)]) j = Some e \<longrightarrow>
       (\<exists>p. qmi_tlv_get tlv' (ucast j) = Some (Inr (Some (p, length e))) \<and>
            mem_slice p (length e) (tlv_buf tlv') = e))"
proof -
  have "tlv_size tlv + QMI_ITEM_SIZE + length d < 2 ^ 64"
    using assms(4) by simp
  from qmi_tlv_set_ok [OF assms(1,3) this] obtain tlv' os' where
    set: "qmi_tlv_set os (Some tlv) (unat k) d = Inr (0, Some tlv', os')"
    and rep: "tlv_rep tlv' hdr (items @ [(k, d)])"
    by blast
  have "tlv_size tlv' < 2 ^ 31"
    using rep assms(1,4) by (simp add: tlv_rep_def)
  with set rep qmi_tlv_get_rep [OF rep assms(2)] show ?thesis
    by blast
qed

definition demo_tlv :: qmi_tlv where
  "demo_tlv = \<lparr>tlv_allocated = True, tlv_buf = qmi_packet_header 0 1 2 0, tlv_size = 7, tlv_error = 0\<rparr>"

lemma demo_tlv_rep: "tlv_rep demo_tlv (qmi_packet_header 0 1 2 0) []"
  by (simp add: tlv_rep_def demo_tlv_def QMI_PACKET_SIZE_def)

theorem qmi_tlv_set_get_witness:
  "\<exists>tlv os p. qmi_tlv_set (os_boot [] (\<lambda>_. False) (\<lambda>_. [])) (Some demo_tlv) (unat (9 :: u8)) [5, 6] = Inr (0, Some tlv, os) \<and>
     qmi_tlv_get tlv 9 = Some (Inr (Some (p, 2))) \<and> mem_slice p 2 (tlv_buf tlv) = [5, 6]"
proof -
  have "items_ok ([] @ [(9, [5, 6])])" "\<not> os_faults (os_boot [] (\<lambda>_. False) (\<lambda>_. []))"
    "tlv_size demo_tlv + QMI_ITEM_SIZE + length [5 :: u8, 6] < 2 ^ 31"
    by (simp_all add: items_ok_def os_faults_def os_boot_def demo_tlv_def QMI_ITEM_SIZE_def)
  from qmi_tlv_set_get [OF demo_tlv_rep this] obtain tlv os where
    set: "qmi_tlv_set (os_boot [] (\<lambda>_. False) (\<lambda>_. [])) (Some demo_tlv) (unat (9 :: u8)) [5, 6] = Inr (0, Some tlv, os)"
    and get: "\<forall>j e. map_of ([] @ [(9 :: u8, [5, 6])]) j = Some e \<longrightarrow>
       (\<exists>p. qmi_tlv_get tlv (ucast j) = Some (Inr (Some (p, length e))) \<and>
            mem_slice p (length e) (tlv_buf tlv) = e)"
    by blast
  have at: "map_of ([] @ [(9 :: u8, [5, 6])]) 9 = Some [5 :: u8, 6]"
    and num: "length [5 :: u8, 6] = 2" "(ucast (9 :: u8) :: u32) = 9"
    by simp_all
  from get [rule_format, OF at] set show ?thesis
    unfolding num by blast
qed

text \<open>
  C31. Looking up a key that the packet does not have reads past its end: the loop compares
  an offset that starts behind the seven header bytes with the size that includes them.
\<close>

theorem qmi_tlv_get_missing_out_of_bounds:
  assumes "tlv_rep tlv hdr items" and "items_ok items" and "tlv_size tlv < 2 ^ 31"
    and "k \<notin> fst ` set items"
  shows "qmi_tlv_get tlv (ucast k) = Some (Inl Out_of_bounds)"
proof -
  have "map_of items k = None"
    using assms(4) by (simp add: map_of_eq_None_iff)
  with qmi_tlv_get_item_from_rep [of hdr items "[]" k] assms(1-3) show ?thesis
    by (simp add: tlv_rep_def qmi_tlv_get_def qmi_tlv_get_item_def)
qed

theorem qmi_tlv_get_missing_out_of_bounds_witness:
  "qmi_tlv_get demo_tlv 9 = Some (Inl Out_of_bounds)"
  using qmi_tlv_get_missing_out_of_bounds [OF demo_tlv_rep, of 9]
  by (simp add: items_ok_def demo_tlv_def)

lemma qmi_tlv_get_array_rep:
  assumes rep: "tlv_rep tlv hdr items" and ok: "items_ok items" and size: "tlv_size tlv < 2 ^ 31"
    and d: "map_of items k = Some d" and ls: "ls \<in> {1, 2, 4}" "ls \<le> length d" and pos: "0 < le_val (take ls d)"
  shows "\<exists>p. qmi_tlv_get_array tlv (ucast k) ls =
      Some (Inr (Some (p, le_val (take ls d), (length d - ls) div le_val (take ls d)))) \<and>
    mem_slice p (length d - 1) (tlv_buf tlv) = tl d"
proof -
  let ?pre = "takeWhile (\<lambda>i. fst i \<noteq> k) items" and ?post = "tl (dropWhile (\<lambda>i. fst i \<noteq> k) items)"
  let ?h = "hdr @ enc_items ?pre"
  have hdr: "length hdr = QMI_PACKET_SIZE" and buf: "tlv_buf tlv = hdr @ enc_items items"
    and sz: "tlv_size tlv = length (tlv_buf tlv)"
    using rep by (simp_all add: tlv_rep_def)
  have split: "tlv_buf tlv = ?h @ enc_item (k, d) @ enc_items ?post"
    unfolding buf by (subst takeWhile_split [OF d]) simp
  have item: "qmi_tlv_get_item tlv (ucast k) = Some (Inr (Some (length ?h)))"
    using qmi_tlv_get_item_from_rep [OF hdr ok, of "[]" k] size d
    by (simp add: qmi_tlv_get_item_def sz buf)
  have "length d < 2 ^ 16"
    using ok map_of_SomeD [OF d] by (auto simp: items_ok_def)
  then have len: "load_le 2 (tlv_buf tlv) (length ?h + 1) = Inr (length d)"
    unfolding split by (intro load_len) simp_all
  have cnt: "load_le ls (tlv_buf tlv) (length ?h + QMI_ITEM_SIZE) = Inr (le_val (take ls d))"
    using load_le_at [of "?h @ k # le_bytes 2 (length d)" _ "take ls d" ls "drop ls d @ enc_items ?post"] ls
    by (simp add: split enc_item_def QMI_ITEM_SIZE_def add.assoc)
  have "nat ((int (length d) - int ls) mod 2 ^ 32) = length d - ls"
    using \<open>length d < 2 ^ 16\<close> ls by (simp add: nat_diff_distrib)
  moreover have "nat (int (length d) - int ls) = length d - ls"
    by simp
  moreover note item len cnt ls pos
  ultimately have "qmi_tlv_get_array tlv (ucast k) ls =
      Some (Inr (Some (length ?h + QMI_ITEM_SIZE + 1, le_val (take ls d), (length d - ls) div le_val (take ls d))))"
    by (simp add: qmi_tlv_get_array_def Let_def)
  moreover have "mem_slice (length ?h + QMI_ITEM_SIZE + 1) (length d - 1) (tlv_buf tlv) = tl d"
    using ls by (cases d) (auto simp: split mem_slice_def enc_item_def QMI_ITEM_SIZE_def)
  ultimately show ?thesis
    by (intro exI [of _ "length ?h + QMI_ITEM_SIZE + 1"] conjI)
qed

lemma ucast_3: "(ucast (3 :: u8) :: u32) = 3"
  by simp

text \<open>
  An array stored with a one-byte element count is read back with its count, its element
  size and its elements.
\<close>

theorem qmi_tlv_array_roundtrip:
  assumes "tlv_rep tlv hdr items" and "items_ok items" and "k \<notin> fst ` set items"
    and n: "len * sz = length buf" "0 < len" "len < 256" "length buf + 1 < 2 ^ 16"
    and "\<not> os_faults os" and "tlv_size tlv + QMI_ITEM_SIZE + (1 + length buf) < 2 ^ 31"
  shows "\<exists>tlv' os' p. qmi_tlv_set_array os (Some tlv) (unat k) 1 buf len sz = Inr (0, Some tlv', os') \<and>
    qmi_tlv_get_array tlv' (ucast k) 1 = Some (Inr (Some (p, len, sz))) \<and>
    mem_slice p (length buf) (tlv_buf tlv') = buf"
proof -
  let ?d = "word_of_nat len # buf"
  have "tlv_size tlv + QMI_ITEM_SIZE + (1 + length buf) < 2 ^ 64"
    using assms(9) by simp
  from qmi_tlv_set_array_ok [OF assms(1) _ n(1) assms(8) this] obtain tlv' os' where
    set: "qmi_tlv_set_array os (Some tlv) (unat k) 1 buf len sz = Inr (0, Some tlv', os')"
    and rep: "tlv_rep tlv' hdr (items @ [(k, ?d)])"
    by fastforce
  have ok: "items_ok (items @ [(k, ?d)])"
    using assms(2) n by (simp add: items_ok_def)
  have size: "tlv_size tlv' < 2 ^ 31"
    using rep assms(1,9) by (simp add: tlv_rep_def)
  have at: "map_of (items @ [(k, ?d)]) k = Some ?d"
    using assms(3) by (rule map_of_snoc)
  have cnt: "le_val (take 1 ?d) = len"
    using n by (simp add: unat_of_nat)
  from qmi_tlv_get_array_rep [OF rep ok size at, of 1] obtain p where
    "qmi_tlv_get_array tlv' (ucast k) 1 = Some (Inr (Some (p, len, length buf div len)))"
    and "mem_slice p (length buf) (tlv_buf tlv') = buf"
    using cnt n by auto
  moreover have "length buf div len = sz"
    using n by (metis nonzero_mult_div_cancel_left not_gr_zero)
  ultimately show ?thesis
    using set by blast
qed

theorem qmi_tlv_array_roundtrip_witness:
  "\<exists>tlv os p. qmi_tlv_set_array (os_boot [] (\<lambda>_. False) (\<lambda>_. [])) (Some demo_tlv) (unat (3 :: u8)) 1 [1, 2, 3, 4] 2 2 =
       Inr (0, Some tlv, os) \<and> qmi_tlv_get_array tlv 3 1 = Some (Inr (Some (p, 2, 2)))"
proof -
  have "items_ok []" "(3 :: u8) \<notin> fst ` set ([] :: (u8 \<times> bytes) list)"
    "2 * 2 = length [1, 2, 3, 4 :: u8]" "0 < (2 :: nat)" "(2 :: nat) < 256"
    "length [1, 2, 3, 4 :: u8] + 1 < 2 ^ 16" "\<not> os_faults (os_boot [] (\<lambda>_. False) (\<lambda>_. []))"
    "tlv_size demo_tlv + QMI_ITEM_SIZE + (1 + length [1, 2, 3, 4 :: u8]) < 2 ^ 31"
    by (simp_all add: items_ok_def os_faults_def os_boot_def demo_tlv_def QMI_ITEM_SIZE_def)
  from qmi_tlv_array_roundtrip [OF demo_tlv_rep this] show ?thesis
    by (simp only: ucast_3) blast
qed

text \<open>
  With a two-byte count the same operations disagree: the first element overwrites the
  high byte of the count, and reading the array back reports a wrong number of elements
  unless that byte happens to be the high byte of the length.
\<close>

theorem qmi_tlv_array_count_clobbered:
  assumes "tlv_rep tlv hdr items" and "items_ok items" and "k \<notin> fst ` set items"
    and n: "len * sz = length buf" "buf \<noteq> []" "0 < len mod 256 + 256 * unat (hd buf)" "length buf + 2 < 2 ^ 16"
    and "\<not> os_faults os" and "tlv_size tlv + QMI_ITEM_SIZE + (2 + length buf) < 2 ^ 31"
  shows "\<exists>tlv' os' p s. qmi_tlv_set_array os (Some tlv) (unat k) 2 buf len sz = Inr (0, Some tlv', os') \<and>
    qmi_tlv_get_array tlv' (ucast k) 2 = Some (Inr (Some (p, len mod 256 + 256 * unat (hd buf), s)))"
proof -
  have "tlv_size tlv + QMI_ITEM_SIZE + (2 + length buf) < 2 ^ 64"
    using assms(9) by simp
  from qmi_tlv_set_array_ok [OF assms(1) _ n(1) assms(8) this] obtain tlv' os' tail where
    set: "qmi_tlv_set_array os (Some tlv) (unat k) 2 buf len sz = Inr (0, Some tlv', os')"
    and rep: "tlv_rep tlv' hdr (items @ [(k, word_of_nat len # buf @ tail)])" and tail: "length tail = 1"
    by fastforce
  let ?d = "word_of_nat len # buf @ tail"
  have ok: "items_ok (items @ [(k, ?d)])"
    using assms(2) n tail by (simp add: items_ok_def)
  have size: "tlv_size tlv' < 2 ^ 31"
    using rep assms(1,9) tail by (simp add: tlv_rep_def)
  have at: "map_of (items @ [(k, ?d)]) k = Some ?d"
    using assms(3) by (rule map_of_snoc)
  have cnt: "le_val (take 2 ?d) = len mod 256 + 256 * unat (hd buf)"
    using n(2) by (cases buf) (simp_all add: unat_of_nat numeral_2_eq_2)
  show ?thesis
    using qmi_tlv_get_array_rep [OF rep ok size at, of 2, unfolded cnt] n(3) set tail by auto
qed

theorem qmi_tlv_array_count_clobbered_witness:
  "\<exists>tlv os p s. qmi_tlv_set_array (os_boot [] (\<lambda>_. False) (\<lambda>_. [])) (Some demo_tlv) (unat (3 :: u8)) 2 [1, 2] 2 1 =
       Inr (0, Some tlv, os) \<and> qmi_tlv_get_array tlv 3 2 = Some (Inr (Some (p, 258, s)))"
proof -
  have "items_ok []" "(3 :: u8) \<notin> fst ` set ([] :: (u8 \<times> bytes) list)"
    "2 * 1 = length [1, 2 :: u8]" "[1, 2 :: u8] \<noteq> []" "0 < (2 :: nat) mod 256 + 256 * unat (hd [1, 2 :: u8])"
    "length [1, 2 :: u8] + 2 < 2 ^ 16" "\<not> os_faults (os_boot [] (\<lambda>_. False) (\<lambda>_. []))"
    "tlv_size demo_tlv + QMI_ITEM_SIZE + (2 + length [1, 2 :: u8]) < 2 ^ 31"
    by (simp_all add: items_ok_def os_faults_def os_boot_def demo_tlv_def QMI_ITEM_SIZE_def)
  note clobbered = qmi_tlv_array_count_clobbered [of demo_tlv _ "[]" 3 2 1 "[1, 2]" "os_boot [] (\<lambda>_. False) (\<lambda>_. [])",
      OF demo_tlv_rep this]
  have "2 mod 256 + 256 * unat (hd [1, 2 :: u8]) = 258"
    by simp
  with clobbered show ?thesis
    by (simp only: ucast_3)
qed

end
