(* ===== verification/Qrtr_Proto.thy ===== *)
theory Qrtr_Proto
  imports Prelude
begin

text \<open>
  The data of the QRTR protocol that the socket layer and the name service share: socket
  addresses, control packets and their little-endian layout. The numbers of the kernel's
  user interface (commands, broadcast node, control port) are not part of the sources, they
  are the record \<open>uapi\<close>.
\<close>

section \<open>Addresses and control packets\<close>

datatype qrtr_cmd =
  CMD_HELLO | CMD_BYE | CMD_NEW_SERVER | CMD_DEL_SERVER | CMD_DEL_CLIENT | CMD_RESUME_TX |
  CMD_EXIT | CMD_PING | CMD_NEW_LOOKUP | CMD_DEL_LOOKUP

record uapi =
  ua_cmd :: "qrtr_cmd \<Rightarrow> u32"
  ua_bcast :: u32
  ua_ctrl :: u32

record sockaddr_qrtr =
  sq_node :: u32
  sq_port :: u32

text \<open>
  A control packet: the command and the words of the union. A server packet has the service,
  the instance, the node and the port there; a client packet has the node and the port.
\<close>

record qrtr_ctrl_pkt =
  cp_cmd :: u32
  cp_w0 :: u32
  cp_w1 :: u32
  cp_w2 :: u32
  cp_w3 :: u32

definition ctrl_pkt_size :: nat where "ctrl_pkt_size = 20"

section \<open>Layout\<close>

definition le32 :: "bytes \<Rightarrow> nat \<Rightarrow> u32" where
  "le32 buf off = word_of_nat (le_val (mem_slice off 4 buf))"

definition read_pkt :: "bytes \<Rightarrow> qrtr_ctrl_pkt" where
  "read_pkt buf =
     \<lparr>cp_cmd = le32 buf 0, cp_w0 = le32 buf 4, cp_w1 = le32 buf 8, cp_w2 = le32 buf 12, cp_w3 = le32 buf 16\<rparr>"

lemma le32_put:
  assumes "length buf = recv_buf_size" and "length m \<le> recv_buf_size"
  shows "off + 4 \<le> length m \<Longrightarrow> le32 (mem_put 0 m buf) off = le32 m off"
    and "length m \<le> off \<Longrightarrow> le32 (mem_put 0 m buf) off = le32 buf off"
proof -
  show "le32 (mem_put 0 m buf) off = le32 m off" if "off + 4 \<le> length m"
    using that by (simp add: le32_def mem_put_def mem_slice_def)
  show "le32 (mem_put 0 m buf) off = le32 buf off" if "length m \<le> off"
    using that assms by (simp add: le32_def mem_slice_put_after)
qed

text \<open>The numbers of the kernel's user interface.\<close>

definition linux_uapi :: uapi where
  "linux_uapi =
     \<lparr>ua_cmd = (\<lambda>c. case c of CMD_HELLO \<Rightarrow> 2 | CMD_BYE \<Rightarrow> 3 | CMD_NEW_SERVER \<Rightarrow> 4 | CMD_DEL_SERVER \<Rightarrow> 5 |
        CMD_DEL_CLIENT \<Rightarrow> 6 | CMD_RESUME_TX \<Rightarrow> 7 | CMD_EXIT \<Rightarrow> 8 | CMD_PING \<Rightarrow> 9 | CMD_NEW_LOOKUP \<Rightarrow> 10 |
        CMD_DEL_LOOKUP \<Rightarrow> 11),
      ua_bcast = 0xffffffff, ua_ctrl = 0xfffffffe\<rparr>"

lemma linux_uapi_inj: "inj (ua_cmd linux_uapi)"
  by (rule injI) (auto simp: linux_uapi_def split: qrtr_cmd.splits)

end
