(* ===== verification/Keyed_Table.thy ===== *)
theory Keyed_Table
  imports Prelude
begin

text \<open>
  The kernel's \<open>xarray\<close> as its clients see it: entries by an unsigned index, visited in
  ascending order. The table is an ascending association list. The laws the clients rely on
  are the locale \<open>keyed_table\<close>; the list operations are an instance of it.
\<close>

type_synonym 'v xarray = "(u32 \<times> 'v) list"

definition xa_load :: "'v xarray \<Rightarrow> u32 \<Rightarrow> 'v option" where
  "xa_load t k = map_of t k"

fun xa_store :: "'v xarray \<Rightarrow> u32 \<Rightarrow> 'v \<Rightarrow> 'v xarray" where
  "xa_store [] k v = [(k, v)]"
| "xa_store ((k', v') # t) k v =
     (if k < k' then (k, v) # (k', v') # t
      else if k = k' then (k, v) # t
      else (k', v') # xa_store t k v)"

definition xa_erase :: "'v xarray \<Rightarrow> u32 \<Rightarrow> 'v xarray" where
  "xa_erase t k = filter (\<lambda>e. fst e \<noteq> k) t"

definition xa_ok :: "'v xarray \<Rightarrow> bool" where
  "xa_ok t \<longleftrightarrow> sorted_wrt (<) (map fst t)"

locale keyed_table =
  fixes ok :: "'t \<Rightarrow> bool"
    and empty :: 't
    and load :: "'t \<Rightarrow> 'k \<Rightarrow> 'v option"
    and store :: "'t \<Rightarrow> 'k \<Rightarrow> 'v \<Rightarrow> 't"
    and erase :: "'t \<Rightarrow> 'k \<Rightarrow> 't"
    and count :: "'t \<Rightarrow> nat"
  assumes ok_empty: "ok empty"
    and ok_store: "ok t \<Longrightarrow> ok (store t k v)"
    and ok_erase: "ok t \<Longrightarrow> ok (erase t k)"
    and load_empty: "load empty k = None"
    and load_store: "ok t \<Longrightarrow> load (store t k v) k' = (if k' = k then Some v else load t k')"
    and load_erase: "ok t \<Longrightarrow> load (erase t k) k' = (if k' = k then None else load t k')"
    and count_empty: "count empty = 0"
    and count_store: "ok t \<Longrightarrow> count (store t k v) = (if load t k = None then Suc (count t) else count t)"
    and count_erase: "ok t \<Longrightarrow> count (erase t k) + (if load t k = None then 0 else 1) = count t"
begin

definition view :: "'t \<Rightarrow> 'k \<rightharpoonup> 'v" where
  "view t = load t"

lemma view_store: "ok t \<Longrightarrow> view (store t k v) = (view t)(k \<mapsto> v)"
  by (auto simp: view_def load_store fun_eq_iff)

lemma view_erase: "ok t \<Longrightarrow> view (erase t k) = (view t)(k := None)"
  by (auto simp: view_def load_erase fun_eq_iff)

lemma store_erase: "ok t \<Longrightarrow> view (erase (store t k v) k) = (view t)(k := None)"
  by (simp add: view_erase view_store ok_store)

lemma count_replace: "ok t \<Longrightarrow> load t k = Some w \<Longrightarrow> count (store t k v) = count t"
  by (simp add: count_store)

text \<open>Erasing the keys of a list leaves what is bound elsewhere.\<close>

lemma ok_erase_all: "ok t \<Longrightarrow> ok (foldl erase t ks)"
  by (induction ks arbitrary: t) (simp_all add: ok_erase)

lemma load_erase_all: "ok t \<Longrightarrow> load (foldl erase t ks) k = (if k \<in> set ks then None else load t k)"
  by (induction ks arbitrary: t) (auto simp: ok_erase load_erase)

end

lemma xa_store_keys: "set (map fst (xa_store t k v)) = insert k (set (map fst t))"
  by (induction t k v rule: xa_store.induct) auto

lemma xa_ok_store: "xa_ok t \<Longrightarrow> xa_ok (xa_store t k v)"
proof (induction t k v rule: xa_store.induct)
  case (1 k v)
  then show ?case by (simp add: xa_ok_def)
next
  case (2 k' v' t k v)
  then show ?case
    using xa_store_keys [of t k v] by (auto simp: xa_ok_def)
qed

lemma xa_load_store: "xa_ok t \<Longrightarrow> xa_load (xa_store t k v) k' = (if k' = k then Some v else xa_load t k')"
proof (induction t k v rule: xa_store.induct)
  case (1 k v)
  then show ?case by (simp add: xa_load_def)
next
  case (2 k'' v'' t k v)
  then show ?case
    by (auto simp: xa_load_def xa_ok_def)
qed

lemma xa_load_None: "xa_load t k = None \<longleftrightarrow> k \<notin> set (map fst t)"
  by (simp add: xa_load_def map_of_eq_None_iff)

lemma xa_ok_tl: "xa_ok (e # t) \<Longrightarrow> xa_ok t"
  by (simp add: xa_ok_def)

lemma xa_count_store:
  "xa_ok t \<Longrightarrow> length (xa_store t k v) = (if xa_load t k = None then Suc (length t) else length t)"
proof (induction t k v rule: xa_store.induct)
  case (1 k v)
  then show ?case by (simp add: xa_load_def)
next
  case (2 k' v' t k v)
  have "xa_load t k = None" if "k < k'"
    using 2(2) that by (auto simp: xa_load_None xa_ok_def)
  with 2 xa_ok_tl [OF 2(2)] show ?case
    by (auto simp: xa_load_def)
qed

lemma xa_ok_Cons: "xa_ok (e # t) \<longleftrightarrow> (\<forall>x \<in> set t. fst e < fst x) \<and> xa_ok t"
  by (auto simp: xa_ok_def)

lemma xa_erase_Nil: "xa_erase [] k = []"
  by (simp add: xa_erase_def)

lemma xa_erase_Cons: "xa_ok ((k', v') # t) \<Longrightarrow> xa_erase ((k', v') # t) k = (if k' = k then t else (k', v') # xa_erase t k)"
  by (auto simp: xa_erase_def xa_ok_def filter_id_conv)

lemma xa_count_erase:
  "xa_ok t \<Longrightarrow> length (xa_erase t k) + (if xa_load t k = None then 0 else 1) = length t"
  by (induction t) (auto simp: xa_erase_Nil xa_erase_Cons xa_load_def xa_ok_Cons)

lemma xa_load_erase: "xa_load (xa_erase t k) k' = (if k' = k then None else xa_load t k')"
  by (induction t) (auto simp: xa_load_def xa_erase_def)

interpretation xa: keyed_table "xa_ok :: 'v xarray \<Rightarrow> bool" "[]" xa_load xa_store xa_erase length
proof
  fix t :: "'v xarray" and k k' v
  show "xa_ok ([] :: 'v xarray)" "xa_load ([] :: 'v xarray) k = None" "length ([] :: 'v xarray) = 0"
    by (simp_all add: xa_ok_def xa_load_def)
  assume ok: "xa_ok t"
  then show "xa_ok (xa_store t k v)" "xa_load (xa_store t k v) k' = (if k' = k then Some v else xa_load t k')"
    "length (xa_store t k v) = (if xa_load t k = None then Suc (length t) else length t)"
    "length (xa_erase t k) + (if xa_load t k = None then 0 else 1) = length t"
    by (simp_all add: xa_ok_store xa_load_store xa_count_store xa_count_erase)
  show "xa_ok (xa_erase t k)"
    using ok by (simp add: xa_ok_def xa_erase_def sorted_wrt_map sorted_wrt_filter)
  show "xa_load (xa_erase t k) k' = (if k' = k then None else xa_load t k')"
    by (rule xa_load_erase)
qed

lemma xa_load_entry: "xa_ok t \<Longrightarrow> xa_load t k = Some v \<longleftrightarrow> (k, v) \<in> set t"
  by (simp add: xa_load_def xa_ok_def strict_sorted_iff map_of_eq_Some_iff)

text \<open>The sum of a size over the entries.\<close>

definition xa_total :: "('v \<Rightarrow> nat) \<Rightarrow> 'v xarray \<Rightarrow> nat" where
  "xa_total f t = sum_list (map (f \<circ> snd) t)"

lemma xa_total_store:
  assumes "xa_ok t"
  shows "xa_total f (xa_store t k v) + (case xa_load t k of None \<Rightarrow> 0 | Some w \<Rightarrow> f w) = xa_total f t + f v"
  using assms
proof (induction t k v rule: xa_store.induct)
  case (1 k v)
  then show ?case by (simp add: xa_total_def xa_load_def)
next
  case (2 k' v' t k v)
  have "xa_load t k = None" if "k < k'"
    using 2(2) that by (auto simp: xa_load_None xa_ok_def)
  with 2 xa_ok_tl [OF 2(2)] show ?case
    by (auto simp: xa_load_def xa_total_def split: option.splits)
qed

lemma xa_store_same: "xa_ok t \<Longrightarrow> xa_load t k = Some v \<Longrightarrow> xa_store t k v = t"
proof (induction t k v rule: xa_store.induct)
  case (1 k v)
  then show ?case by (simp add: xa_load_def)
next
  case (2 k' v' t k v)
  have "k' < k" if "k' \<noteq> k"
    using 2(2,3) that by (fastforce simp: xa_load_def xa_ok_def dest: map_of_SomeD)
  with 2 xa_ok_tl [OF 2(2)] show ?case
    by (auto simp: xa_load_def)
qed

lemma xa_store_store: "xa_store (xa_store t k v) k w = xa_store t k w"
  by (induction t k v rule: xa_store.induct) auto

lemma xa_erase_store: "xa_erase (xa_store t k v) k = xa_erase t k"
  by (induction t k v rule: xa_store.induct) (auto simp: xa_erase_def)

lemma xa_total_erase:
  "xa_ok t \<Longrightarrow> xa_total f (xa_erase t k) + (case xa_load t k of None \<Rightarrow> 0 | Some w \<Rightarrow> f w) = xa_total f t"
  by (induction t) (auto simp: xa_erase_Nil xa_erase_Cons xa_load_def xa_total_def xa_ok_Cons)

text \<open>Removing entries by their value.\<close>

lemma xa_ok_filter: "xa_ok t \<Longrightarrow> xa_ok (filter P t)"
  by (simp add: xa_ok_def sorted_wrt_map sorted_wrt_filter)

lemma xa_load_filter_snd:
  "xa_ok t \<Longrightarrow> xa_load (filter (\<lambda>e. P (snd e)) t) k = (case xa_load t k of None \<Rightarrow> None | Some v \<Rightarrow> if P v then Some v else None)"
proof (induction t)
  case Nil
  then show ?case by (simp add: xa_load_def)
next
  case (Cons e t)
  have "map_of t (fst e) = None"
    using Cons.prems by (auto simp: xa_ok_def map_of_eq_None_iff)
  with Cons.IH [OF xa_ok_tl [OF Cons.prems]] show ?case
    by (cases e) (auto simp: xa_load_def split: option.splits)
qed

end
