(* ===== verification/Qrtr_Ns.thy ===== *)
theory Qrtr_Ns
  imports Qrtr_Proto Keyed_Table Resources
begin

text \<open>
  \<^verbatim>\<open>tcl-kernel-ns.c\<close>: the name service of the QRTR network. It keeps the servers of every
  node by port and the lookups of local observers, answers the control messages of the
  network, and tells the observers about servers that come and go. The results of the
  allocations and of \<open>kernel_sendmsg\<close> are the environment: they depend on the number of the
  call.
\<close>

section \<open>Data\<close>

record qrtr_server_filter =
  flt_service :: u32
  flt_instance :: u32
  flt_ifilter :: u32

record qrtr_lookup =
  lk_service :: u32
  lk_instance :: u32
  lk_sq :: sockaddr_qrtr

record qrtr_server =
  srv_service :: u32
  srv_instance :: u32
  srv_node :: u32
  srv_port :: u32

type_synonym servers = "qrtr_server xarray"

record qrtr_ns =
  ns_nodes :: "servers xarray"
  ns_lookups :: "qrtr_lookup list"
  ns_local_node :: u32
  ns_tick :: nat
  ns_nomem :: "nat \<Rightarrow> bool"
  ns_result :: "nat \<Rightarrow> int"
  ns_sent :: "(sockaddr_qrtr \<times> qrtr_ctrl_pkt) list"
  ns_heap :: nat

section \<open>Kernel services\<close>

definition kzalloc :: "qrtr_ns \<Rightarrow> bool \<times> qrtr_ns" where
  "kzalloc s =
     (let s1 = s\<lparr>ns_tick := Suc (ns_tick s)\<rparr> in
      if ns_nomem s (ns_tick s) then (False, s1) else (True, s1\<lparr>ns_heap := Suc (ns_heap s)\<rparr>))"

definition kfree :: "qrtr_ns \<Rightarrow> qrtr_ns" where
  "kfree s = s\<lparr>ns_heap := ns_heap s - 1\<rparr>"

text \<open>Storing into an \<open>xarray\<close> may need memory.\<close>

definition xa_store_ok :: "qrtr_ns \<Rightarrow> bool \<times> qrtr_ns" where
  "xa_store_ok s = (\<not> ns_nomem s (ns_tick s), s\<lparr>ns_tick := Suc (ns_tick s)\<rparr>)"

definition kernel_sendmsg :: "sockaddr_qrtr \<Rightarrow> qrtr_ctrl_pkt \<Rightarrow> qrtr_ns \<Rightarrow> int \<times> qrtr_ns" where
  "kernel_sendmsg dest pkt s =
     (ns_result s (ns_tick s), s\<lparr>ns_tick := Suc (ns_tick s), ns_sent := ns_sent s @ [(dest, pkt)]\<rparr>)"

section \<open>Servers\<close>

definition ns_servers :: "qrtr_ns \<Rightarrow> u32 \<Rightarrow> servers" where
  "ns_servers s node = (case xa_load (ns_nodes s) node of None \<Rightarrow> [] | Some t \<Rightarrow> t)"

definition node_get :: "u32 \<Rightarrow> qrtr_ns \<Rightarrow> bool \<times> qrtr_ns" where
  "node_get node_id s =
     (case xa_load (ns_nodes s) node_id of
        Some _ \<Rightarrow> (True, s)
      | None \<Rightarrow>
          (case kzalloc s of (got, s1) \<Rightarrow>
           if \<not> got then (False, s1)
           else (case xa_store_ok s1 of (stored, s2) \<Rightarrow>
                 if \<not> stored then (False, kfree s2)
                 else (True, s2\<lparr>ns_nodes := xa_store (ns_nodes s2) node_id []\<rparr>))))"

definition server_match :: "qrtr_server \<Rightarrow> qrtr_server_filter \<Rightarrow> bool" where
  "server_match srv f =
     (if flt_service f \<noteq> 0 \<and> srv_service srv \<noteq> flt_service f then False
      else (let ifilter = (if flt_ifilter f = 0 \<and> flt_instance f \<noteq> 0 then NOT 0 else flt_ifilter f) in
            (srv_instance srv AND ifilter) = flt_instance f))"

definition server_pkt :: "u32 \<Rightarrow> qrtr_server \<Rightarrow> qrtr_ctrl_pkt" where
  "server_pkt cmd srv =
     \<lparr>cp_cmd = cmd, cp_w0 = srv_service srv, cp_w1 = srv_instance srv, cp_w2 = srv_node srv, cp_w3 = srv_port srv\<rparr>"

definition service_announce_new :: "uapi \<Rightarrow> sockaddr_qrtr \<Rightarrow> qrtr_server \<Rightarrow> qrtr_ns \<Rightarrow> int \<times> qrtr_ns" where
  "service_announce_new u dest srv = kernel_sendmsg dest (server_pkt (ua_cmd u CMD_NEW_SERVER) srv)"

definition service_announce_del :: "uapi \<Rightarrow> sockaddr_qrtr \<Rightarrow> qrtr_server \<Rightarrow> qrtr_ns \<Rightarrow> qrtr_ns" where
  "service_announce_del u dest srv s = snd (kernel_sendmsg dest (server_pkt (ua_cmd u CMD_DEL_SERVER) srv) s)"

definition lookup_notify :: "uapi \<Rightarrow> sockaddr_qrtr \<Rightarrow> qrtr_server option \<Rightarrow> bool \<Rightarrow> qrtr_ns \<Rightarrow> qrtr_ns" where
  "lookup_notify u to srv new s =
     (let cmd = (if new then ua_cmd u CMD_NEW_SERVER else ua_cmd u CMD_DEL_SERVER);
          pkt = (case srv of None \<Rightarrow> \<lparr>cp_cmd = cmd, cp_w0 = 0, cp_w1 = 0, cp_w2 = 0, cp_w3 = 0\<rparr>
                 | Some x \<Rightarrow> server_pkt cmd x)
      in snd (kernel_sendmsg to pkt s))"

fun announce_loop :: "uapi \<Rightarrow> sockaddr_qrtr \<Rightarrow> qrtr_server list \<Rightarrow> qrtr_ns \<Rightarrow> int \<times> qrtr_ns" where
  "announce_loop u sq [] s = (0, s)"
| "announce_loop u sq (srv # srvs) s =
     (case service_announce_new u sq srv s of (ret, s1) \<Rightarrow>
      if ret < 0 \<and> ret \<noteq> - ENODEV then (ret, s1) else announce_loop u sq srvs s1)"

definition announce_servers :: "uapi \<Rightarrow> sockaddr_qrtr \<Rightarrow> qrtr_ns \<Rightarrow> int \<times> qrtr_ns" where
  "announce_servers u sq s =
     (case node_get (ns_local_node s) s of (got, s1) \<Rightarrow>
      if \<not> got then (0, s1) else announce_loop u sq (map snd (ns_servers s1 (ns_local_node s1))) s1)"

definition server_add :: "u32 \<Rightarrow> u32 \<Rightarrow> u32 \<Rightarrow> u32 \<Rightarrow> qrtr_ns \<Rightarrow> qrtr_server option \<times> qrtr_ns" where
  "server_add service inst node_id port s =
     (if service = 0 \<or> port = 0 then (None, s)
      else (case kzalloc s of (got, s1) \<Rightarrow>
      if \<not> got then (None, s1)
      else (let srv = \<lparr>srv_service = service, srv_instance = inst, srv_node = node_id, srv_port = port\<rparr> in
      case node_get node_id s1 of (node, s2) \<Rightarrow>
      if \<not> node then (None, kfree s2)
      else (case xa_store_ok s2 of (stored, s3) \<Rightarrow>
      if \<not> stored then (None, kfree s3)
      else (let old = xa_load (ns_servers s3 node_id) port;
                s4 = s3\<lparr>ns_nodes := xa_store (ns_nodes s3) node_id (xa_store (ns_servers s3 node_id) port srv)\<rparr>
            in (Some srv, if old \<noteq> None then kfree s4 else s4))))))"

text \<open>Whom a lookup wants to hear about.\<close>

definition lookup_wants :: "qrtr_lookup \<Rightarrow> u32 \<Rightarrow> u32 \<Rightarrow> bool" where
  "lookup_wants lk service inst \<longleftrightarrow>
     \<not> (lk_service lk \<noteq> 0 \<and> lk_service lk \<noteq> service) \<and> \<not> (lk_instance lk \<noteq> 0 \<and> lk_instance lk \<noteq> inst)"

fun notify_lookups :: "uapi \<Rightarrow> qrtr_server \<Rightarrow> bool \<Rightarrow> qrtr_lookup list \<Rightarrow> qrtr_ns \<Rightarrow> qrtr_ns" where
  "notify_lookups u srv new [] s = s"
| "notify_lookups u srv new (lk # lks) s =
     notify_lookups u srv new lks
       (if lookup_wants lk (srv_service srv) (srv_instance srv)
        then lookup_notify u (lk_sq lk) (Some srv) new s else s)"

definition bcast_sq :: "uapi \<Rightarrow> sockaddr_qrtr" where
  "bcast_sq u = \<lparr>sq_node = ua_bcast u, sq_port = ua_ctrl u\<rparr>"

definition server_del :: "uapi \<Rightarrow> u32 \<Rightarrow> u32 \<Rightarrow> bool \<Rightarrow> qrtr_ns \<Rightarrow> int \<times> qrtr_ns" where
  "server_del u node port bcast s =
     (case xa_load (ns_servers s node) port of
        None \<Rightarrow> (- ENOENT, s)
      | Some srv \<Rightarrow>
          (let s1 = s\<lparr>ns_nodes := xa_store (ns_nodes s) node (xa_erase (ns_servers s node) port)\<rparr>;
               s2 = (if srv_node srv = ns_local_node s1 \<and> bcast then service_announce_del u (bcast_sq u) srv s1 else s1);
               s3 = notify_lookups u srv False (ns_lookups s2) s2
           in (0, kfree s3)))"

section \<open>Control messages\<close>

definition say_hello :: "uapi \<Rightarrow> sockaddr_qrtr \<Rightarrow> qrtr_ns \<Rightarrow> int \<times> qrtr_ns" where
  "say_hello u dest =
     kernel_sendmsg dest \<lparr>cp_cmd = ua_cmd u CMD_HELLO, cp_w0 = 0, cp_w1 = 0, cp_w2 = 0, cp_w3 = 0\<rparr>"

definition ctrl_cmd_hello :: "uapi \<Rightarrow> sockaddr_qrtr \<Rightarrow> qrtr_ns \<Rightarrow> int \<times> qrtr_ns" where
  "ctrl_cmd_hello u sq s =
     (case say_hello u sq s of (ret, s1) \<Rightarrow> if ret < 0 then (ret, s1) else announce_servers u sq s1)"

text \<open>Delete the servers of a node while walking over them.\<close>

fun bye_servers :: "uapi \<Rightarrow> u32 \<Rightarrow> u32 list \<Rightarrow> qrtr_ns \<Rightarrow> qrtr_ns" where
  "bye_servers u node [] s = s"
| "bye_servers u node (k # ks) s =
     (case xa_load (ns_servers s node) k of
        None \<Rightarrow> bye_servers u node ks s
      | Some srv \<Rightarrow> bye_servers u node ks (snd (server_del u node (srv_port srv) True s)))"

fun tell_servers :: "qrtr_ctrl_pkt \<Rightarrow> qrtr_server list \<Rightarrow> qrtr_ns \<Rightarrow> int \<times> qrtr_ns" where
  "tell_servers pkt [] s = (0, s)"
| "tell_servers pkt (srv # srvs) s =
     (case kernel_sendmsg \<lparr>sq_node = srv_node srv, sq_port = srv_port srv\<rparr> pkt s of (ret, s1) \<Rightarrow>
      if ret < 0 \<and> ret \<noteq> - ENODEV then (ret, s1) else tell_servers pkt srvs s1)"

definition tell_local :: "qrtr_ctrl_pkt \<Rightarrow> qrtr_ns \<Rightarrow> int \<times> qrtr_ns" where
  "tell_local pkt s =
     (case node_get (ns_local_node s) s of (got, s1) \<Rightarrow>
      if \<not> got then (0, s1) else tell_servers pkt (map snd (ns_servers s1 (ns_local_node s1))) s1)"

definition ctrl_cmd_bye :: "uapi \<Rightarrow> sockaddr_qrtr \<Rightarrow> qrtr_ns \<Rightarrow> int \<times> qrtr_ns" where
  "ctrl_cmd_bye u from s =
     (case node_get (sq_node from) s of (got, s1) \<Rightarrow>
      if \<not> got then (0, s1)
      else tell_local \<lparr>cp_cmd = ua_cmd u CMD_BYE, cp_w0 = sq_node from, cp_w1 = 0, cp_w2 = 0, cp_w3 = 0\<rparr>
             (bye_servers u (sq_node from) (map fst (ns_servers s1 (sq_node from))) s1))"

text \<open>Free the lookups that satisfy \<open>P\<close>.\<close>

definition free_lookups :: "(qrtr_lookup \<Rightarrow> bool) \<Rightarrow> qrtr_ns \<Rightarrow> qrtr_ns" where
  "free_lookups P s =
     s\<lparr>ns_lookups := filter (\<lambda>lk. \<not> P lk) (ns_lookups s),
       ns_heap := ns_heap s - length (filter P (ns_lookups s))\<rparr>"

definition ctrl_cmd_del_client :: "uapi \<Rightarrow> sockaddr_qrtr \<Rightarrow> u32 \<Rightarrow> u32 \<Rightarrow> qrtr_ns \<Rightarrow> int \<times> qrtr_ns" where
  "ctrl_cmd_del_client u from node_id port s =
     (if sq_node from \<noteq> node_id then (- EINVAL, s)
      else if sq_node from = ns_local_node s \<and> sq_port from \<noteq> port then (- EINVAL, s)
      else (let s1 = free_lookups (\<lambda>lk. sq_node (lk_sq lk) = node_id \<and> sq_port (lk_sq lk) = port) s in
        case node_get node_id s1 of (got, s2) \<Rightarrow>
        tell_local \<lparr>cp_cmd = ua_cmd u CMD_DEL_CLIENT, cp_w0 = node_id, cp_w1 = port, cp_w2 = 0, cp_w3 = 0\<rparr>
          (if got then snd (server_del u node_id port False s2) else s2)))"

text \<open>A local sender speaks for its own node and port.\<close>

definition speaks_for :: "qrtr_ns \<Rightarrow> sockaddr_qrtr \<Rightarrow> u32 \<Rightarrow> u32 \<Rightarrow> u32 \<times> u32" where
  "speaks_for s from node_id port =
     (if sq_node from = ns_local_node s then (sq_node from, sq_port from) else (node_id, port))"

definition ctrl_cmd_new_server ::
  "uapi \<Rightarrow> sockaddr_qrtr \<Rightarrow> u32 \<Rightarrow> u32 \<Rightarrow> u32 \<Rightarrow> u32 \<Rightarrow> qrtr_ns \<Rightarrow> int \<times> qrtr_ns" where
  "ctrl_cmd_new_server u from service inst node_id0 port0 s =
     (case speaks_for s from node_id0 port0 of (node_id, port) \<Rightarrow>
      case server_add service inst node_id port s of
        (None, s1) \<Rightarrow> (- EINVAL, s1)
      | (Some srv, s1) \<Rightarrow>
          (case (if srv_node srv = ns_local_node s1 then service_announce_new u (bcast_sq u) srv s1 else (0, s1)) of
             (ret, s2) \<Rightarrow>
               if ret < 0 then (ret, s2) else (ret, notify_lookups u srv True (ns_lookups s2) s2)))"

definition ctrl_cmd_del_server ::
  "uapi \<Rightarrow> sockaddr_qrtr \<Rightarrow> u32 \<Rightarrow> u32 \<Rightarrow> u32 \<Rightarrow> u32 \<Rightarrow> qrtr_ns \<Rightarrow> int \<times> qrtr_ns" where
  "ctrl_cmd_del_server u from service inst node_id0 port0 s =
     (case speaks_for s from node_id0 port0 of (node_id, port) \<Rightarrow>
      if sq_node from = ns_local_node s \<and> sq_port from \<noteq> port then (- EINVAL, s)
      else (case node_get node_id s of (got, s1) \<Rightarrow>
            if \<not> got then (- ENOENT, s1) else (0, snd (server_del u node_id port True s1))))"

fun list_servers :: "uapi \<Rightarrow> sockaddr_qrtr \<Rightarrow> qrtr_server_filter \<Rightarrow> qrtr_server list \<Rightarrow> qrtr_ns \<Rightarrow> qrtr_ns" where
  "list_servers u from f [] s = s"
| "list_servers u from f (srv # srvs) s =
     list_servers u from f srvs (if server_match srv f then lookup_notify u from (Some srv) True s else s)"

definition all_servers :: "qrtr_ns \<Rightarrow> qrtr_server list" where
  "all_servers s = concat (map (\<lambda>(_, t). map snd t) (ns_nodes s))"

definition ctrl_cmd_new_lookup :: "uapi \<Rightarrow> sockaddr_qrtr \<Rightarrow> u32 \<Rightarrow> u32 \<Rightarrow> qrtr_ns \<Rightarrow> int \<times> qrtr_ns" where
  "ctrl_cmd_new_lookup u from service inst s =
     (if sq_node from \<noteq> ns_local_node s then (- EINVAL, s)
      else (case kzalloc s of (got, s1) \<Rightarrow>
      if \<not> got then (- ENOMEM, s1)
      else (let s2 = s1\<lparr>ns_lookups := ns_lookups s1 @ [\<lparr>lk_service = service, lk_instance = inst, lk_sq = from\<rparr>]\<rparr>;
                f = \<lparr>flt_service = service, flt_instance = inst, flt_ifilter = 0\<rparr>
            in (0, lookup_notify u from None True (list_servers u from f (all_servers s2) s2)))))"

definition ctrl_cmd_del_lookup :: "sockaddr_qrtr \<Rightarrow> u32 \<Rightarrow> u32 \<Rightarrow> qrtr_ns \<Rightarrow> qrtr_ns" where
  "ctrl_cmd_del_lookup from service inst s =
     free_lookups (\<lambda>lk. sq_node (lk_sq lk) = sq_node from \<and> sq_port (lk_sq lk) = sq_port from \<and>
        lk_service lk = service \<and> \<not> (lk_instance lk \<noteq> 0 \<and> lk_instance lk \<noteq> inst)) s"

section \<open>Worker\<close>

definition recv_buf_size :: nat where "recv_buf_size = 4096"

definition ns_dispatch :: "uapi \<Rightarrow> sockaddr_qrtr \<Rightarrow> qrtr_ctrl_pkt \<Rightarrow> qrtr_ns \<Rightarrow> int \<times> qrtr_ns" where
  "ns_dispatch u sq pkt s =
     (let cmd = cp_cmd pkt in
      if cmd = ua_cmd u CMD_HELLO then ctrl_cmd_hello u sq s
      else if cmd = ua_cmd u CMD_BYE then ctrl_cmd_bye u sq s
      else if cmd = ua_cmd u CMD_DEL_CLIENT then ctrl_cmd_del_client u sq (cp_w0 pkt) (cp_w1 pkt) s
      else if cmd = ua_cmd u CMD_NEW_SERVER
        then ctrl_cmd_new_server u sq (cp_w0 pkt) (cp_w1 pkt) (cp_w2 pkt) (cp_w3 pkt) s
      else if cmd = ua_cmd u CMD_DEL_SERVER
        then ctrl_cmd_del_server u sq (cp_w0 pkt) (cp_w1 pkt) (cp_w2 pkt) (cp_w3 pkt) s
      else if cmd = ua_cmd u CMD_EXIT \<or> cmd = ua_cmd u CMD_PING \<or> cmd = ua_cmd u CMD_RESUME_TX then (0, s)
      else if cmd = ua_cmd u CMD_NEW_LOOKUP then ctrl_cmd_new_lookup u sq (cp_w0 pkt) (cp_w1 pkt) s
      else if cmd = ua_cmd u CMD_DEL_LOOKUP then (0, ctrl_cmd_del_lookup sq (cp_w0 pkt) (cp_w1 pkt) s)
      else (0, s))"

text \<open>
  What \<open>kernel_recvmsg\<close> gives: a negated error number, or the message and its sender. The
  flag says whether the loop has ended; the receive buffer is kept between messages.
\<close>

type_synonym ns_received = "int + (bytes \<times> sockaddr_qrtr)"

fun worker_loop :: "uapi \<Rightarrow> ns_received list \<Rightarrow> bytes \<times> qrtr_ns \<Rightarrow> bool \<times> bytes \<times> qrtr_ns" where
  "worker_loop u [] (buf, s) = (False, buf, s)"
| "worker_loop u (Inl err # rs) (buf, s) = (True, buf, s)"
| "worker_loop u (Inr (msg, sq) # rs) (buf, s) =
     (let buf1 = mem_put 0 (take recv_buf_size msg) buf in
      worker_loop u rs (buf1, snd (ns_dispatch u sq (read_pkt buf1) s)))"

definition qrtr_ns_worker :: "uapi \<Rightarrow> ns_received list \<Rightarrow> qrtr_ns \<Rightarrow> bool \<times> qrtr_ns" where
  "qrtr_ns_worker u rs s =
     (case kzalloc s of (got, s1) \<Rightarrow>
      if \<not> got then (True, s1)
      else (case worker_loop u rs (replicate recv_buf_size 0, s1) of (ended, _, s2) \<Rightarrow>
            (ended, if ended then kfree s2 else s2)))"

section \<open>Module\<close>

datatype ns_res = Sock | Workqueue | Module_ref

record ns_env =
  ne_sock :: int
  ne_sockname :: "int + u32"
  ne_workqueue :: bool
  ne_bind :: int
  ne_result :: "nat \<Rightarrow> int"
  ne_nomem :: "nat \<Rightarrow> bool"

text \<open>\<open>sock_create_kern\<close> takes two references on the module that owns the protocol.\<close>

definition sock_trace :: "ns_res revent list" where
  "sock_trace = [Acq Module_ref, Acq Module_ref, Acq Sock]"

definition sock_release_trace :: "ns_res revent list" where
  "sock_release_trace = [Rel Sock, Rel Module_ref, Rel Module_ref]"

definition ns_boot :: "ns_env \<Rightarrow> u32 \<Rightarrow> qrtr_ns" where
  "ns_boot e local_node =
     \<lparr>ns_nodes = [], ns_lookups = [], ns_local_node = local_node, ns_tick = 0, ns_nomem = ne_nomem e,
      ns_result = ne_result e, ns_sent = [], ns_heap = 0\<rparr>"

definition qrtr_ns_init :: "uapi \<Rightarrow> ns_env \<Rightarrow> int \<times> ns_res revent list \<times> qrtr_ns option" where
  "qrtr_ns_init u e =
     (if ne_sock e < 0 then (ne_sock e, [], None)
      else case ne_sockname e of
        Inl err \<Rightarrow> (err, sock_trace @ sock_release_trace, None)
      | Inr local_node \<Rightarrow>
      if \<not> ne_workqueue e then (- ENOMEM, sock_trace @ sock_release_trace, None)
      else (let t = sock_trace @ [Acq Workqueue]; unwind = [Rel Workqueue] @ sock_release_trace in
      if ne_bind e < 0 then (ne_bind e, t @ unwind, None)
      else (case say_hello u (bcast_sq u) (ns_boot e local_node) of (ret, s) \<Rightarrow>
            if ret < 0 then (ret, t @ unwind, None)
            else (0, t @ [Rel Module_ref, Rel Module_ref], Some s))))"

definition qrtr_ns_remove :: "ns_res revent list" where
  "qrtr_ns_remove = [Rel Workqueue, Acq Module_ref, Acq Module_ref] @ sock_release_trace"

section \<open>Invariant\<close>

text \<open>
  Every server is filed under its own node and port, every observer is local, and the heap
  holds exactly the nodes, the servers and the lookups beside \<open>h\<close> other blocks.
\<close>

definition node_ok :: "u32 \<Rightarrow> servers \<Rightarrow> bool" where
  "node_ok n t \<longleftrightarrow> xa_ok t \<and>
     (\<forall>p srv. xa_load t p = Some srv \<longrightarrow>
        srv_node srv = n \<and> srv_port srv = p \<and> p \<noteq> 0 \<and> srv_service srv \<noteq> 0)"

definition nodes_ok :: "servers xarray \<Rightarrow> bool" where
  "nodes_ok ns \<longleftrightarrow> xa_ok ns \<and> (\<forall>n t. xa_load ns n = Some t \<longrightarrow> node_ok n t)"

definition ns_objects :: "qrtr_ns \<Rightarrow> nat" where
  "ns_objects s = length (ns_nodes s) + xa_total length (ns_nodes s) + length (ns_lookups s)"

definition ns_inv :: "nat \<Rightarrow> qrtr_ns \<Rightarrow> bool" where
  "ns_inv h s \<longleftrightarrow> nodes_ok (ns_nodes s) \<and>
     (\<forall>lk \<in> set (ns_lookups s). sq_node (lk_sq lk) = ns_local_node s) \<and> ns_heap s = h + ns_objects s"

text \<open>What sending does not touch.\<close>

definition ns_core :: "qrtr_ns \<Rightarrow> servers xarray \<times> qrtr_lookup list \<times> u32 \<times> nat \<times> (nat \<Rightarrow> bool)" where
  "ns_core s = (ns_nodes s, ns_lookups s, ns_local_node s, ns_heap s, ns_nomem s)"

lemma ns_inv_core: "ns_core s' = ns_core s \<Longrightarrow> ns_inv h s' = ns_inv h s"
  by (simp add: ns_core_def ns_inv_def ns_objects_def)

lemma send_core [simp]: "ns_core (snd (kernel_sendmsg d p s)) = ns_core s"
  by (simp add: kernel_sendmsg_def ns_core_def)

lemma lookup_notify_core [simp]: "ns_core (lookup_notify u to srv new s) = ns_core s"
  by (simp add: lookup_notify_def Let_def)

lemma announce_del_core [simp]: "ns_core (service_announce_del u d srv s) = ns_core s"
  by (simp add: service_announce_del_def)

lemma announce_new_core [simp]: "ns_core (snd (service_announce_new u d srv s)) = ns_core s"
  by (simp add: service_announce_new_def)

lemma notify_lookups_core [simp]: "ns_core (notify_lookups u srv new lks s) = ns_core s"
  by (induction lks arbitrary: s) auto

lemma list_servers_core [simp]: "ns_core (list_servers u from f srvs s) = ns_core s"
  by (induction srvs arbitrary: s) auto

lemma announce_loop_core [simp]: "ns_core (snd (announce_loop u sq srvs s)) = ns_core s"
  by (induction srvs arbitrary: s) (simp_all add: case_prod_beta)

lemma tell_servers_core [simp]: "ns_core (snd (tell_servers pkt srvs s)) = ns_core s"
  by (induction srvs arbitrary: s) (simp_all add: case_prod_beta)

lemma nodes_ok_empty_node:
  assumes "nodes_ok ns" and "xa_load ns n = None"
  shows "nodes_ok (xa_store ns n [])" and "length (xa_store ns n []) = Suc (length ns)"
    and "xa_total length (xa_store ns n []) = xa_total length ns"
  using assms xa.ok_store xa_total_store [of ns length n "[]"]
  by (auto simp: nodes_ok_def node_ok_def xa.load_store xa.load_empty xa.count_store xa.ok_empty split: if_splits)

text \<open>Taking a node creates at most an empty one.\<close>

lemma ns_servers_store: "xa_ok (ns_nodes s) \<Longrightarrow>
  ns_servers (s\<lparr>ns_nodes := xa_store (ns_nodes s) n t\<rparr>) m = (if m = n then t else ns_servers s m)"
  by (simp add: ns_servers_def xa.load_store)

lemma node_get_spec:
  assumes inv: "ns_inv h s" and run: "node_get n s = (got, s')"
  shows "ns_inv h s'" and "\<And>m. ns_servers s' m = ns_servers s m" and "ns_lookups s' = ns_lookups s"
    and "ns_local_node s' = ns_local_node s" and "ns_nomem s' = ns_nomem s"
    and "got \<Longrightarrow> xa_load (ns_nodes s') n \<noteq> None"
    and "got = (xa_load (ns_nodes s) n \<noteq> None \<or> \<not> ns_nomem s (ns_tick s) \<and> \<not> ns_nomem s (Suc (ns_tick s)))"
proof -
  have ok: "nodes_ok (ns_nodes s)" "xa_ok (ns_nodes s)"
    using inv by (simp_all add: ns_inv_def nodes_ok_def)
  show "ns_inv h s'"
    using run inv nodes_ok_empty_node [OF ok(1), of n]
    by (auto simp: node_get_def kzalloc_def kfree_def xa_store_ok_def ns_inv_def ns_objects_def Let_def
        split: option.splits if_splits)
  show "ns_servers s' m = ns_servers s m" for m
    using run ok(2)
    by (auto simp: node_get_def kzalloc_def kfree_def xa_store_ok_def ns_servers_def Let_def xa.load_store
        split: option.splits if_splits)
  show "ns_lookups s' = ns_lookups s" "ns_local_node s' = ns_local_node s" "ns_nomem s' = ns_nomem s"
    using run by (auto simp: node_get_def kzalloc_def kfree_def xa_store_ok_def Let_def split: option.splits if_splits)
  show "xa_load (ns_nodes s') n \<noteq> None" if got
    using run that ok(2)
    by (auto simp: node_get_def kzalloc_def kfree_def xa_store_ok_def Let_def xa.load_store split: option.splits if_splits)
  show "got = (xa_load (ns_nodes s) n \<noteq> None \<or> \<not> ns_nomem s (ns_tick s) \<and> \<not> ns_nomem s (Suc (ns_tick s)))"
    using run by (auto simp: node_get_def kzalloc_def kfree_def xa_store_ok_def Let_def split: option.splits if_splits)
qed

section \<open>Registry\<close>

text \<open>What the service knows: the servers by node and port, and the lookups.\<close>

definition ns_reg :: "qrtr_ns \<Rightarrow> u32 \<times> u32 \<rightharpoonup> u32 \<times> u32" where
  "ns_reg s = (\<lambda>(n, p). map_option (\<lambda>srv. (srv_service srv, srv_instance srv)) (xa_load (ns_servers s n) p))"

definition ns_same :: "qrtr_ns \<Rightarrow> qrtr_ns \<Rightarrow> bool" where
  "ns_same s s' \<longleftrightarrow> ns_lookups s' = ns_lookups s \<and> ns_local_node s' = ns_local_node s \<and> ns_nomem s' = ns_nomem s"

lemma ns_same_trans: "ns_same s s1 \<Longrightarrow> ns_same s1 s2 \<Longrightarrow> ns_same s s2"
  by (simp add: ns_same_def)

lemma core_same: "ns_core s' = ns_core s \<Longrightarrow> ns_same s s' \<and> ns_reg s' = ns_reg s \<and> ns_servers s' = ns_servers s"
  by (simp add: ns_core_def ns_same_def ns_reg_def ns_servers_def fun_eq_iff)

lemma node_get_reg:
  assumes "ns_inv h s" and "node_get n s = (got, s')"
  shows "ns_inv h s' \<and> ns_same s s' \<and> ns_reg s' = ns_reg s"
  using node_get_spec [OF assms] by (simp add: ns_same_def ns_reg_def fun_eq_iff)

lemma servers_ok: "ns_inv h s \<Longrightarrow> node_ok n (ns_servers s n)"
  by (auto simp: ns_inv_def nodes_ok_def ns_servers_def node_ok_def xa.ok_empty xa.load_empty split: option.splits)

text \<open>Replacing the server table of a node that exists.\<close>

lemma replace_servers:
  assumes inv: "ns_inv h s" and n: "xa_load (ns_nodes s) n \<noteq> None" and ok: "node_ok n t"
  shows "nodes_ok (xa_store (ns_nodes s) n t)"
    and "length (xa_store (ns_nodes s) n t) = length (ns_nodes s)"
    and "xa_total length (xa_store (ns_nodes s) n t) + length (ns_servers s n) =
      xa_total length (ns_nodes s) + length t"
proof -
  have t: "xa_load (ns_nodes s) n = Some (ns_servers s n)" and xok: "xa_ok (ns_nodes s)"
    using inv n by (auto simp: ns_servers_def ns_inv_def nodes_ok_def)
  show "nodes_ok (xa_store (ns_nodes s) n t)"
    using inv ok xok xa.ok_store [OF xok] by (auto simp: ns_inv_def nodes_ok_def xa.load_store)
  show "xa_total length (xa_store (ns_nodes s) n t) + length (ns_servers s n) =
      xa_total length (ns_nodes s) + length t"
    using xa_total_store [OF xok, of length n t] t by simp
  show "length (xa_store (ns_nodes s) n t) = length (ns_nodes s)"
    using xa.count_store [OF xok, of n t] t by simp
qed

lemma kzalloc_inv: "ns_inv h s \<Longrightarrow> kzalloc s = (got, s') \<Longrightarrow>
  ns_inv (if got then Suc h else h) s' \<and> ns_same s s' \<and> ns_reg s' = ns_reg s \<and> ns_servers s' = ns_servers s"
  by (auto simp: kzalloc_def Let_def ns_inv_def ns_objects_def ns_same_def ns_reg_def ns_servers_def fun_eq_iff
      split: if_splits)

lemma kfree_inv: "ns_inv (Suc h) s \<Longrightarrow> ns_inv h (kfree s) \<and> ns_same s (kfree s) \<and> ns_reg (kfree s) = ns_reg s"
  by (auto simp: kfree_def ns_inv_def ns_objects_def ns_same_def ns_reg_def ns_servers_def fun_eq_iff)

lemma xa_store_ok_inv: "ns_inv h s \<Longrightarrow> xa_store_ok s = (b, s') \<Longrightarrow>
  ns_inv h s' \<and> ns_same s s' \<and> ns_reg s' = ns_reg s \<and> ns_nodes s' = ns_nodes s \<and> b = (\<not> ns_nomem s (ns_tick s))"
  by (auto simp: xa_store_ok_def ns_inv_def ns_objects_def ns_same_def ns_reg_def ns_servers_def fun_eq_iff)

lemma store_server_inv:
  assumes inv: "ns_inv (Suc h) s" and n: "xa_load (ns_nodes s) n \<noteq> None"
    and srv: "srv_node srv = n" "srv_port srv = p" "p \<noteq> 0" "srv_service srv \<noteq> 0"
  defines "s1 \<equiv> s\<lparr>ns_nodes := xa_store (ns_nodes s) n (xa_store (ns_servers s n) p srv)\<rparr>"
  defines "s' \<equiv> if xa_load (ns_servers s n) p \<noteq> None then kfree s1 else s1"
  shows "ns_inv h s'" and "ns_same s s'"
    and "ns_reg s' = (ns_reg s)((n, p) \<mapsto> (srv_service srv, srv_instance srv))"
proof -
  have t: "node_ok n (ns_servers s n)" and xt: "xa_ok (ns_servers s n)" and xok: "xa_ok (ns_nodes s)"
    using servers_ok [OF inv] inv by (auto simp: node_ok_def ns_inv_def nodes_ok_def)
  have "node_ok n (xa_store (ns_servers s n) p srv)"
    using t srv xt xa.ok_store [OF xt] by (auto simp: node_ok_def xa.load_store)
  note r = replace_servers [OF inv n this]
  show "ns_inv h s'"
    using inv r xa.count_store [OF xt, of p srv]
    by (auto simp: s'_def s1_def kfree_def ns_inv_def ns_objects_def)
  show "ns_same s s'"
    by (simp add: s'_def s1_def kfree_def ns_same_def)
  show "ns_reg s' = (ns_reg s)((n, p) \<mapsto> (srv_service srv, srv_instance srv))"
    using xok xt
    by (auto simp: s'_def s1_def kfree_def ns_reg_def ns_servers_def fun_eq_iff xa.load_store split: option.splits)
qed

lemma server_add_spec:
  assumes inv: "ns_inv h s" and run: "server_add service inst n p s = (r, s')"
  shows "ns_inv h s' \<and> ns_same s s'" and "r = None \<Longrightarrow> ns_reg s' = ns_reg s"
    and "r = Some srv \<Longrightarrow> srv = \<lparr>srv_service = service, srv_instance = inst, srv_node = n, srv_port = p\<rparr> \<and>
       service \<noteq> 0 \<and> p \<noteq> 0 \<and> ns_reg s' = (ns_reg s)((n, p) \<mapsto> (service, inst))"
    and "\<forall>t. \<not> ns_nomem s t \<Longrightarrow> r = None \<longleftrightarrow> service = 0 \<or> p = 0"
proof -
  let ?srv = "\<lparr>srv_service = service, srv_instance = inst, srv_node = n, srv_port = p\<rparr>"
  obtain got s1 where k: "kzalloc s = (got, s1)" by fastforce
  obtain node s2 where g: "node_get n s1 = (node, s2)" by fastforce
  obtain stored s3 where x: "xa_store_ok s2 = (stored, s3)" by fastforce
  note ki = kzalloc_inv [OF inv k]
  have "(ns_inv h s' \<and> ns_same s s') \<and> (r = None \<longrightarrow> ns_reg s' = ns_reg s) \<and>
    (r = Some srv \<longrightarrow> srv = ?srv \<and> service \<noteq> 0 \<and> p \<noteq> 0 \<and> ns_reg s' = (ns_reg s)((n, p) \<mapsto> (service, inst))) \<and>
    ((\<forall>t. \<not> ns_nomem s t) \<longrightarrow> r = None \<longleftrightarrow> service = 0 \<or> p = 0)"
  proof (cases "service = 0 \<or> p = 0 \<or> \<not> got")
    case True
    with run k ki inv show ?thesis
      by (auto simp: server_add_def ns_same_def kzalloc_def Let_def split: if_splits)
  next
    case False
    then have got: "got" and nz: "service \<noteq> 0" "p \<noteq> 0"
      by simp_all
    have inv1: "ns_inv (Suc h) s1"
      using ki got by simp
    note gi = node_get_spec [OF inv1 g] and gr = node_get_reg [OF inv1 g]
    have inv2: "ns_inv (Suc h) s2" and same2: "ns_same s s2" and reg2: "ns_reg s2 = ns_reg s"
      using gr ki ns_same_trans by auto
    note xi = xa_store_ok_inv [OF inv2 x]
    have same3: "ns_same s s3"
      using xi same2 ns_same_trans by blast
    show ?thesis
    proof (cases "node \<and> stored")
      case True
      then have n3: "xa_load (ns_nodes s3) n \<noteq> None"
        using gi(6) xi by simp
      have eq: "r = Some ?srv" "s' = (let s4 = s3\<lparr>ns_nodes := xa_store (ns_nodes s3) n (xa_store (ns_servers s3 n) p ?srv)\<rparr> in
          if xa_load (ns_servers s3 n) p \<noteq> None then kfree s4 else s4)"
        using run nz k got g x True by (simp_all add: server_add_def Let_def)
      have inv3: "ns_inv (Suc h) s3" and reg3: "ns_reg s3 = ns_reg s"
        using xi reg2 by simp_all
      have "ns_inv h s'" and "ns_same s3 s'" and "ns_reg s' = (ns_reg s3)((n, p) \<mapsto> (service, inst))"
        using store_server_inv [OF inv3 n3, of ?srv p] nz unfolding eq(2) Let_def by simp_all
      with eq(1) nz reg3 ns_same_trans [OF same3, of s'] show ?thesis
        by simp
    next
      case False
      then have "r = None" "s' = (if node then kfree s3 else kfree s2)"
        using run nz k got g x by (auto simp: server_add_def Let_def split: if_splits)
      moreover have "ns_inv h (kfree s3) \<and> ns_same s (kfree s3) \<and> ns_reg (kfree s3) = ns_reg s"
        using kfree_inv [of h s3] xi same3 reg2 ns_same_trans by auto
      moreover have "ns_inv h (kfree s2) \<and> ns_same s (kfree s2) \<and> ns_reg (kfree s2) = ns_reg s"
        using kfree_inv [OF inv2] same2 reg2 ns_same_trans by auto
      moreover have "\<exists>t. ns_nomem s t"
        using False gi(7) xi same2 ki by (auto simp: ns_same_def)
      ultimately show ?thesis
        by auto
    qed
  qed
  then show "ns_inv h s' \<and> ns_same s s'" and "r = None \<Longrightarrow> ns_reg s' = ns_reg s"
    and "r = Some srv \<Longrightarrow> srv = ?srv \<and> service \<noteq> 0 \<and> p \<noteq> 0 \<and> ns_reg s' = (ns_reg s)((n, p) \<mapsto> (service, inst))"
    and "\<forall>t. \<not> ns_nomem s t \<Longrightarrow> r = None \<longleftrightarrow> service = 0 \<or> p = 0"
    by blast+
qed

lemma server_del_spec:
  assumes inv: "ns_inv h s" and run: "server_del u n p bcast s = (ret, s')"
  shows "ns_inv h s' \<and> ns_same s s' \<and> ns_reg s' = (ns_reg s)((n, p) := None) \<and>
    (\<forall>m k. xa_load (ns_servers s' m) k = (if m = n \<and> k = p then None else xa_load (ns_servers s m) k))"
proof (cases "xa_load (ns_servers s n) p")
  case None
  with run inv show ?thesis
    by (auto simp: server_del_def ns_same_def ns_reg_def fun_eq_iff)
next
  case (Some srv)
  let ?s1 = "s\<lparr>ns_nodes := xa_store (ns_nodes s) n (xa_erase (ns_servers s n) p)\<rparr>"
  have n: "xa_load (ns_nodes s) n \<noteq> None"
    using Some by (auto simp: ns_servers_def xa.load_empty split: option.splits)
  have xt: "xa_ok (ns_servers s n)" and xok: "xa_ok (ns_nodes s)" and t: "node_ok n (ns_servers s n)"
    using servers_ok [OF inv, of n] inv by (auto simp: node_ok_def ns_inv_def nodes_ok_def)
  have "node_ok n (xa_erase (ns_servers s n) p)"
    using t xa.ok_erase [OF xt] by (auto simp: node_ok_def xa.load_erase)
  note r = replace_servers [OF inv n this]
  have i1: "ns_inv (Suc h) ?s1"
    using inv r xa.count_erase [OF xt, of p] Some by (auto simp: ns_inv_def ns_objects_def)
  let ?s2 = "if srv_node srv = ns_local_node ?s1 \<and> bcast then service_announce_del u (bcast_sq u) srv ?s1 else ?s1"
  let ?s3 = "notify_lookups u srv False (ns_lookups ?s2) ?s2"
  have c: "ns_core ?s3 = ns_core ?s1"
    by simp
  have s': "s' = kfree ?s3"
    using run Some by (simp add: server_del_def Let_def)
  have load: "xa_load (ns_servers s' m) k = (if m = n \<and> k = p then None else xa_load (ns_servers s m) k)" for m k
    using core_same [OF c] xok xt
    by (auto simp: s' kfree_def ns_servers_def xa.load_store xa.load_erase fun_eq_iff split: option.splits)
  have "ns_inv h s'" and "ns_same s s'"
    using kfree_inv [of h ?s3] ns_inv_core [OF c, of "Suc h"] i1 core_same [OF c] unfolding s'
    by (auto simp: ns_same_def)
  moreover have "ns_reg s' = (ns_reg s)((n, p) := None)"
    using load by (auto simp: ns_reg_def fun_eq_iff)
  ultimately show ?thesis
    using load by blast
qed

lemma bye_servers_spec:
  assumes inv: "ns_inv h s"
  shows "ns_inv h (bye_servers u n ks s) \<and> ns_same s (bye_servers u n ks s) \<and>
    ns_reg (bye_servers u n ks s) = (\<lambda>(m, p). if m = n \<and> p \<in> set ks then None else ns_reg s (m, p))"
  using inv
proof (induction ks arbitrary: s)
  case Nil
  then show ?case by (simp add: ns_same_def)
next
  case (Cons k ks)
  show ?case
  proof (cases "xa_load (ns_servers s n) k")
    case None
    with Cons.IH [OF Cons.prems] show ?thesis
      by (auto simp: fun_eq_iff ns_reg_def)
  next
    case (Some srv)
    have port: "srv_port srv = k"
      using servers_ok [OF Cons.prems, of n] Some by (simp add: node_ok_def)
    obtain ret s1 where d: "server_del u n k True s = (ret, s1)"
      by fastforce
    note ds = server_del_spec [OF Cons.prems d]
    show ?thesis
      using Cons.IH [of s1] ds ns_same_trans [of s s1] Some port d by (auto simp: fun_eq_iff)
  qed
qed

lemma tell_local_spec:
  assumes "ns_inv h s"
  shows "ns_inv h (snd (tell_local pkt s)) \<and> ns_same s (snd (tell_local pkt s)) \<and> ns_reg (snd (tell_local pkt s)) = ns_reg s"
proof -
  obtain got s1 where g: "node_get (ns_local_node s) s = (got, s1)"
    by fastforce
  note n = node_get_reg [OF assms g]
  let ?s2 = "snd (tell_servers pkt (map snd (ns_servers s1 (ns_local_node s1))) s1)"
  have c: "ns_core ?s2 = ns_core s1"
    by simp
  show ?thesis
    using n ns_inv_core [OF c, of h] core_same [OF c] ns_same_trans [of s s1]
    by (simp add: tell_local_def g)
qed

lemma announce_servers_spec:
  assumes "ns_inv h s"
  shows "ns_inv h (snd (announce_servers u sq s)) \<and> ns_same s (snd (announce_servers u sq s)) \<and>
    ns_reg (snd (announce_servers u sq s)) = ns_reg s"
proof -
  obtain got s1 where g: "node_get (ns_local_node s) s = (got, s1)"
    by fastforce
  note n = node_get_reg [OF assms g]
  let ?s2 = "snd (announce_loop u sq (map snd (ns_servers s1 (ns_local_node s1))) s1)"
  have c: "ns_core ?s2 = ns_core s1"
    by simp
  show ?thesis
    using n ns_inv_core [OF c, of h] core_same [OF c] ns_same_trans [of s s1]
    by (simp add: announce_servers_def g)
qed

section \<open>Specification\<close>

datatype ns_msg =
  M_hello | M_bye | M_del_client u32 u32 | M_new_server u32 u32 u32 u32 | M_del_server u32 u32 u32 u32 |
  M_new_lookup u32 u32 | M_del_lookup u32 u32

text \<open>How a message looks on the wire; the words a message does not use are arbitrary.\<close>

fun msg_pkt :: "uapi \<Rightarrow> ns_msg \<Rightarrow> qrtr_ctrl_pkt \<Rightarrow> bool" where
  "msg_pkt u M_hello pkt = (cp_cmd pkt = ua_cmd u CMD_HELLO)"
| "msg_pkt u M_bye pkt = (cp_cmd pkt = ua_cmd u CMD_BYE)"
| "msg_pkt u (M_del_client n p) pkt = (cp_cmd pkt = ua_cmd u CMD_DEL_CLIENT \<and> cp_w0 pkt = n \<and> cp_w1 pkt = p)"
| "msg_pkt u (M_new_server sv i n p) pkt =
     (cp_cmd pkt = ua_cmd u CMD_NEW_SERVER \<and> cp_w0 pkt = sv \<and> cp_w1 pkt = i \<and> cp_w2 pkt = n \<and> cp_w3 pkt = p)"
| "msg_pkt u (M_del_server sv i n p) pkt =
     (cp_cmd pkt = ua_cmd u CMD_DEL_SERVER \<and> cp_w0 pkt = sv \<and> cp_w1 pkt = i \<and> cp_w2 pkt = n \<and> cp_w3 pkt = p)"
| "msg_pkt u (M_new_lookup sv i) pkt = (cp_cmd pkt = ua_cmd u CMD_NEW_LOOKUP \<and> cp_w0 pkt = sv \<and> cp_w1 pkt = i)"
| "msg_pkt u (M_del_lookup sv i) pkt = (cp_cmd pkt = ua_cmd u CMD_DEL_LOOKUP \<and> cp_w0 pkt = sv \<and> cp_w1 pkt = i)"

type_synonym registry = "(u32 \<times> u32 \<rightharpoonup> u32 \<times> u32) \<times> qrtr_lookup list"

text \<open>
  The contract of the service: a finite map from node and port to service and instance, and
  the list of lookups. Local senders speak for themselves only, observers are local, and a
  client is removed only by its own node.
\<close>

fun ns_spec :: "u32 \<Rightarrow> sockaddr_qrtr \<Rightarrow> ns_msg \<Rightarrow> registry \<Rightarrow> registry" where
  "ns_spec me from M_hello r = r"
| "ns_spec me from M_bye (reg, lks) = ((\<lambda>(n, p). if n = sq_node from then None else reg (n, p)), lks)"
| "ns_spec me from (M_del_client n p) (reg, lks) =
     (if sq_node from \<noteq> n \<or> (sq_node from = me \<and> sq_port from \<noteq> p) then (reg, lks)
      else (reg((n, p) := None), filter (\<lambda>lk. lk_sq lk \<noteq> \<lparr>sq_node = n, sq_port = p\<rparr>) lks))"
| "ns_spec me from (M_new_server sv i n p) (reg, lks) =
     (let who = (if sq_node from = me then (me, sq_port from) else (n, p)) in
      if sv = 0 \<or> snd who = 0 then (reg, lks) else (reg(who \<mapsto> (sv, i)), lks))"
| "ns_spec me from (M_del_server sv i n p) (reg, lks) =
     (reg((if sq_node from = me then (me, sq_port from) else (n, p)) := None), lks)"
| "ns_spec me from (M_new_lookup sv i) (reg, lks) =
     (reg, if sq_node from = me then lks @ [\<lparr>lk_service = sv, lk_instance = i, lk_sq = from\<rparr>] else lks)"
| "ns_spec me from (M_del_lookup sv i) (reg, lks) =
     (reg, filter (\<lambda>lk. \<not> (lk_sq lk = from \<and> lk_service lk = sv \<and> lk_instance lk \<in> {0, i})) lks)"

definition ns_abs :: "qrtr_ns \<Rightarrow> registry" where
  "ns_abs s = (ns_reg s, ns_lookups s)"

definition mem_ok :: "qrtr_ns \<Rightarrow> bool" where
  "mem_ok s \<longleftrightarrow> (\<forall>t. \<not> ns_nomem s t)"

text \<open>What every handler keeps.\<close>

definition ns_keeps :: "nat \<Rightarrow> qrtr_ns \<Rightarrow> qrtr_ns \<Rightarrow> bool" where
  "ns_keeps h s s' \<longleftrightarrow> ns_inv h s' \<and> ns_local_node s' = ns_local_node s \<and> ns_nomem s' = ns_nomem s"

lemma keeps_same: "ns_inv h s' \<Longrightarrow> ns_same s s' \<Longrightarrow> ns_keeps h s s'"
  by (simp add: ns_keeps_def ns_same_def)

text \<open>A node that is not there has no servers.\<close>

lemma node_get_missing:
  assumes "ns_inv h s" and "node_get n s = (False, s')"
  shows "ns_reg s (n, p) = None"
  using node_get_spec(7) [OF assms] by (simp add: ns_reg_def ns_servers_def xa.load_empty)

lemma ctrl_cmd_hello_spec:
  assumes "ns_inv h s"
  shows "ns_keeps h s (snd (ctrl_cmd_hello u from s)) \<and>
    ns_abs (snd (ctrl_cmd_hello u from s)) = ns_spec (ns_local_node s) from M_hello (ns_abs s)"
proof -
  obtain ret s1 where h: "say_hello u from s = (ret, s1)"
    by fastforce
  have c: "ns_core s1 = ns_core s"
    using h send_core unfolding say_hello_def by (metis snd_conv)
  have i1: "ns_inv h s1"
    using ns_inv_core [OF c] assms by simp
  show ?thesis
    using announce_servers_spec [OF i1, of u "from"] i1 core_same [OF c]
    by (auto simp: ctrl_cmd_hello_def h ns_keeps_def ns_same_def ns_abs_def)
qed

lemma ctrl_cmd_bye_spec:
  assumes inv: "ns_inv h s"
  shows "ns_keeps h s (snd (ctrl_cmd_bye u from s)) \<and>
    ns_abs (snd (ctrl_cmd_bye u from s)) = ns_spec (ns_local_node s) from M_bye (ns_abs s)"
proof -
  let ?n = "sq_node from"
  obtain got s1 where g: "node_get ?n s = (got, s1)"
    by fastforce
  note gr = node_get_reg [OF inv g]
  show ?thesis
  proof (cases got)
    case False
    then have "ns_reg s (?n, p) = None" for p
      using node_get_missing [OF inv, of ?n s1] g by simp
    with False gr show ?thesis
      by (auto simp: ctrl_cmd_bye_def g ns_keeps_def ns_same_def ns_abs_def fun_eq_iff)
  next
    case True
    let ?ks = "map fst (ns_servers s1 ?n)"
    have i1: "ns_inv h s1"
      using gr by simp
    note b = bye_servers_spec [OF i1, of u ?n ?ks]
    have "ns_reg s1 (?n, p) = None" if "p \<notin> set ?ks" for p
      using that xa_load_None [of "ns_servers s1 ?n" p] by (simp add: ns_reg_def)
    then have reg: "ns_reg (bye_servers u ?n ?ks s1) = (\<lambda>(m, p). if m = ?n then None else ns_reg s (m, p))"
      using b gr by (auto simp: fun_eq_iff)
    show ?thesis
      using tell_local_spec [of h "bye_servers u ?n ?ks s1"] b gr reg True
      by (auto simp: ctrl_cmd_bye_def g ns_keeps_def ns_same_def ns_abs_def)
  qed
qed

lemma free_lookups_inv:
  assumes "ns_inv h s"
  shows "ns_inv h (free_lookups P s) \<and> ns_reg (free_lookups P s) = ns_reg s \<and>
    ns_lookups (free_lookups P s) = filter (\<lambda>lk. \<not> P lk) (ns_lookups s) \<and>
    ns_local_node (free_lookups P s) = ns_local_node s \<and> ns_nomem (free_lookups P s) = ns_nomem s"
  using assms sum_length_filter_compl [of P "ns_lookups s"]
  by (auto simp: free_lookups_def ns_inv_def ns_objects_def ns_reg_def ns_servers_def fun_eq_iff)

lemma sq_eq: "sq = \<lparr>sq_node = n, sq_port = p\<rparr> \<longleftrightarrow> sq_node sq = n \<and> sq_port sq = p"
  by (cases sq) simp

lemma ctrl_cmd_del_client_spec:
  assumes inv: "ns_inv h s"
  shows "ns_keeps h s (snd (ctrl_cmd_del_client u from n p s)) \<and>
    ns_abs (snd (ctrl_cmd_del_client u from n p s)) = ns_spec (ns_local_node s) from (M_del_client n p) (ns_abs s)"
proof (cases "sq_node from \<noteq> n \<or> (sq_node from = ns_local_node s \<and> sq_port from \<noteq> p)")
  case True
  with inv show ?thesis
    by (auto simp: ctrl_cmd_del_client_def ns_keeps_def ns_abs_def)
next
  case False
  let ?P = "\<lambda>lk. sq_node (lk_sq lk) = n \<and> sq_port (lk_sq lk) = p"
  let ?s1 = "free_lookups ?P s"
  note f = free_lookups_inv [OF inv, of ?P]
  obtain got s2 where g: "node_get n ?s1 = (got, s2)"
    by fastforce
  have i1: "ns_inv h ?s1"
    using f by simp
  note gr = node_get_reg [OF i1 g]
  let ?s3 = "if got then snd (server_del u n p False s2) else s2"
  have d: "ns_inv h ?s3 \<and> ns_same ?s1 ?s3 \<and> ns_reg ?s3 = (ns_reg s)((n, p) := None)"
  proof (cases got)
    case True
    obtain ret s3 where sd: "server_del u n p False s2 = (ret, s3)"
      by fastforce
    with server_del_spec [OF _ sd, of h] gr f True show ?thesis
      using ns_same_trans [of ?s1 s2] by auto
  next
    case False
    with node_get_missing [OF i1] g gr f show ?thesis
      by (auto simp: fun_eq_iff)
  qed
  from False have "snd (ctrl_cmd_del_client u from n p s) =
      snd (tell_local \<lparr>cp_cmd = ua_cmd u CMD_DEL_CLIENT, cp_w0 = n, cp_w1 = p, cp_w2 = 0, cp_w3 = 0\<rparr> ?s3)"
    by (auto simp: ctrl_cmd_del_client_def g Let_def)
  with tell_local_spec [of h ?s3] d f False show ?thesis
    by (auto simp: ns_keeps_def ns_same_def ns_abs_def sq_eq)
qed

lemma ctrl_cmd_new_server_spec:
  assumes inv: "ns_inv h s"
    and s'_def: "s' = snd (ctrl_cmd_new_server u from sv i n p s)"
  shows "ns_keeps h s s' \<and>
    (ns_abs s' = ns_spec (ns_local_node s) from (M_new_server sv i n p) (ns_abs s) \<or> \<not> mem_ok s \<and> ns_abs s' = ns_abs s)"
proof -
  obtain n' p' where who: "speaks_for s from n p = (n', p')"
    by fastforce
  have who': "(if sq_node from = ns_local_node s then (ns_local_node s, sq_port from) else (n, p)) = (n', p')"
    using who by (simp add: speaks_for_def split: if_splits)
  obtain r s1 where a: "server_add sv i n' p' s = (r, s1)"
    by fastforce
  note as = server_add_spec [OF inv a]
  show ?thesis
  proof (cases r)
    case None
    then have "s' = s1"
      by (simp add: s'_def ctrl_cmd_new_server_def who a)
    with None as(1,2,4) who' show ?thesis
      by (auto simp: ns_keeps_def ns_same_def ns_abs_def mem_ok_def Let_def)
  next
    case (Some srv)
    obtain ret s2 where b: "(if srv_node srv = ns_local_node s1 then service_announce_new u (bcast_sq u) srv s1 else (0, s1)) = (ret, s2)"
      by fastforce
    have c2: "ns_core s2 = ns_core s1"
      using arg_cong [OF b, of snd] by (auto split: if_splits)
    have "s' = (if ret < 0 then s2 else notify_lookups u srv True (ns_lookups s2) s2)"
      using b by (simp add: s'_def ctrl_cmd_new_server_def who a Some)
    then have c: "ns_core s' = ns_core s1"
      using c2 by simp
    have "ns_reg s1 = (ns_reg s)((n', p') \<mapsto> (sv, i)) \<and> sv \<noteq> 0 \<and> p' \<noteq> 0"
      using as(3) Some by blast
    then show ?thesis
      using as(1) who' ns_inv_core [OF c, of h] core_same [OF c]
      by (auto simp: ns_keeps_def ns_same_def ns_abs_def Let_def)
  qed
qed

lemma ctrl_cmd_del_server_spec:
  assumes inv: "ns_inv h s"
  shows "ns_keeps h s (snd (ctrl_cmd_del_server u from sv i n p s)) \<and>
    ns_abs (snd (ctrl_cmd_del_server u from sv i n p s)) = ns_spec (ns_local_node s) from (M_del_server sv i n p) (ns_abs s)"
proof -
  obtain n' p' where who: "speaks_for s from n p = (n', p')"
    by fastforce
  have who': "(if sq_node from = ns_local_node s then (ns_local_node s, sq_port from) else (n, p)) = (n', p')"
    and own: "\<not> (sq_node from = ns_local_node s \<and> sq_port from \<noteq> p')"
    using who by (auto simp: speaks_for_def split: if_splits)
  obtain got s1 where g: "node_get n' s = (got, s1)"
    by fastforce
  note gr = node_get_reg [OF inv g]
  show ?thesis
  proof (cases got)
    case True
    obtain ret s2 where d: "server_del u n' p' True s1 = (ret, s2)"
      by fastforce
    have "snd (ctrl_cmd_del_server u from sv i n p s) = s2"
      using own True by (auto simp: ctrl_cmd_del_server_def who g d)
    with server_del_spec [OF _ d, of h] gr who' show ?thesis
      by (simp add: ns_keeps_def ns_same_def ns_abs_def)
  next
    case False
    then have "ns_reg s (n', p') = None"
      using node_get_missing [OF inv, of n' s1] g by simp
    moreover have "snd (ctrl_cmd_del_server u from sv i n p s) = s1"
      using own False by (auto simp: ctrl_cmd_del_server_def who g)
    ultimately show ?thesis
      using gr who' by (auto simp: ns_keeps_def ns_same_def ns_abs_def fun_eq_iff)
  qed
qed

lemma ctrl_cmd_new_lookup_spec:
  assumes inv: "ns_inv h s"
    and s'_def: "s' = snd (ctrl_cmd_new_lookup u from sv i s)"
  shows "ns_keeps h s s' \<and>
    (ns_abs s' = ns_spec (ns_local_node s) from (M_new_lookup sv i) (ns_abs s) \<or> \<not> mem_ok s \<and> ns_abs s' = ns_abs s)"
proof (cases "sq_node from = ns_local_node s")
  case False
  with inv show ?thesis
    by (simp add: s'_def ctrl_cmd_new_lookup_def ns_keeps_def ns_abs_def)
next
  case local: True
  obtain got s1 where k: "kzalloc s = (got, s1)"
    by fastforce
  note ki = kzalloc_inv [OF inv k]
  show ?thesis
  proof (cases got)
    case False
    then have "\<not> mem_ok s"
      using k by (auto simp: kzalloc_def mem_ok_def Let_def split: if_splits)
    with local k False ki show ?thesis
      by (auto simp: s'_def ctrl_cmd_new_lookup_def ns_keeps_def ns_same_def ns_abs_def)
  next
    case True
    let ?s2 = "s1\<lparr>ns_lookups := ns_lookups s1 @ [\<lparr>lk_service = sv, lk_instance = i, lk_sq = from\<rparr>]\<rparr>"
    have c: "ns_core s' = ns_core ?s2"
      using local k True by (simp add: s'_def ctrl_cmd_new_lookup_def Let_def)
    have "ns_inv h ?s2 \<and> ns_reg ?s2 = ns_reg s1"
      using ki True local by (auto simp: ns_inv_def ns_objects_def ns_same_def ns_reg_def ns_servers_def fun_eq_iff)
    with ki local ns_inv_core [OF c, of h] core_same [OF c] show ?thesis
      by (auto simp: ns_keeps_def ns_same_def ns_abs_def)
  qed
qed

lemma ctrl_cmd_del_lookup_spec:
  assumes inv: "ns_inv h s"
  shows "ns_keeps h s (ctrl_cmd_del_lookup from sv i s) \<and>
    ns_abs (ctrl_cmd_del_lookup from sv i s) = ns_spec (ns_local_node s) from (M_del_lookup sv i) (ns_abs s)"
proof -
  let ?P = "\<lambda>lk. sq_node (lk_sq lk) = sq_node from \<and> sq_port (lk_sq lk) = sq_port from \<and>
        lk_service lk = sv \<and> \<not> (lk_instance lk \<noteq> 0 \<and> lk_instance lk \<noteq> i)"
  have "filter (\<lambda>lk. \<not> ?P lk) (ns_lookups s) =
      filter (\<lambda>lk. \<not> (lk_sq lk = from \<and> lk_service lk = sv \<and> lk_instance lk \<in> {0, i})) (ns_lookups s)"
    by (rule filter_cong) auto
  then show ?thesis
    using free_lookups_inv [OF inv, of ?P]
    unfolding ctrl_cmd_del_lookup_def ns_keeps_def ns_abs_def ns_spec.simps by simp
qed

section \<open>Runs\<close>

lemmas handler_keeps =
  ctrl_cmd_hello_spec [THEN conjunct1] ctrl_cmd_bye_spec [THEN conjunct1] ctrl_cmd_del_client_spec [THEN conjunct1]
  ctrl_cmd_new_server_spec [OF _ refl, THEN conjunct1] ctrl_cmd_del_server_spec [THEN conjunct1]
  ctrl_cmd_new_lookup_spec [OF _ refl, THEN conjunct1] ctrl_cmd_del_lookup_spec [THEN conjunct1]

lemma keeps_refl: "ns_inv h s \<Longrightarrow> ns_keeps h s s"
  by (simp add: ns_keeps_def)

lemma ns_dispatch_keeps: "ns_inv h s \<Longrightarrow> ns_keeps h s (snd (ns_dispatch u sq pkt s))"
  by (simp add: ns_dispatch_def Let_def handler_keeps keeps_refl)

lemma ns_dispatch_msg:
  assumes "inj (ua_cmd u)" and "msg_pkt u msg pkt"
  shows "ns_dispatch u sq pkt s =
    (case msg of
       M_hello \<Rightarrow> ctrl_cmd_hello u sq s
     | M_bye \<Rightarrow> ctrl_cmd_bye u sq s
     | M_del_client n p \<Rightarrow> ctrl_cmd_del_client u sq n p s
     | M_new_server sv i n p \<Rightarrow> ctrl_cmd_new_server u sq sv i n p s
     | M_del_server sv i n p \<Rightarrow> ctrl_cmd_del_server u sq sv i n p s
     | M_new_lookup sv i \<Rightarrow> ctrl_cmd_new_lookup u sq sv i s
     | M_del_lookup sv i \<Rightarrow> (0, ctrl_cmd_del_lookup sq sv i s))"
  using assms by (cases msg) (auto simp: ns_dispatch_def Let_def inj_eq)

text \<open>One received message; the buffer keeps its size.\<close>

definition worker_step :: "uapi \<Rightarrow> bytes \<times> qrtr_ns \<Rightarrow> bytes \<times> sockaddr_qrtr \<Rightarrow> bytes \<times> qrtr_ns" where
  "worker_step u st m = (let buf1 = mem_put 0 (take recv_buf_size (fst m)) (fst st) in
     (buf1, snd (ns_dispatch u (snd m) (read_pkt buf1) (snd st))))"

definition worker_inv :: "nat \<Rightarrow> bytes \<times> qrtr_ns \<Rightarrow> bool" where
  "worker_inv h st \<longleftrightarrow> length (fst st) = recv_buf_size \<and> ns_inv h (snd st)"

interpretation ns_run: stepper "worker_step u" "worker_inv h" for u h
proof
  fix st :: "bytes \<times> qrtr_ns" and m :: "bytes \<times> sockaddr_qrtr"
  assume inv: "worker_inv h st"
  have "length (mem_put 0 (take recv_buf_size (fst m)) (fst st)) = recv_buf_size"
    using inv by (simp add: worker_inv_def window)
  with inv ns_dispatch_keeps [of h "snd st"] show "worker_inv h (worker_step u st m)"
    by (simp add: worker_inv_def worker_step_def Let_def ns_keeps_def)
qed

lemma worker_loop_run:
  "worker_loop u (map Inr ms @ Inl err # rs) st =
     (True, fst (foldl (worker_step u) st ms), snd (foldl (worker_step u) st ms))"
proof (induction ms arbitrary: st)
  case Nil
  then show ?case by (cases st) simp
next
  case (Cons m ms)
  then show ?case
    by (cases st; cases m) (simp add: worker_step_def Let_def)
qed

text \<open>The messages before the first failing receive.\<close>

lemma received_split:
  assumes "Inl err \<in> set rs"
  shows "\<exists>ms err' rest. rs = map Inr ms @ Inl err' # rest"
  using assms
proof (induction rs)
  case Nil
  then show ?case by simp
next
  case (Cons r rs)
  show ?case
  proof (cases r)
    case (Inl e)
    then show ?thesis
      by (intro exI [of _ "[]"]) simp
  next
    case (Inr m)
    with Cons obtain ms err' rest where "rs = map Inr ms @ Inl err' # rest"
      by auto
    with Inr show ?thesis
      by (intro exI [of _ "m # ms"]) simp
  qed
qed

section \<open>Messages to the observers\<close>

lemma lookup_notify_sent:
  "ns_sent (lookup_notify u to srv new s) = ns_sent s @ [(to,
     case srv of None \<Rightarrow> \<lparr>cp_cmd = if new then ua_cmd u CMD_NEW_SERVER else ua_cmd u CMD_DEL_SERVER,
       cp_w0 = 0, cp_w1 = 0, cp_w2 = 0, cp_w3 = 0\<rparr>
     | Some x \<Rightarrow> server_pkt (if new then ua_cmd u CMD_NEW_SERVER else ua_cmd u CMD_DEL_SERVER) x)]"
  by (simp add: lookup_notify_def kernel_sendmsg_def Let_def)

lemma notify_lookups_sent:
  "ns_sent (notify_lookups u srv new lks s) = ns_sent s @
     map (\<lambda>lk. (lk_sq lk, server_pkt (if new then ua_cmd u CMD_NEW_SERVER else ua_cmd u CMD_DEL_SERVER) srv))
       (filter (\<lambda>lk. lookup_wants lk (srv_service srv) (srv_instance srv)) lks)"
  by (induction lks arbitrary: s) (auto simp: lookup_notify_sent)

lemma list_servers_sent:
  "ns_sent (list_servers u from f srvs s) = ns_sent s @
     map (\<lambda>srv. (from, server_pkt (ua_cmd u CMD_NEW_SERVER) srv)) (filter (\<lambda>srv. server_match srv f) srvs)"
  by (induction srvs arbitrary: s) (auto simp: lookup_notify_sent)

text \<open>The filter of a lookup and the test of the notifications agree.\<close>

lemma server_match_wants:
  "server_match srv \<lparr>flt_service = sv, flt_instance = i, flt_ifilter = 0\<rparr> =
     lookup_wants \<lparr>lk_service = sv, lk_instance = i, lk_sq = sq\<rparr> (srv_service srv) (srv_instance srv)"
  by (auto simp: server_match_def lookup_wants_def Let_def)

lemma node_servers_distinct: "node_ok n t \<Longrightarrow> distinct (map snd t)"
proof -
  assume ok: "node_ok n t"
  then have key: "(p, srv) \<in> set t \<Longrightarrow> srv_port srv = p" for p srv
    by (auto simp: node_ok_def xa_load_entry)
  have "map fst t = map (srv_port \<circ> snd) t"
    using key by auto
  moreover have "distinct (map fst t)"
    using ok by (simp add: node_ok_def xa_ok_def strict_sorted_iff)
  ultimately show ?thesis
    by (metis distinct_map map_map)
qed

lemma all_servers_distinct:
  assumes "xa_ok ns" and "\<forall>(n, t) \<in> set ns. node_ok n t"
  shows "distinct (concat (map (\<lambda>(_, t). map snd t) ns))"
  using assms
proof (induction ns)
  case Nil
  then show ?case by simp
next
  case (Cons e ns)
  obtain n t where e: "e = (n, t)"
    by fastforce
  have home: "srv_node srv = m" if "node_ok m t'" "srv \<in> snd ` set t'" for m t' srv
    using that by (auto simp: node_ok_def xa_load_entry)
  have "m \<noteq> n" if "(m, t') \<in> set ns" for m t'
    using Cons.prems(1) e that by (auto simp: xa_ok_def)
  then have "set (map snd t) \<inter> set (concat (map (\<lambda>(_, t). map snd t) ns)) = {}"
    using Cons.prems(2) e home by fastforce
  with Cons e xa_ok_tl [of e ns] node_servers_distinct [of n t] show ?case
    by simp
qed

lemma all_servers_set:
  assumes inv: "ns_inv h s"
  shows "set (all_servers s) =
    {srv. ns_reg s (srv_node srv, srv_port srv) = Some (srv_service srv, srv_instance srv)}"
proof -
  have ok: "xa_ok (ns_nodes s)" and nok: "\<And>n t. xa_load (ns_nodes s) n = Some t \<Longrightarrow> node_ok n t"
    using inv by (auto simp: ns_inv_def nodes_ok_def)
  have "srv \<in> set (all_servers s) \<longleftrightarrow>
      (\<exists>n t p. xa_load (ns_nodes s) n = Some t \<and> xa_load t p = Some srv)" for srv
    using nok by (force simp: all_servers_def xa_load_entry [OF ok] node_ok_def xa_load_entry)
  moreover have "(\<exists>n t p. xa_load (ns_nodes s) n = Some t \<and> xa_load t p = Some srv) \<longleftrightarrow>
      ns_reg s (srv_node srv, srv_port srv) = Some (srv_service srv, srv_instance srv)" for srv
  proof
    assume "\<exists>n t p. xa_load (ns_nodes s) n = Some t \<and> xa_load t p = Some srv"
    then obtain n t p where "xa_load (ns_nodes s) n = Some t" "xa_load t p = Some srv"
      by blast
    with nok [of n t] show "ns_reg s (srv_node srv, srv_port srv) = Some (srv_service srv, srv_instance srv)"
      by (auto simp: ns_reg_def ns_servers_def node_ok_def)
  next
    assume "ns_reg s (srv_node srv, srv_port srv) = Some (srv_service srv, srv_instance srv)"
    then obtain t x where t: "xa_load (ns_nodes s) (srv_node srv) = Some t" "xa_load t (srv_port srv) = Some x"
      and "srv_service x = srv_service srv" "srv_instance x = srv_instance srv"
      by (auto simp: ns_reg_def ns_servers_def xa.load_empty split: option.splits)
    moreover have "srv_node x = srv_node srv" "srv_port x = srv_port srv"
      using nok [OF t(1)] t(2) by (auto simp: node_ok_def)
    ultimately have "x = srv"
      by (simp add: qrtr_server.equality)
    with t show "\<exists>n t p. xa_load (ns_nodes s) n = Some t \<and> xa_load t p = Some srv"
      by blast
  qed
  ultimately show ?thesis
    by blast
qed

section \<open>Properties\<close>

text \<open>
  C4. The name service implements its registry: handling a control message changes the
  servers and the lookups exactly as the specification says, unless memory ran out while a
  server or a lookup was to be added, which leaves the registry as it was.
\<close>

theorem ns_refines_registry:
  assumes "inj (ua_cmd u)" and inv: "ns_inv h s" and "msg_pkt u msg pkt"
  shows "ns_abs (snd (ns_dispatch u from pkt s)) = ns_spec (ns_local_node s) from msg (ns_abs s) \<or>
    (\<not> mem_ok s \<and> ns_abs (snd (ns_dispatch u from pkt s)) = ns_abs s)"
  unfolding ns_dispatch_msg [OF assms(1,3)]
  using ctrl_cmd_new_server_spec [OF inv refl] ctrl_cmd_new_lookup_spec [OF inv refl]
  by (cases msg)
    (simp_all add: ctrl_cmd_hello_spec [OF inv] ctrl_cmd_bye_spec [OF inv] ctrl_cmd_del_client_spec [OF inv]
      ctrl_cmd_del_server_spec [OF inv] ctrl_cmd_del_lookup_spec [OF inv])

definition demo_ns_env :: ns_env where
  "demo_ns_env = \<lparr>ne_sock = 0, ne_sockname = Inr 1, ne_workqueue = True, ne_bind = 0, ne_result = (\<lambda>_. 20),
     ne_nomem = (\<lambda>_. False)\<rparr>"

definition demo_ns :: qrtr_ns where
  "demo_ns = snd (ns_dispatch linux_uapi \<lparr>sq_node = 5, sq_port = 2\<rparr>
     \<lparr>cp_cmd = 4, cp_w0 = 15, cp_w1 = 1, cp_w2 = 5, cp_w3 = 9\<rparr> (ns_boot demo_ns_env 1))"

lemma ns_boot_inv: "ns_inv 0 (ns_boot e n)"
  by (simp add: ns_boot_def ns_inv_def ns_objects_def nodes_ok_def xa.ok_empty xa.load_empty xa_total_def)

lemma demo_ns_inv: "ns_inv 0 demo_ns"
  using ns_dispatch_keeps [OF ns_boot_inv] by (simp add: demo_ns_def ns_keeps_def)

theorem ns_refines_registry_witness:
  "fst (ns_abs (snd (ns_dispatch linux_uapi \<lparr>sq_node = 5, sq_port = 2\<rparr>
     \<lparr>cp_cmd = 3, cp_w0 = 5, cp_w1 = 0, cp_w2 = 0, cp_w3 = 0\<rparr> demo_ns))) (5, 9) = None"
proof -
  have "mem_ok demo_ns"
    using ns_dispatch_keeps [OF ns_boot_inv]
    by (simp add: mem_ok_def demo_ns_def ns_keeps_def) (simp add: ns_boot_def demo_ns_env_def)
  then show ?thesis
    using ns_refines_registry [OF linux_uapi_inj demo_ns_inv, of M_bye
        "\<lparr>cp_cmd = 3, cp_w0 = 5, cp_w1 = 0, cp_w2 = 0, cp_w3 = 0\<rparr>" "\<lparr>sq_node = 5, sq_port = 2\<rparr>"]
    by (auto simp: linux_uapi_def ns_abs_def)
qed

text \<open>
  C12. The worker returns as soon as a receive fails, and whatever was received it has kept
  the invariant: servers are filed under their node and port, observers are local, and the
  heap holds exactly the nodes, the servers and the lookups, so nothing was leaked or freed
  twice.
\<close>

theorem ns_worker_inv:
  assumes "ns_inv h s" and "Inl err \<in> set rs"
  shows "\<exists>s'. qrtr_ns_worker u rs s = (True, s') \<and> ns_inv h s'"
proof -
  obtain got s1 where k: "kzalloc s = (got, s1)"
    by fastforce
  note ki = kzalloc_inv [OF assms(1) k]
  show ?thesis
  proof (cases got)
    case False
    with k ki show ?thesis
      by (simp add: qrtr_ns_worker_def)
  next
    case True
    obtain ms err' rest where rs: "rs = map Inr ms @ Inl err' # rest"
      using received_split [OF assms(2)] by blast
    let ?st = "foldl (worker_step u) (replicate recv_buf_size 0, s1) ms"
    have "worker_inv (Suc h) ?st"
      using ki True by (intro ns_run.run_inv) (simp add: worker_inv_def)
    then have "ns_inv h (kfree (snd ?st))"
      using kfree_inv by (simp add: worker_inv_def)
    with k True show ?thesis
      by (simp add: qrtr_ns_worker_def rs worker_loop_run case_prod_beta)
  qed
qed

theorem ns_worker_inv_witness:
  "\<exists>s'. qrtr_ns_worker linux_uapi [Inr ([3, 0, 0, 0], \<lparr>sq_node = 5, sq_port = 2\<rparr>), Inl (- EAGAIN)] demo_ns = (True, s') \<and>
     ns_inv 0 s'"
  by (rule ns_worker_inv [OF demo_ns_inv, of "- EAGAIN"]) simp

text \<open>
  A new local lookup is answered with every registered server of that service and
  instance, each exactly once and nothing else, followed by the empty notification that ends
  the listing.
\<close>

theorem new_lookup_lists:
  assumes inv: "ns_inv h s" and "sq_node from = ns_local_node s" and "\<not> ns_nomem s (ns_tick s)"
  shows "\<exists>srvs. distinct srvs \<and>
    set srvs = {srv. ns_reg s (srv_node srv, srv_port srv) = Some (srv_service srv, srv_instance srv) \<and>
      lookup_wants \<lparr>lk_service = sv, lk_instance = i, lk_sq = from\<rparr> (srv_service srv) (srv_instance srv)} \<and>
    ns_sent (snd (ctrl_cmd_new_lookup u from sv i s)) = ns_sent s @
      map (\<lambda>srv. (from, server_pkt (ua_cmd u CMD_NEW_SERVER) srv)) srvs @
      [(from, \<lparr>cp_cmd = ua_cmd u CMD_NEW_SERVER, cp_w0 = 0, cp_w1 = 0, cp_w2 = 0, cp_w3 = 0\<rparr>)]"
proof -
  let ?f = "\<lparr>flt_service = sv, flt_instance = i, flt_ifilter = 0\<rparr>"
  let ?srvs = "filter (\<lambda>srv. server_match srv ?f) (all_servers s)"
  have "xa_ok (ns_nodes s)" and "\<forall>(n, t) \<in> set (ns_nodes s). node_ok n t"
    using inv by (auto simp: ns_inv_def nodes_ok_def xa_load_entry)
  then have "distinct ?srvs"
    using all_servers_distinct by (simp add: all_servers_def)
  moreover have "set ?srvs = {srv. ns_reg s (srv_node srv, srv_port srv) = Some (srv_service srv, srv_instance srv) \<and>
      lookup_wants \<lparr>lk_service = sv, lk_instance = i, lk_sq = from\<rparr> (srv_service srv) (srv_instance srv)}"
    using all_servers_set [OF inv] by (auto simp: server_match_wants [of _ sv i "from"])
  moreover have "all_servers (s\<lparr>ns_tick := t, ns_heap := x, ns_lookups := lks\<rparr>) = all_servers s" for t x lks
    by (simp add: all_servers_def)
  ultimately show ?thesis
    using assms(2,3)
    by (intro exI [of _ ?srvs])
      (simp add: ctrl_cmd_new_lookup_def kzalloc_def Let_def lookup_notify_sent list_servers_sent)
qed

theorem new_lookup_lists_witness:
  "\<exists>srvs. distinct srvs \<and>
    ns_sent (snd (ctrl_cmd_new_lookup linux_uapi \<lparr>sq_node = 1, sq_port = 3\<rparr> 15 0 demo_ns)) = ns_sent demo_ns @
      map (\<lambda>srv. (\<lparr>sq_node = 1, sq_port = 3\<rparr>, server_pkt (ua_cmd linux_uapi CMD_NEW_SERVER) srv)) srvs @
      [(\<lparr>sq_node = 1, sq_port = 3\<rparr>, \<lparr>cp_cmd = ua_cmd linux_uapi CMD_NEW_SERVER, cp_w0 = 0, cp_w1 = 0, cp_w2 = 0, cp_w3 = 0\<rparr>)]"
proof -
  have "ns_local_node demo_ns = 1" "\<not> ns_nomem demo_ns (ns_tick demo_ns)"
    by code_simp+
  then show ?thesis
    using new_lookup_lists [OF demo_ns_inv, of "\<lparr>sq_node = 1, sq_port = 3\<rparr>" 15 0 linux_uapi] by auto
qed

text \<open>
  Removing a server tells every lookup that wants it, in order and exactly once, after
  the broadcast when the server is local; the server is gone from the registry afterwards.
\<close>

theorem server_del_notifies:
  assumes inv: "ns_inv h s" and srv: "xa_load (ns_servers s n) p = Some srv"
  shows "ns_sent (snd (server_del u n p bcast s)) = ns_sent s @
      (if n = ns_local_node s \<and> bcast then [(bcast_sq u, server_pkt (ua_cmd u CMD_DEL_SERVER) srv)] else []) @
      map (\<lambda>lk. (lk_sq lk, server_pkt (ua_cmd u CMD_DEL_SERVER) srv))
        (filter (\<lambda>lk. lookup_wants lk (srv_service srv) (srv_instance srv)) (ns_lookups s)) \<and>
    ns_reg (snd (server_del u n p bcast s)) (n, p) = None"
proof -
  have "srv_node srv = n"
    using servers_ok [OF inv, of n] srv by (simp add: node_ok_def)
  moreover have "ns_reg (snd (server_del u n p bcast s)) (n, p) = None"
    using server_del_spec [OF inv, of u n p bcast] by (metis fun_upd_same prod.collapse)
  ultimately show ?thesis
    using srv by (auto simp: server_del_def Let_def notify_lookups_sent kfree_def service_announce_del_def kernel_sendmsg_def)
qed

theorem server_del_notifies_witness:
  "ns_reg (snd (server_del linux_uapi 5 9 True demo_ns)) (5, 9) = None \<and> ns_reg demo_ns (5, 9) = Some (15, 1)"
proof -
  have "xa_load (ns_servers demo_ns 5) 9 =
      Some \<lparr>srv_service = 15, srv_instance = 1, srv_node = 5, srv_port = 9\<rparr>"
    by code_simp
  then show ?thesis
    using server_del_notifies [OF demo_ns_inv, of 5 9] by (simp add: ns_reg_def)
qed

text \<open>
  When the broadcast of a new local server fails, for whatever reason, the server stays
  registered but no observer is told about it.
\<close>

theorem new_server_broadcast_failure:
  assumes "server_add sv i (ns_local_node s) (sq_port from) s = (Some srv, s1)"
    and "sq_node from = ns_local_node s" and "ns_inv h s" and "ns_result s1 (ns_tick s1) < 0"
  shows "ns_sent (snd (ctrl_cmd_new_server u from sv i n p s)) =
      ns_sent s1 @ [(bcast_sq u, server_pkt (ua_cmd u CMD_NEW_SERVER) srv)] \<and>
    ns_reg (snd (ctrl_cmd_new_server u from sv i n p s)) (ns_local_node s, sq_port from) = Some (sv, i)"
proof -
  note a = server_add_spec [OF assms(3,1)]
  have srv: "srv_node srv = ns_local_node s1" "ns_reg s1 (ns_local_node s, sq_port from) = Some (sv, i)"
    using a(1) a(3) [OF refl] by (auto simp: ns_same_def)
  have "snd (ctrl_cmd_new_server u from sv i n p s) = snd (service_announce_new u (bcast_sq u) srv s1)"
    using assms(1,2,4) srv(1)
    by (simp add: ctrl_cmd_new_server_def speaks_for_def service_announce_new_def kernel_sendmsg_def)
  then show ?thesis
    using srv(2) core_same [OF announce_new_core [of u "bcast_sq u" srv s1]]
    by (simp add: service_announce_new_def kernel_sendmsg_def)
qed

theorem new_server_broadcast_failure_witness:
  "ns_reg (snd (ctrl_cmd_new_server linux_uapi \<lparr>sq_node = 1, sq_port = 3\<rparr> 15 0 0 0
     ((ns_boot demo_ns_env 1)\<lparr>ns_result := \<lambda>_. - ENODEV\<rparr>))) (1, 3) = Some (15, 0)"
proof -
  let ?s = "(ns_boot demo_ns_env 1)\<lparr>ns_result := \<lambda>_. - ENODEV\<rparr>"
  have inv: "ns_inv 0 ?s"
    using ns_boot_inv [of demo_ns_env 1] by (simp add: ns_inv_def ns_objects_def)
  obtain srv s1 where a: "server_add 15 0 1 3 ?s = (Some srv, s1)"
    and res: "ns_result s1 (ns_tick s1) < 0"
    by (simp add: server_add_def kzalloc_def node_get_def xa_store_ok_def ns_boot_def demo_ns_env_def xa_load_def Let_def kfree_def)
  have "ns_local_node ?s = 1"
    by (simp add: ns_boot_def)
  then show ?thesis
    using new_server_broadcast_failure [OF _ _ inv res, of 15 0 "\<lparr>sq_node = 1, sq_port = 3\<rparr>" srv] a by simp
qed

text \<open>
  The worker does not look at the length of a message: a message of four bytes is
  handled with the remaining words of the message received before it, whoever sent that.
\<close>

theorem short_message_reuses_buffer:
  assumes buf: "length buf = recv_buf_size" and m1: "length m1 = ctrl_pkt_size" and m2: "length m2 = 4"
  shows "snd (snd (worker_loop u [Inr (m1, sq1), Inr (m2, sq2), Inl err] (buf, s))) =
    snd (ns_dispatch u sq2 ((read_pkt m1)\<lparr>cp_cmd := le32 m2 0\<rparr>) (snd (ns_dispatch u sq1 (read_pkt m1) s)))"
proof -
  let ?b1 = "mem_put 0 m1 buf"
  have len: "length m1 \<le> recv_buf_size" "length m2 \<le> recv_buf_size" "length ?b1 = recv_buf_size"
    using m1 m2 buf by (simp_all add: ctrl_pkt_size_def recv_buf_size_def window)
  have "read_pkt ?b1 = read_pkt m1"
    using le32_put(1) [OF buf len(1)] m1 by (simp add: read_pkt_def ctrl_pkt_size_def)
  moreover have "read_pkt (mem_put 0 m2 ?b1) = (read_pkt m1)\<lparr>cp_cmd := le32 m2 0\<rparr>"
    using le32_put(1) [OF buf len(1)] le32_put [OF len(3) len(2)] m1 m2
    by (simp add: read_pkt_def ctrl_pkt_size_def)
  ultimately show ?thesis
    using len by (simp add: Let_def)
qed

theorem short_message_reuses_buffer_witness:
  "snd (snd (worker_loop linux_uapi
     [Inr (le_bytes 4 9 @ le_bytes 4 15 @ le_bytes 4 1 @ le_bytes 4 5 @ le_bytes 4 9, \<lparr>sq_node = 5, sq_port = 2\<rparr>),
      Inr (le_bytes 4 4, \<lparr>sq_node = 7, sq_port = 2\<rparr>), Inl (- EAGAIN)]
     (replicate recv_buf_size 0, ns_boot demo_ns_env 1))) =
   snd (ctrl_cmd_new_server linux_uapi \<lparr>sq_node = 7, sq_port = 2\<rparr> 15 1 5 9 (ns_boot demo_ns_env 1))"
proof -
  let ?m1 = "le_bytes 4 9 @ le_bytes 4 15 @ le_bytes 4 1 @ le_bytes 4 5 @ le_bytes 4 9"
  have r: "read_pkt ?m1 = \<lparr>cp_cmd = 9, cp_w0 = 15, cp_w1 = 1, cp_w2 = 5, cp_w3 = 9\<rparr>" "le32 (le_bytes 4 4) 0 = 4"
    by code_simp+
  have h: "length (replicate recv_buf_size (0 :: u8)) = recv_buf_size" "length ?m1 = ctrl_pkt_size" "length (le_bytes 4 4) = 4"
    by (simp_all only: length_replicate length_append length_le_bytes ctrl_pkt_size_def)
  show ?thesis
    unfolding short_message_reuses_buffer [OF h] r by (simp add: ns_dispatch_def linux_uapi_def)
qed

section \<open>Loading and unloading\<close>

text \<open>\<open>kernel_getsockname\<close> reports a failure as a negative number.\<close>

definition ns_env_ok :: "ns_env \<Rightarrow> bool" where
  "ns_env_ok e \<longleftrightarrow> (\<forall>err. ne_sockname e = Inl err \<longrightarrow> err < 0)"

interpretation ns_module: module_lifecycle ns_env_ok "qrtr_ns_init u" "\<lambda>_ _. qrtr_ns_remove" for u
proof
  fix e ret t s
  assume ok: "ns_env_ok e"
  show "balanced t" if "qrtr_ns_init u e = (ret, t, s)" "ret \<noteq> 0"
    using that ok
    by (auto simp: qrtr_ns_init_def ns_env_ok_def sock_trace_def sock_release_trace_def balanced_def Let_def
        split: if_splits sum.splits prod.splits)
  show "balanced (t @ qrtr_ns_remove)" if "qrtr_ns_init u e = (0, t, s)"
    using that ok
    by (auto simp: qrtr_ns_init_def ns_env_ok_def qrtr_ns_remove_def sock_trace_def sock_release_trace_def
        balanced_def Let_def split: if_splits sum.splits prod.splits)
qed

text \<open>
  A failed initialisation leaves nothing behind; after a successful one the module holds
  no reference on itself, so it can be unloaded, and unloading releases the socket and the
  work queue with the references balanced.
\<close>

theorem ns_module_balanced:
  assumes "ns_env_ok e" and "qrtr_ns_init u e = (ret, t, s)"
  shows "if ret = 0 then res_run t [] = Some [Workqueue, Sock] \<and> balanced (t @ qrtr_ns_remove) else balanced t"
proof -
  have "res_run t [] = Some [Workqueue, Sock]" if "ret = 0"
    using assms that
    by (auto simp: qrtr_ns_init_def ns_env_ok_def sock_trace_def sock_release_trace_def Let_def
        split: if_splits sum.splits prod.splits)
  then show ?thesis
    using ns_module.load_failed [OF assms] ns_module.load_unload [OF assms(1)] assms(2) by auto
qed

theorem ns_module_balanced_witness:
  "balanced (fst (snd (qrtr_ns_init linux_uapi demo_ns_env)) @ qrtr_ns_remove)"
proof -
  have "ns_env_ok demo_ns_env"
    by (simp add: ns_env_ok_def demo_ns_env_def)
  moreover have "fst (qrtr_ns_init linux_uapi demo_ns_env) = 0"
    by code_simp
  ultimately show ?thesis
    using ns_module_balanced [of demo_ns_env linux_uapi 0] by (metis prod.collapse)
qed

end
