(* ===== verification/Qrtr_Wire.thy ===== *)
theory Qrtr_Wire
  imports Qrtr_Proto
begin

text \<open>
  The packets of \<^verbatim>\<open>tcl-af-qrtr.c\<close> on the wire: the two header versions, the header that
  \<open>qrtr_node_enqueue\<close> puts in front of a message, and the checks of \<open>qrtr_endpoint_post\<close> up to
  the point where the message is handed on. A read behind the end of the received data is the
  fault \<open>Out_of_bounds\<close>. The numbers of data packets and of automatic node assignment come from
  headers that are not part of the sources; they extend the record \<open>uapi\<close>.
\<close>

section \<open>Headers\<close>

record core_uapi = uapi +
  ua_data :: u32
  ua_auto :: u32

definition QRTR_PROTO_VER_1 :: u8 where "QRTR_PROTO_VER_1 = 1"
definition QRTR_PROTO_VER_2 :: u8 where "QRTR_PROTO_VER_2 = 3"
definition QRTR_PORT_CTRL_LEGACY :: u32 where "QRTR_PORT_CTRL_LEGACY = 0xffff"
definition QRTR_FLAGS_CONFIRM_RX :: u8 where "QRTR_FLAGS_CONFIRM_RX = 1"

record qrtr_hdr_v1 =
  h1_version :: u32
  h1_type :: u32
  h1_src_node_id :: u32
  h1_src_port_id :: u32
  h1_confirm_rx :: u32
  h1_size :: u32
  h1_dst_node_id :: u32
  h1_dst_port_id :: u32

record qrtr_hdr_v2 =
  h2_version :: u8
  h2_type :: u8
  h2_flags :: u8
  h2_optlen :: u8
  h2_size :: u32
  h2_src_node_id :: u16
  h2_src_port_id :: u16
  h2_dst_node_id :: u16
  h2_dst_port_id :: u16

record qrtr_cb =
  cb_src_node :: u32
  cb_src_port :: u32
  cb_dst_node :: u32
  cb_dst_port :: u32
  cb_type :: u8
  cb_confirm_rx :: bool

definition hdr_v1_size :: nat where "hdr_v1_size = 32"
definition hdr_v2_size :: nat where "hdr_v2_size = 16"

definition le16 :: "bytes \<Rightarrow> nat \<Rightarrow> u16" where
  "le16 buf off = word_of_nat (le_val (mem_slice off 2 buf))"

definition put_le32 :: "u32 \<Rightarrow> bytes" where "put_le32 w = le_bytes 4 (unat w)"
definition put_le16 :: "u16 \<Rightarrow> bytes" where "put_le16 w = le_bytes 2 (unat w)"

definition put_pkt :: "qrtr_ctrl_pkt \<Rightarrow> bytes" where
  "put_pkt p = put_le32 (cp_cmd p) @ put_le32 (cp_w0 p) @ put_le32 (cp_w1 p) @ put_le32 (cp_w2 p) @ put_le32 (cp_w3 p)"

definition put_hdr_v1 :: "qrtr_hdr_v1 \<Rightarrow> bytes" where
  "put_hdr_v1 h = put_le32 (h1_version h) @ put_le32 (h1_type h) @ put_le32 (h1_src_node_id h) @
     put_le32 (h1_src_port_id h) @ put_le32 (h1_confirm_rx h) @ put_le32 (h1_size h) @
     put_le32 (h1_dst_node_id h) @ put_le32 (h1_dst_port_id h)"

definition put_hdr_v2 :: "qrtr_hdr_v2 \<Rightarrow> bytes" where
  "put_hdr_v2 h = [h2_version h, h2_type h, h2_flags h, h2_optlen h] @ put_le32 (h2_size h) @
     put_le16 (h2_src_node_id h) @ put_le16 (h2_src_port_id h) @ put_le16 (h2_dst_node_id h) @
     put_le16 (h2_dst_port_id h)"

text \<open>A header is read by laying the structure over the received bytes.\<close>

definition get_hdr_v1 :: "bytes \<Rightarrow> qrtr_hdr_v1 outcome" where
  "get_hdr_v1 d =
     (if length d < hdr_v1_size then Inl Out_of_bounds
      else Inr \<lparr>h1_version = le32 d 0, h1_type = le32 d 4, h1_src_node_id = le32 d 8, h1_src_port_id = le32 d 12,
                h1_confirm_rx = le32 d 16, h1_size = le32 d 20, h1_dst_node_id = le32 d 24, h1_dst_port_id = le32 d 28\<rparr>)"

definition get_hdr_v2 :: "bytes \<Rightarrow> qrtr_hdr_v2 outcome" where
  "get_hdr_v2 d =
     (if length d < hdr_v2_size then Inl Out_of_bounds
      else Inr \<lparr>h2_version = d ! 0, h2_type = d ! 1, h2_flags = d ! 2, h2_optlen = d ! 3, h2_size = le32 d 4,
                h2_src_node_id = le16 d 8, h2_src_port_id = le16 d 10, h2_dst_node_id = le16 d 12,
                h2_dst_port_id = le16 d 14\<rparr>)"

definition get_u8 :: "bytes \<Rightarrow> u8 outcome" where
  "get_u8 d = (case d of [] \<Rightarrow> Inl Out_of_bounds | b # _ \<Rightarrow> Inr b)"

definition get_data :: "bytes \<Rightarrow> nat \<Rightarrow> nat \<Rightarrow> bytes outcome" where
  "get_data d off n = (if off + n \<le> length d then Inr (mem_slice off n d) else Inl Out_of_bounds)"

definition align4 :: "nat \<Rightarrow> nat" where "align4 n = (n + 3) div 4 * 4"

section \<open>Sending\<close>

definition tx_hdr ::
  "core_uapi \<Rightarrow> u32 \<Rightarrow> u32 \<Rightarrow> sockaddr_qrtr \<Rightarrow> sockaddr_qrtr \<Rightarrow> nat \<Rightarrow> bool \<Rightarrow> qrtr_hdr_v1" where
  "tx_hdr u nid typ src dst len confirm_rx =
     \<lparr>h1_version = ucast QRTR_PROTO_VER_1, h1_type = typ,
      h1_src_node_id = sq_node src, h1_src_port_id = sq_port src,
      h1_confirm_rx = (if confirm_rx then 1 else 0), h1_size = word_of_nat len,
      h1_dst_node_id = (if sq_port dst = ua_ctrl u then nid else sq_node dst),
      h1_dst_port_id = (if sq_port dst = ua_ctrl u then ua_ctrl u else sq_port dst)\<rparr>"

definition tx_frame ::
  "core_uapi \<Rightarrow> u32 \<Rightarrow> u32 \<Rightarrow> sockaddr_qrtr \<Rightarrow> sockaddr_qrtr \<Rightarrow> bytes \<Rightarrow> bool \<Rightarrow> bytes" where
  "tx_frame u nid typ src dst msg confirm_rx =
     pad_to (align4 (length msg) + hdr_v1_size)
       (put_hdr_v1 (tx_hdr u nid typ src dst (length msg) confirm_rx) @ msg)"

section \<open>Receiving\<close>

definition cb_of_v1 :: "qrtr_hdr_v1 \<Rightarrow> qrtr_cb" where
  "cb_of_v1 h =
     \<lparr>cb_src_node = h1_src_node_id h, cb_src_port = h1_src_port_id h, cb_dst_node = h1_dst_node_id h,
      cb_dst_port = h1_dst_port_id h, cb_type = ucast (h1_type h), cb_confirm_rx = (h1_confirm_rx h \<noteq> 0)\<rparr>"

definition wide_port :: "core_uapi \<Rightarrow> u16 \<Rightarrow> u32" where
  "wide_port u p = (if ucast p = (ucast (ucast (ua_ctrl u) :: u16) :: u32) then ua_ctrl u else ucast p)"

definition cb_of_v2 :: "core_uapi \<Rightarrow> qrtr_hdr_v2 \<Rightarrow> qrtr_cb" where
  "cb_of_v2 u h =
     \<lparr>cb_src_node = ucast (h2_src_node_id h), cb_src_port = wide_port u (h2_src_port_id h),
      cb_dst_node = ucast (h2_dst_node_id h), cb_dst_port = wide_port u (h2_dst_port_id h),
      cb_type = h2_type h, cb_confirm_rx = (h2_flags h AND QRTR_FLAGS_CONFIRM_RX \<noteq> 0)\<rparr>"

definition rx_checked :: "core_uapi \<Rightarrow> bytes \<Rightarrow> nat \<Rightarrow> nat \<Rightarrow> qrtr_cb \<Rightarrow> (qrtr_cb \<times> bytes) option outcome" where
  "rx_checked u d hdrlen sz cb0 =
     (let cb = (if cb_dst_port cb0 = QRTR_PORT_CTRL_LEGACY then cb0\<lparr>cb_dst_port := ua_ctrl u\<rparr> else cb0);
          typ = ucast (cb_type cb)
      in if sz = 0 \<or> length d \<noteq> align4 sz + hdrlen then Inr None
         else if (typ = ua_cmd u CMD_NEW_SERVER \<or> typ = ua_cmd u CMD_RESUME_TX) \<and> sz < ctrl_pkt_size then Inr None
         else if cb_dst_port cb \<noteq> ua_ctrl u \<and> typ \<noteq> ua_data u \<and> typ \<noteq> ua_cmd u CMD_RESUME_TX then Inr None
         else bind_outcome (get_data d hdrlen sz) (\<lambda>msg. Inr (Some (cb, msg))))"

definition rx_packet :: "core_uapi \<Rightarrow> bytes \<Rightarrow> (qrtr_cb \<times> bytes) option outcome" where
  "rx_packet u d =
     bind_outcome (get_u8 d) (\<lambda>ver.
     if ver = QRTR_PROTO_VER_1
     then if length d < hdr_v1_size then Inr None
          else bind_outcome (get_hdr_v1 d) (\<lambda>v1. rx_checked u d hdr_v1_size (unat (h1_size v1)) (cb_of_v1 v1))
     else if ver = QRTR_PROTO_VER_2
     then if length d < hdr_v2_size then Inr None
          else bind_outcome (get_hdr_v2 d) (\<lambda>v2.
               rx_checked u d (hdr_v2_size + unat (h2_optlen v2)) (unat (h2_size v2)) (cb_of_v2 u v2))
     else Inr None)"

section \<open>Layout of the structures\<close>

named_theorems wire \<comment> \<open>reading what was laid out\<close>

lemma put_length [wire]:
  "length (put_le32 w) = 4" "length (put_le16 v) = 2"
  "length (put_hdr_v1 h) = hdr_v1_size" "length (put_hdr_v2 k) = hdr_v2_size" "length (put_pkt p) = ctrl_pkt_size"
  by (simp_all add: put_le32_def put_le16_def put_hdr_v1_def put_hdr_v2_def put_pkt_def
      hdr_v1_size_def hdr_v2_size_def ctrl_pkt_size_def)

lemma le32_skip: "length ys \<le> off \<Longrightarrow> le32 (ys @ xs) off = le32 xs (off - length ys)"
  by (simp add: le32_def mem_slice_def)

lemma le16_skip: "length ys \<le> off \<Longrightarrow> le16 (ys @ xs) off = le16 xs (off - length ys)"
  by (simp add: le16_def mem_slice_def)

lemma le32_head: "le32 (put_le32 w @ xs) 0 = w" "le32 (put_le32 w) 0 = w"
  using unat_word_bound(2) [of w]
  by (simp_all add: le32_def put_le32_def mem_slice_def le_val_le_bytes)

lemma le16_head: "le16 (put_le16 w @ xs) 0 = w" "le16 (put_le16 w) 0 = w"
  using unat_word_bound(1) [of w]
  by (simp_all add: le16_def put_le16_def mem_slice_def le_val_le_bytes)

lemma field_skip4:
  "4 \<le> off \<Longrightarrow> le32 (a # b # c # d # xs) off = le32 xs (off - 4)"
  "4 \<le> off \<Longrightarrow> le16 (a # b # c # d # xs) off = le16 xs (off - 4)"
  using le32_skip [of "[a, b, c, d]" off xs] le16_skip [of "[a, b, c, d]" off xs] by (simp_all add: numeral_eq_Suc)

lemmas read_field = le32_skip le16_skip le32_head le16_head field_skip4 put_length(1,2)

lemma get_put_hdr_v1 [wire]: "get_hdr_v1 (put_hdr_v1 h @ xs) = Inr h"
  by (cases h) (simp add: get_hdr_v1_def put_length, simp add: put_hdr_v1_def read_field)

lemma get_put_hdr_v2 [wire]: "get_hdr_v2 (put_hdr_v2 h @ xs) = Inr h"
  by (cases h) (simp add: get_hdr_v2_def put_length, simp add: put_hdr_v2_def read_field)

lemma read_put_pkt [wire]: "read_pkt (put_pkt p) = p"
  by (cases p) (simp add: read_pkt_def put_pkt_def read_field)

lemma get_u8_put [wire]:
  "get_u8 (put_hdr_v1 h @ xs) = Inr (ucast (h1_version h))" "get_u8 (put_hdr_v2 k @ xs) = Inr (h2_version k)"
proof -
  have "put_le32 w = ucast w # le_bytes 3 (unat w div 256)" for w
    using le_bytes.simps(2) [of 3 "unat w"] by (simp add: put_le32_def)
  then show "get_u8 (put_hdr_v1 h @ xs) = Inr (ucast (h1_version h))" "get_u8 (put_hdr_v2 k @ xs) = Inr (h2_version k)"
    by (simp_all add: get_u8_def put_hdr_v1_def put_hdr_v2_def)
qed

lemma align4_bounds: "n \<le> align4 n" "align4 n < n + 4" "align4 n mod 4 = 0"
  unfolding align4_def by presburger+

section \<open>What is accepted\<close>

text \<open>The destination port a packet is delivered to, and the packets that are delivered at all.\<close>

definition rx_cb :: "core_uapi \<Rightarrow> qrtr_cb \<Rightarrow> qrtr_cb" where
  "rx_cb u cb = (if cb_dst_port cb = QRTR_PORT_CTRL_LEGACY then cb\<lparr>cb_dst_port := ua_ctrl u\<rparr> else cb)"

definition rx_accepts :: "core_uapi \<Rightarrow> qrtr_cb \<Rightarrow> nat \<Rightarrow> bool" where
  "rx_accepts u cb n \<longleftrightarrow>
     0 < n \<and>
     (ucast (cb_type cb) \<in> {ua_cmd u CMD_NEW_SERVER, ua_cmd u CMD_RESUME_TX} \<longrightarrow> ctrl_pkt_size \<le> n) \<and>
     (cb_dst_port (rx_cb u cb) = ua_ctrl u \<or> ucast (cb_type cb) \<in> {ua_data u, ua_cmd u CMD_RESUME_TX})"

definition padded :: "bytes \<Rightarrow> bytes" where
  "padded msg = pad_to (align4 (length msg)) msg"

lemma length_padded: "length (padded msg) = align4 (length msg)"
  using align4_bounds(1) [of "length msg"] by (simp add: padded_def length_pad_to)

lemma rx_checked_padded:
  "rx_checked u (hdr @ padded msg) (length hdr) (length msg) cb =
     Inr (if rx_accepts u cb (length msg) then Some (rx_cb u cb, msg) else None)"
proof -
  have "get_data (hdr @ padded msg) (length hdr) (length msg) = Inr msg"
    using align4_bounds(1) [of "length msg"]
    by (simp add: get_data_def length_padded mem_slice_def) (simp add: padded_def pad_to_def)
  then show ?thesis
    unfolding rx_checked_def Let_def rx_cb_def [symmetric] rx_accepts_def
    by (auto simp: length_padded rx_cb_def)
qed

lemma rx_packet_v1:
  assumes "h1_version h = ucast QRTR_PROTO_VER_1" and "unat (h1_size h) = length msg"
  shows "rx_packet u (put_hdr_v1 h @ padded msg) =
    Inr (if rx_accepts u (cb_of_v1 h) (length msg) then Some (rx_cb u (cb_of_v1 h), msg) else None)"
  using assms rx_checked_padded [of u "put_hdr_v1 h" msg "cb_of_v1 h"]
  by (simp add: rx_packet_def wire QRTR_PROTO_VER_1_def QRTR_PROTO_VER_2_def)

lemma rx_packet_v2:
  assumes "h2_version h = QRTR_PROTO_VER_2" and "unat (h2_size h) = length msg" and "length opt = unat (h2_optlen h)"
  shows "rx_packet u (put_hdr_v2 h @ opt @ padded msg) =
    Inr (if rx_accepts u (cb_of_v2 u h) (length msg) then Some (rx_cb u (cb_of_v2 u h), msg) else None)"
  using assms rx_checked_padded [of u "put_hdr_v2 h @ opt" msg "cb_of_v2 u h"]
  by (simp add: rx_packet_def wire QRTR_PROTO_VER_1_def QRTR_PROTO_VER_2_def)

text \<open>Whatever was received, it is never read behind its end.\<close>

lemma rx_checked_defined: "\<exists>r. rx_checked u d hdrlen sz cb = Inr r"
  using align4_bounds(1) [of sz] by (auto simp: rx_checked_def Let_def get_data_def)

lemma rx_packet_defined: "0 < length d \<Longrightarrow> \<exists>r. rx_packet u d = Inr r"
  using rx_checked_defined
  by (cases d) (auto simp: rx_packet_def get_u8_def get_hdr_v1_def get_hdr_v2_def)

section \<open>Properties\<close>

lemma tx_frame_padded:
  "tx_frame u nid typ src dst msg c = put_hdr_v1 (tx_hdr u nid typ src dst (length msg) c) @ padded msg"
  by (simp add: tx_frame_def padded_def pad_to_def put_length)

lemma rx_tx_frame:
  assumes "length msg < 2 ^ 32"
  shows "rx_packet u (tx_frame u nid typ src dst msg c) =
    Inr (let cb = cb_of_v1 (tx_hdr u nid typ src dst (length msg) c)
         in if rx_accepts u cb (length msg) then Some (rx_cb u cb, msg) else None)"
  unfolding tx_frame_padded Let_def
  using assms by (intro rx_packet_v1) (simp_all add: tx_hdr_def unat_of_nat)

text \<open>
  C10. What \<open>qrtr_node_enqueue\<close> sends is what \<open>qrtr_endpoint_post\<close> on the other side takes out of
  the packet: the sender, the destination (the control port under its old number as well), the
  request for confirmation and exactly the bytes of the message, without the padding. A packet is
  refused exactly when the message is empty, when a server announcement or a resume packet is
  too short, or when another control packet is not addressed to the control port.
\<close>

theorem wire_roundtrip:
  assumes "length msg < 2 ^ 32"
    and cb: "cb = \<lparr>cb_src_node = sq_node src, cb_src_port = sq_port src,
      cb_dst_node = (if sq_port dst = ua_ctrl u then nid else sq_node dst),
      cb_dst_port = (if sq_port dst = QRTR_PORT_CTRL_LEGACY then ua_ctrl u else sq_port dst),
      cb_type = ucast typ, cb_confirm_rx = c\<rparr>"
  shows "rx_packet u (tx_frame u nid typ src dst msg c) =
    Inr (if msg \<noteq> [] \<and>
            (ucast (cb_type cb) \<in> {ua_cmd u CMD_NEW_SERVER, ua_cmd u CMD_RESUME_TX} \<longrightarrow> ctrl_pkt_size \<le> length msg) \<and>
            (cb_dst_port cb = ua_ctrl u \<or> ucast (cb_type cb) \<in> {ua_data u, ua_cmd u CMD_RESUME_TX})
         then Some (cb, msg) else None)"
proof -
  let ?h = "tx_hdr u nid typ src dst (length msg) c"
  note rx_tx_frame [OF assms(1), of u nid "typ" src dst c]
  moreover have "rx_cb u (cb_of_v1 ?h) = cb"
    by (auto simp: rx_cb_def cb_of_v1_def tx_hdr_def cb)
  ultimately show ?thesis
    by (auto simp: Let_def rx_accepts_def cb_of_v1_def tx_hdr_def cb)
qed

text \<open>The numbers of the kernel's headers.\<close>

definition linux_core :: core_uapi where
  "linux_core = uapi.extend linux_uapi \<lparr>ua_data = 1, ua_auto = 0xffffffff\<rparr>"

lemma linux_core_simps [simp]:
  "ua_cmd linux_core = ua_cmd linux_uapi" "ua_bcast linux_core = 0xffffffff" "ua_ctrl linux_core = 0xfffffffe"
  "ua_data linux_core = 1" "ua_auto linux_core = 0xffffffff"
  by (simp_all add: linux_core_def uapi.defs linux_uapi_def)

theorem wire_roundtrip_witness:
  "rx_packet linux_core (tx_frame linux_core 5 1 \<lparr>sq_node = 1, sq_port = 0x4000\<rparr> \<lparr>sq_node = 5, sq_port = 9\<rparr> [1, 2, 3] True) =
    Inr (Some (\<lparr>cb_src_node = 1, cb_src_port = 0x4000, cb_dst_node = 5, cb_dst_port = 9, cb_type = 1, cb_confirm_rx = True\<rparr>,
      [1, 2, 3]))"
  by (subst wire_roundtrip [OF _ refl]) (simp_all add: linux_uapi_def QRTR_PORT_CTRL_LEGACY_def)



end
