(* ===== verification/Qrtr_Flow.thy ===== *)
theory Qrtr_Flow
  imports Qrtr_Wire
begin

text \<open>
  The transmission flow control of \<^verbatim>\<open>tcl-af-qrtr.c\<close>: \<open>qrtr_tx_wait\<close>, \<open>qrtr_tx_resume\<close> and
  \<open>qrtr_tx_flow_failed\<close> on the flows of a node, and the senders of one flow as a step relation in
  which waiting, transmitting and resuming interleave. A sender that has to sleep has no
  result: \<open>None\<close>.
\<close>

section \<open>The flows of a node\<close>

record qrtr_tx_flow =
  fl_pending :: int
  fl_tx_failed :: bool

type_synonym tx_flows = "u64 \<rightharpoonup> qrtr_tx_flow"

definition QRTR_TX_FLOW_HIGH :: int where "QRTR_TX_FLOW_HIGH = 10"
definition QRTR_TX_FLOW_LOW :: int where "QRTR_TX_FLOW_LOW = 5"

definition flow_new :: qrtr_tx_flow where
  "flow_new = \<lparr>fl_pending = 0, fl_tx_failed = False\<rparr>"

text \<open>
  The key of a flow. On the sending side node and port are signed integers and the port is
  extended with its sign; on the receiving side both are unsigned.
\<close>

definition tx_key :: "u32 \<Rightarrow> u32 \<Rightarrow> u64" where
  "tx_key dest_node dest_port = push_bit 32 (scast dest_node) OR scast dest_port"

definition resume_key :: "u32 \<Rightarrow> u32 \<Rightarrow> u64" where
  "resume_key remote_node remote_port = push_bit 32 (ucast remote_node) OR ucast remote_port"

text \<open>What a sender gets that need not sleep.\<close>

definition tx_admit :: "bool \<Rightarrow> qrtr_tx_flow \<Rightarrow> (int \<times> qrtr_tx_flow) option" where
  "tx_admit ep flow =
     (if \<not> (fl_pending flow < QRTR_TX_FLOW_HIGH \<or> fl_tx_failed flow \<or> \<not> ep) then None
      else if \<not> ep then Some (- EPIPE, flow)
      else if fl_tx_failed flow then Some (1, flow\<lparr>fl_tx_failed := False\<rparr>)
      else (let pending = fl_pending flow + 1 in
            Some (if pending = QRTR_TX_FLOW_LOW then 1 else 0, flow\<lparr>fl_pending := pending\<rparr>)))"

definition tx_resumed :: "qrtr_tx_flow \<Rightarrow> qrtr_tx_flow" where
  "tx_resumed flow = flow\<lparr>fl_pending := 0\<rparr>"

definition tx_lost :: "qrtr_tx_flow \<Rightarrow> qrtr_tx_flow" where
  "tx_lost flow = flow\<lparr>fl_tx_failed := True\<rparr>"

text \<open>
  \<open>mem\<close> says whether a missing flow can be allocated and inserted, \<open>signal\<close> whether a signal
  ends the sleep.
\<close>

definition qrtr_tx_wait ::
  "core_uapi \<Rightarrow> bool \<Rightarrow> bool \<Rightarrow> bool \<Rightarrow> u32 \<Rightarrow> u32 \<Rightarrow> u32 \<Rightarrow> tx_flows \<Rightarrow> int option \<times> tx_flows" where
  "qrtr_tx_wait u mem signal ep dest_node dest_port typ flows =
     (let key = tx_key dest_node dest_port in
      if typ \<noteq> ua_data u then (Some 0, flows)
      else if flows key = None \<and> \<not> mem then (Some 1, flows)
      else (let flow = (case flows key of None \<Rightarrow> flow_new | Some f \<Rightarrow> f);
                flows1 = flows(key \<mapsto> flow)
            in case tx_admit ep flow of
                 Some (confirm_rx, flow') \<Rightarrow> (Some confirm_rx, flows1(key \<mapsto> flow'))
               | None \<Rightarrow> (if signal then Some (- ERESTARTSYS) else None, flows1)))"

definition qrtr_tx_resume :: "qrtr_ctrl_pkt \<Rightarrow> tx_flows \<Rightarrow> tx_flows" where
  "qrtr_tx_resume pkt flows =
     (let key = resume_key (cp_w0 pkt) (cp_w1 pkt) in
      case flows key of None \<Rightarrow> flows | Some flow \<Rightarrow> flows(key \<mapsto> tx_resumed flow))"

definition qrtr_tx_flow_failed :: "u32 \<Rightarrow> u32 \<Rightarrow> tx_flows \<Rightarrow> tx_flows" where
  "qrtr_tx_flow_failed dest_node dest_port flows =
     (let key = tx_key dest_node dest_port in
      case flows key of None \<Rightarrow> flows | Some flow \<Rightarrow> flows(key \<mapsto> tx_lost flow))"

section \<open>Keys\<close>

lemma bit_resume_key: "bit (resume_key n p) i \<longleftrightarrow> (if i < 32 then bit p i else i < 64 \<and> bit n (i - 32))"
  by (auto simp: resume_key_def bit_simps dest: bit_imp_le_length)

lemma bit_tx_key:
  "bit (tx_key n p) i \<longleftrightarrow> (if i < 32 then bit p i else i < 64 \<and> (bit n (i - 32) \<or> bit p 31))"
proof -
  have "i - 32 = 31 \<or> i - 32 < 31" if "i < 64"
    using that by linarith
  then show ?thesis
    by (cases "i = 31") (auto simp: tx_key_def bit_simps bit_signed_iff min_def)
qed

lemma resume_key_inj: "resume_key n p = resume_key n' p' \<longleftrightarrow> n = n' \<and> p = p'"
proof
  assume eq: "resume_key n p = resume_key n' p'"
  have "bit p i = bit p' i" "bit n i = bit n' i" if "i < 32" for i
    using that arg_cong [OF eq, of "\<lambda>w. bit w i"] arg_cong [OF eq, of "\<lambda>w. bit w (i + 32)"]
    by (simp_all add: bit_resume_key)
  then show "n = n' \<and> p = p'"
    by (auto intro!: bit_word_eqI)
qed simp

lemma tx_key_low: "\<not> bit p 31 \<Longrightarrow> tx_key n p = resume_key n p"
  by (rule bit_word_eqI) (simp add: bit_tx_key bit_resume_key)

lemma tx_key_high: "bit p 31 \<Longrightarrow> tx_key n p = resume_key (- 1) p"
  by (rule bit_word_eqI) (auto simp: bit_tx_key bit_resume_key)

lemma top_bit: "bit (p :: u32) 31 \<longleftrightarrow> 2 ^ 31 \<le> p"
proof -
  have "bit p 31 \<longleftrightarrow> odd (unat p div 2 ^ 31)"
    using bit_unsigned_iff [of p 31, where ?'a = nat] by (simp add: bit_iff_odd)
  also have "\<dots> \<longleftrightarrow> 2 ^ 31 \<le> unat p"
  proof (cases "2 ^ 31 \<le> unat p")
    case True
    then have "unat p div 2 ^ 31 = 1"
      using unat_word_bound(2) [of p] by (intro div_nat_eqI) simp_all
    with True show ?thesis by simp
  qed simp
  finally show ?thesis
    by (simp add: word_le_nat_alt)
qed

section \<open>Ports with the top bit\<close>

text \<open>A sender to one remote port, and the resume packets of that port.\<close>

datatype port_event = Send_data bool bool | Resume_tx

fun port_step :: "core_uapi \<Rightarrow> u32 \<Rightarrow> u32 \<Rightarrow> tx_flows \<Rightarrow> port_event \<Rightarrow> tx_flows" where
  "port_step u n p flows (Send_data mem signal) = snd (qrtr_tx_wait u mem signal True n p (ua_data u) flows)"
| "port_step u n p flows Resume_tx =
     qrtr_tx_resume \<lparr>cp_cmd = ua_cmd u CMD_RESUME_TX, cp_w0 = n, cp_w1 = p, cp_w2 = 0, cp_w3 = 0\<rparr> flows"

definition flow_at :: "u32 \<Rightarrow> u32 \<Rightarrow> tx_flows \<Rightarrow> qrtr_tx_flow" where
  "flow_at n p flows = (case flows (tx_key n p) of None \<Rightarrow> flow_new | Some f \<Rightarrow> f)"

lemma tx_wait_flow:
  "qrtr_tx_wait u True sig ep n p (ua_data u) flows =
     (case tx_admit ep (flow_at n p flows) of
        Some (c, f) \<Rightarrow> (Some c, flows(tx_key n p \<mapsto> f))
      | None \<Rightarrow> (if sig then Some (- ERESTARTSYS) else None, flows(tx_key n p \<mapsto> flow_at n p flows)))"
  by (simp add: qrtr_tx_wait_def flow_at_def Let_def split: option.splits)

lemma tx_wait_room:
  assumes "fl_pending (flow_at n p flows) < QRTR_TX_FLOW_HIGH"
  shows "\<exists>c flows'. qrtr_tx_wait u True sig True n p (ua_data u) flows = (Some c, flows') \<and> 0 \<le> c"
  using assms unfolding tx_wait_flow by (simp add: tx_admit_def Let_def)

lemma flow_at_send:
  assumes "\<not> fl_tx_failed (flow_at n p flows)"
  shows "flow_at n p (port_step u n p flows (Send_data True sig)) =
    (if fl_pending (flow_at n p flows) < QRTR_TX_FLOW_HIGH
     then (flow_at n p flows)\<lparr>fl_pending := fl_pending (flow_at n p flows) + 1\<rparr> else flow_at n p flows)"
  using assms
  by (cases "flows (tx_key n p)") (auto simp: flow_at_def qrtr_tx_wait_def tx_admit_def Let_def)

lemma flow_at_resume:
  "flow_at n p (port_step u n p flows Resume_tx) =
    (if tx_key n p = resume_key n p then tx_resumed (flow_at n p flows) else flow_at n p flows)"
  by (auto simp: flow_at_def qrtr_tx_resume_def Let_def tx_resumed_def flow_new_def split: option.split)

text \<open>The number of sends that could not be turned down for lack of memory.\<close>

definition sends :: "port_event list \<Rightarrow> nat" where
  "sends es = length (filter (\<lambda>e. e \<noteq> Resume_tx) es)"

lemma sends_run:
  assumes "tx_key n p \<noteq> resume_key n p" and "list_all (\<lambda>e. e = Resume_tx \<or> (\<exists>sig. e = Send_data True sig)) es"
  shows "flow_at n p (foldl (port_step u n p) Map.empty es) =
    \<lparr>fl_pending = min QRTR_TX_FLOW_HIGH (int (sends es)), fl_tx_failed = False\<rparr>"
  using assms(2)
proof (induction es rule: rev_induct)
  case Nil
  then show ?case by (simp add: flow_at_def flow_new_def sends_def QRTR_TX_FLOW_HIGH_def)
next
  case (snoc e es)
  let ?f = "foldl (port_step u n p) Map.empty es"
  have f: "flow_at n p ?f = \<lparr>fl_pending = min QRTR_TX_FLOW_HIGH (int (sends es)), fl_tx_failed = False\<rparr>"
    using snoc by simp
  consider "e = Resume_tx" | sig where "e = Send_data True sig"
    using snoc.prems by auto
  then show ?case
  proof cases
    case 1
    with flow_at_resume [of n p u ?f] f assms(1) show ?thesis by (simp add: sends_def)
  next
    case 2
    with flow_at_send [of n p ?f u sig] f show ?thesis by (auto simp: sends_def)
  qed
qed

lemma tx_wait_asleep:
  "fst (qrtr_tx_wait u True False True n p (ua_data u) flows) = None \<longleftrightarrow>
     QRTR_TX_FLOW_HIGH \<le> fl_pending (flow_at n p flows) \<and> \<not> fl_tx_failed (flow_at n p flows)"
  by (cases "flows (tx_key n p)") (auto simp: flow_at_def qrtr_tx_wait_def tx_admit_def Let_def)

text \<open>
  A resume packet lets the next sender of its port through when the port number is below
  2 to the 31. For a larger port of a node that is not the broadcast node, the control port for
  one, the signed extension of the port in \<open>qrtr_tx_wait\<close> and the unsigned one in
  \<open>qrtr_tx_resume\<close> give different keys: after ten messages the next sender sleeps, however many
  resume packets arrived.
\<close>

theorem resume_needs_low_port:
  assumes "list_all (\<lambda>e. e = Resume_tx \<or> (\<exists>sig. e = Send_data True sig)) es"
  shows "(p < 2 ^ 31 \<longrightarrow>
      fst (qrtr_tx_wait u True False True n p (ua_data u) (foldl (port_step u n p) Map.empty (es @ [Resume_tx]))) \<noteq> None) \<and>
    (2 ^ 31 \<le> p \<and> n \<noteq> - 1 \<and> 10 \<le> sends es \<longrightarrow>
      fst (qrtr_tx_wait u True False True n p (ua_data u) (foldl (port_step u n p) Map.empty es)) = None)"
proof (intro conjI impI)
  assume "p < 2 ^ 31"
  then have "tx_key n p = resume_key n p"
    using tx_key_low top_bit [of p] by (simp add: not_le)
  then show "fst (qrtr_tx_wait u True False True n p (ua_data u) (foldl (port_step u n p) Map.empty (es @ [Resume_tx]))) \<noteq> None"
    by (simp add: tx_wait_asleep flow_at_resume tx_resumed_def QRTR_TX_FLOW_HIGH_def del: port_step.simps)
next
  assume p: "2 ^ 31 \<le> p \<and> n \<noteq> - 1 \<and> 10 \<le> sends es"
  then have "tx_key n p \<noteq> resume_key n p"
    using tx_key_high [of p n] top_bit [of p] by (auto simp: resume_key_inj)
  with sends_run [OF _ assms] p
  show "fst (qrtr_tx_wait u True False True n p (ua_data u) (foldl (port_step u n p) Map.empty es)) = None"
    by (simp add: tx_wait_asleep QRTR_TX_FLOW_HIGH_def)
qed

theorem resume_needs_low_port_witness:
  "fst (qrtr_tx_wait linux_core True False True 5 0xfffffffe (ua_data linux_core)
     (foldl (port_step linux_core 5 0xfffffffe) Map.empty (concat (replicate 10 [Send_data True False, Resume_tx])))) = None"
proof -
  let ?es = "concat (replicate 10 [Send_data True False, Resume_tx])"
  have es: "?es = [Send_data True False, Resume_tx, Send_data True False, Resume_tx, Send_data True False, Resume_tx,
      Send_data True False, Resume_tx, Send_data True False, Resume_tx, Send_data True False, Resume_tx,
      Send_data True False, Resume_tx, Send_data True False, Resume_tx, Send_data True False, Resume_tx,
      Send_data True False, Resume_tx]"
    by code_simp
  have "10 \<le> sends ?es"
    by (simp add: es sends_def)
  moreover have "list_all (\<lambda>e. e = Resume_tx \<or> (\<exists>sig. e = Send_data True sig)) ?es"
    unfolding es by auto
  ultimately show ?thesis
    using resume_needs_low_port [of ?es "0xfffffffe" linux_core 5] by simp
qed

section \<open>Concurrent senders\<close>

text \<open>
  All senders of one flow. A sender is asleep in \<open>qrtr_tx_wait\<close>, or woken and about to look at the
  flow again, or between \<open>qrtr_tx_wait\<close> and the end of the transmission, with or without the
  request for confirmation. \<open>fs_asked\<close> counts the requests that reached the other side and have
  not been answered by a resume packet.
\<close>

record flow_sys =
  fs_flow :: qrtr_tx_flow
  fs_ep :: bool
  fs_asleep :: nat
  fs_woken :: nat
  fs_air :: nat
  fs_plain :: nat
  fs_asked :: nat

datatype flow_event =
  Enter | Rerun | Interrupt | Xmit_ok | Xmit_failed | Xmit_plain | Resume | Unregister

definition flow_init :: flow_sys where
  "flow_init = \<lparr>fs_flow = flow_new, fs_ep = True, fs_asleep = 0, fs_woken = 0, fs_air = 0, fs_plain = 0, fs_asked = 0\<rparr>"

text \<open>A sender looks at the flow: it goes to sleep, gives up, or transmits.\<close>

definition tx_attempt :: "flow_sys \<Rightarrow> flow_sys" where
  "tx_attempt s =
     (case tx_admit (fs_ep s) (fs_flow s) of
        None \<Rightarrow> s\<lparr>fs_asleep := Suc (fs_asleep s)\<rparr>
      | Some (confirm_rx, flow) \<Rightarrow>
          if confirm_rx < 0 then s\<lparr>fs_flow := flow\<rparr>
          else if confirm_rx \<noteq> 0 then s\<lparr>fs_flow := flow, fs_air := Suc (fs_air s)\<rparr>
          else s\<lparr>fs_flow := flow, fs_plain := Suc (fs_plain s)\<rparr>)"

definition wake_all :: "flow_sys \<Rightarrow> flow_sys" where
  "wake_all s = s\<lparr>fs_woken := fs_woken s + fs_asleep s, fs_asleep := 0\<rparr>"

inductive flow_step :: "flow_sys \<Rightarrow> flow_event \<Rightarrow> flow_sys \<Rightarrow> bool" where
  enter: "flow_step s Enter (tx_attempt s)"
| rerun: "fs_woken s = Suc k \<Longrightarrow> flow_step s Rerun (tx_attempt (s\<lparr>fs_woken := k\<rparr>))"
| interrupted: "fs_asleep s = Suc k \<Longrightarrow> flow_step s Interrupt (s\<lparr>fs_asleep := k\<rparr>)"
| xmit_ok: "fs_air s = Suc k \<Longrightarrow> flow_step s Xmit_ok (s\<lparr>fs_air := k, fs_asked := Suc (fs_asked s)\<rparr>)"
| xmit_failed: "fs_air s = Suc k \<Longrightarrow> flow_step s Xmit_failed (s\<lparr>fs_air := k, fs_flow := tx_lost (fs_flow s)\<rparr>)"
| xmit_plain: "fs_plain s = Suc k \<Longrightarrow> flow_step s Xmit_plain (s\<lparr>fs_plain := k\<rparr>)"
| resume: "fs_asked s = Suc k \<Longrightarrow>
    flow_step s Resume (wake_all (s\<lparr>fs_asked := k, fs_flow := tx_resumed (fs_flow s)\<rparr>))"
| unregister: "fs_ep s \<Longrightarrow> flow_step s Unregister (wake_all (s\<lparr>fs_ep := False\<rparr>))"

inductive flow_reach :: "flow_sys \<Rightarrow> bool" where
  flow_start: "flow_reach flow_init"
| flow_next: "flow_reach s \<Longrightarrow> flow_step s e s' \<Longrightarrow> flow_reach s'"

inductive_simps flow_step_simps:
  "flow_step s Enter s'" "flow_step s Rerun s'" "flow_step s Interrupt s'" "flow_step s Xmit_ok s'"
  "flow_step s Xmit_failed s'" "flow_step s Xmit_plain s'" "flow_step s Resume s'" "flow_step s Unregister s'"

definition flow_inv :: "flow_sys \<Rightarrow> bool" where
  "flow_inv s \<longleftrightarrow>
     0 \<le> fl_pending (fs_flow s) \<and> fl_pending (fs_flow s) \<le> QRTR_TX_FLOW_HIGH \<and>
     (QRTR_TX_FLOW_LOW \<le> fl_pending (fs_flow s) \<longrightarrow> 0 < fs_air s + fs_asked s \<or> fl_tx_failed (fs_flow s)) \<and>
     (0 < fs_asleep s \<longrightarrow> fs_ep s \<and> fl_pending (fs_flow s) = QRTR_TX_FLOW_HIGH)"

lemma tx_attempt_inv: "flow_inv s \<Longrightarrow> flow_inv (tx_attempt s)"
  by (auto simp: flow_inv_def tx_attempt_def tx_admit_def Let_def QRTR_TX_FLOW_HIGH_def QRTR_TX_FLOW_LOW_def)

lemma flow_step_inv: "flow_step s e s' \<Longrightarrow> flow_inv s \<Longrightarrow> flow_inv s'"
proof (induction rule: flow_step.induct)
  case (enter s)
  then show ?case by (rule tx_attempt_inv)
next
  case (rerun s k)
  then show ?case by (intro tx_attempt_inv) (simp add: flow_inv_def)
qed (auto simp: flow_inv_def wake_all_def tx_lost_def tx_resumed_def QRTR_TX_FLOW_HIGH_def QRTR_TX_FLOW_LOW_def)

lemma flow_reach_inv: "flow_reach s \<Longrightarrow> flow_inv s"
  by (induction rule: flow_reach.induct)
    (simp add: flow_inv_def flow_init_def flow_new_def QRTR_TX_FLOW_HIGH_def QRTR_TX_FLOW_LOW_def, rule flow_step_inv)


text \<open>Eleven senders before the first transmission ends.\<close>

definition crowd :: flow_sys where
  "crowd = \<lparr>fs_flow = \<lparr>fl_pending = 10, fl_tx_failed = False\<rparr>, fs_ep = True, fs_asleep = 1, fs_woken = 0,
     fs_air = 1, fs_plain = 9, fs_asked = 0\<rparr>"

lemma flow_reach_attempts: "flow_reach s \<Longrightarrow> flow_reach ((tx_attempt ^^ n) s)"
  by (induction n) (simp_all add: flow_next [OF _ enter])

lemma flow_reach_plain:
  "flow_reach s \<Longrightarrow> fs_plain s = n \<Longrightarrow> flow_reach (s\<lparr>fs_plain := 0\<rparr>)"
proof (induction n arbitrary: s)
  case 0
  then have "s\<lparr>fs_plain := 0\<rparr> = s"
    by simp
  show ?case
    unfolding \<open>s\<lparr>fs_plain := 0\<rparr> = s\<close> by (rule 0)
next
  case (Suc n)
  from Suc.IH [OF flow_next [OF Suc.prems(1) xmit_plain [OF Suc.prems(2)]]] show ?case by simp
qed

lemma crowd_reach: "flow_reach crowd"
proof -
  have "crowd = (tx_attempt ^^ 11) flow_init"
    by (simp add: eval_nat_numeral flow_init_def flow_new_def tx_attempt_def tx_admit_def crowd_def
        QRTR_TX_FLOW_HIGH_def QRTR_TX_FLOW_LOW_def)
  with flow_reach_attempts [OF flow_start, of 11] show ?thesis
    by (simp only:)
qed


text \<open>
  C34. \<open>qrtr_tx_flow_failed\<close> does not wake the sleeping senders: a reachable state has a sender
  asleep although the loss has been noted, no transmission and no answer is under way, and
  only a new sender, a signal or the removal of the endpoint can change anything.
\<close>

theorem lost_confirmation_stalls:
  "\<exists>s. flow_reach s \<and> fs_asleep s = 1 \<and> fl_tx_failed (fs_flow s) \<and>
     {e. \<exists>s'. flow_step s e s'} = {Enter, Interrupt, Unregister}"
proof (intro exI conjI)
  let ?s = "crowd\<lparr>fs_plain := 0, fs_air := 0, fs_flow := tx_lost (fs_flow crowd)\<rparr>"
  have "flow_reach (crowd\<lparr>fs_plain := 0\<rparr>)"
    by (rule flow_reach_plain [OF crowd_reach refl])
  then show "flow_reach ?s"
    by (rule flow_next) (use xmit_failed [of "crowd\<lparr>fs_plain := 0\<rparr>" 0] in \<open>simp add: crowd_def\<close>)
  show "fs_asleep ?s = 1" "fl_tx_failed (fs_flow ?s)"
    by (simp_all add: crowd_def tx_lost_def)
  show "{e. \<exists>s'. flow_step ?s e s'} = {Enter, Interrupt, Unregister}"
  proof (rule set_eqI)
    fix e
    show "e \<in> {e. \<exists>s'. flow_step ?s e s'} \<longleftrightarrow> e \<in> {Enter, Interrupt, Unregister}"
      by (cases e) (auto simp: flow_step_simps crowd_def)
  qed
qed

end
