(* ===== verification/Qrtr_Core.thy ===== *)
theory Qrtr_Core
  imports Qrtr_Flow Keyed_Table
begin

text \<open>
  The socket layer of \<^verbatim>\<open>tcl-af-qrtr.c\<close>: sockets and their ports, nodes and their endpoints, and
  the operations that sockets and endpoint drivers call. Sockets, nodes and endpoints are
  handles; \<open>co_live\<close> counts the packet buffers that are allocated, \<open>co_asleep\<close> those that a
  sleeping sender holds. The kernel services answer by the number of the call: \<open>ce_ok\<close> says
  whether an allocation, an insertion, a copy from or to user memory or the queueing of a
  packet succeeds, \<open>ce_xmit\<close> is the result of the endpoint driver, which takes the packet
  in any case. Operations run one after the other; the interleaving of senders is the subject
  of the flow control theory.
\<close>

section \<open>State\<close>

record sk_buff =
  sb_cb :: qrtr_cb
  sb_data :: bytes
  sb_sk :: "u32 option"

record qrtr_sock =
  sk_zapped :: bool
  sk_us :: sockaddr_qrtr
  sk_peer :: sockaddr_qrtr
  sk_established :: bool
  sk_err :: int
  sk_queue :: "sk_buff list"
  sk_refs :: nat

record qrtr_node =
  nd_ep :: "u32 option"
  nd_ref :: nat
  nd_nid :: u32
  nd_flows :: tx_flows

record core =
  co_socks :: "qrtr_sock xarray"
  co_ports :: "u32 xarray"
  co_node :: "qrtr_node xarray"
  co_nodes :: "u32 xarray"
  co_all :: "u32 list"
  co_sent :: "(u32 \<times> bytes) list"
  co_tick :: nat
  co_live :: nat
  co_asleep :: nat

record core_env =
  ce_ok :: "nat \<Rightarrow> bool"
  ce_xmit :: "nat \<Rightarrow> int"
  ce_signal :: "nat \<Rightarrow> bool"
  ce_admin :: bool

definition qrtr_local_nid :: u32 where "qrtr_local_nid = 1"
definition QRTR_MIN_EPH_SOCKET :: nat where "QRTR_MIN_EPH_SOCKET = 0x4000"
definition QRTR_MAX_EPH_SOCKET :: nat where "QRTR_MAX_EPH_SOCKET = 0x7fff"

section \<open>Services\<close>

definition ask :: "core_env \<Rightarrow> core \<Rightarrow> bool \<times> core" where
  "ask e s = (ce_ok e (co_tick s), s\<lparr>co_tick := Suc (co_tick s)\<rparr>)"

definition skb_alloc :: "core_env \<Rightarrow> core \<Rightarrow> bool \<times> core" where
  "skb_alloc e s =
     (case ask e s of (got, s1) \<Rightarrow> (got, if got then s1\<lparr>co_live := Suc (co_live s1)\<rparr> else s1))"

definition kfree_skb :: "core \<Rightarrow> core" where
  "kfree_skb s = s\<lparr>co_live := co_live s - 1\<rparr>"

definition upd_sock :: "u32 \<Rightarrow> (qrtr_sock \<Rightarrow> qrtr_sock) \<Rightarrow> core \<Rightarrow> core" where
  "upd_sock k f s =
     (case xa_load (co_socks s) k of None \<Rightarrow> s | Some sk \<Rightarrow> s\<lparr>co_socks := xa_store (co_socks s) k (f sk)\<rparr>)"

definition upd_node :: "u32 \<Rightarrow> (qrtr_node \<Rightarrow> qrtr_node) \<Rightarrow> core \<Rightarrow> core" where
  "upd_node n f s =
     (case xa_load (co_node s) n of None \<Rightarrow> s | Some nd \<Rightarrow> s\<lparr>co_node := xa_store (co_node s) n (f nd)\<rparr>)"

definition sock_hold :: "u32 \<Rightarrow> core \<Rightarrow> core" where
  "sock_hold k = upd_sock k (\<lambda>sk. sk\<lparr>sk_refs := Suc (sk_refs sk)\<rparr>)"

text \<open>\<open>__sock_put\<close> only counts, \<open>sock_put\<close> frees the socket with the last reference.\<close>

definition sock_unhold :: "u32 \<Rightarrow> core \<Rightarrow> core" where
  "sock_unhold k = upd_sock k (\<lambda>sk. sk\<lparr>sk_refs := sk_refs sk - 1\<rparr>)"

definition sock_put :: "u32 \<Rightarrow> core \<Rightarrow> core" where
  "sock_put k s =
     (case xa_load (co_socks s) k of
        None \<Rightarrow> s
      | Some sk \<Rightarrow> if sk_refs sk \<le> 1 then s\<lparr>co_socks := xa_erase (co_socks s) k\<rparr> else sock_unhold k s)"

definition push_skb :: "u32 \<Rightarrow> sk_buff \<Rightarrow> core \<Rightarrow> core" where
  "push_skb k skb = upd_sock k (\<lambda>sk. sk\<lparr>sk_queue := sk_queue sk @ [skb]\<rparr>)"

section \<open>Nodes\<close>

definition qrtr_node_free :: "u32 \<Rightarrow> core \<Rightarrow> core" where
  "qrtr_node_free n s =
     s\<lparr>co_nodes := filter (\<lambda>e. snd e \<noteq> n) (co_nodes s), co_all := remove1 n (co_all s), co_node := xa_erase (co_node s) n\<rparr>"

definition qrtr_node_acquire :: "u32 \<Rightarrow> core \<Rightarrow> core" where
  "qrtr_node_acquire n = upd_node n (\<lambda>nd. nd\<lparr>nd_ref := Suc (nd_ref nd)\<rparr>)"

definition qrtr_node_release :: "u32 option \<Rightarrow> core \<Rightarrow> core" where
  "qrtr_node_release node s =
     (case node of
        None \<Rightarrow> s
      | Some n \<Rightarrow>
          (case xa_load (co_node s) n of
             None \<Rightarrow> s
           | Some nd \<Rightarrow> if nd_ref nd \<le> 1 then qrtr_node_free n s
                         else upd_node n (\<lambda>nd. nd\<lparr>nd_ref := nd_ref nd - 1\<rparr>) s))"

definition qrtr_node_lookup :: "u32 \<Rightarrow> core \<Rightarrow> u32 option \<times> core" where
  "qrtr_node_lookup nid s =
     (case xa_load (co_nodes s) nid of None \<Rightarrow> (None, s) | Some n \<Rightarrow> (Some n, qrtr_node_acquire n s))"

definition qrtr_node_assign :: "core_env \<Rightarrow> core_uapi \<Rightarrow> u32 \<Rightarrow> u32 \<Rightarrow> core \<Rightarrow> core" where
  "qrtr_node_assign e u n nid s =
     (if nid = ua_auto u then s
      else (case ask e s of (got, s1) \<Rightarrow>
            upd_node n (\<lambda>nd. if nd_nid nd = ua_auto u then nd\<lparr>nd_nid := nid\<rparr> else nd)
              (if got \<and> xa_load (co_nodes s1) nid = None
               then s1\<lparr>co_nodes := xa_store (co_nodes s1) nid n\<rparr> else s1)))"

text \<open>The waiting, the header, and the hand-over to the endpoint driver.\<close>

definition node_wait :: "core_env \<Rightarrow> core_uapi \<Rightarrow> u32 \<Rightarrow> u32 \<Rightarrow> sockaddr_qrtr \<Rightarrow> core \<Rightarrow> int option \<times> core" where
  "node_wait e u n typ dst s =
     (case xa_load (co_node s) n of
        None \<Rightarrow> (Some 0, s)
      | Some nd \<Rightarrow>
          (case qrtr_tx_wait u (ce_ok e (co_tick s)) (ce_signal e (co_tick s)) (nd_ep nd \<noteq> None)
                  (sq_node dst) (sq_port dst) typ (nd_flows nd) of
             (confirm_rx, flows) \<Rightarrow>
               (confirm_rx, upd_node n (\<lambda>nd. nd\<lparr>nd_flows := flows\<rparr>) (s\<lparr>co_tick := Suc (co_tick s)\<rparr>))))"

definition node_xmit :: "core_env \<Rightarrow> u32 \<Rightarrow> bytes \<Rightarrow> core \<Rightarrow> int \<times> core" where
  "node_xmit e n frame s =
     (case ask e s of (padded_ok, s1) \<Rightarrow>
      if \<not> padded_ok then (- ENOMEM, kfree_skb s1)
      else (case xa_load (co_node s1) n of
              None \<Rightarrow> (- ENODEV, kfree_skb s1)
            | Some nd \<Rightarrow>
                (case nd_ep nd of
                   None \<Rightarrow> (- ENODEV, kfree_skb s1)
                 | Some ep \<Rightarrow> (ce_xmit e (co_tick s1),
                     kfree_skb (s1\<lparr>co_tick := Suc (co_tick s1), co_sent := co_sent s1 @ [(ep, frame)]\<rparr>)))))"

definition node_nid :: "u32 \<Rightarrow> core \<Rightarrow> u32" where
  "node_nid n s = (case xa_load (co_node s) n of None \<Rightarrow> 0 | Some nd \<Rightarrow> nd_nid nd)"

definition qrtr_node_enqueue ::
  "core_env \<Rightarrow> core_uapi \<Rightarrow> u32 \<Rightarrow> sk_buff \<Rightarrow> u32 \<Rightarrow> sockaddr_qrtr \<Rightarrow> sockaddr_qrtr \<Rightarrow> core \<Rightarrow> int option \<times> core" where
  "qrtr_node_enqueue e u n skb typ src dst s =
     (case node_wait e u n typ dst s of
        (None, s1) \<Rightarrow> (None, s1\<lparr>co_asleep := Suc (co_asleep s1)\<rparr>)
      | (Some confirm_rx, s1) \<Rightarrow>
          if confirm_rx < 0 then (Some confirm_rx, kfree_skb s1)
          else (case node_xmit e n (tx_frame u (node_nid n s1) typ src dst (sb_data skb) (confirm_rx \<noteq> 0)) s1 of
                  (rc, s2) \<Rightarrow>
                    (Some rc,
                     if rc \<noteq> 0 \<and> confirm_rx \<noteq> 0
                     then upd_node n (\<lambda>nd. nd\<lparr>nd_flows := qrtr_tx_flow_failed (sq_node dst) (sq_port dst) (nd_flows nd)\<rparr>) s2
                     else s2)))"

section \<open>Ports\<close>

definition port_index :: "core_uapi \<Rightarrow> u32 \<Rightarrow> u32" where
  "port_index u port = (if port = ua_ctrl u then 0 else port)"

definition qrtr_port_lookup :: "core_uapi \<Rightarrow> u32 \<Rightarrow> core \<Rightarrow> u32 option \<times> core" where
  "qrtr_port_lookup u port s =
     (case xa_load (co_ports s) (port_index u port) of None \<Rightarrow> (None, s) | Some k \<Rightarrow> (Some k, sock_hold k s))"

definition qrtr_port_put :: "u32 \<Rightarrow> core \<Rightarrow> core" where
  "qrtr_port_put k = sock_put k"

definition empty_cb :: qrtr_cb where
  "empty_cb = \<lparr>cb_src_node = 0, cb_src_port = 0, cb_dst_node = 0, cb_dst_port = 0, cb_type = 0, cb_confirm_rx = False\<rparr>"

definition qrtr_local_enqueue ::
  "core_env \<Rightarrow> core_uapi \<Rightarrow> sk_buff \<Rightarrow> sockaddr_qrtr \<Rightarrow> sockaddr_qrtr \<Rightarrow> core \<Rightarrow> int \<times> core" where
  "qrtr_local_enqueue e u skb src dst s =
     (case qrtr_port_lookup u (sq_port dst) s of
        (None, s1) \<Rightarrow> (- ENODEV, kfree_skb s1)
      | (Some k, s1) \<Rightarrow>
          if sb_sk skb = Some k then (- ENODEV, kfree_skb (qrtr_port_put k s1))
          else (let skb1 = skb\<lparr>sb_cb := (sb_cb skb)\<lparr>cb_src_node := sq_node src, cb_src_port := sq_port src\<rparr>\<rparr> in
                case ask e s1 of (queued, s2) \<Rightarrow>
                if \<not> queued then (- ENOSPC, kfree_skb (qrtr_port_put k s2))
                else (0, qrtr_port_put k (push_skb k skb1 s2))))"

fun bcast_nodes ::
  "core_env \<Rightarrow> core_uapi \<Rightarrow> sk_buff \<Rightarrow> u32 \<Rightarrow> sockaddr_qrtr \<Rightarrow> sockaddr_qrtr \<Rightarrow> u32 list \<Rightarrow> core \<Rightarrow> bool \<times> core" where
  "bcast_nodes e u skb typ src dst [] s = (True, s)"
| "bcast_nodes e u skb typ src dst (n # ns) s =
     (case skb_alloc e s of (got, s1) \<Rightarrow>
      if \<not> got then (True, s1)
      else (case qrtr_node_enqueue e u n skb typ src dst s1 of
              (None, s2) \<Rightarrow> (False, s2)
            | (Some _, s2) \<Rightarrow> bcast_nodes e u skb typ src dst ns s2))"

definition qrtr_bcast_enqueue ::
  "core_env \<Rightarrow> core_uapi \<Rightarrow> sk_buff \<Rightarrow> u32 \<Rightarrow> sockaddr_qrtr \<Rightarrow> sockaddr_qrtr \<Rightarrow> core \<Rightarrow> int option \<times> core" where
  "qrtr_bcast_enqueue e u skb typ src dst s =
     (case bcast_nodes e u skb typ src dst (co_all s) s of
        (False, s1) \<Rightarrow> (None, s1\<lparr>co_asleep := Suc (co_asleep s1)\<rparr>)
      | (True, s1) \<Rightarrow> (Some 0, snd (qrtr_local_enqueue e u skb src dst s1)))"

text \<open>A control packet with the command and the node and port of a client.\<close>

definition client_pkt :: "u32 \<Rightarrow> u32 \<Rightarrow> u32 \<Rightarrow> bytes" where
  "client_pkt cmd node port = put_pkt \<lparr>cp_cmd = cmd, cp_w0 = node, cp_w1 = port, cp_w2 = 0, cp_w3 = 0\<rparr>"

definition qrtr_port_remove :: "core_env \<Rightarrow> core_uapi \<Rightarrow> u32 \<Rightarrow> core \<Rightarrow> core" where
  "qrtr_port_remove e u k s =
     (case xa_load (co_socks s) k of
        None \<Rightarrow> s
      | Some sk \<Rightarrow>
          (let us = sk_us sk;
               dst = \<lparr>sq_node = ua_bcast u, sq_port = ua_ctrl u\<rparr>;
               typ = ua_cmd u CMD_DEL_CLIENT
           in case skb_alloc e s of (got, s1) \<Rightarrow>
              let s2 = (if got
                        then snd (qrtr_bcast_enqueue e u
                               \<lparr>sb_cb = empty_cb, sb_data = client_pkt typ (sq_node us) (sq_port us), sb_sk = Some k\<rparr>
                               typ us dst s1)
                        else s1);
                  s3 = sock_unhold k s2
              in s3\<lparr>co_ports := xa_erase (co_ports s3) (port_index u (sq_port us))\<rparr>))"

text \<open>The lowest free port of the range, as \<open>xa_alloc\<close> gives it.\<close>

definition eph_port :: "u32 xarray \<Rightarrow> u32 option" where
  "eph_port ports =
     map_option word_of_nat
       (find (\<lambda>p. xa_load ports (word_of_nat p) = None) [QRTR_MIN_EPH_SOCKET ..< Suc QRTR_MAX_EPH_SOCKET])"

definition port_insert :: "core_env \<Rightarrow> u32 \<Rightarrow> u32 \<Rightarrow> core \<Rightarrow> int \<times> core" where
  "port_insert e index k s =
     (case ask e s of (got, s1) \<Rightarrow>
      if xa_load (co_ports s1) index \<noteq> None then (- EBUSY, s1)
      else if \<not> got then (- ENOMEM, s1)
      else (0, s1\<lparr>co_ports := xa_store (co_ports s1) index k\<rparr>))"

definition qrtr_port_assign :: "core_env \<Rightarrow> core_uapi \<Rightarrow> u32 \<Rightarrow> u32 \<Rightarrow> core \<Rightarrow> int \<times> u32 \<times> core" where
  "qrtr_port_assign e u k port s =
     (case (if port = 0
            then (case eph_port (co_ports s) of
                    None \<Rightarrow> (- EBUSY, port, s)
                  | Some p \<Rightarrow> (case port_insert e p k s of (rc, s1) \<Rightarrow> (rc, p, s1)))
            else if sint port < int QRTR_MIN_EPH_SOCKET \<and> \<not> ce_admin e then (- EACCES, port, s)
            else (case port_insert e (port_index u port) k s of (rc, s1) \<Rightarrow> (rc, port, s1))) of
        (rc, port1, s1) \<Rightarrow>
          if rc = - EBUSY then (- EADDRINUSE, port1, s1)
          else if rc < 0 then (rc, port1, s1)
          else (0, port1, sock_hold k s1))"

definition set_err :: "int \<Rightarrow> u32 \<Rightarrow> core \<Rightarrow> core" where
  "set_err err k s = sock_put k (upd_sock k (\<lambda>sk. sk\<lparr>sk_err := err\<rparr>) (sock_hold k s))"

definition qrtr_reset_ports :: "core \<Rightarrow> core" where
  "qrtr_reset_ports s = foldl (\<lambda>s k. set_err ENETRESET k s) s (map snd (filter (\<lambda>e. 1 \<le> fst e) (co_ports s)))"

text \<open>\<open>__qrtr_bind\<close>.\<close>

definition qrtr_bind_port :: "core_env \<Rightarrow> core_uapi \<Rightarrow> u32 \<Rightarrow> u32 \<Rightarrow> bool \<Rightarrow> core \<Rightarrow> int \<times> core" where
  "qrtr_bind_port e u k port zapped s =
     (case xa_load (co_socks s) k of
        None \<Rightarrow> (0, s)
      | Some sk \<Rightarrow>
          if \<not> zapped \<and> port = sq_port (sk_us sk) then (0, s)
          else (case qrtr_port_assign e u k port s of (rc, port1, s1) \<Rightarrow>
                if rc \<noteq> 0 then (rc, s1)
                else (let s2 = (if zapped then s1 else qrtr_port_remove e u k s1);
                          s3 = upd_sock k (\<lambda>sk. sk\<lparr>sk_us := (sk_us sk)\<lparr>sq_port := port1\<rparr>, sk_zapped := False\<rparr>) s2
                      in (0, if port1 = ua_ctrl u then qrtr_reset_ports s3 else s3))))"

definition sock_zapped :: "u32 \<Rightarrow> core \<Rightarrow> bool" where
  "sock_zapped k s = (case xa_load (co_socks s) k of None \<Rightarrow> True | Some sk \<Rightarrow> sk_zapped sk)"

definition sock_us :: "u32 \<Rightarrow> core \<Rightarrow> sockaddr_qrtr" where
  "sock_us k s = (case xa_load (co_socks s) k of None \<Rightarrow> \<lparr>sq_node = 0, sq_port = 0\<rparr> | Some sk \<Rightarrow> sk_us sk)"

definition qrtr_autobind :: "core_env \<Rightarrow> core_uapi \<Rightarrow> u32 \<Rightarrow> core \<Rightarrow> int \<times> core" where
  "qrtr_autobind e u k s = (if \<not> sock_zapped k s then (0, s) else qrtr_bind_port e u k 0 True s)"

text \<open>An address as the caller gives it: whether its length and family are right.\<close>

type_synonym user_addr = "bool \<times> sockaddr_qrtr"

definition qrtr_bind :: "core_env \<Rightarrow> core_uapi \<Rightarrow> u32 \<Rightarrow> user_addr \<Rightarrow> core \<Rightarrow> int \<times> core" where
  "qrtr_bind e u k addr s =
     (if \<not> fst addr then (- EINVAL, s)
      else if sq_node (snd addr) \<noteq> sq_node (sock_us k s) then (- EINVAL, s)
      else qrtr_bind_port e u k (sq_port (snd addr)) (sock_zapped k s) s)"

section \<open>Endpoints\<close>

definition cb_cmd :: "qrtr_cb \<Rightarrow> u32" where
  "cb_cmd cb = ucast (cb_type cb)"

definition post_deliver :: "core_env \<Rightarrow> core_uapi \<Rightarrow> u32 \<Rightarrow> qrtr_cb \<Rightarrow> bytes \<Rightarrow> core \<Rightarrow> int \<times> core" where
  "post_deliver e u n cb msg s =
     (let s1 = qrtr_node_assign e u n (cb_src_node cb) s;
          s2 = (if cb_cmd cb = ua_cmd u CMD_NEW_SERVER then qrtr_node_assign e u n (cp_w2 (read_pkt msg)) s1 else s1)
      in if cb_cmd cb = ua_cmd u CMD_RESUME_TX
         then (0, kfree_skb (upd_node n (\<lambda>nd. nd\<lparr>nd_flows := qrtr_tx_resume (read_pkt msg) (nd_flows nd)\<rparr>) s2))
         else (case qrtr_port_lookup u (cb_dst_port cb) s2 of
                 (None, s3) \<Rightarrow> (- EINVAL, kfree_skb s3)
               | (Some k, s3) \<Rightarrow>
                   (case ask e s3 of (queued, s4) \<Rightarrow>
                    if \<not> queued then (- EINVAL, kfree_skb (qrtr_port_put k s4))
                    else (0, qrtr_port_put k (push_skb k \<lparr>sb_cb = cb, sb_data = msg, sb_sk = None\<rparr> s4)))))"

definition qrtr_endpoint_post :: "core_env \<Rightarrow> core_uapi \<Rightarrow> u32 \<Rightarrow> bytes \<Rightarrow> core \<Rightarrow> (int \<times> core) outcome" where
  "qrtr_endpoint_post e u n d s =
     (if length d = 0 \<or> length d mod 4 \<noteq> 0 then Inr (- EINVAL, s)
      else (case skb_alloc e s of (got, s1) \<Rightarrow>
            if \<not> got then Inr (- ENOMEM, s1)
            else bind_outcome (rx_packet u d) (\<lambda>r.
                 case r of None \<Rightarrow> Inr (- EINVAL, kfree_skb s1)
                 | Some (cb, msg) \<Rightarrow> Inr (post_deliver e u n cb msg s1))))"

definition node_fresh :: "u32 \<Rightarrow> core_uapi \<Rightarrow> qrtr_node" where
  "node_fresh ep u = \<lparr>nd_ep = Some ep, nd_ref = 1, nd_nid = ua_auto u, nd_flows = Map.empty\<rparr>"

text \<open>
  \<open>endpoint\<close> is \<open>None\<close> when there is no endpoint or it has no transmit function; \<open>n\<close> is the node
  that \<open>kzalloc\<close> returns.
\<close>

definition qrtr_endpoint_register ::
  "core_env \<Rightarrow> core_uapi \<Rightarrow> u32 option \<Rightarrow> u32 \<Rightarrow> u32 \<Rightarrow> core \<Rightarrow> int \<times> core" where
  "qrtr_endpoint_register e u endpoint nid n s =
     (case endpoint of
        None \<Rightarrow> (- EINVAL, s)
      | Some ep \<Rightarrow>
          (case ask e s of (got, s1) \<Rightarrow>
           if \<not> got then (- ENOMEM, s1)
           else (let s2 = qrtr_node_assign e u n nid (s1\<lparr>co_node := xa_store (co_node s1) n (node_fresh ep u)\<rparr>)
                 in (0, s2\<lparr>co_all := n # co_all s2\<rparr>))))"

fun bye_nodes :: "core_env \<Rightarrow> core_uapi \<Rightarrow> u32 list \<Rightarrow> core \<Rightarrow> core" where
  "bye_nodes e u [] s = s"
| "bye_nodes e u (nid # nids) s =
     (case skb_alloc e s of (got, s1) \<Rightarrow>
      bye_nodes e u nids
        (if got
         then snd (qrtr_local_enqueue e u
                \<lparr>sb_cb = empty_cb, sb_data = client_pkt (ua_cmd u CMD_BYE) 0 0, sb_sk = None\<rparr>
                \<lparr>sq_node = nid, sq_port = ua_ctrl u\<rparr> \<lparr>sq_node = qrtr_local_nid, sq_port = ua_ctrl u\<rparr> s1)
         else s1))"

definition qrtr_endpoint_unregister :: "core_env \<Rightarrow> core_uapi \<Rightarrow> u32 \<Rightarrow> core \<Rightarrow> core" where
  "qrtr_endpoint_unregister e u n s =
     (let s1 = upd_node n (\<lambda>nd. nd\<lparr>nd_ep := None\<rparr>) s;
          s2 = bye_nodes e u (map fst (filter (\<lambda>x. snd x = n) (co_nodes s1))) s1
      in qrtr_node_release (Some n) s2)"

section \<open>Sockets\<close>

definition sock_fresh :: qrtr_sock where
  "sock_fresh =
     \<lparr>sk_zapped = True, sk_us = \<lparr>sq_node = qrtr_local_nid, sq_port = 0\<rparr>, sk_peer = \<lparr>sq_node = 0, sq_port = 0\<rparr>,
      sk_established = False, sk_err = 0, sk_queue = [], sk_refs = 1\<rparr>"

text \<open>\<open>k\<close> is the socket that \<open>sk_alloc\<close> returns.\<close>

definition qrtr_create :: "core_env \<Rightarrow> bool \<Rightarrow> u32 \<Rightarrow> core \<Rightarrow> int \<times> core" where
  "qrtr_create e dgram k s =
     (if \<not> dgram then (- EPROTOTYPE, s)
      else (case ask e s of (got, s1) \<Rightarrow>
            if \<not> got then (- ENOMEM, s1)
            else (0, s1\<lparr>co_socks := xa_store (co_socks s1) k sock_fresh\<rparr>)))"

definition qrtr_release :: "core_env \<Rightarrow> core_uapi \<Rightarrow> u32 \<Rightarrow> core \<Rightarrow> int \<times> core" where
  "qrtr_release e u k s =
     (let s1 = (if \<not> sock_zapped k s then qrtr_port_remove e u k s else s);
          queued = (case xa_load (co_socks s1) k of None \<Rightarrow> 0 | Some sk \<Rightarrow> length (sk_queue sk));
          s2 = upd_sock k (\<lambda>sk. sk\<lparr>sk_queue := []\<rparr>) (s1\<lparr>co_live := co_live s1 - queued\<rparr>)
      in (0, sock_put k s2))"

definition qrtr_connect :: "core_env \<Rightarrow> core_uapi \<Rightarrow> u32 \<Rightarrow> user_addr \<Rightarrow> core \<Rightarrow> int \<times> core" where
  "qrtr_connect e u k addr s =
     (if \<not> fst addr then (- EINVAL, s)
      else (case qrtr_autobind e u k (upd_sock k (\<lambda>sk. sk\<lparr>sk_established := False\<rparr>) s) of (rc, s1) \<Rightarrow>
            if rc \<noteq> 0 then (rc, s1)
            else (0, upd_sock k (\<lambda>sk. sk\<lparr>sk_peer := snd addr, sk_established := True\<rparr>) s1)))"

definition qrtr_getname :: "u32 \<Rightarrow> bool \<Rightarrow> core \<Rightarrow> int + sockaddr_qrtr" where
  "qrtr_getname k peer s =
     (case xa_load (co_socks s) k of
        None \<Rightarrow> Inl (- ENOTCONN)
      | Some sk \<Rightarrow> if peer then (if \<not> sk_established sk then Inl (- ENOTCONN) else Inr (sk_peer sk)) else Inr (sk_us sk))"

text \<open>
  Where a message goes: to every node, to a socket of this node, or to the node that the
  address names.
\<close>

datatype enqueue_fn = Bcast_enqueue | Local_enqueue | Node_enqueue u32

definition send_route :: "core_uapi \<Rightarrow> u32 \<Rightarrow> sockaddr_qrtr \<Rightarrow> core \<Rightarrow> (int + enqueue_fn) \<times> core" where
  "send_route u k addr s =
     (if sq_node addr = ua_bcast u
      then (if sq_port addr \<noteq> ua_ctrl u \<and> qrtr_local_nid \<noteq> ua_bcast u then (Inl (- ENOTCONN), s) else (Inr Bcast_enqueue, s))
      else if sq_node addr = sq_node (sock_us k s) then (Inr Local_enqueue, s)
      else (case qrtr_node_lookup (sq_node addr) s of
              (None, s1) \<Rightarrow> (Inl (- ECONNRESET), s1)
            | (Some n, s1) \<Rightarrow> (Inr (Node_enqueue n), s1)))"

definition route_node :: "enqueue_fn \<Rightarrow> u32 option" where
  "route_node fn = (case fn of Node_enqueue n \<Rightarrow> Some n | _ \<Rightarrow> None)"

definition run_enqueue ::
  "core_env \<Rightarrow> core_uapi \<Rightarrow> enqueue_fn \<Rightarrow> sk_buff \<Rightarrow> u32 \<Rightarrow> sockaddr_qrtr \<Rightarrow> sockaddr_qrtr \<Rightarrow> core \<Rightarrow> int option \<times> core" where
  "run_enqueue e u fn skb typ src dst s =
     (case fn of
        Bcast_enqueue \<Rightarrow> qrtr_bcast_enqueue e u skb typ src dst s
      | Local_enqueue \<Rightarrow> (case qrtr_local_enqueue e u skb src dst s of (rc, s1) \<Rightarrow> (Some rc, s1))
      | Node_enqueue n \<Rightarrow> qrtr_node_enqueue e u n skb typ src dst s)"

text \<open>From the allocation of the packet to the end; \<open>None\<close> when the sender sleeps.\<close>

definition send_packet ::
  "core_env \<Rightarrow> core_uapi \<Rightarrow> u32 \<Rightarrow> enqueue_fn \<Rightarrow> sockaddr_qrtr \<Rightarrow> bytes \<Rightarrow> core \<Rightarrow> int option \<times> core" where
  "send_packet e u k fn dst msg s =
     (case skb_alloc e s of (got, s1) \<Rightarrow>
      if \<not> got then (Some (- ENOMEM), qrtr_node_release (route_node fn) s1)
      else (case ask e s1 of (copied, s2) \<Rightarrow>
      if \<not> copied then (Some (- EFAULT), qrtr_node_release (route_node fn) (kfree_skb s2))
      else (let us = sock_us k s2 in
      if sq_port us = ua_ctrl u \<and> length msg < 4 then (Some (- EINVAL), qrtr_node_release (route_node fn) (kfree_skb s2))
      else (let typ = (if sq_port us = ua_ctrl u then le32 msg 0 else ua_data u) in
      case run_enqueue e u fn \<lparr>sb_cb = empty_cb, sb_data = msg, sb_sk = Some k\<rparr> typ us dst s2 of
        (None, s3) \<Rightarrow> (None, s3)
      | (Some rc, s3) \<Rightarrow>
          (Some (if 0 \<le> rc then int (length msg) else rc), qrtr_node_release (route_node fn) s3)))))"

definition send_to :: "core_env \<Rightarrow> core_uapi \<Rightarrow> u32 \<Rightarrow> sockaddr_qrtr \<Rightarrow> bytes \<Rightarrow> core \<Rightarrow> int option \<times> core" where
  "send_to e u k addr msg s =
     (case send_route u k addr s of
        (Inl err, s1) \<Rightarrow> (Some err, s1)
      | (Inr fn, s1) \<Rightarrow> send_packet e u k fn addr msg s1)"

definition qrtr_sendmsg ::
  "core_env \<Rightarrow> core_uapi \<Rightarrow> u32 \<Rightarrow> bool \<Rightarrow> user_addr option \<Rightarrow> bytes \<Rightarrow> core \<Rightarrow> int option \<times> core" where
  "qrtr_sendmsg e u k flags_ok name msg s =
     (if \<not> flags_ok then (Some (- EINVAL), s)
      else if 65535 < length msg then (Some (- EMSGSIZE), s)
      else (case name of
              Some (valid, addr) \<Rightarrow>
                if \<not> valid then (Some (- EINVAL), s)
                else (case qrtr_autobind e u k s of (rc, s1) \<Rightarrow>
                      if rc \<noteq> 0 then (Some rc, s1) else send_to e u k addr msg s1)
            | None \<Rightarrow>
                (case xa_load (co_socks s) k of
                   None \<Rightarrow> (Some (- ENOTCONN), s)
                 | Some sk \<Rightarrow> if sk_established sk then send_to e u k (sk_peer sk) msg s else (Some (- ENOTCONN), s))))"

definition qrtr_send_resume_tx :: "core_env \<Rightarrow> core_uapi \<Rightarrow> qrtr_cb \<Rightarrow> core \<Rightarrow> int option \<times> core" where
  "qrtr_send_resume_tx e u cb s =
     (let remote = \<lparr>sq_node = cb_src_node cb, sq_port = cb_src_port cb\<rparr>;
          local = \<lparr>sq_node = cb_dst_node cb, sq_port = cb_dst_port cb\<rparr>;
          typ = ua_cmd u CMD_RESUME_TX
      in case qrtr_node_lookup (sq_node remote) s of
           (None, s1) \<Rightarrow> (Some (- EINVAL), s1)
         | (Some n, s1) \<Rightarrow>
             (case skb_alloc e s1 of (got, s2) \<Rightarrow>
              if \<not> got then (Some (- ENOMEM), s2)
              else (case qrtr_node_enqueue e u n
                          \<lparr>sb_cb = empty_cb, sb_data = client_pkt typ (cb_dst_node cb) (cb_dst_port cb), sb_sk = None\<rparr>
                          typ local remote s2 of
                      (None, s3) \<Rightarrow> (None, s3)
                    | (Some ret, s3) \<Rightarrow> (Some ret, qrtr_node_release (Some n) s3))))"

text \<open>
  \<open>skb_recv_datagram\<close>: a pending error of the socket first, then the first packet, which stays
  in the queue when it is only peeked at, else the result of waiting, \<open>nodata\<close>.
\<close>

definition recv_datagram :: "u32 \<Rightarrow> bool \<Rightarrow> int \<Rightarrow> core \<Rightarrow> (int + sk_buff) \<times> core" where
  "recv_datagram k peek nodata s =
     (case xa_load (co_socks s) k of
        None \<Rightarrow> (Inl nodata, s)
      | Some sk \<Rightarrow>
          if sk_err sk \<noteq> 0 then (Inl (- sk_err sk), upd_sock k (\<lambda>sk. sk\<lparr>sk_err := 0\<rparr>) s)
          else (case sk_queue sk of
                  [] \<Rightarrow> (Inl nodata, s)
                | skb # q \<Rightarrow> (Inr skb, if peek then s else upd_sock k (\<lambda>sk. sk\<lparr>sk_queue := q\<rparr>) s)))"

record received =
  rv_rc :: int
  rv_data :: bytes
  rv_from :: "sockaddr_qrtr option"
  rv_trunc :: bool

definition recv_failed :: "int \<Rightarrow> received" where
  "recv_failed rc = \<lparr>rv_rc = rc, rv_data = [], rv_from = None, rv_trunc = False\<rparr>"

definition qrtr_recvmsg :: "core_env \<Rightarrow> core_uapi \<Rightarrow> u32 \<Rightarrow> nat \<Rightarrow> bool \<Rightarrow> int \<Rightarrow> core \<Rightarrow> received \<times> core" where
  "qrtr_recvmsg e u k sz peek nodata s =
     (if sock_zapped k s then (recv_failed (- EADDRNOTAVAIL), s)
      else (case recv_datagram k peek nodata s of
              (Inl rc, s1) \<Rightarrow> (recv_failed rc, s1)
            | (Inr skb, s1) \<Rightarrow>
                (let cb = sb_cb skb;
                     copied = min (length (sb_data skb)) sz;
                     trunc = (sz < length (sb_data skb))
                 in case ask e s1 of (ok, s2) \<Rightarrow>
                    let res = (if ok
                               then \<lparr>rv_rc = int copied, rv_data = take copied (sb_data skb),
                                     rv_from = Some \<lparr>sq_node = cb_src_node cb, sq_port = cb_src_port cb\<rparr>, rv_trunc = trunc\<rparr>
                               else \<lparr>rv_rc = - EFAULT, rv_data = [], rv_from = None, rv_trunc = trunc\<rparr>);
                        s3 = (if cb_confirm_rx cb then snd (qrtr_send_resume_tx e u cb s2) else s2)
                    in (res, if peek then s3 else kfree_skb s3))))"

datatype ioctl_cmd = TIOCOUTQ | TIOCINQ | SIOCGIFADDR | SIOC_rejected | Ioctl_other

datatype ioctl_value = No_value | Number int | Address sockaddr_qrtr

text \<open>\<open>space\<close> is the send buffer less what is allocated, \<open>user_ok\<close> whether the user memory is accessible.\<close>

definition qrtr_ioctl :: "ioctl_cmd \<Rightarrow> int \<Rightarrow> bool \<Rightarrow> u32 \<Rightarrow> core \<Rightarrow> int \<times> ioctl_value" where
  "qrtr_ioctl cmd space user_ok k s =
     (case xa_load (co_socks s) k of
        None \<Rightarrow> (0, No_value)
      | Some sk \<Rightarrow>
          (case cmd of
             TIOCOUTQ \<Rightarrow> if user_ok then (0, Number (max space 0)) else (- EFAULT, No_value)
           | TIOCINQ \<Rightarrow>
               (let len = (case sk_queue sk of [] \<Rightarrow> 0 | skb # _ \<Rightarrow> int (length (sb_data skb)))
                in if user_ok then (0, Number len) else (- EFAULT, No_value))
           | SIOCGIFADDR \<Rightarrow> if user_ok then (0, Address (sk_us sk)) else (- EFAULT, No_value)
           | SIOC_rejected \<Rightarrow> (- EINVAL, No_value)
           | Ioctl_other \<Rightarrow> (- ENOIOCTLCMD, No_value)))"

end
