(* ===== verification/Qrtr_Core_Props.thy ===== *)
theory Qrtr_Core_Props
  imports Qrtr_Core
begin

text \<open>
  The invariant of the socket layer and its consequences: the port table and the bound sockets
  name each other, every entry of the node table is a live node, no packet buffer is lost, and
  the operations keep all this. Then the way of a message from one node to a socket of another.
\<close>

section \<open>Invariant\<close>

definition flows_ok :: "tx_flows \<Rightarrow> bool" where
  "flows_ok flows \<longleftrightarrow> (\<forall>key f. flows key = Some f \<longrightarrow> 0 \<le> fl_pending f \<and> fl_pending f \<le> QRTR_TX_FLOW_HIGH)"

definition queued :: "qrtr_sock xarray \<Rightarrow> nat" where
  "queued = xa_total (\<lambda>sk. length (sk_queue sk))"

text \<open>
  What holds at every moment, inside the operations as well; \<open>d\<close> packets are in the hands of the
  running operation.
\<close>

definition table_inv :: "core \<Rightarrow> bool" where
  "table_inv s \<longleftrightarrow> xa_ok (co_socks s) \<and> xa_ok (co_ports s) \<and>
     (\<forall>p k. xa_load (co_ports s) p = Some k \<longrightarrow> (\<exists>sk. xa_load (co_socks s) k = Some sk \<and> 0 < sk_refs sk))"

definition node_inv :: "core \<Rightarrow> bool" where
  "node_inv s \<longleftrightarrow> xa_ok (co_node s) \<and> xa_ok (co_nodes s) \<and>
     (\<forall>nid n. xa_load (co_nodes s) nid = Some n \<longrightarrow> xa_load (co_node s) n \<noteq> None) \<and>
     (\<forall>n nd. xa_load (co_node s) n = Some nd \<longrightarrow> 0 < nd_ref nd \<and> flows_ok (nd_flows nd))"

definition live_inv :: "nat \<Rightarrow> core \<Rightarrow> bool" where
  "live_inv d s \<longleftrightarrow> co_live s = co_asleep s + queued (co_socks s) + d"

definition base_inv :: "nat \<Rightarrow> core \<Rightarrow> bool" where
  "base_inv d s \<longleftrightarrow> table_inv s \<and> node_inv s \<and> live_inv d s"

text \<open>What holds between operations.\<close>

definition bound_inv :: "core_uapi \<Rightarrow> core \<Rightarrow> bool" where
  "bound_inv u s \<longleftrightarrow>
     (\<forall>k sk. xa_load (co_socks s) k = Some sk \<longrightarrow>
        sk_refs sk = (if sk_zapped sk then 1 else 2) \<and>
        (\<forall>p. xa_load (co_ports s) p = Some k \<longleftrightarrow> \<not> sk_zapped sk \<and> p = port_index u (sq_port (sk_us sk))))"

definition all_inv :: "core \<Rightarrow> bool" where
  "all_inv s \<longleftrightarrow> distinct (co_all s) \<and> (\<forall>n. n \<in> set (co_all s) \<longleftrightarrow> xa_load (co_node s) n \<noteq> None)"

definition core_inv :: "core_uapi \<Rightarrow> core \<Rightarrow> bool" where
  "core_inv u s \<longleftrightarrow> base_inv 0 s \<and> bound_inv u s \<and> all_inv s"

text \<open>Two states that differ only in queues, flows, counters and what was sent.\<close>

definition sock_meta :: "qrtr_sock \<Rightarrow> qrtr_sock" where
  "sock_meta sk = sk\<lparr>sk_queue := []\<rparr>"

definition node_meta :: "qrtr_node \<Rightarrow> qrtr_node" where
  "node_meta nd = nd\<lparr>nd_flows := Map.empty\<rparr>"

definition same_socks :: "core \<Rightarrow> core \<Rightarrow> bool" where
  "same_socks s s' \<longleftrightarrow> co_ports s' = co_ports s \<and>
     (\<forall>k. map_option sock_meta (xa_load (co_socks s') k) = map_option sock_meta (xa_load (co_socks s) k))"

definition same_nodes :: "core \<Rightarrow> core \<Rightarrow> bool" where
  "same_nodes s s' \<longleftrightarrow> co_nodes s' = co_nodes s \<and> co_all s' = co_all s \<and>
     (\<forall>n. map_option node_meta (xa_load (co_node s') n) = map_option node_meta (xa_load (co_node s) n))"

definition same :: "core \<Rightarrow> core \<Rightarrow> bool" where
  "same s s' \<longleftrightarrow> same_socks s s' \<and> same_nodes s s'"

lemma same_refl: "same s s"
  by (simp add: same_def same_socks_def same_nodes_def)

lemma same_trans [trans]: "same s s' \<Longrightarrow> same s' s'' \<Longrightarrow> same s s''"
  by (simp add: same_def same_socks_def same_nodes_def)

lemma same_fields:
  "co_socks s' = co_socks s \<Longrightarrow> co_ports s' = co_ports s \<Longrightarrow> co_node s' = co_node s \<Longrightarrow> co_nodes s' = co_nodes s \<Longrightarrow>
   co_all s' = co_all s \<Longrightarrow> same s s'"
  by (simp add: same_def same_socks_def same_nodes_def)

lemma same_bound:
  assumes "same_socks s s'" and "bound_inv u s"
  shows "bound_inv u s'"
  unfolding bound_inv_def
proof (intro allI impI)
  fix k sk'
  assume "xa_load (co_socks s') k = Some sk'"
  then have "map_option sock_meta (xa_load (co_socks s) k) = Some (sock_meta sk')"
    using assms(1) unfolding same_socks_def by (metis option.map(2))
  then obtain sk where sk: "xa_load (co_socks s) k = Some sk" "sock_meta sk = sock_meta sk'"
    by auto
  then have "sk_refs sk' = sk_refs sk" "sk_zapped sk' = sk_zapped sk" "sk_us sk' = sk_us sk"
    by (cases sk; cases sk'; simp add: sock_meta_def)+
  with assms sk(1) show "sk_refs sk' = (if sk_zapped sk' then 1 else 2) \<and>
      (\<forall>p. xa_load (co_ports s') p = Some k \<longleftrightarrow> \<not> sk_zapped sk' \<and> p = port_index u (sq_port (sk_us sk')))"
    by (simp add: bound_inv_def same_socks_def)
qed

lemma same_all: "same_nodes s s' \<Longrightarrow> all_inv s \<Longrightarrow> all_inv s'"
  unfolding all_inv_def same_nodes_def by (metis option.map_disc_iff)

lemma core_inv_same: "core_inv u s \<Longrightarrow> same s s' \<Longrightarrow> base_inv 0 s' \<Longrightarrow> core_inv u s'"
  unfolding core_inv_def same_def using same_bound same_all by blast

section \<open>Primitive steps\<close>

text \<open>A step takes \<open>d\<close> packets in hand to \<open>d'\<close> and changes neither sockets nor nodes otherwise.\<close>

definition moves :: "nat \<Rightarrow> core \<Rightarrow> nat \<Rightarrow> core \<Rightarrow> bool" where
  "moves d s d' s' \<longleftrightarrow> (base_inv d s \<longrightarrow> base_inv d' s' \<and> same s s')"

named_theorems moves_intros

lemma moves_refl: "moves d s d s"
  by (simp add: moves_def same_refl)

lemma moves_trans [trans]: "moves d s d' s' \<Longrightarrow> moves d' s' d'' s'' \<Longrightarrow> moves d s d'' s''"
  by (auto simp: moves_def intro: same_trans)

lemma moves_fields:
  assumes "co_socks s' = co_socks s" "co_ports s' = co_ports s" "co_node s' = co_node s" "co_nodes s' = co_nodes s"
    "co_all s' = co_all s" and "co_live s' + co_asleep s + d = co_live s + co_asleep s' + d'"
  shows "moves d s d' s'"
  using assms same_fields [of s' s]
  by (simp add: moves_def base_inv_def table_inv_def node_inv_def live_inv_def)

lemma moves_tick: "moves d s d (s\<lparr>co_tick := t\<rparr>)"
  by (rule moves_fields) simp_all

lemma moves_ask: "ask e s = (b, s') \<Longrightarrow> moves d s d s'"
  by (auto simp: ask_def intro: moves_tick)

lemma moves_alloc: "skb_alloc e s = (got, s') \<Longrightarrow> moves d s (if got then Suc d else d) s'"
  by (rule moves_fields) (auto simp: skb_alloc_def ask_def)

lemma moves_asleep: "moves (Suc d) s d (s\<lparr>co_asleep := Suc (co_asleep s)\<rparr>)"
  by (rule moves_fields) simp_all

lemma moves_free: "moves (Suc d) s d (kfree_skb s)"
  by (auto simp: moves_def base_inv_def table_inv_def node_inv_def live_inv_def kfree_skb_def same_fields)

lemma upd_sock_some:
  "xa_load (co_socks s) k = Some sk \<Longrightarrow> upd_sock k f s = s\<lparr>co_socks := xa_store (co_socks s) k (f sk)\<rparr>"
  by (simp add: upd_sock_def)

lemma upd_node_some:
  "xa_load (co_node s) n = Some nd \<Longrightarrow> upd_node n f s = s\<lparr>co_node := xa_store (co_node s) n (f nd)\<rparr>"
  by (simp add: upd_node_def)

lemma queued_store:
  "xa_ok t \<Longrightarrow> xa_load t k = Some sk \<Longrightarrow> queued (xa_store t k v) + length (sk_queue sk) = queued t + length (sk_queue v)"
  using xa_total_store [of t "\<lambda>sk. length (sk_queue sk)" k v] by (simp add: queued_def)

lemma table_inv_upd_sock:
  assumes "table_inv s" and "\<And>sk. 0 < sk_refs sk \<Longrightarrow> 0 < sk_refs (f sk)"
  shows "table_inv (upd_sock k f s)"
proof (cases "xa_load (co_socks s) k")
  case None
  with assms(1) show ?thesis by (simp add: upd_sock_def)
next
  case (Some sk)
  show ?thesis
    using assms(1) assms(2) [of sk] Some
    by (fastforce simp: table_inv_def upd_sock_some xa.ok_store xa.load_store)
qed

lemma moves_push:
  assumes "xa_load (co_socks s) k = Some sk"
  shows "moves (Suc d) s d (push_skb k skb s)"
  unfolding moves_def
proof
  assume inv: "base_inv (Suc d) s"
  then have ok: "xa_ok (co_socks s)"
    by (simp add: base_inv_def table_inv_def)
  have "same s (push_skb k skb s)"
    using assms ok
    by (simp add: push_skb_def upd_sock_some same_def same_socks_def same_nodes_def xa.load_store sock_meta_def)
  moreover have "base_inv d (push_skb k skb s)"
    using inv queued_store [OF ok assms, of "sk\<lparr>sk_queue := sk_queue sk @ [skb]\<rparr>"]
    unfolding base_inv_def push_skb_def
    by (simp add: table_inv_upd_sock) (simp add: assms upd_sock_some node_inv_def live_inv_def)
  ultimately show "base_inv d (push_skb k skb s) \<and> same s (push_skb k skb s)"
    by simp
qed

lemma moves_flows:
  assumes "\<And>nd. xa_load (co_node s) n = Some nd \<Longrightarrow> flows_ok (nd_flows nd) \<Longrightarrow> flows_ok (f (nd_flows nd))"
  shows "moves d s d (upd_node n (\<lambda>nd. nd\<lparr>nd_flows := f (nd_flows nd)\<rparr>) s)"
proof (cases "xa_load (co_node s) n")
  case None
  then show ?thesis by (simp add: upd_node_def moves_refl)
next
  case (Some nd)
  then show ?thesis
    using assms [OF Some]
    by (auto simp: moves_def upd_node_some same_def same_socks_def same_nodes_def base_inv_def table_inv_def node_inv_def
        live_inv_def xa.load_store xa.ok_store node_meta_def)
qed

lemma flows_ok_wait:
  "flows_ok flows \<Longrightarrow> qrtr_tx_wait u mem sig ep n p typ flows = (c, flows') \<Longrightarrow> flows_ok flows'"
  by (auto simp: flows_ok_def qrtr_tx_wait_def tx_admit_def flow_new_def Let_def QRTR_TX_FLOW_HIGH_def
      QRTR_TX_FLOW_LOW_def split: if_splits option.splits)

lemma flows_ok_resume: "flows_ok flows \<Longrightarrow> flows_ok (qrtr_tx_resume pkt flows)"
  by (auto simp: flows_ok_def qrtr_tx_resume_def tx_resumed_def Let_def QRTR_TX_FLOW_HIGH_def split: option.splits)

lemma flows_ok_failed: "flows_ok flows \<Longrightarrow> flows_ok (qrtr_tx_flow_failed n p flows)"
  by (auto simp: flows_ok_def qrtr_tx_flow_failed_def tx_lost_def Let_def split: option.splits)

section \<open>Handing packets on\<close>

lemma moves_wait:
  assumes "node_wait e u n typ dst s = (c, s')"
  shows "moves d s d s'"
proof (cases "xa_load (co_node s) n")
  case None
  with assms show ?thesis by (simp add: node_wait_def moves_refl)
next
  case (Some nd)
  obtain c0 flows where w: "qrtr_tx_wait u (ce_ok e (co_tick s)) (ce_signal e (co_tick s)) (nd_ep nd \<noteq> None)
      (sq_node dst) (sq_port dst) typ (nd_flows nd) = (c0, flows)"
    by fastforce
  have "moves d (s\<lparr>co_tick := Suc (co_tick s)\<rparr>) d
      (upd_node n (\<lambda>nd. nd\<lparr>nd_flows := (\<lambda>_. flows) (nd_flows nd)\<rparr>) (s\<lparr>co_tick := Suc (co_tick s)\<rparr>))"
    by (rule moves_flows) (use Some w flows_ok_wait in auto)
  with assms Some w show ?thesis
    by (auto simp: node_wait_def intro: moves_trans [OF moves_tick])
qed

lemma moves_xmit:
  assumes "node_xmit e n frame s = (rc, s')"
  shows "moves (Suc d) s d s'"
proof -
  obtain b s1 where a: "ask e s = (b, s1)"
    by fastforce
  have "\<exists>s2. s' = kfree_skb s2 \<and> moves (Suc d) s1 (Suc d) s2"
    using assms a moves_refl moves_fields [of _ s1 "Suc d" "Suc d"]
    by (auto simp: node_xmit_def split: if_splits option.splits)
  then show ?thesis
    using moves_trans [OF moves_ask [OF a] moves_trans [OF _ moves_free]] by blast
qed

lemma moves_node_enqueue:
  assumes "qrtr_node_enqueue e u n skb typ src dst s = (rc, s')"
  shows "moves (Suc d) s d s'"
proof -
  obtain c s1 where w: "node_wait e u n typ dst s = (c, s1)"
    by fastforce
  have "moves (Suc d) s1 d s'"
  proof (cases c)
    case None
    with assms w show ?thesis by (auto simp: qrtr_node_enqueue_def moves_asleep)
  next
    case (Some confirm)
    obtain r s2 where x: "node_xmit e n (tx_frame u (node_nid n s1) typ src dst (sb_data skb) (confirm \<noteq> 0)) s1 = (r, s2)"
      by fastforce
    show ?thesis
      using assms w x Some moves_free moves_xmit [OF x] moves_trans [OF moves_xmit [OF x] moves_flows]
      by (auto simp: qrtr_node_enqueue_def flows_ok_failed split: if_splits)
  qed
  then show ?thesis
    using moves_trans [OF moves_wait [OF w]] by blast
qed

text \<open>Looking a port up and putting it back leaves the count of the socket as it was.\<close>

lemma put_hold:
  assumes "table_inv s" and "xa_load (co_ports s) p = Some k"
  shows "sock_put k ((sock_hold k s)\<lparr>co_tick := t\<rparr>) = s\<lparr>co_tick := t\<rparr>"
    and "sock_put k (push_skb k skb ((sock_hold k s)\<lparr>co_tick := t\<rparr>)) = push_skb k skb (s\<lparr>co_tick := t\<rparr>)"
    and "sock_put k (sock_hold k s) = s"
proof -
  obtain sk where sk: "xa_load (co_socks s) k = Some sk" "0 < sk_refs sk" and ok: "xa_ok (co_socks s)"
    using assms by (auto simp: table_inv_def)
  have "xa_store (co_socks s) k (sk\<lparr>sk_refs := sk_refs sk\<rparr>) = co_socks s"
    using sk ok by (simp add: xa_store_same)
  with sk ok show "sock_put k ((sock_hold k s)\<lparr>co_tick := t\<rparr>) = s\<lparr>co_tick := t\<rparr>"
    "sock_put k (push_skb k skb ((sock_hold k s)\<lparr>co_tick := t\<rparr>)) = push_skb k skb (s\<lparr>co_tick := t\<rparr>)"
    "sock_put k (sock_hold k s) = s"
    by (simp_all add: sock_put_def sock_hold_def sock_unhold_def push_skb_def upd_sock_def xa.load_store xa_store_store)
qed

lemma hold_tick: "co_tick (sock_hold k s) = co_tick s"
  by (simp add: sock_hold_def upd_sock_def split: option.split)

lemma local_enqueue_cases:
  assumes inv: "table_inv s" and "qrtr_local_enqueue e u skb src dst s = (rc, s')"
  shows "(\<exists>t. s' = kfree_skb (s\<lparr>co_tick := t\<rparr>) \<and> rc < 0) \<or>
    (\<exists>k t. rc = 0 \<and> xa_load (co_ports s) (port_index u (sq_port dst)) = Some k \<and> sb_sk skb \<noteq> Some k \<and>
       s' = push_skb k (skb\<lparr>sb_cb := (sb_cb skb)\<lparr>cb_src_node := sq_node src, cb_src_port := sq_port src\<rparr>\<rparr>) (s\<lparr>co_tick := t\<rparr>))"
proof (cases "xa_load (co_ports s) (port_index u (sq_port dst))")
  case None
  then have "s' = kfree_skb (s\<lparr>co_tick := co_tick s\<rparr>) \<and> rc < 0"
    using assms(2) by (simp add: qrtr_local_enqueue_def qrtr_port_lookup_def)
  then show ?thesis by blast
next
  case (Some k)
  have l: "qrtr_port_lookup u (sq_port dst) s = (Some k, sock_hold k s)"
    using Some by (simp add: qrtr_port_lookup_def)
  consider "sb_sk skb = Some k" | "sb_sk skb \<noteq> Some k" "\<not> ce_ok e (co_tick s)" | "sb_sk skb \<noteq> Some k" "ce_ok e (co_tick s)"
    by blast
  then show ?thesis
  proof cases
    case 1
    then have "s' = kfree_skb (s\<lparr>co_tick := co_tick s\<rparr>) \<and> rc < 0"
      using assms(2) l put_hold(3) [OF inv Some] by (simp add: qrtr_local_enqueue_def qrtr_port_put_def)
    then show ?thesis by blast
  next
    case 2
    then have "s' = kfree_skb (s\<lparr>co_tick := Suc (co_tick s)\<rparr>) \<and> rc < 0"
      using assms(2) l hold_tick put_hold(1) [OF inv Some] by (auto simp: qrtr_local_enqueue_def qrtr_port_put_def ask_def)
    then show ?thesis by blast
  next
    case 3
    then show ?thesis
      using assms(2) l hold_tick put_hold(2) [OF inv Some] Some by (auto simp: qrtr_local_enqueue_def qrtr_port_put_def ask_def)
  qed
qed

lemma moves_local_enqueue:
  assumes "qrtr_local_enqueue e u skb src dst s = (rc, s')"
  shows "moves (Suc d) s d s'"
proof (cases "base_inv (Suc d) s")
  case True
  then have t: "table_inv s"
    by (simp add: base_inv_def)
  from local_enqueue_cases [OF this assms] show ?thesis
  proof (elim disjE exE conjE)
    fix n
    assume "s' = kfree_skb (s\<lparr>co_tick := n\<rparr>)"
    then show ?thesis using moves_trans [OF moves_tick moves_free] by simp
  next
    fix k n
    assume k: "xa_load (co_ports s) (port_index u (sq_port dst)) = Some k"
      and s': "s' = push_skb k (skb\<lparr>sb_cb := (sb_cb skb)\<lparr>cb_src_node := sq_node src, cb_src_port := sq_port src\<rparr>\<rparr>) (s\<lparr>co_tick := n\<rparr>)"
    obtain sk where "xa_load (co_socks (s\<lparr>co_tick := n\<rparr>)) k = Some sk"
      using t k by (auto simp: table_inv_def)
    then show ?thesis
      unfolding s' by (rule moves_trans [OF moves_tick moves_push])
  qed
qed (simp add: moves_def)

lemma moves_bcast_nodes:
  "bcast_nodes e u skb typ src dst ns s = (b, s') \<Longrightarrow> moves d s d s'"
proof (induction ns arbitrary: s)
  case Nil
  then show ?case by (simp add: moves_refl)
next
  case (Cons n ns)
  obtain got s1 where a: "skb_alloc e s = (got, s1)"
    by fastforce
  obtain rc s2 where q: "qrtr_node_enqueue e u n skb typ src dst s1 = (rc, s2)"
    by fastforce
  have "moves d s d s2" if got
    using moves_trans [OF moves_alloc [OF a, of d]] moves_node_enqueue [OF q, of d] that by simp
  moreover have "moves d s d s1" if "\<not> got"
    using moves_alloc [OF a, of d] that by simp
  ultimately show ?case
    using Cons a q by (auto split: if_splits option.splits intro: moves_trans)
qed

lemma moves_bcast_enqueue:
  assumes "qrtr_bcast_enqueue e u skb typ src dst s = (rc, s')"
  shows "moves (Suc d) s d s'"
proof -
  obtain b s1 where b: "bcast_nodes e u skb typ src dst (co_all s) s = (b, s1)"
    by fastforce
  obtain rc' s2 where l: "qrtr_local_enqueue e u skb src dst s1 = (rc', s2)"
    by fastforce
  have "moves (Suc d) s1 d s'"
    using assms b l moves_asleep moves_local_enqueue [OF l] by (cases b) (auto simp: qrtr_bcast_enqueue_def)
  then show ?thesis
    using moves_trans [OF moves_bcast_nodes [OF b]] by blast
qed

lemma moves_bcast_new:
  assumes "skb_alloc e s = (got, s1)"
  shows "moves d s d (if got then snd (qrtr_bcast_enqueue e u skb typ src dst s1) else s1)"
  using moves_alloc [OF assms, of d] moves_bcast_enqueue [OF surjective_pairing, of d s1 e u skb "typ" src dst]
  by (auto intro: moves_trans)

section \<open>Nodes\<close>

text \<open>A step that may also change the nodes.\<close>

definition keeps :: "nat \<Rightarrow> core \<Rightarrow> nat \<Rightarrow> core \<Rightarrow> bool" where
  "keeps d s d' s' \<longleftrightarrow> (base_inv d s \<longrightarrow> base_inv d' s' \<and> same_socks s s' \<and> (all_inv s \<longrightarrow> all_inv s'))"

lemma keeps_moves: "moves d s d' s' \<Longrightarrow> keeps d s d' s'"
  by (auto simp: moves_def keeps_def same_def intro: same_all)

lemma keeps_trans [trans]: "keeps d s d' s' \<Longrightarrow> keeps d' s' d'' s'' \<Longrightarrow> keeps d s d'' s''"
  by (auto simp: keeps_def same_socks_def)

lemma keeps_core: "keeps 0 s 0 s' \<Longrightarrow> core_inv u s \<Longrightarrow> core_inv u s'"
  by (auto simp: keeps_def core_inv_def intro: same_bound)

lemma keeps_upd_node:
  assumes "\<And>nd. 0 < nd_ref nd \<Longrightarrow> 0 < nd_ref (f nd) \<and> nd_flows (f nd) = nd_flows nd"
  shows "keeps d s d (upd_node n f s)"
proof (cases "xa_load (co_node s) n")
  case None
  then show ?thesis by (simp add: upd_node_def keeps_def same_socks_def)
next
  case (Some nd)
  then show ?thesis
    using assms [of nd]
    by (auto simp: keeps_def upd_node_some same_socks_def base_inv_def table_inv_def node_inv_def live_inv_def all_inv_def
        xa.load_store xa.ok_store)
qed

lemma keeps_acquire: "keeps d s d (qrtr_node_acquire n s)"
  unfolding qrtr_node_acquire_def by (rule keeps_upd_node) simp

lemma keeps_node_free: "keeps d s d (qrtr_node_free n s)"
  unfolding keeps_def
proof (intro impI conjI)
  assume inv: "base_inv d s"
  then have ok: "xa_ok (co_node s)" "xa_ok (co_nodes s)"
    by (simp_all add: base_inv_def node_inv_def)
  have load: "xa_load (filter (\<lambda>e. snd e \<noteq> n) (co_nodes s)) nid =
      (case xa_load (co_nodes s) nid of None \<Rightarrow> None | Some m \<Rightarrow> if m \<noteq> n then Some m else None)" for nid
    by (rule xa_load_filter_snd [OF ok(2)])
  show "base_inv d (qrtr_node_free n s)"
    using inv ok
    by (auto simp: qrtr_node_free_def base_inv_def table_inv_def node_inv_def live_inv_def load xa.ok_erase xa_load_erase
        xa_ok_filter split: option.splits if_splits)
  show "same_socks s (qrtr_node_free n s)"
    by (simp add: qrtr_node_free_def same_socks_def)
  show "all_inv (qrtr_node_free n s)" if "all_inv s"
    using that by (auto simp: qrtr_node_free_def all_inv_def xa_load_erase)
qed

lemma keeps_release: "keeps d s d (qrtr_node_release node s)"
proof (cases node)
  case None
  then show ?thesis by (simp add: qrtr_node_release_def keeps_def same_socks_def)
next
  case (Some n)
  show ?thesis
  proof (cases "xa_load (co_node s) n")
    case None
    with Some show ?thesis by (simp add: qrtr_node_release_def keeps_def same_socks_def)
  next
    case nd: (Some nd)
    show ?thesis
    proof (cases "nd_ref nd \<le> 1")
      case True
      with Some nd show ?thesis by (simp add: qrtr_node_release_def keeps_node_free)
    next
      case False
      with Some nd have "qrtr_node_release node s = upd_node n (\<lambda>_. nd\<lparr>nd_ref := nd_ref nd - 1\<rparr>) s"
        by (simp add: qrtr_node_release_def upd_node_some)
      with False nd show ?thesis
        by (auto simp: keeps_def upd_node_some same_socks_def base_inv_def table_inv_def node_inv_def live_inv_def
            all_inv_def xa.load_store xa.ok_store)
    qed
  qed
qed

text \<open>A node that was acquired for a transmission is as it was before when it is released.\<close>

lemma moves_acquire_release:
  assumes "xa_load (co_node s) n = Some nd" and "moves d (qrtr_node_acquire n s) d' s2"
  shows "moves d s d' (qrtr_node_release (Some n) s2)"
  unfolding moves_def
proof
  assume inv: "base_inv d s"
  then have ok: "xa_ok (co_node s)" "0 < nd_ref nd"
    using assms(1) by (auto simp: base_inv_def node_inv_def)
  have s2: "base_inv d' s2" "same (qrtr_node_acquire n s) s2"
    using assms(2) keeps_acquire [of d s n] inv by (auto simp: moves_def keeps_def)
  have acq: "qrtr_node_acquire n s = s\<lparr>co_node := xa_store (co_node s) n (nd\<lparr>nd_ref := Suc (nd_ref nd)\<rparr>)\<rparr>"
    using assms(1) by (simp add: qrtr_node_acquire_def upd_node_some)
  have "map_option node_meta (xa_load (co_node s2) n) = Some (node_meta (nd\<lparr>nd_ref := Suc (nd_ref nd)\<rparr>))"
    using s2(2) ok(1) by (simp add: same_def same_nodes_def acq xa.load_store)
  then obtain nd2 where nd2: "xa_load (co_node s2) n = Some nd2" "node_meta nd2 = node_meta (nd\<lparr>nd_ref := Suc (nd_ref nd)\<rparr>)"
    by auto
  then have r: "nd_ref nd2 = Suc (nd_ref nd)"
    by (cases nd; cases nd2; simp add: node_meta_def)
  then have rel: "qrtr_node_release (Some n) s2 = s2\<lparr>co_node := xa_store (co_node s2) n (nd2\<lparr>nd_ref := nd_ref nd\<rparr>)\<rparr>"
    using nd2(1) ok(2) by (simp add: qrtr_node_release_def upd_node_some)
  have "node_meta (nd2\<lparr>nd_ref := nd_ref nd\<rparr>) = node_meta nd"
    using nd2(2) by (cases nd; cases nd2; simp add: node_meta_def)
  then have "same s (qrtr_node_release (Some n) s2)"
    using s2 ok nd2 assms(1)
    by (auto simp: rel same_def same_socks_def same_nodes_def acq base_inv_def node_inv_def xa.load_store)
  moreover have "base_inv d' (qrtr_node_release (Some n) s2)"
    using keeps_release [of d' s2 "Some n"] s2(1) by (simp add: keeps_def)
  ultimately show "base_inv d' (qrtr_node_release (Some n) s2) \<and> same s (qrtr_node_release (Some n) s2)"
    by simp
qed

lemma keeps_assign:
  assumes "xa_load (co_node s) n \<noteq> None"
  shows "keeps d s d (qrtr_node_assign e u n nid s)"
proof (cases "nid = ua_auto u")
  case True
  then show ?thesis by (simp add: qrtr_node_assign_def keeps_def same_socks_def)
next
  case False
  obtain b s1 where a: "ask e s = (b, s1)"
    by fastforce
  let ?s2 = "if b \<and> xa_load (co_nodes s1) nid = None then s1\<lparr>co_nodes := xa_store (co_nodes s1) nid n\<rparr> else s1"
  have "co_node s1 = co_node s"
    using a by (auto simp: ask_def)
  then have "keeps d s1 d ?s2"
    using assms
    by (auto simp: keeps_def same_socks_def base_inv_def table_inv_def node_inv_def live_inv_def all_inv_def
        xa.load_store xa.ok_store split: if_splits)
  with keeps_moves [OF moves_ask [OF a]] have "keeps d s d ?s2"
    by (rule keeps_trans)
  moreover have "keeps d ?s2 d (upd_node n (\<lambda>nd. if nd_nid nd = ua_auto u then nd\<lparr>nd_nid := nid\<rparr> else nd) ?s2)"
    by (rule keeps_upd_node) simp
  ultimately have "keeps d s d (upd_node n (\<lambda>nd. if nd_nid nd = ua_auto u then nd\<lparr>nd_nid := nid\<rparr> else nd) ?s2)"
    by (rule keeps_trans)
  with False a show ?thesis
    by (simp add: qrtr_node_assign_def)
qed

lemma assign_present: "xa_ok (co_node s) \<Longrightarrow>
    xa_load (co_node (qrtr_node_assign e u n nid s)) m = None \<longleftrightarrow> xa_load (co_node s) m = None"
  by (auto simp: qrtr_node_assign_def ask_def upd_node_def xa.load_store split: option.splits)

lemma assign_all: "co_all (qrtr_node_assign e u n nid s) = co_all s"
  by (auto simp: qrtr_node_assign_def ask_def upd_node_def split: option.splits)

text \<open>The end of \<open>qrtr_endpoint_post\<close> with the counting of the references left out.\<close>

definition post_queue :: "core_env \<Rightarrow> core_uapi \<Rightarrow> qrtr_cb \<Rightarrow> bytes \<Rightarrow> core \<Rightarrow> int \<times> core" where
  "post_queue e u cb msg s =
     (case xa_load (co_ports s) (port_index u (cb_dst_port cb)) of
        None \<Rightarrow> (- EINVAL, kfree_skb s)
      | Some k \<Rightarrow>
          if ce_ok e (co_tick s)
          then (0, push_skb k \<lparr>sb_cb = cb, sb_data = msg, sb_sk = None\<rparr> (s\<lparr>co_tick := Suc (co_tick s)\<rparr>))
          else (- EINVAL, kfree_skb (s\<lparr>co_tick := Suc (co_tick s)\<rparr>)))"

lemma post_queue_eq:
  assumes "table_inv s"
  shows "(case qrtr_port_lookup u (cb_dst_port cb) s of
      (None, s1) \<Rightarrow> (- EINVAL, kfree_skb s1)
    | (Some k, s1) \<Rightarrow>
        (case ask e s1 of (ok, s2) \<Rightarrow>
         if \<not> ok then (- EINVAL, kfree_skb (qrtr_port_put k s2))
         else (0, qrtr_port_put k (push_skb k \<lparr>sb_cb = cb, sb_data = msg, sb_sk = None\<rparr> s2)))) = post_queue e u cb msg s"
  using put_hold [OF assms]
  by (auto simp: post_queue_def qrtr_port_lookup_def ask_def qrtr_port_put_def hold_tick split: option.splits)

lemma keeps_post_deliver:
  assumes n: "xa_load (co_node s) n \<noteq> None" and "post_deliver e u n cb msg s = (rc, s')"
  shows "keeps (Suc d) s d s'"
proof (cases "base_inv (Suc d) s")
  case True
  then have ok: "xa_ok (co_node s)"
    by (simp add: base_inv_def node_inv_def)
  define s2 where "s2 = (if cb_cmd cb = ua_cmd u CMD_NEW_SERVER
    then qrtr_node_assign e u n (cp_w2 (read_pkt msg)) (qrtr_node_assign e u n (cb_src_node cb) s)
    else qrtr_node_assign e u n (cb_src_node cb) s)"
  have s2: "keeps (Suc d) s (Suc d) s2"
    using keeps_assign [OF n] keeps_trans [OF keeps_assign [OF n] keeps_assign] assign_present [OF ok] n
    by (auto simp: s2_def)
  then have t: "table_inv s2"
    using True by (simp add: keeps_def base_inv_def)
  have "moves (Suc d) s2 d s'"
  proof (cases "cb_cmd cb = ua_cmd u CMD_RESUME_TX")
    case True
    then have "s' = kfree_skb (upd_node n (\<lambda>nd. nd\<lparr>nd_flows := qrtr_tx_resume (read_pkt msg) (nd_flows nd)\<rparr>) s2)"
      using assms(2) unfolding post_deliver_def s2_def [symmetric] Let_def by simp
    then show ?thesis
      using moves_trans [OF moves_flows moves_free] flows_ok_resume by blast
  next
    case False
    let ?p = "xa_load (co_ports s2) (port_index u (cb_dst_port cb))"
    have eq: "(rc, s') = post_queue e u cb msg s2"
      using assms(2) False post_queue_eq [OF t] unfolding post_deliver_def s2_def [symmetric] Let_def by simp
    have "\<exists>sk. xa_load (co_socks (s2\<lparr>co_tick := Suc (co_tick s2)\<rparr>)) k = Some sk" if "?p = Some k" for k
      using t that by (auto simp: table_inv_def)
    with eq show ?thesis
      using moves_free moves_trans [OF moves_tick moves_free] moves_trans [OF moves_tick moves_push]
      by (auto simp: post_queue_def split: option.splits if_splits)
  qed
  then show ?thesis
    using keeps_trans [OF s2] keeps_moves by blast
qed (simp add: keeps_def)

lemma keeps_endpoint_post:
  assumes n: "xa_load (co_node s) n \<noteq> None"
  shows "\<exists>rc s'. qrtr_endpoint_post e u n data s = Inr (rc, s') \<and> keeps d s d s'"
proof -
  obtain got s1 where a: "skb_alloc e s = (got, s1)"
    by fastforce
  have n1: "xa_load (co_node s1) n \<noteq> None"
    using a n by (auto simp: skb_alloc_def ask_def split: if_splits)
  have k: "keeps d s (Suc d) s1" if got
    using keeps_moves [OF moves_alloc [OF a, of d]] that by simp
  consider "length data = 0 \<or> length data mod 4 \<noteq> 0" | "length data \<noteq> 0" "length data mod 4 = 0" "\<not> got" |
    "length data \<noteq> 0" "length data mod 4 = 0" got
    by blast
  then show ?thesis
  proof cases
    case 1
    then show ?thesis using keeps_moves [OF moves_refl] by (auto simp: qrtr_endpoint_post_def)
  next
    case 2
    then show ?thesis using keeps_moves [OF moves_alloc [OF a, of d]] a by (auto simp: qrtr_endpoint_post_def)
  next
    case 3
    then obtain r where r: "rx_packet u data = Inr r"
      using rx_packet_defined by blast
    show ?thesis
    proof (cases r)
      case None
      with 3 a r show ?thesis
        using keeps_trans [OF k [OF 3(3)] keeps_moves [OF moves_free]] by (simp add: qrtr_endpoint_post_def)
    next
      case (Some x)
      obtain rc s' where p: "post_deliver e u n (fst x) (snd x) s1 = (rc, s')"
        by fastforce
      with 3 a r Some have "qrtr_endpoint_post e u n data s = Inr (rc, s')"
        by (simp add: qrtr_endpoint_post_def case_prod_beta)
      then show ?thesis
        using keeps_trans [OF k [OF 3(3)] keeps_post_deliver [OF n1 p]] by blast
    qed
  qed
qed

section \<open>Ports\<close>

text \<open>The sockets without their queues, and the binding in terms of them.\<close>

definition socks :: "core \<Rightarrow> u32 \<rightharpoonup> qrtr_sock" where
  "socks s k = map_option sock_meta (xa_load (co_socks s) k)"

definition bound_at :: "core_uapi \<Rightarrow> (u32 \<rightharpoonup> qrtr_sock) \<Rightarrow> (u32 \<rightharpoonup> u32) \<Rightarrow> bool" where
  "bound_at u m l \<longleftrightarrow>
     (\<forall>k sk. m k = Some sk \<longrightarrow> sk_refs sk = (if sk_zapped sk then 1 else 2) \<and>
        (\<forall>p. l p = Some k \<longleftrightarrow> \<not> sk_zapped sk \<and> p = port_index u (sq_port (sk_us sk))))"

lemma sock_meta_simps [simp]:
  "sk_refs (sock_meta sk) = sk_refs sk" "sk_zapped (sock_meta sk) = sk_zapped sk" "sk_us (sock_meta sk) = sk_us sk"
  by (simp_all add: sock_meta_def)

lemma meta_iff:
  "(\<And>sk. P (sock_meta sk) = P sk) \<Longrightarrow> (\<forall>sk. x = Some sk \<longrightarrow> P sk) \<longleftrightarrow> (\<forall>sk. map_option sock_meta x = Some sk \<longrightarrow> P sk)"
  by (cases x) auto

lemma bound_inv_socks: "bound_inv u s \<longleftrightarrow> bound_at u (socks s) (xa_load (co_ports s))"
  unfolding bound_inv_def bound_at_def socks_def
  by (rule all_cong1, rule meta_iff) simp

lemma same_socks_iff: "same_socks s s' \<longleftrightarrow> co_ports s' = co_ports s \<and> socks s' = socks s"
  by (auto simp: same_socks_def socks_def fun_eq_iff)

lemma socks_upd_sock:
  assumes "xa_ok (co_socks s)" and "xa_load (co_socks s) k = Some sk"
  shows "socks (upd_sock k f s) = (socks s)(k \<mapsto> sock_meta (f sk))"
  using assms by (auto simp: socks_def upd_sock_some xa.load_store fun_eq_iff)

text \<open>A change of a socket that leaves its queue alone.\<close>

lemma base_upd_sock:
  assumes "base_inv d s" and "\<And>sk. 0 < sk_refs sk \<Longrightarrow> 0 < sk_refs (f sk)" and "\<And>sk. sk_queue (f sk) = sk_queue sk"
  shows "base_inv d (upd_sock k f s) \<and> same_nodes s (upd_sock k f s) \<and> co_ports (upd_sock k f s) = co_ports s"
proof (cases "xa_load (co_socks s) k")
  case None
  with assms(1) show ?thesis by (simp add: upd_sock_def same_nodes_def)
next
  case (Some sk)
  have "queued (xa_store (co_socks s) k (f sk)) = queued (co_socks s)"
    using assms queued_store [OF _ Some, of "f sk"] by (simp add: base_inv_def table_inv_def)
  then show ?thesis
    using assms table_inv_upd_sock [of s f k] Some
    by (simp add: base_inv_def) (simp add: upd_sock_some node_inv_def live_inv_def same_nodes_def)
qed

lemma port_insert_spec:
  assumes "port_insert e idx k s = (rc, s')" and "base_inv d s" and "xa_load (co_socks s) k = Some sk" and "0 < sk_refs sk"
  shows "if rc = 0 then base_inv d s' \<and> same_nodes s s' \<and> socks s' = socks s \<and> co_socks s' = co_socks s \<and>
      xa_load (co_ports s) idx = None \<and> co_ports s' = xa_store (co_ports s) idx k
    else rc < 0 \<and> moves d s d s'"
proof -
  have t: "moves d s d (s\<lparr>co_tick := Suc (co_tick s)\<rparr>)"
    by (rule moves_tick)
  show ?thesis
  proof (cases "xa_load (co_ports s) idx = None \<and> ce_ok e (co_tick s)")
    case True
    then have "rc = 0" "s' = s\<lparr>co_tick := Suc (co_tick s), co_ports := xa_store (co_ports s) idx k\<rparr>"
      using assms(1) by (auto simp: port_insert_def ask_def)
    with True assms(2-4) show ?thesis
      by (auto simp: base_inv_def table_inv_def node_inv_def live_inv_def same_nodes_def socks_def fun_eq_iff
          xa.ok_store xa.load_store)
  next
    case False
    with assms(1) t show ?thesis by (auto simp: port_insert_def ask_def split: if_splits)
  qed
qed

lemma eph_port_range:
  assumes "eph_port ports = Some p"
  shows "QRTR_MIN_EPH_SOCKET \<le> unat p \<and> unat p \<le> QRTR_MAX_EPH_SOCKET \<and> xa_load ports p = None"
proof -
  obtain i where i: "p = word_of_nat i" "xa_load ports (word_of_nat i) = None" "i \<in> {QRTR_MIN_EPH_SOCKET ..< Suc QRTR_MAX_EPH_SOCKET}"
    using assms by (auto simp: eph_port_def simp del: upt_Suc dest!: find_SomeD)
  have "unat (word_of_nat i :: u32) = i"
    using i(3) by (simp add: unat_of_nat QRTR_MAX_EPH_SOCKET_def)
  with i show ?thesis by simp
qed

text \<open>The control port is not an ephemeral port.\<close>

definition core_uapi_ok :: "core_uapi \<Rightarrow> bool" where
  "core_uapi_ok u \<longleftrightarrow> QRTR_MAX_EPH_SOCKET < unat (ua_ctrl u) \<and> ua_cmd u CMD_DEL_CLIENT \<noteq> ua_data u \<and>
     ua_cmd u CMD_RESUME_TX \<noteq> ua_data u"

definition assigned :: "core_uapi \<Rightarrow> nat \<Rightarrow> u32 \<Rightarrow> qrtr_sock \<Rightarrow> u32 \<Rightarrow> core \<Rightarrow> core \<Rightarrow> bool" where
  "assigned u d k sk p s s' \<longleftrightarrow> base_inv d s' \<and> same_nodes s s' \<and> p \<noteq> 0 \<and>
     socks s' = (socks s)(k \<mapsto> sock_meta (sk\<lparr>sk_refs := Suc (sk_refs sk)\<rparr>)) \<and>
     xa_load (co_ports s) (port_index u p) = None \<and> co_ports s' = xa_store (co_ports s) (port_index u p) k"

lemma insert_assigned:
  assumes i: "port_insert e (port_index u q) k s = (r, s1)" and "q \<noteq> 0" and inv: "base_inv d s"
    and sk: "xa_load (co_socks s) k = Some sk" "0 < sk_refs sk"
  shows "if r = 0 then assigned u d k sk q s (sock_hold k s1) else r < 0 \<and> moves d s d s1"
proof (cases "r = 0")
  case True
  have spec: "base_inv d s1" "same_nodes s s1" "socks s1 = socks s" "co_socks s1 = co_socks s"
    "xa_load (co_ports s) (port_index u q) = None" "co_ports s1 = xa_store (co_ports s) (port_index u q) k"
    using port_insert_spec [OF i inv sk] True by simp_all
  have h: "base_inv d (sock_hold k s1) \<and> same_nodes s1 (sock_hold k s1) \<and> co_ports (sock_hold k s1) = co_ports s1"
    unfolding sock_hold_def by (rule base_upd_sock [OF spec(1)]) simp_all
  have "socks (sock_hold k s1) = (socks s)(k \<mapsto> sock_meta (sk\<lparr>sk_refs := Suc (sk_refs sk)\<rparr>))"
    unfolding sock_hold_def using spec sk(1) socks_upd_sock [of s1 k sk] by (simp add: base_inv_def table_inv_def)
  with True h spec assms(2) show ?thesis
    by (simp add: same_nodes_def assigned_def)
next
  case False
  then show ?thesis
    using port_insert_spec [OF i inv sk] by simp
qed

lemma port_assign_spec:
  assumes u: "core_uapi_ok u" and "qrtr_port_assign e u k port s = (rc, p, s')" and inv: "base_inv d s"
    and sk: "xa_load (co_socks s) k = Some sk" "0 < sk_refs sk"
  shows "if rc = 0 then assigned u d k sk p s s' \<and> (port \<noteq> 0 \<longrightarrow> p = port) else rc < 0 \<and> moves d s d s'"
proof -
  consider (eph) q where "port = 0" "eph_port (co_ports s) = Some q" | (full) "port = 0" "eph_port (co_ports s) = None" |
    (denied) "port \<noteq> 0" "sint port < int QRTR_MIN_EPH_SOCKET \<and> \<not> ce_admin e" |
    (given) "port \<noteq> 0" "\<not> (sint port < int QRTR_MIN_EPH_SOCKET \<and> \<not> ce_admin e)"
    by blast
  then show ?thesis
  proof cases
    case eph
    then have q: "port_index u q = q" "q \<noteq> 0"
      using u eph_port_range [OF eph(2)] by (auto simp: port_index_def core_uapi_ok_def QRTR_MIN_EPH_SOCKET_def)
    obtain r s1 where i: "port_insert e q k s = (r, s1)"
      by fastforce
    with q insert_assigned [of e u q k s r s1, OF _ q(2) inv sk] eph assms(2) show ?thesis
      by (auto simp: qrtr_port_assign_def split: if_splits)
  next
    case given
    obtain r s1 where i: "port_insert e (port_index u port) k s = (r, s1)"
      by fastforce
    from insert_assigned [OF this given(1) inv sk] i given assms(2) show ?thesis
      by (auto simp: qrtr_port_assign_def split: if_splits)
  qed (use assms(2) in \<open>auto simp: qrtr_port_assign_def moves_refl\<close>)
qed

text \<open>Taking the port away from a socket that is held twice at least.\<close>

lemma port_remove_spec:
  assumes inv: "base_inv d s" and sk: "xa_load (co_socks s) k = Some sk" and refs: "2 \<le> sk_refs sk"
  shows "base_inv d (qrtr_port_remove e u k s) \<and> same_nodes s (qrtr_port_remove e u k s) \<and>
    socks (qrtr_port_remove e u k s) = (socks s)(k \<mapsto> sock_meta (sk\<lparr>sk_refs := sk_refs sk - 1\<rparr>)) \<and>
    co_ports (qrtr_port_remove e u k s) = xa_erase (co_ports s) (port_index u (sq_port (sk_us sk)))"
proof -
  let ?cmd = "ua_cmd u CMD_DEL_CLIENT" and ?us = "sk_us sk"
  let ?idx = "port_index u (sq_port ?us)"
  obtain got s1 where a: "skb_alloc e s = (got, s1)"
    by fastforce
  define s2 where "s2 = (if got
    then snd (qrtr_bcast_enqueue e u \<lparr>sb_cb = empty_cb, sb_data = client_pkt ?cmd (sq_node ?us) (sq_port ?us), sb_sk = Some k\<rparr>
           ?cmd ?us \<lparr>sq_node = ua_bcast u, sq_port = ua_ctrl u\<rparr> s1) else s1)"
  have "moves d s d s2"
    unfolding s2_def by (rule moves_bcast_new [OF a])
  then have s2: "base_inv d s2" "same_nodes s s2" "co_ports s2 = co_ports s" "socks s2 = socks s"
    using inv by (auto simp: moves_def same_def same_socks_iff)
  then have "socks s2 k = Some (sock_meta sk)"
    using sk by (simp add: socks_def)
  then obtain sk2 where sk2: "xa_load (co_socks s2) k = Some sk2" "sock_meta sk2 = sock_meta sk"
    by (auto simp: socks_def)
  have r2: "sk_refs sk2 = sk_refs sk"
    using arg_cong [OF sk2(2), of sk_refs] by simp
  have s3: "sock_unhold k s2 = s2\<lparr>co_socks := xa_store (co_socks s2) k (sk2\<lparr>sk_refs := sk_refs sk - 1\<rparr>)\<rparr>"
    using sk2(1) r2 by (simp add: sock_unhold_def upd_sock_some)
  have eq: "qrtr_port_remove e u k s = (sock_unhold k s2)\<lparr>co_ports := xa_erase (co_ports s2) ?idx\<rparr>"
    using sk a by (simp add: qrtr_port_remove_def Let_def s2_def [symmetric]) (simp add: s3)
  have ok: "xa_ok (co_socks s2)" "xa_ok (co_ports s2)"
    using s2(1) by (simp_all add: base_inv_def table_inv_def)
  have "sock_meta (sk2\<lparr>sk_refs := sk_refs sk - 1\<rparr>) = sock_meta (sk\<lparr>sk_refs := sk_refs sk - 1\<rparr>)"
    using sk2(2) by (cases sk; cases sk2; simp add: sock_meta_def)
  then have "socks (qrtr_port_remove e u k s) = (socks s)(k \<mapsto> sock_meta (sk\<lparr>sk_refs := sk_refs sk - 1\<rparr>))"
    using ok s2(4) by (auto simp: eq s3 socks_def xa.load_store fun_eq_iff)
  moreover have "base_inv d (qrtr_port_remove e u k s)"
    using s2(1) ok refs queued_store [OF ok(1) sk2(1), of "sk2\<lparr>sk_refs := sk_refs sk - 1\<rparr>"]
    by (auto simp: eq s3 base_inv_def table_inv_def node_inv_def live_inv_def xa.ok_store xa.ok_erase xa.load_store xa_load_erase)
  ultimately show ?thesis
    using s2 by (simp add: eq s3 same_nodes_def)
qed

section \<open>Binding\<close>

lemma core_inv_refs: "core_inv u s \<Longrightarrow> xa_load (co_socks s) k = Some sk \<Longrightarrow> 0 < sk_refs sk"
  by (auto simp: core_inv_def bound_inv_def split: if_splits)

lemma set_err_eq:
  assumes "core_inv u s"
  shows "set_err err k s = upd_sock k (\<lambda>sk. sk\<lparr>sk_err := err\<rparr>) s"
proof (cases "xa_load (co_socks s) k")
  case None
  then show ?thesis by (simp add: set_err_def sock_hold_def upd_sock_def sock_put_def)
next
  case (Some sk)
  have "xa_ok (co_socks s)" "0 < sk_refs sk"
    using assms core_inv_refs [OF assms Some] by (simp_all add: core_inv_def base_inv_def table_inv_def)
  with Some show ?thesis
    by (simp add: set_err_def sock_hold_def upd_sock_def sock_put_def sock_unhold_def xa.load_store xa_store_store)
qed

text \<open>A change of a socket that binding does not see.\<close>

lemma core_upd_sock:
  assumes inv: "core_inv u s"
    and f: "\<And>sk. sk_refs (f sk) = sk_refs sk" "\<And>sk. sk_queue (f sk) = sk_queue sk"
      "\<And>sk. sk_zapped (f sk) = sk_zapped sk" "\<And>sk. sk_us (f sk) = sk_us sk"
  shows "core_inv u (upd_sock k f s)"
proof (cases "xa_load (co_socks s) k")
  case None
  with inv show ?thesis by (simp add: upd_sock_def)
next
  case (Some sk)
  have b: "base_inv 0 s" "xa_ok (co_socks s)"
    using inv by (simp_all add: core_inv_def base_inv_def table_inv_def)
  have u: "base_inv 0 (upd_sock k f s) \<and> same_nodes s (upd_sock k f s) \<and> co_ports (upd_sock k f s) = co_ports s"
    by (rule base_upd_sock [OF b(1)]) (simp_all add: f)
  moreover have "bound_inv u (upd_sock k f s)"
    using inv u Some
    by (auto simp: core_inv_def bound_inv_def upd_sock_some xa.load_store b f split: if_splits)
  ultimately show ?thesis
    using inv same_all by (auto simp: core_inv_def)
qed

lemma core_reset_ports: "core_inv u s \<Longrightarrow> core_inv u (qrtr_reset_ports s)"
proof -
  have "core_inv u (foldl (\<lambda>s k. set_err ENETRESET k s) s ks)" if "core_inv u s" for s ks
    using that by (induction ks arbitrary: s) (simp_all add: set_err_eq core_upd_sock)
  then show "core_inv u s \<Longrightarrow> ?thesis"
    by (simp add: qrtr_reset_ports_def)
qed

text \<open>
  The binding after a socket that was not bound, or bound to another port, gets a port that was
  free.
\<close>

lemma bound_at_rebind:
  assumes "bound_at u m l" and "m k = Some sk" and "l (port_index u p) = None"
    and "sk_refs sk' = 2" "\<not> sk_zapped sk'" "sq_port (sk_us sk') = p"
  shows "bound_at u (m(k \<mapsto> sk'))
    (if sk_zapped sk then l(port_index u p \<mapsto> k) else (l(port_index u p \<mapsto> k))(port_index u (sq_port (sk_us sk)) := None))"
  unfolding bound_at_def
proof (intro allI impI)
  fix j sj
  assume j: "(m(k \<mapsto> sk')) j = Some sj"
  let ?l = "if sk_zapped sk then l(port_index u p \<mapsto> k)
    else (l(port_index u p \<mapsto> k))(port_index u (sq_port (sk_us sk)) := None)"
  have k: "l q = Some k \<longleftrightarrow> \<not> sk_zapped sk \<and> q = port_index u (sq_port (sk_us sk))" for q
    using assms(1,2) unfolding bound_at_def by blast
  show "sk_refs sj = (if sk_zapped sj then 1 else 2) \<and>
    (\<forall>q. ?l q = Some j \<longleftrightarrow> \<not> sk_zapped sj \<and> q = port_index u (sq_port (sk_us sj)))"
  proof (cases "j = k")
    case True
    with j have "sj = sk'"
      by simp
    moreover have "\<not> sk_zapped sk \<Longrightarrow> port_index u (sq_port (sk_us sk)) \<noteq> port_index u p"
      using k [of "port_index u p"] assms(3) by auto
    ultimately show ?thesis
      using True assms(4-6) k by (auto split: if_splits)
  next
    case False
    with j have m: "m j = Some sj"
      by simp
    have l: "l q = Some j \<longleftrightarrow> \<not> sk_zapped sj \<and> q = port_index u (sq_port (sk_us sj))" for q
      using assms(1) m unfolding bound_at_def by blast
    have "?l q = Some j \<longleftrightarrow> l q = Some j" for q
      using False assms(3) k [of q] by auto
    moreover have "sk_refs sj = (if sk_zapped sj then 1 else 2)"
      using assms(1) m unfolding bound_at_def by blast
    ultimately show ?thesis
      using l by simp
  qed
qed

lemma core_rebound:
  assumes inv: "core_inv u s" and sk: "xa_load (co_socks s) k = Some sk" and as: "assigned u 0 k sk p s s1"
    and z: "zapped = sk_zapped sk"
  shows "core_inv u (upd_sock k (\<lambda>sk. sk\<lparr>sk_us := (sk_us sk)\<lparr>sq_port := p\<rparr>, sk_zapped := False\<rparr>)
    (if zapped then s1 else qrtr_port_remove e u k s1))" (is "core_inv u (upd_sock k ?f ?s2)")
proof -
  have base: "all_inv s" "bound_at u (socks s) (xa_load (co_ports s))" "xa_ok (co_ports s)"
    using inv by (auto simp: core_inv_def bound_inv_socks base_inv_def table_inv_def)
  have refs: "sk_refs sk = (if zapped then 1 else 2)"
    using inv sk z by (auto simp: core_inv_def bound_inv_def)
  have s1: "base_inv 0 s1" "same_nodes s s1" "xa_load (co_ports s) (port_index u p) = None"
    "co_ports s1 = xa_store (co_ports s) (port_index u p) k"
    "socks s1 = (socks s)(k \<mapsto> sock_meta (sk\<lparr>sk_refs := Suc (sk_refs sk)\<rparr>))"
    using as by (simp_all add: assigned_def)
  from s1(5) obtain sk1 where sk1: "xa_load (co_socks s1) k = Some sk1"
    "sock_meta sk1 = sock_meta (sk\<lparr>sk_refs := Suc (sk_refs sk)\<rparr>)"
    by (auto simp: socks_def dest!: fun_cong [of _ _ k])
  have r1: "sk_refs sk1 = Suc (sk_refs sk)" "sk_us sk1 = sk_us sk" "sock_meta (sk1\<lparr>sk_refs := 2\<rparr>) = sock_meta (sk\<lparr>sk_refs := 2\<rparr>)"
    using sk1(2) by (cases sk; cases sk1; simp add: sock_meta_def)+
  have s2: "base_inv 0 ?s2 \<and> same_nodes s ?s2 \<and> socks ?s2 = (socks s)(k \<mapsto> sock_meta (sk\<lparr>sk_refs := 2\<rparr>)) \<and>
      xa_load (co_ports ?s2) = (if zapped then (xa_load (co_ports s))(port_index u p \<mapsto> k)
        else ((xa_load (co_ports s))(port_index u p \<mapsto> k))(port_index u (sq_port (sk_us sk)) := None))"
  proof (cases zapped)
    case True
    with s1 refs show ?thesis
      by (auto simp: xa.load_store [OF base(3)] fun_eq_iff numeral_2_eq_2)
  next
    case False
    have "2 \<le> sk_refs sk1"
      using False refs r1 by simp
    from port_remove_spec [OF s1(1) sk1(1) this, of e u] show ?thesis
      using False s1 r1 refs
      by (auto simp: xa.load_store [OF base(3)] xa_load_erase fun_eq_iff same_nodes_def numeral_2_eq_2)
  qed
  from s2 obtain sk2 where sk2: "xa_load (co_socks ?s2) k = Some sk2" "sock_meta sk2 = sock_meta (sk\<lparr>sk_refs := 2\<rparr>)"
    by (auto simp: socks_def dest!: fun_cong [of _ _ k])
  have ok: "xa_ok (co_socks ?s2)" and b2: "base_inv 0 ?s2"
    using s2 by (simp_all add: base_inv_def table_inv_def)
  have u3: "base_inv 0 (upd_sock k ?f ?s2) \<and> same_nodes ?s2 (upd_sock k ?f ?s2) \<and> co_ports (upd_sock k ?f ?s2) = co_ports ?s2"
    by (rule base_upd_sock [OF b2]) simp_all
  have "socks (upd_sock k ?f ?s2) = (socks s)(k \<mapsto> sock_meta (?f sk2))"
    using socks_upd_sock [OF ok sk2(1), of ?f] s2 by simp
  moreover have "sk_refs sk2 = 2"
    using sk2(2) by (cases sk; cases sk2; simp add: sock_meta_def)
  moreover have "socks s k = Some (sock_meta sk)"
    using sk by (simp add: socks_def)
  ultimately have "bound_inv u (upd_sock k ?f ?s2)"
    using bound_at_rebind [OF base(2) _ s1(3), of k "sock_meta sk" "sock_meta (?f sk2)"] s2 u3 z
    unfolding bound_inv_socks by (cases zapped) simp_all
  moreover have "same_nodes s (upd_sock k ?f ?s2)"
    using u3 s2 by (simp add: same_nodes_def)
  ultimately show ?thesis
    using u3 same_all base(1) by (auto simp: core_inv_def)
qed

lemma core_bind_port:
  assumes u: "core_uapi_ok u" and inv: "core_inv u s"
    and z: "zapped = sock_zapped k s" and "qrtr_bind_port e u k port zapped s = (rc, s')"
  shows "core_inv u s'"
proof (cases "xa_load (co_socks s) k")
  case None
  with assms(4) inv show ?thesis by (simp add: qrtr_bind_port_def)
next
  case (Some sk)
  have z': "zapped = sk_zapped sk"
    using Some z by (simp add: sock_zapped_def)
  show ?thesis
  proof (cases "\<not> zapped \<and> port = sq_port (sk_us sk)")
    case True
    with assms(4) inv Some show ?thesis by (simp add: qrtr_bind_port_def)
  next
    case False
    obtain r p s1 where a: "qrtr_port_assign e u k port s = (r, p, s1)"
      by (metis prod_cases3)
    have base: "base_inv 0 s" "all_inv s" "bound_at u (socks s) (xa_load (co_ports s))" "xa_ok (co_ports s)"
      using inv by (auto simp: core_inv_def bound_inv_socks base_inv_def table_inv_def)
    note spec = port_assign_spec [OF u a base(1) Some core_inv_refs [OF inv Some]]
    show ?thesis
    proof (cases "r = 0")
      case False
      with spec have "moves 0 s 0 s1"
        by simp
      moreover have "s' = s1"
        using assms(4) Some a False \<open>\<not> (\<not> zapped \<and> port = sq_port (sk_us sk))\<close> by (simp add: qrtr_bind_port_def)
      ultimately show ?thesis
        using core_inv_same [OF inv] base(1) by (simp add: moves_def)
    next
      case True
      with spec have as: "assigned u 0 k sk p s s1"
        by simp
      define s2 where "s2 = (if zapped then s1 else qrtr_port_remove e u k s1)"
      define s3 where "s3 = upd_sock k (\<lambda>sk. sk\<lparr>sk_us := (sk_us sk)\<lparr>sq_port := p\<rparr>, sk_zapped := False\<rparr>) s2"
      have "core_inv u s3"
        unfolding s3_def s2_def by (rule core_rebound [OF inv Some as z'])
      moreover have "s' = (if p = ua_ctrl u then qrtr_reset_ports s3 else s3)"
        using assms(4) Some a True \<open>\<not> (\<not> zapped \<and> port = sq_port (sk_us sk))\<close>
        by (auto simp: qrtr_bind_port_def Let_def s2_def s3_def)
      ultimately show ?thesis
        by (simp add: core_reset_ports)
    qed
  qed
qed

lemma core_autobind:
  "core_uapi_ok u \<Longrightarrow> core_inv u s \<Longrightarrow> qrtr_autobind e u k s = (rc, s') \<Longrightarrow> core_inv u s'"
  using core_bind_port [of u s True k e 0 rc s'] by (auto simp: qrtr_autobind_def split: if_splits)

lemma core_bind: "core_uapi_ok u \<Longrightarrow> core_inv u s \<Longrightarrow> qrtr_bind e u k addr s = (rc, s') \<Longrightarrow> core_inv u s'"
  using core_bind_port [OF _ _ refl] by (auto simp: qrtr_bind_def split: if_splits)

lemma core_connect:
  assumes u: "core_uapi_ok u" and inv: "core_inv u s" and "qrtr_connect e u k addr s = (rc, s')"
  shows "core_inv u s'"
proof -
  obtain r s1 where a: "qrtr_autobind e u k (upd_sock k (\<lambda>sk. sk\<lparr>sk_established := False\<rparr>) s) = (r, s1)"
    by fastforce
  have "core_inv u s1"
    by (rule core_autobind [OF u _ a]) (simp add: core_upd_sock [OF inv])
  then show ?thesis
    using assms(3) a inv core_upd_sock [of u s1] by (auto simp: qrtr_connect_def split: if_splits)
qed

lemma core_create:
  assumes inv: "core_inv u s" and fresh: "xa_load (co_socks s) k = None" and "qrtr_create e dgram k s = (rc, s')"
  shows "core_inv u s'"
proof -
  have free: "xa_load (co_ports s) p \<noteq> Some k" for p
    using inv fresh by (fastforce simp: core_inv_def base_inv_def table_inv_def)
  have ok: "xa_ok (co_socks s)"
    using inv by (simp add: core_inv_def base_inv_def table_inv_def)
  have q: "queued (xa_store (co_socks s) k sk) = queued (co_socks s) + length (sk_queue sk)" for sk
    using xa_total_store [OF ok, of "\<lambda>sk. length (sk_queue sk)" k sk] fresh by (simp add: queued_def)
  have t: "core_inv u (s\<lparr>co_tick := Suc (co_tick s)\<rparr>)"
    using core_inv_same [OF inv] moves_tick [of 0 s "Suc (co_tick s)"] inv by (auto simp: moves_def core_inv_def)
  have "core_inv u (s\<lparr>co_tick := Suc (co_tick s), co_socks := xa_store (co_socks s) k sock_fresh\<rparr>)"
    using inv free fresh q [of sock_fresh]
    by (auto simp: core_inv_def base_inv_def table_inv_def node_inv_def live_inv_def bound_inv_def all_inv_def
        xa.ok_store [OF ok] xa.load_store [OF ok] sock_fresh_def)
  with t inv assms(3) show ?thesis
    by (cases dgram; cases "ce_ok e (co_tick s)") (auto simp: qrtr_create_def ask_def)
qed

lemma bound_at_unbind:
  assumes "bound_at u m l"
  shows "bound_at u (m(k := None)) (\<lambda>p. if l p = Some k then None else l p)"
proof -
  have "(if l p = Some k then None else l p) = Some j \<longleftrightarrow> l p = Some j" if "j \<noteq> k" for j p
    using that by simp
  with assms show ?thesis
    by (simp add: bound_at_def)
qed

text \<open>Purging the queue and dropping the last reference of a socket without a port.\<close>

lemma base_drop_sock:
  assumes inv: "base_inv 0 s" and sk: "xa_load (co_socks s) k = Some sk" "sk_refs sk = 1"
    and free: "\<And>p. xa_load (co_ports s) p \<noteq> Some k"
    and s': "s' = sock_put k (upd_sock k (\<lambda>sk. sk\<lparr>sk_queue := []\<rparr>) (s\<lparr>co_live := co_live s - length (sk_queue sk)\<rparr>))"
  shows "base_inv 0 s' \<and> same_nodes s s' \<and> co_ports s' = co_ports s \<and> co_socks s' = xa_erase (co_socks s) k"
proof -
  have ok: "xa_ok (co_socks s)"
    using inv by (simp add: base_inv_def table_inv_def)
  have eq: "s' = s\<lparr>co_live := co_live s - length (sk_queue sk), co_socks := xa_erase (co_socks s) k\<rparr>"
    using sk by (simp add: s' upd_sock_def sock_put_def xa.load_store [OF ok] xa_erase_store)
  have "queued (xa_erase (co_socks s) k) + length (sk_queue sk) = queued (co_socks s)"
    using xa_total_erase [OF ok, of "\<lambda>sk. length (sk_queue sk)" k] sk by (simp add: queued_def)
  then show ?thesis
    using inv free
    by (auto simp: eq base_inv_def table_inv_def node_inv_def live_inv_def same_nodes_def xa.ok_erase xa_load_erase)
qed

lemma core_release:
  assumes inv: "core_inv u s" and sk: "xa_load (co_socks s) k = Some sk"
  shows "core_inv u (snd (qrtr_release e u k s)) \<and> xa_load (co_socks (snd (qrtr_release e u k s))) k = None"
proof -
  define s1 where "s1 = (if \<not> sock_zapped k s then qrtr_port_remove e u k s else s)"
  let ?s' = "snd (qrtr_release e u k s)"
  have base: "base_inv 0 s" "all_inv s" "bound_inv u s"
    using inv by (simp_all add: core_inv_def)
  have k: "xa_load (co_ports s) p = Some k \<longleftrightarrow> \<not> sk_zapped sk \<and> p = port_index u (sq_port (sk_us sk))"
    "sk_refs sk = (if sk_zapped sk then 1 else 2)" for p
    using base(3) sk by (auto simp: bound_inv_def)
  have meta: "sk_refs sk = 1 \<Longrightarrow> sock_meta (sk\<lparr>sk_refs := 1\<rparr>) = sock_meta sk"
    by (cases sk) simp
  have s1: "base_inv 0 s1" "same_nodes s s1" "socks s1 = (socks s)(k \<mapsto> sock_meta (sk\<lparr>sk_refs := 1\<rparr>))"
    "\<And>p. xa_load (co_ports s1) p = (if xa_load (co_ports s) p = Some k then None else xa_load (co_ports s) p)"
    using port_remove_spec [OF base(1) sk, of e u] k sk base(1) meta
    by (auto simp: s1_def sock_zapped_def same_nodes_def socks_def fun_eq_iff xa_load_erase split: if_splits)
  obtain sk1 where sk1: "xa_load (co_socks s1) k = Some sk1" "sock_meta sk1 = sock_meta (sk\<lparr>sk_refs := 1\<rparr>)"
    using fun_cong [OF s1(3), of k] by (auto simp: socks_def)
  have "sk_refs sk1 = 1"
    using sk1(2) by (cases sk; cases sk1; simp add: sock_meta_def)
  moreover have "?s' = sock_put k (upd_sock k (\<lambda>sk. sk\<lparr>sk_queue := []\<rparr>) (s1\<lparr>co_live := co_live s1 - length (sk_queue sk1)\<rparr>))"
    using sk1(1) by (simp add: qrtr_release_def Let_def s1_def [symmetric])
  ultimately have d: "base_inv 0 ?s' \<and> same_nodes s1 ?s' \<and> co_ports ?s' = co_ports s1 \<and> co_socks ?s' = xa_erase (co_socks s1) k"
    using s1(4) by (intro base_drop_sock [OF s1(1) sk1(1)]) auto
  have "socks ?s' = (socks s)(k := None)"
    using d s1(3) by (auto simp: socks_def xa_load_erase fun_eq_iff)
  moreover have "xa_load (co_ports ?s') = (\<lambda>p. if xa_load (co_ports s) p = Some k then None else xa_load (co_ports s) p)"
    using d s1(4) by auto
  ultimately have "bound_inv u ?s'"
    using base(3) bound_at_unbind [of u "socks s" "xa_load (co_ports s)" k] unfolding bound_inv_socks by simp
  moreover have "all_inv ?s'"
    using base(2) d s1(2) same_all by (auto simp: same_nodes_def)
  ultimately show ?thesis
    using d by (simp add: core_inv_def xa_load_erase)
qed

section \<open>Sending and receiving\<close>

lemma run_enqueue_moves:
  assumes "run_enqueue e u fn skb typ src dst s = (rc, s')"
  shows "moves (Suc d) s d s'"
proof (cases fn)
  case Bcast_enqueue
  with assms show ?thesis by (simp add: run_enqueue_def moves_bcast_enqueue)
next
  case Local_enqueue
  with assms show ?thesis by (auto simp: run_enqueue_def split: prod.splits intro: moves_local_enqueue)
next
  case (Node_enqueue n)
  with assms show ?thesis by (simp add: run_enqueue_def moves_node_enqueue)
qed

text \<open>Sending a packet, without the release of the node at the end.\<close>

lemma send_packet_moves:
  assumes "send_packet e u k fn dst msg s = (rc, s')"
  shows "\<exists>s1. moves d s d s1 \<and> s' = (if rc = None then s1 else qrtr_node_release (route_node fn) s1)"
proof -
  obtain got s1 where a: "skb_alloc e s = (got, s1)"
    by fastforce
  obtain copied s2 where c: "ask e s1 = (copied, s2)"
    by fastforce
  let ?us = "sock_us k s2"
  let ?cmd = "if sq_port ?us = ua_ctrl u then le32 msg 0 else ua_data u"
  obtain rc3 s3 where r: "run_enqueue e u fn \<lparr>sb_cb = empty_cb, sb_data = msg, sb_sk = Some k\<rparr> ?cmd ?us dst s2 = (rc3, s3)"
    by fastforce
  have m2: "moves d s (Suc d) s2" if got
    using moves_trans [OF _ moves_ask [OF c]] moves_alloc [OF a, of d] that by simp
  show ?thesis
  proof (cases "\<not> got")
    case True
    with assms a moves_alloc [OF a, of d] show ?thesis by (auto simp: send_packet_def)
  next
    case got: False
    show ?thesis
    proof (cases "\<not> copied \<or> sq_port ?us = ua_ctrl u \<and> length msg < 4")
      case True
      with assms a c got have "s' = qrtr_node_release (route_node fn) (kfree_skb s2) \<and> rc \<noteq> None"
        by (cases copied) (auto simp: send_packet_def Let_def)
      then show ?thesis
        using moves_trans [OF m2 moves_free] got by auto
    next
      case False
      with assms a c r got have "s' = (if rc = None then s3 else qrtr_node_release (route_node fn) s3)"
        by (auto simp: send_packet_def Let_def split: option.splits)
      then show ?thesis
        using moves_trans [OF m2 run_enqueue_moves [OF r]] got by auto
    qed
  qed
qed

lemma keeps_send_to:
  assumes "send_to e u k addr msg s = (rc, s')"
  shows "keeps d s d s'"
proof -
  obtain r s1 where route: "send_route u k addr s = (r, s1)"
    by fastforce
  have s1: "keeps d s d s1"
    using route keeps_moves [OF moves_refl] keeps_acquire
    by (auto simp: send_route_def qrtr_node_lookup_def split: if_splits option.splits)
  show ?thesis
  proof (cases r)
    case (Inl err)
    with assms route s1 show ?thesis by (simp add: send_to_def)
  next
    case (Inr fn)
    then have "send_packet e u k fn addr msg s1 = (rc, s')"
      using assms route by (simp add: send_to_def)
    from send_packet_moves [OF this, of d] show ?thesis
      using keeps_trans [OF s1 keeps_moves] keeps_trans [OF keeps_trans [OF s1 keeps_moves] keeps_release] by auto
  qed
qed

lemma core_sendmsg:
  assumes u: "core_uapi_ok u" and inv: "core_inv u s" and "qrtr_sendmsg e u k ok name msg s = (rc, s')"
  shows "core_inv u s'"
proof (cases name)
  case None
  with assms(3) inv show ?thesis
    by (auto simp: qrtr_sendmsg_def intro: keeps_core [OF keeps_send_to inv] split: if_splits option.splits)
next
  case (Some a)
  obtain r s1 where b: "qrtr_autobind e u k s = (r, s1)"
    by fastforce
  have s1: "core_inv u s1"
    by (rule core_autobind [OF u inv b])
  from assms(3) Some b inv s1 show ?thesis
    by (cases a) (auto simp: qrtr_sendmsg_def intro: keeps_core [OF keeps_send_to s1] split: if_splits)
qed

lemma resume_never_sleeps:
  assumes "core_uapi_ok u"
  shows "fst (qrtr_node_enqueue e u n skb (ua_cmd u CMD_RESUME_TX) src dst s) \<noteq> None"
  using assms
  by (auto simp: qrtr_node_enqueue_def node_wait_def qrtr_tx_wait_def core_uapi_ok_def split: option.splits prod.splits)

text \<open>
  The answer to a confirmation request. The node is given back as it was, except when the
  control packet cannot be allocated.
\<close>

lemma send_resume_tx_spec:
  assumes u: "core_uapi_ok u" and "qrtr_send_resume_tx e u cb s = (rc, s')"
  shows "keeps d s d s' \<and> rc \<noteq> None"
proof (cases "xa_load (co_nodes s) (cb_src_node cb)")
  case None
  with assms(2) show ?thesis
    by (auto simp: qrtr_send_resume_tx_def qrtr_node_lookup_def intro: keeps_moves moves_refl)
next
  case (Some n)
  obtain got s2 where a: "skb_alloc e (qrtr_node_acquire n s) = (got, s2)"
    by fastforce
  let ?cmd = "ua_cmd u CMD_RESUME_TX"
  let ?skb = "\<lparr>sb_cb = empty_cb, sb_data = client_pkt ?cmd (cb_dst_node cb) (cb_dst_port cb), sb_sk = None\<rparr>"
  let ?src = "\<lparr>sq_node = cb_dst_node cb, sq_port = cb_dst_port cb\<rparr>" and ?dst = "\<lparr>sq_node = cb_src_node cb, sq_port = cb_src_port cb\<rparr>"
  obtain r s3 where q: "qrtr_node_enqueue e u n ?skb ?cmd ?src ?dst s2 = (r, s3)"
    by fastforce
  have "r \<noteq> None"
    using resume_never_sleeps [OF u, of e n ?skb ?src ?dst s2] q by simp
  then have eq: "(rc, s') = (if got then (r, qrtr_node_release (Some n) s3) else (Some (- ENOMEM), s2))"
    using assms(2) Some a q by (auto simp: qrtr_send_resume_tx_def qrtr_node_lookup_def Let_def split: if_splits)
  have "keeps d s (if got then Suc d else d) s2"
    using keeps_trans [OF keeps_acquire keeps_moves [OF moves_alloc [OF a, of d]]] .
  then show ?thesis
    using eq keeps_trans [OF _ keeps_trans [OF keeps_moves [OF moves_node_enqueue [OF q, of d]] keeps_release]] \<open>r \<noteq> None\<close>
    by (auto split: if_splits)
qed

text \<open>Taking the first packet from the queue of a socket.\<close>

lemma keeps_pop:
  assumes sk: "xa_load (co_socks s) k = Some sk" "sk_queue sk = skb # q"
  shows "keeps d s (Suc d) (upd_sock k (\<lambda>sk. sk\<lparr>sk_queue := q\<rparr>) s)"
  unfolding keeps_def
proof (intro impI)
  assume inv: "base_inv d s"
  then have ok: "xa_ok (co_socks s)"
    by (simp add: base_inv_def table_inv_def)
  have "same_socks s (upd_sock k (\<lambda>sk. sk\<lparr>sk_queue := q\<rparr>) s)"
    using sk ok by (simp add: upd_sock_some same_socks_def xa.load_store sock_meta_def)
  moreover have "base_inv (Suc d) (upd_sock k (\<lambda>sk. sk\<lparr>sk_queue := q\<rparr>) s)"
    using inv queued_store [OF ok sk(1), of "sk\<lparr>sk_queue := q\<rparr>"] sk(2)
    unfolding base_inv_def by (simp add: table_inv_upd_sock) (simp add: sk(1) upd_sock_some node_inv_def live_inv_def)
  moreover have "all_inv s \<longrightarrow> all_inv (upd_sock k (\<lambda>sk. sk\<lparr>sk_queue := q\<rparr>) s)"
    using sk by (simp add: upd_sock_some all_inv_def)
  ultimately show "base_inv (Suc d) (upd_sock k (\<lambda>sk. sk\<lparr>sk_queue := q\<rparr>) s) \<and>
      same_socks s (upd_sock k (\<lambda>sk. sk\<lparr>sk_queue := q\<rparr>) s) \<and>
      (all_inv s \<longrightarrow> all_inv (upd_sock k (\<lambda>sk. sk\<lparr>sk_queue := q\<rparr>) s))"
    by simp
qed

lemma core_recvmsg:
  assumes u: "core_uapi_ok u" and inv: "core_inv u s" and rcv: "qrtr_recvmsg e u k sz peek nodata s = (res, s')"
  shows "core_inv u s'"
proof (cases "\<exists>skb s1. \<not> sock_zapped k s \<and> recv_datagram k peek nodata s = (Inr skb, s1)")
  case False
  then show ?thesis
    using rcv inv core_upd_sock [OF inv, of "\<lambda>sk. sk\<lparr>sk_err := 0\<rparr>" k]
    by (auto simp: qrtr_recvmsg_def recv_datagram_def split: if_splits option.splits list.splits)
next
  case True
  then obtain skb s1 where z: "\<not> sock_zapped k s" and r: "recv_datagram k peek nodata s = (Inr skb, s1)"
    by blast
  have s1: "keeps 0 s (if peek then 0 else 1) s1"
    using r keeps_moves [OF moves_refl, of 0 s] keeps_pop [of s k _ skb _ 0]
    by (auto simp: recv_datagram_def split: if_splits option.splits list.splits)
  obtain ok s2 where a: "ask e s1 = (ok, s2)"
    by fastforce
  define s3 where "s3 = (if cb_confirm_rx (sb_cb skb) then snd (qrtr_send_resume_tx e u (sb_cb skb) s2) else s2)"
  have "keeps d s2 d s3" for d
    using send_resume_tx_spec [OF u surjective_pairing] keeps_moves [OF moves_refl] by (auto simp: s3_def)
  then have "keeps 0 s (if peek then 0 else 1) s3"
    using keeps_trans [OF s1 keeps_trans [OF keeps_moves [OF moves_ask [OF a]]]] by blast
  then have "keeps 0 s 0 (if peek then s3 else kfree_skb s3)"
    using keeps_trans [OF _ keeps_moves [OF moves_free, of 0]] by auto
  moreover have "s' = (if peek then s3 else kfree_skb s3)"
    using rcv z r a by (auto simp: qrtr_recvmsg_def Let_def s3_def)
  ultimately show ?thesis
    using keeps_core inv by blast
qed

section \<open>Endpoints\<close>

lemma core_register:
  assumes inv: "core_inv u s" and fresh: "xa_load (co_node s) n = None"
    and "qrtr_endpoint_register e u endpoint nid n s = (rc, s')"
  shows "core_inv u s'"
proof -
  have ok: "xa_ok (co_node s)"
    using inv by (simp add: core_inv_def base_inv_def node_inv_def)
  have t: "core_inv u (s\<lparr>co_tick := Suc (co_tick s)\<rparr>)"
    using core_inv_same [OF inv] moves_tick [of 0 s "Suc (co_tick s)"] inv by (auto simp: moves_def core_inv_def)
  have new: "core_inv u (s2\<lparr>co_all := n # co_all s2\<rparr>)"
    if s2: "s2 = qrtr_node_assign e u n nid (s\<lparr>co_tick := Suc (co_tick s), co_node := xa_store (co_node s) n (node_fresh ep u)\<rparr>)"
    for ep s2
  proof -
    let ?s1 = "s\<lparr>co_tick := Suc (co_tick s), co_node := xa_store (co_node s) n (node_fresh ep u)\<rparr>"
    have b1: "base_inv 0 ?s1" "same_socks s ?s1"
      using inv fresh
      by (auto simp: core_inv_def base_inv_def table_inv_def node_inv_def live_inv_def same_socks_def node_fresh_def flows_ok_def
          xa.ok_store [OF ok] xa.load_store [OF ok])
    have "keeps 0 ?s1 0 s2"
      unfolding s2 by (rule keeps_assign) (simp add: xa.load_store [OF ok])
    then have k: "base_inv 0 s2" "same_socks ?s1 s2"
      using b1 by (simp_all add: keeps_def)
    have all: "co_all s2 = co_all s" "xa_load (co_node s2) m = None \<longleftrightarrow> m \<noteq> n \<and> xa_load (co_node s) m = None" for m
      using assign_present [of ?s1 e u n nid m] assign_all [of e u n nid ?s1]
      by (auto simp: s2 xa.ok_store [OF ok] xa.load_store [OF ok])
    have "same_socks s s2"
      using b1(2) k(2) by (simp add: same_socks_def)
    then have "bound_inv u s2"
      using same_bound inv by (auto simp: core_inv_def)
    with k(1) all inv fresh show ?thesis
      by (auto simp: core_inv_def all_inv_def base_inv_def table_inv_def node_inv_def live_inv_def bound_inv_def)
  qed
  show ?thesis
    using assms(3) inv t new
    by (auto simp: qrtr_endpoint_register_def ask_def Let_def split: option.splits if_splits)
qed

lemma moves_bye_nodes: "moves d s d (bye_nodes e u nids s)"
proof (induction nids arbitrary: s)
  case Nil
  then show ?case by (simp add: moves_refl)
next
  case (Cons nid nids)
  obtain got s1 where a: "skb_alloc e s = (got, s1)"
    by fastforce
  show ?case
  proof (cases got)
    case True
    then have m: "moves d s d (snd (qrtr_local_enqueue e u skb src dst s1))" for skb src dst
      using moves_trans [OF _ moves_local_enqueue [OF surjective_pairing]] moves_alloc [OF a, of d] by simp
    from True a show ?thesis
      by (simp add: moves_trans [OF m Cons.IH])
  next
    case False
    with a moves_alloc [OF a, of d] Cons.IH show ?thesis
      by (auto intro: moves_trans)
  qed
qed

lemma core_unregister: "core_inv u s \<Longrightarrow> core_inv u (qrtr_endpoint_unregister e u n s)"
proof -
  have "keeps 0 s 0 (upd_node n (\<lambda>nd. nd\<lparr>nd_ep := None\<rparr>) s)"
    by (rule keeps_upd_node) simp
  then have "keeps 0 s 0 (qrtr_endpoint_unregister e u n s)"
    unfolding qrtr_endpoint_unregister_def Let_def
    using keeps_trans [OF _ keeps_trans [OF keeps_moves [OF moves_bye_nodes] keeps_release]] by blast
  then show "core_inv u s \<Longrightarrow> ?thesis"
    by (rule keeps_core)
qed

section \<open>Runs\<close>

text \<open>
  The calls of sockets and endpoint drivers. A call on a handle that does not exist is not
  possible: it changes nothing; new sockets and nodes come from the allocator, which returns
  a fresh one.
\<close>

datatype core_op =
  Op_create bool u32 | Op_release u32 | Op_bind u32 user_addr | Op_connect u32 user_addr |
  Op_sendmsg u32 bool "user_addr option" bytes | Op_recvmsg u32 nat bool int |
  Op_register "u32 option" u32 u32 | Op_unregister u32 | Op_post u32 bytes

fun core_step :: "core_env \<Rightarrow> core_uapi \<Rightarrow> core \<Rightarrow> core_op \<Rightarrow> core" where
  "core_step e u s (Op_create dgram k) = (if xa_load (co_socks s) k \<noteq> None then s else snd (qrtr_create e dgram k s))"
| "core_step e u s (Op_release k) = (if xa_load (co_socks s) k = None then s else snd (qrtr_release e u k s))"
| "core_step e u s (Op_bind k addr) = (if xa_load (co_socks s) k = None then s else snd (qrtr_bind e u k addr s))"
| "core_step e u s (Op_connect k addr) = (if xa_load (co_socks s) k = None then s else snd (qrtr_connect e u k addr s))"
| "core_step e u s (Op_sendmsg k ok name msg) =
     (if xa_load (co_socks s) k = None then s else snd (qrtr_sendmsg e u k ok name msg s))"
| "core_step e u s (Op_recvmsg k sz peek nodata) =
     (if xa_load (co_socks s) k = None then s else snd (qrtr_recvmsg e u k sz peek nodata s))"
| "core_step e u s (Op_register endpoint nid n) =
     (if xa_load (co_node s) n \<noteq> None then s else snd (qrtr_endpoint_register e u endpoint nid n s))"
| "core_step e u s (Op_unregister n) = (if xa_load (co_node s) n = None then s else qrtr_endpoint_unregister e u n s)"
| "core_step e u s (Op_post n d) =
     (if xa_load (co_node s) n = None then s
      else (case qrtr_endpoint_post e u n d s of Inl _ \<Rightarrow> s | Inr (_, s') \<Rightarrow> s'))"

lemma core_step_inv:
  assumes u: "core_uapi_ok u" and inv: "core_inv u s"
  shows "core_inv u (core_step e u s opn)"
proof (cases opn)
  case (Op_post n d)
  show ?thesis
  proof (cases "xa_load (co_node s) n")
    case None
    with Op_post inv show ?thesis by simp
  next
    case (Some nd)
    then obtain rc s' where "qrtr_endpoint_post e u n d s = Inr (rc, s')" "keeps 0 s 0 s'"
      using keeps_endpoint_post [of s n e u d 0] by auto
    with Op_post Some inv show ?thesis
      by (simp add: keeps_core)
  qed
qed (use inv core_create [OF inv _ surjective_pairing] core_release [OF inv] core_bind [OF u inv surjective_pairing]
    core_connect [OF u inv surjective_pairing] core_sendmsg [OF u inv surjective_pairing]
    core_recvmsg [OF u inv surjective_pairing] core_register [OF inv _ surjective_pairing] core_unregister [OF inv]
    in \<open>auto\<close>)

definition core_init :: core where
  "core_init = \<lparr>co_socks = [], co_ports = [], co_node = [], co_nodes = [], co_all = [], co_sent = [], co_tick = 0,
     co_live = 0, co_asleep = 0\<rparr>"

lemma core_init_inv: "core_inv u core_init"
  by (simp add: core_init_def core_inv_def base_inv_def table_inv_def node_inv_def live_inv_def bound_inv_def all_inv_def
      queued_def xa_total_def xa_ok_def xa_load_def)

interpretation core_run: stepper "core_step e u" "\<lambda>s. core_uapi_ok u \<and> core_inv u s"
  for e u
  by unfold_locales (simp add: core_step_inv)

text \<open>
  C2. Whatever sockets and drivers call, in whatever order and whichever services fail: a port
  names exactly the socket that is bound to it, the node table and the broadcast list name
  exactly the nodes that are allocated, every packet buffer is in a queue or held by a
  sleeping sender, and no flow counter leaves its range.
\<close>

theorem core_run_safe:
  assumes "core_uapi_ok u" and s: "s = foldl (core_step e u) core_init ops"
  shows "(\<forall>p k. xa_load (co_ports s) p = Some k \<longleftrightarrow>
       (\<exists>sk. xa_load (co_socks s) k = Some sk \<and> \<not> sk_zapped sk \<and> p = port_index u (sq_port (sk_us sk)))) \<and>
    (\<forall>nid n. xa_load (co_nodes s) nid = Some n \<longrightarrow> n \<in> set (co_all s)) \<and>
    distinct (co_all s) \<and> (\<forall>n. n \<in> set (co_all s) \<longleftrightarrow> xa_load (co_node s) n \<noteq> None) \<and>
    co_live s = co_asleep s + queued (co_socks s) \<and>
    (\<forall>n nd key f. xa_load (co_node s) n = Some nd \<and> nd_flows nd key = Some f \<longrightarrow> 0 \<le> fl_pending f \<and> fl_pending f \<le> 10)"
proof -
  have inv: "core_inv u s"
    using core_run.run_inv [of u core_init e ops] assms core_init_inv by simp
  then have p: "xa_load (co_ports s) p = Some k \<longleftrightarrow>
      (\<exists>sk. xa_load (co_socks s) k = Some sk \<and> \<not> sk_zapped sk \<and> p = port_index u (sq_port (sk_us sk)))" for p k
    unfolding core_inv_def bound_inv_def base_inv_def table_inv_def by metis
  show ?thesis
    unfolding p using inv
    by (auto simp: core_inv_def all_inv_def base_inv_def node_inv_def live_inv_def flows_ok_def QRTR_TX_FLOW_HIGH_def)
qed

definition demo_core_env :: core_env where
  "demo_core_env = \<lparr>ce_ok = (\<lambda>_. True), ce_xmit = (\<lambda>_. 0), ce_signal = (\<lambda>_. False), ce_admin = True\<rparr>"

definition demo_ops :: "core_op list" where
  "demo_ops = [Op_create True 7, Op_bind 7 (True, \<lparr>sq_node = 1, sq_port = 0x4001\<rparr>), Op_create True 8,
     Op_bind 8 (True, \<lparr>sq_node = 1, sq_port = 0x4002\<rparr>),
     Op_sendmsg 8 True (Some (True, \<lparr>sq_node = 1, sq_port = 0x4001\<rparr>)) [1, 2]]"

lemma linux_core_ok: "core_uapi_ok linux_core"
  by (simp add: core_uapi_ok_def QRTR_MAX_EPH_SOCKET_def linux_uapi_def)

theorem core_run_safe_witness:
  "co_live (foldl (core_step demo_core_env linux_core) core_init demo_ops) =
     co_asleep (foldl (core_step demo_core_env linux_core) core_init demo_ops) +
     queued (co_socks (foldl (core_step demo_core_env linux_core) core_init demo_ops)) \<and>
   co_live (foldl (core_step demo_core_env linux_core) core_init demo_ops) = 1"
proof -
  have "co_live (foldl (core_step demo_core_env linux_core) core_init demo_ops) = 1"
    by (simp add: demo_ops_def demo_core_env_def core_init_def qrtr_create_def qrtr_bind_def qrtr_bind_port_def qrtr_port_assign_def
        port_insert_def ask_def sock_fresh_def sock_us_def sock_zapped_def qrtr_local_nid_def port_index_def sock_hold_def
        upd_sock_def xa_load_def qrtr_sendmsg_def qrtr_autobind_def send_to_def send_route_def send_packet_def skb_alloc_def
        run_enqueue_def qrtr_local_enqueue_def qrtr_port_lookup_def qrtr_port_put_def push_skb_def sock_put_def
        sock_unhold_def qrtr_node_release_def route_node_def Let_def QRTR_MIN_EPH_SOCKET_def)
  then show ?thesis
    using core_run_safe [OF linux_core_ok refl, of demo_core_env demo_ops] by simp
qed

end
