(* ===== verification/Qrtr_Transfer.thy ===== *)
theory Qrtr_Transfer
  imports Qrtr_Core_Props
begin

text \<open>
  A message on its way from a socket of one node to a socket of another: the sending half, the
  frame on the wire, the receiving half, and what the receiver reads. Then the one path on
  which the reference of a node is lost.
\<close>

section \<open>The sending half\<close>

text \<open>Services that always succeed.\<close>

definition good_env :: "core_env \<Rightarrow> bool" where
  "good_env e \<longleftrightarrow> (\<forall>t. ce_ok e t) \<and> (\<forall>t. ce_xmit e t = 0)"

lemma node_enqueue_sends:
  assumes e: "good_env e" and nd: "xa_load (co_node s) n = Some nd" "nd_ep nd = Some ep" and ok: "xa_ok (co_node s)"
    and room: "fl_pending (flow_at (sq_node dst) (sq_port dst) (nd_flows nd)) < QRTR_TX_FLOW_HIGH"
  shows "\<exists>c s'. qrtr_node_enqueue e u n skb (ua_data u) src dst s = (Some 0, s') \<and>
    co_sent s' = co_sent s @ [(ep, tx_frame u (nd_nid nd) (ua_data u) src dst (sb_data skb) c)]"
proof -
  obtain c flows where w: "qrtr_tx_wait u True (ce_signal e (co_tick s)) True (sq_node dst) (sq_port dst) (ua_data u) (nd_flows nd) =
      (Some c, flows)" "0 \<le> c"
    using tx_wait_room [OF room] by blast
  let ?s1 = "upd_node n (\<lambda>nd. nd\<lparr>nd_flows := flows\<rparr>) (s\<lparr>co_tick := Suc (co_tick s)\<rparr>)"
  have wait: "node_wait e u n (ua_data u) dst s = (Some c, ?s1)"
    using e nd w by (simp add: node_wait_def good_env_def)
  have s1: "?s1 = s\<lparr>co_tick := Suc (co_tick s), co_node := xa_store (co_node s) n (nd\<lparr>nd_flows := flows\<rparr>)\<rparr>"
    using nd by (simp add: upd_node_def)
  have nid: "node_nid n ?s1 = nd_nid nd"
    by (simp add: s1 node_nid_def xa.load_store [OF ok])
  show ?thesis
    using e nd(2) w wait nid
    by (auto simp: qrtr_node_enqueue_def node_xmit_def ask_def good_env_def s1 xa.load_store [OF ok] kfree_skb_def)
qed

lemma release_sent: "co_sent (qrtr_node_release node s) = co_sent s"
  by (auto simp: qrtr_node_release_def qrtr_node_free_def upd_node_def split: option.splits)

lemma sendmsg_sends:
  assumes e: "good_env e" and inv: "core_inv u s"
    and sk: "xa_load (co_socks s) k = Some sk" "\<not> sk_zapped sk" "sq_port (sk_us sk) \<noteq> ua_ctrl u"
    and route: "sq_node dst \<noteq> ua_bcast u" "sq_node dst \<noteq> sq_node (sk_us sk)" "xa_load (co_nodes s) (sq_node dst) = Some n"
    and nd: "xa_load (co_node s) n = Some nd" "nd_ep nd = Some ep"
    and room: "fl_pending (flow_at (sq_node dst) (sq_port dst) (nd_flows nd)) < QRTR_TX_FLOW_HIGH"
    and len: "length msg \<le> 65535"
  shows "\<exists>c s'. qrtr_sendmsg e u k True (Some (True, dst)) msg s = (Some (int (length msg)), s') \<and>
    co_sent s' = co_sent s @ [(ep, tx_frame u (nd_nid nd) (ua_data u) (sk_us sk) dst msg c)]"
proof -
  let ?nd = "nd\<lparr>nd_ref := Suc (nd_ref nd)\<rparr>" and ?skb = "\<lparr>sb_cb = empty_cb, sb_data = msg, sb_sk = Some k\<rparr>"
  define s1 where "s1 = s\<lparr>co_node := xa_store (co_node s) n ?nd\<rparr>"
  define s2 where "s2 = s1\<lparr>co_live := Suc (co_live s), co_tick := Suc (Suc (co_tick s))\<rparr>"
  have ok: "xa_ok (co_node s)"
    using inv by (simp add: core_inv_def base_inv_def node_inv_def)
  have r: "send_route u k dst s = (Inr (Node_enqueue n), s1)"
    using sk route nd by (simp add: send_route_def sock_us_def qrtr_node_lookup_def qrtr_node_acquire_def upd_node_def s1_def)
  have n2: "xa_load (co_node s2) n = Some ?nd" "xa_ok (co_node s2)" "co_sent s2 = co_sent s"
    by (simp_all add: s2_def s1_def xa.load_store [OF ok] xa.ok_store [OF ok])
  obtain c s3 where q: "qrtr_node_enqueue e u n ?skb (ua_data u) (sk_us sk) dst s2 = (Some 0, s3)"
    "co_sent s3 = co_sent s @ [(ep, tx_frame u (nd_nid nd) (ua_data u) (sk_us sk) dst msg c)]"
    using node_enqueue_sends [OF e n2(1) _ n2(2), of ep dst u ?skb "sk_us sk"] nd room n2(3) by auto
  have "send_packet e u k (Node_enqueue n) dst msg s1 = (Some (int (length msg)), qrtr_node_release (Some n) s3)"
    using e sk q
    by (auto simp: send_packet_def skb_alloc_def ask_def good_env_def Let_def run_enqueue_def route_node_def sock_us_def
        s2_def s1_def)
  then have "qrtr_sendmsg e u k True (Some (True, dst)) msg s = (Some (int (length msg)), qrtr_node_release (Some n) s3)"
    using sk len r by (simp add: qrtr_sendmsg_def qrtr_autobind_def sock_zapped_def send_to_def)
  then show ?thesis
    using q(2) by (auto simp: release_sent)
qed

section \<open>The receiving half\<close>

lemma assign_fields:
  "co_socks (qrtr_node_assign e u n nid s) = co_socks s" "co_ports (qrtr_node_assign e u n nid s) = co_ports s"
  by (auto simp: qrtr_node_assign_def ask_def upd_node_def split: option.splits)

text \<open>What the numbers of the user interface have to be for data packets.\<close>

definition data_uapi_ok :: "core_uapi \<Rightarrow> bool" where
  "data_uapi_ok u \<longleftrightarrow> core_uapi_ok u \<and> ucast (ucast (ua_data u) :: u8) = ua_data u \<and>
     ua_data u \<noteq> ua_cmd u CMD_NEW_SERVER"

definition rx_data_cb :: "core_uapi \<Rightarrow> u32 \<Rightarrow> sockaddr_qrtr \<Rightarrow> sockaddr_qrtr \<Rightarrow> bool \<Rightarrow> qrtr_cb" where
  "rx_data_cb u nid src dst c =
     \<lparr>cb_src_node = sq_node src, cb_src_port = sq_port src,
      cb_dst_node = (if sq_port dst = ua_ctrl u then nid else sq_node dst),
      cb_dst_port = (if sq_port dst = QRTR_PORT_CTRL_LEGACY then ua_ctrl u else sq_port dst),
      cb_type = ucast (ua_data u), cb_confirm_rx = c\<rparr>"

lemma rx_data_packet:
  assumes u: "data_uapi_ok u" and msg: "msg \<noteq> []" "length msg < 2 ^ 32"
  shows "rx_packet u (tx_frame u nid (ua_data u) src dst msg c) = Inr (Some (rx_data_cb u nid src dst c, msg))"
proof -
  let ?cb = "cb_of_v1 (tx_hdr u nid (ua_data u) src dst (length msg) c)"
  have "rx_accepts u ?cb (length msg)"
    using u msg(1)
    by (auto simp: rx_accepts_def cb_of_v1_def tx_hdr_def data_uapi_ok_def core_uapi_ok_def)
  moreover have "rx_cb u ?cb = rx_data_cb u nid src dst c"
    by (auto simp: rx_cb_def cb_of_v1_def tx_hdr_def rx_data_cb_def)
  ultimately show ?thesis
    using rx_tx_frame [OF msg(2), of u nid "ua_data u" src dst c] by (simp add: Let_def)
qed

lemma post_delivers:
  assumes u: "data_uapi_ok u" and e: "good_env e" and inv: "core_inv u s" and n: "xa_load (co_node s) n = Some nd"
    and msg: "msg \<noteq> []" "length msg < 2 ^ 32" and frame: "frame = tx_frame u nid (ua_data u) src dst msg c"
    and port: "xa_load (co_ports s) (port_index u (cb_dst_port (rx_data_cb u nid src dst c))) = Some k"
    and sk: "xa_load (co_socks s) k = Some sk"
  shows "\<exists>s'. qrtr_endpoint_post e u n frame s = Inr (0, s') \<and>
    xa_load (co_socks s') k =
      Some (sk\<lparr>sk_queue := sk_queue sk @ [\<lparr>sb_cb = rx_data_cb u nid src dst c, sb_data = msg, sb_sk = None\<rparr>]\<rparr>) \<and>
    co_ports s' = co_ports s"
proof -
  let ?cb = "rx_data_cb u nid src dst c"
  define s1 where "s1 = s\<lparr>co_tick := Suc (co_tick s), co_live := Suc (co_live s)\<rparr>"
  have a: "skb_alloc e s = (True, s1)"
    using e by (simp add: skb_alloc_def ask_def good_env_def s1_def)
  define s2 where "s2 = qrtr_node_assign e u n (cb_src_node ?cb) s1"
  have cmd: "cb_cmd ?cb = ua_data u"
    using u by (simp add: cb_cmd_def rx_data_cb_def data_uapi_ok_def)
  have f: "co_socks s2 = co_socks s" "co_ports s2 = co_ports s"
    by (simp_all add: s2_def s1_def assign_fields)
  have ok: "xa_ok (co_socks s)" and t2: "table_inv s2"
    using inv f by (simp_all add: core_inv_def base_inv_def table_inv_def)
  have "post_deliver e u n ?cb msg s1 = post_queue e u ?cb msg s2"
    using u cmd post_queue_eq [OF t2]
    by (auto simp: post_deliver_def Let_def s2_def [symmetric] data_uapi_ok_def core_uapi_ok_def)
  also have "\<dots> = (0, push_skb k \<lparr>sb_cb = ?cb, sb_data = msg, sb_sk = None\<rparr> (s2\<lparr>co_tick := Suc (co_tick s2)\<rparr>))"
    using e port f by (simp add: post_queue_def good_env_def)
  finally have d: "post_deliver e u n ?cb msg s1 = \<dots>" .
  have "length frame \<noteq> 0" "length frame mod 4 = 0"
    using align4_bounds(3) [of "length msg"]
    by (simp_all add: frame tx_frame_padded put_length length_padded hdr_v1_size_def) presburger
  with a d rx_data_packet [OF u msg] show ?thesis
    using sk f by (simp add: qrtr_endpoint_post_def frame push_skb_def upd_sock_def xa.load_store [OF ok])
qed

lemma recvmsg_reads:
  assumes "good_env e" and sk: "xa_load (co_socks s) k = Some sk" "\<not> sk_zapped sk" "sk_err sk = 0" "sk_queue sk = skb # q"
    and "length (sb_data skb) \<le> sz"
  shows "fst (qrtr_recvmsg e u k sz peek nodata s) =
    \<lparr>rv_rc = int (length (sb_data skb)), rv_data = sb_data skb,
     rv_from = Some \<lparr>sq_node = cb_src_node (sb_cb skb), sq_port = cb_src_port (sb_cb skb)\<rparr>, rv_trunc = False\<rparr>"
  using assms by (simp add: qrtr_recvmsg_def recv_datagram_def sock_zapped_def ask_def good_env_def Let_def)

text \<open>
  C1. A message that a bound socket sends to a port of another node is accepted in full and
  handed to the endpoint of that node as one frame; posted on the other side the frame puts
  exactly this message at the end of the queue of the socket that has the port, and when
  it comes first a receive call returns it with the address of the sender.
\<close>

theorem message_delivered:
  assumes u: "data_uapi_ok u" and e: "good_env e" and inv: "core_inv u s" "core_inv u r"
    and sk: "xa_load (co_socks s) k = Some sk" "\<not> sk_zapped sk" "sq_port (sk_us sk) \<noteq> ua_ctrl u"
    and route: "sq_node dst \<noteq> ua_bcast u" "sq_node dst \<noteq> sq_node (sk_us sk)" "xa_load (co_nodes s) (sq_node dst) = Some n"
    and nd: "xa_load (co_node s) n = Some nd" "nd_ep nd = Some ep"
    and room: "fl_pending (flow_at (sq_node dst) (sq_port dst) (nd_flows nd)) < QRTR_TX_FLOW_HIGH"
    and msg: "msg \<noteq> []" "length msg \<le> 65535"
    and dst: "sq_port dst \<noteq> ua_ctrl u" "sq_port dst \<noteq> QRTR_PORT_CTRL_LEGACY"
    and rcv: "xa_load (co_node r) m = Some md" "xa_load (co_ports r) (sq_port dst) = Some j" "xa_load (co_socks r) j = Some sj"
  shows "\<exists>s' frame r' skb.
    qrtr_sendmsg e u k True (Some (True, dst)) msg s = (Some (int (length msg)), s') \<and>
    co_sent s' = co_sent s @ [(ep, frame)] \<and>
    qrtr_endpoint_post e u m frame r = Inr (0, r') \<and>
    xa_load (co_socks r') j = Some (sj\<lparr>sk_queue := sk_queue sj @ [skb]\<rparr>) \<and> sb_data skb = msg \<and>
    (sk_queue sj = [] \<and> sk_err sj = 0 \<longrightarrow>
      fst (qrtr_recvmsg e u j (length msg) False nodata r') =
        \<lparr>rv_rc = int (length msg), rv_data = msg, rv_from = Some (sk_us sk), rv_trunc = False\<rparr>)"
proof -
  obtain c s' where s': "qrtr_sendmsg e u k True (Some (True, dst)) msg s = (Some (int (length msg)), s')"
    "co_sent s' = co_sent s @ [(ep, tx_frame u (nd_nid nd) (ua_data u) (sk_us sk) dst msg c)]"
    using sendmsg_sends [OF e inv(1) sk route nd room msg(2)] by blast
  let ?cb = "rx_data_cb u (nd_nid nd) (sk_us sk) dst c"
  let ?skb = "\<lparr>sb_cb = ?cb, sb_data = msg, sb_sk = None\<rparr>"
  have len: "length msg < 2 ^ 32"
    using msg(2) by (rule le_less_trans) simp
  have "port_index u (cb_dst_port ?cb) = sq_port dst"
    using dst by (simp add: rx_data_cb_def port_index_def)
  then obtain r' where r': "qrtr_endpoint_post e u m (tx_frame u (nd_nid nd) (ua_data u) (sk_us sk) dst msg c) r = Inr (0, r')"
    "xa_load (co_socks r') j = Some (sj\<lparr>sk_queue := sk_queue sj @ [?skb]\<rparr>)"
    using post_delivers [OF u e inv(2) rcv(1) msg(1) len refl _ rcv(3), where nid = "nd_nid nd" and src = "sk_us sk" and dst = dst and c = c]
      rcv(2) by auto
  have "\<not> sk_zapped sj"
    using inv(2) rcv(2,3) unfolding core_inv_def bound_inv_def by metis
  then have "fst (qrtr_recvmsg e u j (length msg) False nodata r') =
      \<lparr>rv_rc = int (length msg), rv_data = msg, rv_from = Some (sk_us sk), rv_trunc = False\<rparr>"
    if "sk_queue sj = [] \<and> sk_err sj = 0"
    using that recvmsg_reads [OF e r'(2), of ?skb "[]" "length msg" u False nodata] by (simp add: rx_data_cb_def)
  with s' r' show ?thesis
    by (metis sk_buff.select_convs(2))
qed

text \<open>A node with a bound socket and a neighbour, on either side.\<close>

definition demo_sender :: core where
  "demo_sender = foldl (core_step demo_core_env linux_core) core_init
     [Op_create True 7, Op_bind 7 (True, \<lparr>sq_node = 1, sq_port = 0x4001\<rparr>), Op_register (Some 3) 5 9]"

definition demo_receiver :: core where
  "demo_receiver = foldl (core_step demo_core_env linux_core) core_init
     [Op_create True 8, Op_bind 8 (True, \<lparr>sq_node = 1, sq_port = 0x4002\<rparr>), Op_register (Some 4) 0xffffffff 11]"

lemma demo_nodes_inv: "core_inv linux_core demo_sender" "core_inv linux_core demo_receiver"
  using core_run.run_inv [of linux_core core_init demo_core_env] linux_core_ok core_init_inv
  by (simp_all add: demo_sender_def demo_receiver_def del: foldl_Cons)

lemmas demo_run = demo_core_env_def core_init_def qrtr_create_def qrtr_bind_def qrtr_bind_port_def qrtr_port_assign_def
  port_insert_def ask_def sock_fresh_def sock_us_def sock_zapped_def qrtr_local_nid_def port_index_def sock_hold_def
  upd_sock_def xa_load_def Let_def QRTR_MIN_EPH_SOCKET_def qrtr_endpoint_register_def qrtr_node_assign_def upd_node_def
  node_fresh_def

lemma demo_sender_eq:
  "demo_sender = \<lparr>co_socks = [(7, \<lparr>sk_zapped = False, sk_us = \<lparr>sq_node = 1, sq_port = 0x4001\<rparr>,
       sk_peer = \<lparr>sq_node = 0, sq_port = 0\<rparr>, sk_established = False, sk_err = 0, sk_queue = [], sk_refs = 2\<rparr>)],
     co_ports = [(0x4001, 7)], co_node = [(9, \<lparr>nd_ep = Some 3, nd_ref = 1, nd_nid = 5, nd_flows = Map.empty\<rparr>)],
     co_nodes = [(5, 9)], co_all = [9], co_sent = [], co_tick = 4, co_live = 0, co_asleep = 0\<rparr>"
  by (simp add: demo_sender_def demo_run)

lemma demo_receiver_eq:
  "demo_receiver = \<lparr>co_socks = [(8, \<lparr>sk_zapped = False, sk_us = \<lparr>sq_node = 1, sq_port = 0x4002\<rparr>,
       sk_peer = \<lparr>sq_node = 0, sq_port = 0\<rparr>, sk_established = False, sk_err = 0, sk_queue = [], sk_refs = 2\<rparr>)],
     co_ports = [(0x4002, 8)], co_node = [(11, \<lparr>nd_ep = Some 4, nd_ref = 1, nd_nid = 0xffffffff, nd_flows = Map.empty\<rparr>)],
     co_nodes = [], co_all = [11], co_sent = [], co_tick = 3, co_live = 0, co_asleep = 0\<rparr>"
  by (simp add: demo_receiver_def demo_run)

theorem message_delivered_witness:
  "\<exists>s' frame r'. qrtr_sendmsg demo_core_env linux_core 7 True (Some (True, \<lparr>sq_node = 5, sq_port = 0x4002\<rparr>)) [1, 2, 3] demo_sender = (Some 3, s') \<and>
     co_sent s' = [(3, frame)] \<and> qrtr_endpoint_post demo_core_env linux_core 11 frame demo_receiver = Inr (0, r') \<and>
     rv_data (fst (qrtr_recvmsg demo_core_env linux_core 8 3 False (- EAGAIN) r')) = [1, 2, 3] \<and>
     rv_from (fst (qrtr_recvmsg demo_core_env linux_core 8 3 False (- EAGAIN) r')) = Some \<lparr>sq_node = 1, sq_port = 0x4001\<rparr>"
proof -
  let ?dst = "\<lparr>sq_node = 5, sq_port = 0x4002\<rparr>" and ?us = "\<lparr>sq_node = 1, sq_port = 0x4001\<rparr>"
  have u: "data_uapi_ok linux_core" and e: "good_env demo_core_env"
    using linux_core_ok by (simp_all add: data_uapi_ok_def linux_uapi_def good_env_def demo_core_env_def)
  obtain sk nd md sj where h: "xa_load (co_socks demo_sender) 7 = Some sk" "\<not> sk_zapped sk" "sk_us sk = ?us"
    "xa_load (co_nodes demo_sender) 5 = Some 9" "xa_load (co_node demo_sender) 9 = Some nd" "nd_ep nd = Some 3"
    "nd_flows nd = Map.empty" "co_sent demo_sender = []"
    "xa_load (co_node demo_receiver) 11 = Some md" "xa_load (co_ports demo_receiver) 0x4002 = Some 8"
    "xa_load (co_socks demo_receiver) 8 = Some sj" "sk_queue sj = []" "sk_err sj = 0"
    by (simp add: demo_sender_eq demo_receiver_eq xa_load_def)
  have "\<exists>s' frame r' skb.
    qrtr_sendmsg demo_core_env linux_core 7 True (Some (True, ?dst)) [1, 2, 3] demo_sender = (Some (int (length [1, 2, 3 :: u8])), s') \<and>
    co_sent s' = co_sent demo_sender @ [(3, frame)] \<and>
    qrtr_endpoint_post demo_core_env linux_core 11 frame demo_receiver = Inr (0, r') \<and>
    xa_load (co_socks r') 8 = Some (sj\<lparr>sk_queue := sk_queue sj @ [skb]\<rparr>) \<and> sb_data skb = [1, 2, 3] \<and>
    (sk_queue sj = [] \<and> sk_err sj = 0 \<longrightarrow>
      fst (qrtr_recvmsg demo_core_env linux_core 8 (length [1, 2, 3 :: u8]) False (- EAGAIN) r') =
        \<lparr>rv_rc = int (length [1, 2, 3 :: u8]), rv_data = [1, 2, 3], rv_from = Some (sk_us sk), rv_trunc = False\<rparr>)"
    by (rule message_delivered [OF u e demo_nodes_inv h(1,2) _ _ _ _ h(5,6) _ _ _ _ _ h(9) _ h(11)])
      (simp_all add: h flow_at_def flow_new_def QRTR_TX_FLOW_HIGH_def QRTR_PORT_CTRL_LEGACY_def)
  then show ?thesis
    using h(3,8,12,13) by (auto simp: numeral_3_eq_3)
qed

section \<open>The lost reference\<close>

lemma bye_node: "co_node (bye_nodes e u nids s) = co_node s"
proof (induction nids arbitrary: s)
  case (Cons nid nids)
  have "co_node (snd (qrtr_local_enqueue e u skb src dst s)) = co_node s" for skb src dst s
    by (auto simp: qrtr_local_enqueue_def qrtr_port_lookup_def qrtr_port_put_def sock_put_def sock_unhold_def sock_hold_def
        push_skb_def upd_sock_def ask_def kfree_skb_def Let_def split: option.splits)
  with Cons show ?case
    by (auto simp: skb_alloc_def ask_def)
qed simp

lemma bye_nodes_table: "co_nodes (bye_nodes e u nids s) = co_nodes s"
proof (induction nids arbitrary: s)
  case (Cons nid nids)
  have "co_nodes (snd (qrtr_local_enqueue e u skb src dst s)) = co_nodes s" for skb src dst s
    by (auto simp: qrtr_local_enqueue_def qrtr_port_lookup_def qrtr_port_put_def sock_put_def sock_unhold_def sock_hold_def
        push_skb_def upd_sock_def ask_def kfree_skb_def Let_def split: option.splits)
  with Cons show ?case
    by (auto simp: skb_alloc_def ask_def)
qed simp

text \<open>What is left of a node when its endpoint goes.\<close>

lemma unregister_node:
  assumes "xa_ok (co_node s)" and nd: "xa_load (co_node s) n = Some nd"
  shows "xa_load (co_node (qrtr_endpoint_unregister e u n s)) n =
      (if nd_ref nd \<le> 1 then None else Some (nd\<lparr>nd_ep := None, nd_ref := nd_ref nd - 1\<rparr>))"
    and "1 < nd_ref nd \<Longrightarrow> co_nodes (qrtr_endpoint_unregister e u n s) = co_nodes s"
  using assms
  by (simp_all add: qrtr_endpoint_unregister_def Let_def qrtr_node_release_def qrtr_node_free_def bye_node bye_nodes_table
      upd_node_def xa.load_store xa.ok_store xa_load_erase)

lemma send_resume_tx_moves:
  assumes u: "core_uapi_ok u" and n: "xa_load (co_nodes s) (cb_src_node cb) = Some n" "xa_load (co_node s) n = Some nd"
    and ok: "ce_ok e (co_tick s)"
  shows "moves d s d (snd (qrtr_send_resume_tx e u cb s))"
proof -
  obtain s2 where a: "skb_alloc e (qrtr_node_acquire n s) = (True, s2)"
    using ok n(2) by (simp add: skb_alloc_def ask_def qrtr_node_acquire_def upd_node_def)
  let ?cmd = "ua_cmd u CMD_RESUME_TX"
  let ?skb = "\<lparr>sb_cb = empty_cb, sb_data = client_pkt ?cmd (cb_dst_node cb) (cb_dst_port cb), sb_sk = None\<rparr>"
  let ?src = "\<lparr>sq_node = cb_dst_node cb, sq_port = cb_dst_port cb\<rparr>" and ?dst = "\<lparr>sq_node = cb_src_node cb, sq_port = cb_src_port cb\<rparr>"
  obtain r s3 where q: "qrtr_node_enqueue e u n ?skb ?cmd ?src ?dst s2 = (Some r, s3)"
    using resume_never_sleeps [OF u, of e n ?skb ?src ?dst s2] by (metis prod.collapse not_None_eq)
  then have "snd (qrtr_send_resume_tx e u cb s) = qrtr_node_release (Some n) s3"
    using n a by (simp add: qrtr_send_resume_tx_def qrtr_node_lookup_def Let_def)
  moreover have "moves d (qrtr_node_acquire n s) d s3"
    using moves_trans [OF moves_alloc [OF a, of d]] moves_node_enqueue [OF q, of d] by simp
  ultimately show ?thesis
    using moves_acquire_release [OF n(2)] by simp
qed

text \<open>
  The answer to a confirmation request gives the node back as it was, so that the node is freed
  when its endpoint goes. When the control packet cannot be allocated, \<open>qrtr_send_resume_tx\<close>
  returns without the release: the node, without endpoint, stays allocated and in the node table.
\<close>

theorem resume_leaks_node:
  assumes u: "core_uapi_ok u" and inv: "core_inv u s"
    and n: "xa_load (co_nodes s) (cb_src_node cb) = Some n" "xa_load (co_node s) n = Some nd" "nd_ref nd = 1"
    and s': "s' = qrtr_endpoint_unregister e' u n (snd (qrtr_send_resume_tx e u cb s))"
  shows "if ce_ok e (co_tick s) then xa_load (co_node s') n = None
    else fst (qrtr_send_resume_tx e u cb s) = Some (- ENOMEM) \<and>
      xa_load (co_nodes s') (cb_src_node cb) = Some n \<and> xa_load (co_node s') n = Some (nd\<lparr>nd_ep := None\<rparr>)"
proof (cases "ce_ok e (co_tick s)")
  case True
  have "base_inv 0 s"
    using inv by (simp add: core_inv_def)
  then have m: "base_inv 0 (snd (qrtr_send_resume_tx e u cb s))" "same s (snd (qrtr_send_resume_tx e u cb s))"
    using send_resume_tx_moves [OF u n(1,2) True, of 0] by (simp_all add: moves_def)
  then obtain nd' where nd': "xa_load (co_node (snd (qrtr_send_resume_tx e u cb s))) n = Some nd'" "node_meta nd' = node_meta nd"
    using n(2) unfolding same_def same_nodes_def by (metis map_option_eq_Some)
  have "nd_ref nd' = 1"
    using nd'(2) n(3) by (cases nd; cases nd'; simp add: node_meta_def)
  with True nd'(1) m(1) show ?thesis
    using unregister_node(1) by (simp add: s' base_inv_def node_inv_def)
next
  case False
  have ok: "xa_ok (co_node s)"
    using inv by (simp add: core_inv_def base_inv_def node_inv_def)
  have r: "qrtr_send_resume_tx e u cb s =
      (Some (- ENOMEM), s\<lparr>co_node := xa_store (co_node s) n (nd\<lparr>nd_ref := 2\<rparr>), co_tick := Suc (co_tick s)\<rparr>)"
    using False n
    by (simp add: qrtr_send_resume_tx_def qrtr_node_lookup_def qrtr_node_acquire_def upd_node_def skb_alloc_def ask_def Let_def
        numeral_2_eq_2)
  show ?thesis
    using False n ok
      unregister_node [of "s\<lparr>co_node := xa_store (co_node s) n (nd\<lparr>nd_ref := 2\<rparr>), co_tick := Suc (co_tick s)\<rparr>" n "nd\<lparr>nd_ref := 2\<rparr>" e' u]
    by (simp add: s' r xa.ok_store xa.load_store)
qed

theorem resume_leaks_node_witness:
  "xa_load (co_nodes (qrtr_endpoint_unregister demo_core_env linux_core 9
     (snd (qrtr_send_resume_tx (demo_core_env\<lparr>ce_ok := \<lambda>_. False\<rparr>) linux_core (empty_cb\<lparr>cb_src_node := 5\<rparr>) demo_sender)))) 5 = Some 9"
  using resume_leaks_node [OF linux_core_ok demo_nodes_inv(1), of "empty_cb\<lparr>cb_src_node := 5\<rparr>" 9 _ _ demo_core_env "demo_core_env\<lparr>ce_ok := \<lambda>_. False\<rparr>", OF _ _ _ refl]
  by (simp add: demo_sender_eq xa_load_def)

end
