(* ===== verification/Pd_Mapper.thy ===== *)
theory Pd_Mapper
  imports Prelude
begin

text \<open>
  \<^verbatim>\<open>tcl-pd-mapper.c\<close>: the protection-domain mapper. It builds, for the platform it runs on, the
  table of services and the domains that provide them, answers domain-list requests of remote
  processors page by page, and lives as long as one of its devices is bound. The kernel's
  allocator, the match of the root node, the QMI handle and the sizes of the wire format are
  the environment.
\<close>

section \<open>Platform tables\<close>

record qcom_pdm_domain_data =
  pd_domain :: string
  pd_instance_id :: u32
  pd_services :: "string list"

definition TMS_SERVREG_SERVICE :: string where "TMS_SERVREG_SERVICE = ''tms/servreg''"

definition adsp_audio_pd :: qcom_pdm_domain_data where
  "adsp_audio_pd = \<lparr>pd_domain = ''msm/adsp/audio_pd'', pd_instance_id = 74, pd_services = [''avs/audio'']\<rparr>"

definition adsp_charger_pd :: qcom_pdm_domain_data where
  "adsp_charger_pd = \<lparr>pd_domain = ''msm/adsp/charger_pd'', pd_instance_id = 74, pd_services = []\<rparr>"

definition adsp_root_pd :: qcom_pdm_domain_data where
  "adsp_root_pd = \<lparr>pd_domain = ''msm/adsp/root_pd'', pd_instance_id = 74, pd_services = []\<rparr>"

definition adsp_root_pd_pdr :: qcom_pdm_domain_data where
  "adsp_root_pd_pdr = \<lparr>pd_domain = ''msm/adsp/root_pd'', pd_instance_id = 74, pd_services = [''tms/pdr_enabled'']\<rparr>"

definition adsp_sensor_pd :: qcom_pdm_domain_data where
  "adsp_sensor_pd = \<lparr>pd_domain = ''msm/adsp/sensor_pd'', pd_instance_id = 74, pd_services = []\<rparr>"

definition msm8996_adsp_audio_pd :: qcom_pdm_domain_data where
  "msm8996_adsp_audio_pd = \<lparr>pd_domain = ''msm/adsp/audio_pd'', pd_instance_id = 4, pd_services = []\<rparr>"

definition msm8996_adsp_root_pd :: qcom_pdm_domain_data where
  "msm8996_adsp_root_pd = \<lparr>pd_domain = ''msm/adsp/root_pd'', pd_instance_id = 4, pd_services = []\<rparr>"

definition cdsp_root_pd :: qcom_pdm_domain_data where
  "cdsp_root_pd = \<lparr>pd_domain = ''msm/cdsp/root_pd'', pd_instance_id = 76, pd_services = []\<rparr>"

definition slpi_root_pd :: qcom_pdm_domain_data where
  "slpi_root_pd = \<lparr>pd_domain = ''msm/slpi/root_pd'', pd_instance_id = 90, pd_services = []\<rparr>"

definition slpi_sensor_pd :: qcom_pdm_domain_data where
  "slpi_sensor_pd = \<lparr>pd_domain = ''msm/slpi/sensor_pd'', pd_instance_id = 90, pd_services = []\<rparr>"

definition mpss_root_pd :: qcom_pdm_domain_data where
  "mpss_root_pd = \<lparr>pd_domain = ''msm/modem/root_pd'', pd_instance_id = 180, pd_services = []\<rparr>"

definition mpss_root_pd_gps :: qcom_pdm_domain_data where
  "mpss_root_pd_gps = \<lparr>pd_domain = ''msm/modem/root_pd'', pd_instance_id = 180, pd_services = [''gps/gps_service'']\<rparr>"

definition mpss_root_pd_gps_pdr :: qcom_pdm_domain_data where
  "mpss_root_pd_gps_pdr = \<lparr>pd_domain = ''msm/modem/root_pd'', pd_instance_id = 180, pd_services = [''gps/gps_service'', ''tms/pdr_enabled'']\<rparr>"

definition msm8996_mpss_root_pd :: qcom_pdm_domain_data where
  "msm8996_mpss_root_pd = \<lparr>pd_domain = ''msm/modem/root_pd'', pd_instance_id = 100, pd_services = []\<rparr>"

definition mpss_wlan_pd :: qcom_pdm_domain_data where
  "mpss_wlan_pd = \<lparr>pd_domain = ''msm/modem/wlan_pd'', pd_instance_id = 180, pd_services = [''kernel/elf_loader'', ''wlan/fw'']\<rparr>"

definition msm8996_domains :: "qcom_pdm_domain_data list" where
  "msm8996_domains =
     [msm8996_adsp_audio_pd, msm8996_adsp_root_pd, msm8996_mpss_root_pd]"

definition msm8998_domains :: "qcom_pdm_domain_data list" where
  "msm8998_domains =
     [mpss_root_pd, mpss_wlan_pd]"

definition qcm2290_domains :: "qcom_pdm_domain_data list" where
  "qcm2290_domains =
     [adsp_audio_pd, adsp_root_pd, adsp_sensor_pd, mpss_root_pd_gps, mpss_wlan_pd]"

definition qcs404_domains :: "qcom_pdm_domain_data list" where
  "qcs404_domains =
     [adsp_audio_pd, adsp_root_pd, adsp_sensor_pd, cdsp_root_pd, mpss_root_pd, mpss_wlan_pd]"

definition sc7180_domains :: "qcom_pdm_domain_data list" where
  "sc7180_domains =
     [adsp_audio_pd, adsp_root_pd_pdr, adsp_sensor_pd, mpss_root_pd_gps_pdr, mpss_wlan_pd]"

definition sc7280_domains :: "qcom_pdm_domain_data list" where
  "sc7280_domains =
     [adsp_audio_pd, adsp_root_pd_pdr, adsp_charger_pd, adsp_sensor_pd, cdsp_root_pd, mpss_root_pd_gps_pdr]"

definition sc8180x_domains :: "qcom_pdm_domain_data list" where
  "sc8180x_domains =
     [adsp_audio_pd, adsp_root_pd, adsp_charger_pd, cdsp_root_pd, mpss_root_pd_gps, mpss_wlan_pd]"

definition sc8280xp_domains :: "qcom_pdm_domain_data list" where
  "sc8280xp_domains =
     [adsp_audio_pd, adsp_root_pd_pdr, adsp_charger_pd, cdsp_root_pd]"

definition sdm630_domains :: "qcom_pdm_domain_data list" where
  "sdm630_domains =
     [adsp_audio_pd, adsp_root_pd, adsp_sensor_pd, mpss_root_pd, mpss_wlan_pd]"

definition sdm660_domains :: "qcom_pdm_domain_data list" where
  "sdm660_domains =
     [adsp_audio_pd, adsp_root_pd, adsp_sensor_pd, cdsp_root_pd, mpss_root_pd, mpss_wlan_pd]"

definition sdm670_domains :: "qcom_pdm_domain_data list" where
  "sdm670_domains =
     [adsp_audio_pd, adsp_root_pd, cdsp_root_pd, mpss_root_pd, mpss_wlan_pd]"

definition sdm845_domains :: "qcom_pdm_domain_data list" where
  "sdm845_domains =
     [adsp_audio_pd, adsp_root_pd, cdsp_root_pd, mpss_root_pd, mpss_wlan_pd, slpi_root_pd, slpi_sensor_pd]"

definition sm6115_domains :: "qcom_pdm_domain_data list" where
  "sm6115_domains =
     [adsp_audio_pd, adsp_root_pd, adsp_sensor_pd, cdsp_root_pd, mpss_root_pd_gps, mpss_wlan_pd]"

definition sm6350_domains :: "qcom_pdm_domain_data list" where
  "sm6350_domains =
     [adsp_audio_pd, adsp_root_pd, adsp_sensor_pd, cdsp_root_pd, mpss_wlan_pd]"

definition sm7150_domains :: "qcom_pdm_domain_data list" where
  "sm7150_domains =
     [adsp_audio_pd, adsp_root_pd, adsp_sensor_pd, cdsp_root_pd, mpss_root_pd_gps, mpss_wlan_pd]"

definition sm8150_domains :: "qcom_pdm_domain_data list" where
  "sm8150_domains =
     [adsp_audio_pd, adsp_root_pd, cdsp_root_pd, mpss_root_pd_gps, mpss_wlan_pd]"

definition sm8250_domains :: "qcom_pdm_domain_data list" where
  "sm8250_domains =
     [adsp_audio_pd, adsp_root_pd, cdsp_root_pd, slpi_root_pd, slpi_sensor_pd]"

definition sm8350_domains :: "qcom_pdm_domain_data list" where
  "sm8350_domains =
     [adsp_audio_pd, adsp_root_pd_pdr, adsp_charger_pd, cdsp_root_pd, mpss_root_pd_gps, slpi_root_pd, slpi_sensor_pd]"

definition sm8550_domains :: "qcom_pdm_domain_data list" where
  "sm8550_domains =
     [adsp_audio_pd, adsp_root_pd, adsp_charger_pd, adsp_sensor_pd, cdsp_root_pd, mpss_root_pd_gps]"

definition x1e80100_domains :: "qcom_pdm_domain_data list" where
  "x1e80100_domains =
     [adsp_audio_pd, adsp_root_pd, adsp_charger_pd, adsp_sensor_pd, cdsp_root_pd]"

text \<open>The platforms by their compatible string; some are known to have no domains.\<close>

definition qcom_pdm_domains :: "(string \<times> qcom_pdm_domain_data list option) list" where
  "qcom_pdm_domains =
     [(''qcom,apq8016'', None),
      (''qcom,apq8064'', None),
      (''qcom,apq8074'', None),
      (''qcom,apq8084'', None),
      (''qcom,apq8096'', Some msm8996_domains),
      (''qcom,msm8226'', None),
      (''qcom,msm8909'', None),
      (''qcom,msm8916'', None),
      (''qcom,msm8939'', None),
      (''qcom,msm8974'', None),
      (''qcom,msm8996'', Some msm8996_domains),
      (''qcom,msm8998'', Some msm8998_domains),
      (''qcom,qcm2290'', Some qcm2290_domains),
      (''qcom,qcm6490'', Some sc7280_domains),
      (''qcom,qcs404'', Some qcs404_domains),
      (''qcom,sc7180'', Some sc7180_domains),
      (''qcom,sc7280'', Some sc7280_domains),
      (''qcom,sc8180x'', Some sc8180x_domains),
      (''qcom,sc8280xp'', Some sc8280xp_domains),
      (''qcom,sdm630'', Some sdm630_domains),
      (''qcom,sdm636'', Some sdm630_domains),
      (''qcom,sda660'', Some sdm660_domains),
      (''qcom,sdm660'', Some sdm660_domains),
      (''qcom,sdm670'', Some sdm670_domains),
      (''qcom,sdm845'', Some sdm845_domains),
      (''qcom,sm4250'', Some sm6115_domains),
      (''qcom,sm6115'', Some sm6115_domains),
      (''qcom,sm6350'', Some sm6350_domains),
      (''qcom,sm7150'', Some sm7150_domains),
      (''qcom,sm7225'', Some sm6350_domains),
      (''qcom,sm7325'', Some sc7280_domains),
      (''qcom,sm8150'', Some sm8150_domains),
      (''qcom,sm8250'', Some sm8250_domains),
      (''qcom,sm8350'', Some sm8350_domains),
      (''qcom,sm8450'', Some sm8350_domains),
      (''qcom,sm8550'', Some sm8550_domains),
      (''qcom,sm8650'', Some sm8550_domains),
      (''qcom,sm8750'', Some sm8550_domains),
      (''qcom,x1e80100'', Some x1e80100_domains),
      (''qcom,x1p42100'', Some x1e80100_domains)]"

lemmas pdm_domain_defs =
  adsp_audio_pd_def adsp_charger_pd_def adsp_root_pd_def adsp_root_pd_pdr_def adsp_sensor_pd_def
  msm8996_adsp_audio_pd_def msm8996_adsp_root_pd_def cdsp_root_pd_def slpi_root_pd_def slpi_sensor_pd_def
  mpss_root_pd_def mpss_root_pd_gps_def mpss_root_pd_gps_pdr_def msm8996_mpss_root_pd_def mpss_wlan_pd_def

lemmas pdm_platform_defs =
  msm8996_domains_def msm8998_domains_def qcm2290_domains_def qcs404_domains_def sc7180_domains_def
  sc7280_domains_def sc8180x_domains_def sc8280xp_domains_def sdm630_domains_def sdm660_domains_def
  sdm670_domains_def sdm845_domains_def sm6115_domains_def sm6350_domains_def sm7150_domains_def
  sm8150_domains_def sm8250_domains_def sm8350_domains_def sm8550_domains_def x1e80100_domains_def

section \<open>Services and domains\<close>

record qcom_pdm_domain =
  dm_name :: string
  dm_instance_id :: u32

record qcom_pdm_service =
  sv_name :: string
  sv_domains :: "qcom_pdm_domain list"

text \<open>The kernel: allocations by number, blocks in use, QMI handles in use.\<close>

record pdm_kernel =
  pk_tick :: nat
  pk_nomem :: "nat \<Rightarrow> bool"
  pk_heap :: nat
  pk_handles :: nat

definition pdm_kzalloc :: "pdm_kernel \<Rightarrow> bool \<times> pdm_kernel" where
  "pdm_kzalloc w =
     (let w1 = w\<lparr>pk_tick := Suc (pk_tick w)\<rparr> in
      if pk_nomem w (pk_tick w) then (False, w1) else (True, w1\<lparr>pk_heap := Suc (pk_heap w)\<rparr>))"

definition pdm_kfree :: "nat \<Rightarrow> pdm_kernel \<Rightarrow> pdm_kernel" where
  "pdm_kfree n w = w\<lparr>pk_heap := pk_heap w - n\<rparr>"

definition qcom_pdm_find :: "qcom_pdm_service list \<Rightarrow> string \<Rightarrow> qcom_pdm_service option" where
  "qcom_pdm_find svcs name = find (\<lambda>s. sv_name s = name) svcs"

fun add_to_service :: "qcom_pdm_service list \<Rightarrow> string \<Rightarrow> qcom_pdm_domain \<Rightarrow> qcom_pdm_service list" where
  "add_to_service [] name d = []"
| "add_to_service (s # ss) name d =
     (if sv_name s = name then s\<lparr>sv_domains := sv_domains s @ [d]\<rparr> # ss else s # add_to_service ss name d)"

fun del_service :: "qcom_pdm_service list \<Rightarrow> string \<Rightarrow> qcom_pdm_service list" where
  "del_service [] name = []"
| "del_service (s # ss) name = (if sv_name s = name then ss else s # del_service ss name)"

text \<open>The domain is appended to a service that is there already or was just added.\<close>

definition append_domain ::
  "qcom_pdm_service list \<Rightarrow> string \<Rightarrow> qcom_pdm_domain \<Rightarrow> pdm_kernel \<Rightarrow> int \<times> qcom_pdm_service list \<times> pdm_kernel" where
  "append_domain svcs name d w =
     (case pdm_kzalloc w of (got, w1) \<Rightarrow>
      if got then (0, add_to_service svcs name d, w1)
      else (case qcom_pdm_find svcs name of
              Some s \<Rightarrow> if sv_domains s = [] then (- ENOMEM, del_service svcs name, pdm_kfree 1 w1)
                        else (- ENOMEM, svcs, w1)
            | None \<Rightarrow> (- ENOMEM, svcs, w1)))"

definition qcom_pdm_add_service_domain ::
  "string \<Rightarrow> string \<Rightarrow> u32 \<Rightarrow> qcom_pdm_service list \<Rightarrow> pdm_kernel \<Rightarrow> int \<times> qcom_pdm_service list \<times> pdm_kernel" where
  "qcom_pdm_add_service_domain service_name domain_name instance_id svcs w =
     (let d = \<lparr>dm_name = domain_name, dm_instance_id = instance_id\<rparr> in
      case qcom_pdm_find svcs service_name of
        Some s \<Rightarrow>
          if \<exists>x \<in> set (sv_domains s). dm_name x = domain_name then (- EBUSY, svcs, w)
          else append_domain svcs service_name d w
      | None \<Rightarrow>
          (case pdm_kzalloc w of (got, w1) \<Rightarrow>
           if \<not> got then (- ENOMEM, svcs, w1)
           else append_domain (svcs @ [\<lparr>sv_name = service_name, sv_domains = []\<rparr>]) service_name d w1))"

fun add_services ::
  "string list \<Rightarrow> string \<Rightarrow> u32 \<Rightarrow> qcom_pdm_service list \<Rightarrow> pdm_kernel \<Rightarrow> int \<times> qcom_pdm_service list \<times> pdm_kernel" where
  "add_services [] domain_name instance_id svcs w = (0, svcs, w)"
| "add_services (n # ns) domain_name instance_id svcs w =
     (case qcom_pdm_add_service_domain n domain_name instance_id svcs w of (ret, svcs1, w1) \<Rightarrow>
      if ret \<noteq> 0 then (ret, svcs1, w1) else add_services ns domain_name instance_id svcs1 w1)"

definition qcom_pdm_add_domain ::
  "qcom_pdm_domain_data \<Rightarrow> qcom_pdm_service list \<Rightarrow> pdm_kernel \<Rightarrow> int \<times> qcom_pdm_service list \<times> pdm_kernel" where
  "qcom_pdm_add_domain dd svcs w =
     (case qcom_pdm_add_service_domain TMS_SERVREG_SERVICE (pd_domain dd) (pd_instance_id dd) svcs w of
        (ret, svcs1, w1) \<Rightarrow>
          if ret \<noteq> 0 then (ret, svcs1, w1)
          else add_services (pd_services dd) (pd_domain dd) (pd_instance_id dd) svcs1 w1)"

definition pdm_blocks :: "qcom_pdm_service list \<Rightarrow> nat" where
  "pdm_blocks svcs = sum_list (map (\<lambda>s. Suc (length (sv_domains s))) svcs)"

definition qcom_pdm_free_domains :: "qcom_pdm_service list \<Rightarrow> pdm_kernel \<Rightarrow> pdm_kernel" where
  "qcom_pdm_free_domains svcs w = pdm_kfree (pdm_blocks svcs) w"

section \<open>Requests\<close>

record servreg_get_domain_list_req =
  rq_service_name :: string
  rq_domain_offset_valid :: bool
  rq_domain_offset :: u32

record servreg_get_domain_list_resp =
  rs_db_rev_count :: nat
  rs_total_domains :: u32
  rs_domain_list_valid :: bool
  rs_domain_list :: "(string \<times> u32) list"

text \<open>\<open>strscpy\<close> copies at most the size minus one and terminates the copy.\<close>

definition strscpy :: "nat \<Rightarrow> string \<Rightarrow> string" where
  "strscpy n src = take (n - 1) src"

text \<open>\<open>len\<close> is the length of the array in the response and \<open>nlen\<close> the size of a name in it.\<close>

fun list_domains ::
  "u32 \<Rightarrow> nat \<Rightarrow> u32 \<Rightarrow> qcom_pdm_domain list \<Rightarrow> u32 \<times> (string \<times> u32) list \<Rightarrow> u32 \<times> (string \<times> u32) list" where
  "list_domains len nlen offset [] acc = acc"
| "list_domains len nlen offset (d # ds) (tot, out) =
     list_domains len nlen offset ds
       (tot + 1,
        if offset \<le> tot \<and> tot < len then out @ [(strscpy nlen (dm_name d), dm_instance_id d)] else out)"

definition qcom_pdm_get_domain_list ::
  "u32 \<Rightarrow> nat \<Rightarrow> qcom_pdm_service list \<Rightarrow> servreg_get_domain_list_req \<Rightarrow> pdm_kernel \<Rightarrow>
     servreg_get_domain_list_resp option \<times> pdm_kernel" where
  "qcom_pdm_get_domain_list len nlen svcs req w =
     (case pdm_kzalloc w of (got, w1) \<Rightarrow>
      if \<not> got then (None, w1)
      else (let offset = (if rq_domain_offset_valid req then rq_domain_offset req else 0);
                rsp = (case qcom_pdm_find svcs (rq_service_name req) of
                         None \<Rightarrow> \<lparr>rs_db_rev_count = 1, rs_total_domains = 0, rs_domain_list_valid = False, rs_domain_list = []\<rparr>
                       | Some s \<Rightarrow>
                           (case list_domains len nlen offset (sv_domains s) (0, []) of (tot, out) \<Rightarrow>
                            \<lparr>rs_db_rev_count = 1, rs_total_domains = tot, rs_domain_list_valid = True, rs_domain_list = out\<rparr>))
            in (Some rsp, pdm_kfree 1 w1)))"

section \<open>Start and stop\<close>

record qcom_pdm_data =
  pm_refcnt :: nat
  pm_services :: "qcom_pdm_service list"

text \<open>
  The answers for one start: whether there is a root node, the compatible string of the entry
  it matches, and the results of \<open>qmi_handle_init\<close> and \<open>qmi_add_server\<close>.
\<close>

record pdm_env =
  pe_root :: bool
  pe_match :: "string option"
  pe_handle_init :: int
  pe_add_server :: int

fun add_domains ::
  "qcom_pdm_domain_data list \<Rightarrow> qcom_pdm_service list \<Rightarrow> pdm_kernel \<Rightarrow> int \<times> qcom_pdm_service list \<times> pdm_kernel" where
  "add_domains [] svcs w = (0, svcs, w)"
| "add_domains (dd # dds) svcs w =
     (case qcom_pdm_add_domain dd svcs w of (ret, svcs1, w1) \<Rightarrow>
      if ret \<noteq> 0 then (ret, svcs1, w1) else add_domains dds svcs1 w1)"

definition qcom_pdm_stop :: "qcom_pdm_service list \<Rightarrow> pdm_kernel \<Rightarrow> pdm_kernel" where
  "qcom_pdm_stop svcs w =
     (let w1 = qcom_pdm_free_domains svcs w in pdm_kfree 1 (w1\<lparr>pk_handles := pk_handles w1 - 1\<rparr>))"

definition pdm_match :: "pdm_env \<Rightarrow> qcom_pdm_domain_data list option option" where
  "pdm_match e = (case pe_match e of None \<Rightarrow> None | Some c \<Rightarrow> map_of qcom_pdm_domains c)"

definition qcom_pdm_start :: "pdm_env \<Rightarrow> pdm_kernel \<Rightarrow> (int + qcom_pdm_data) \<times> pdm_kernel" where
  "qcom_pdm_start e w =
     (if \<not> pe_root e then (Inl (- ENODEV), w)
      else case pdm_match e of
        None \<Rightarrow> (Inl (- ENODEV), w)
      | Some None \<Rightarrow> (Inl (- ENODEV), w)
      | Some (Some domains) \<Rightarrow>
      (case pdm_kzalloc w of (got, w1) \<Rightarrow>
       if \<not> got then (Inl (- ENOMEM), w1)
       else if pe_handle_init e \<noteq> 0 then (Inl (pe_handle_init e), pdm_kfree 1 w1)
       else (case add_domains domains [] (w1\<lparr>pk_handles := Suc (pk_handles w1)\<rparr>) of (ret, svcs, w2) \<Rightarrow>
         if ret \<noteq> 0 then (Inl ret, qcom_pdm_stop svcs w2)
         else if pe_add_server e \<noteq> 0 then (Inl (pe_add_server e), qcom_pdm_stop svcs w2)
         else (Inr \<lparr>pm_refcnt = 1, pm_services = svcs\<rparr>, w2))))"

section \<open>Devices\<close>

text \<open>The module's data, which device has a pointer to it, and the kernel.\<close>

record pdm_state =
  ps_data :: "qcom_pdm_data option"
  ps_drvdata :: "nat \<Rightarrow> bool"
  ps_kernel :: pdm_kernel

definition qcom_pdm_probe :: "pdm_env \<Rightarrow> nat \<Rightarrow> pdm_state \<Rightarrow> int \<times> pdm_state" where
  "qcom_pdm_probe e dev s =
     (case ps_data s of
        None \<Rightarrow>
          (case qcom_pdm_start e (ps_kernel s) of
             (Inl err, w) \<Rightarrow> (err, s\<lparr>ps_drvdata := (ps_drvdata s)(dev := False), ps_kernel := w\<rparr>)
           | (Inr d, w) \<Rightarrow> (0, s\<lparr>ps_data := Some d, ps_drvdata := (ps_drvdata s)(dev := True), ps_kernel := w\<rparr>))
      | Some d \<Rightarrow>
          (0, s\<lparr>ps_data := Some (d\<lparr>pm_refcnt := Suc (pm_refcnt d)\<rparr>), ps_drvdata := (ps_drvdata s)(dev := True)\<rparr>))"

definition qcom_pdm_remove :: "nat \<Rightarrow> pdm_state \<Rightarrow> pdm_state" where
  "qcom_pdm_remove dev s =
     (if \<not> ps_drvdata s dev then s
      else case ps_data s of
        None \<Rightarrow> s
      | Some d \<Rightarrow>
          if pm_refcnt d = 1
          then s\<lparr>ps_data := None, ps_kernel := qcom_pdm_stop (pm_services d) (ps_kernel s)\<rparr>
          else s\<lparr>ps_data := Some (d\<lparr>pm_refcnt := pm_refcnt d - 1\<rparr>)\<rparr>)"

section \<open>Memory of the table\<close>

definition pdm_acct :: "nat \<Rightarrow> qcom_pdm_service list \<Rightarrow> pdm_kernel \<Rightarrow> bool" where
  "pdm_acct h svcs w \<longleftrightarrow> pk_heap w = h + pdm_blocks svcs"

text \<open>What building the table does not touch.\<close>

definition pdm_frame :: "pdm_kernel \<Rightarrow> pdm_kernel \<Rightarrow> bool" where
  "pdm_frame w w' \<longleftrightarrow> pk_handles w' = pk_handles w \<and> pk_nomem w' = pk_nomem w"

lemma pdm_frame_trans: "pdm_frame w w1 \<Longrightarrow> pdm_frame w1 w2 \<Longrightarrow> pdm_frame w w2"
  by (simp add: pdm_frame_def)

lemma blocks_add: "qcom_pdm_find svcs n \<noteq> None \<Longrightarrow> pdm_blocks (add_to_service svcs n d) = Suc (pdm_blocks svcs)"
  by (induction svcs) (auto simp: qcom_pdm_find_def pdm_blocks_def)

lemma blocks_del:
  "qcom_pdm_find svcs n = Some s \<Longrightarrow> sv_domains s = [] \<Longrightarrow> Suc (pdm_blocks (del_service svcs n)) = pdm_blocks svcs"
  by (induction svcs) (auto simp: qcom_pdm_find_def pdm_blocks_def split: if_splits)

lemma blocks_snoc: "pdm_blocks (svcs @ [\<lparr>sv_name = n, sv_domains = []\<rparr>]) = Suc (pdm_blocks svcs)"
  by (simp add: pdm_blocks_def)

lemma find_snoc:
  "qcom_pdm_find svcs n = None \<Longrightarrow>
     qcom_pdm_find (svcs @ [\<lparr>sv_name = n, sv_domains = []\<rparr>]) n = Some \<lparr>sv_name = n, sv_domains = []\<rparr>"
  by (induction svcs) (auto simp: qcom_pdm_find_def)

lemma append_domain_acct:
  assumes "pdm_acct h svcs w" and "qcom_pdm_find svcs n \<noteq> None" and "append_domain svcs n d w = (ret, svcs', w')"
  shows "pdm_acct h svcs' w' \<and> pdm_frame w w'"
  using assms blocks_add [OF assms(2), of d] blocks_del [of svcs n]
  by (auto simp: append_domain_def pdm_kzalloc_def pdm_kfree_def pdm_acct_def pdm_frame_def Let_def
      split: if_splits option.splits)

lemma add_service_domain_acct:
  assumes acct: "pdm_acct h svcs w" and run: "qcom_pdm_add_service_domain n dn i svcs w = (ret, svcs', w')"
  shows "pdm_acct h svcs' w' \<and> pdm_frame w w'"
proof (cases "qcom_pdm_find svcs n")
  case (Some s)
  with run acct append_domain_acct [OF acct, of n] show ?thesis
    by (auto simp: qcom_pdm_add_service_domain_def pdm_frame_def Let_def split: if_splits)
next
  case None
  obtain got w1 where k: "pdm_kzalloc w = (got, w1)"
    by fastforce
  show ?thesis
  proof (cases got)
    case False
    with run acct None k show ?thesis
      by (auto simp: qcom_pdm_add_service_domain_def pdm_kzalloc_def pdm_acct_def pdm_frame_def Let_def split: if_splits)
  next
    case True
    let ?svcs = "svcs @ [\<lparr>sv_name = n, sv_domains = []\<rparr>]"
    have "pdm_acct h ?svcs w1 \<and> pdm_frame w w1"
      using k True acct by (auto simp: pdm_kzalloc_def pdm_acct_def pdm_frame_def blocks_snoc Let_def split: if_splits)
    moreover have "append_domain ?svcs n \<lparr>dm_name = dn, dm_instance_id = i\<rparr> w1 = (ret, svcs', w')"
      using run None k True by (simp add: qcom_pdm_add_service_domain_def Let_def)
    ultimately show ?thesis
      using append_domain_acct [of h ?svcs w1 n] find_snoc [OF None] pdm_frame_trans by blast
  qed
qed

lemma add_services_acct:
  "pdm_acct h svcs w \<Longrightarrow> add_services ns dn i svcs w = (ret, svcs', w') \<Longrightarrow> pdm_acct h svcs' w' \<and> pdm_frame w w'"
proof (induction ns arbitrary: svcs w)
  case Nil
  then show ?case by (simp add: pdm_frame_def)
next
  case (Cons n ns)
  obtain r svcs1 w1 where one: "qcom_pdm_add_service_domain n dn i svcs w = (r, svcs1, w1)"
    by (metis prod_cases3)
  note a = add_service_domain_acct [OF Cons.prems(1) one]
  show ?case
  proof (cases "r = 0")
    case True
    with one Cons.prems(2) have "add_services ns dn i svcs1 w1 = (ret, svcs', w')"
      by simp
    with a Cons.IH [of svcs1 w1] pdm_frame_trans show ?thesis
      by blast
  next
    case False
    with one Cons.prems(2) a show ?thesis
      by simp
  qed
qed

lemma add_domain_acct:
  assumes "pdm_acct h svcs w" and "qcom_pdm_add_domain dd svcs w = (ret, svcs', w')"
  shows "pdm_acct h svcs' w' \<and> pdm_frame w w'"
proof -
  have "qcom_pdm_add_domain dd svcs w =
      add_services (TMS_SERVREG_SERVICE # pd_services dd) (pd_domain dd) (pd_instance_id dd) svcs w"
    by (simp add: qcom_pdm_add_domain_def)
  with add_services_acct [OF assms(1)] assms(2) show ?thesis
    by metis
qed

lemma add_domains_acct:
  "pdm_acct h svcs w \<Longrightarrow> add_domains dds svcs w = (ret, svcs', w') \<Longrightarrow> pdm_acct h svcs' w' \<and> pdm_frame w w'"
proof (induction dds arbitrary: svcs w)
  case Nil
  then show ?case by (simp add: pdm_frame_def)
next
  case (Cons dd dds)
  obtain r svcs1 w1 where one: "qcom_pdm_add_domain dd svcs w = (r, svcs1, w1)"
    by (metis prod_cases3)
  note a = add_domain_acct [OF Cons.prems(1) one]
  show ?case
  proof (cases "r = 0")
    case True
    with one Cons.prems(2) have "add_domains dds svcs1 w1 = (ret, svcs', w')"
      by simp
    with a Cons.IH [of svcs1 w1] pdm_frame_trans show ?thesis
      by blast
  next
    case False
    with one Cons.prems(2) a show ?thesis
      by simp
  qed
qed

lemma pdm_stop_acct:
  assumes "pdm_acct (Suc h) svcs w"
  shows "pk_heap (qcom_pdm_stop svcs w) = h" and "pk_handles (qcom_pdm_stop svcs w) = pk_handles w - 1"
  using assms by (simp_all add: qcom_pdm_stop_def qcom_pdm_free_domains_def pdm_kfree_def pdm_acct_def Let_def)

text \<open>A start holds the data, the table and one handle, or nothing.\<close>

lemma pdm_start_acct:
  assumes "qcom_pdm_start e w = (r, w')"
  shows "case r of
      Inl _ \<Rightarrow> pk_heap w' = pk_heap w \<and> pk_handles w' = pk_handles w
    | Inr d \<Rightarrow> pm_refcnt d = 1 \<and> pdm_acct (Suc (pk_heap w)) (pm_services d) w' \<and> pk_handles w' = Suc (pk_handles w)"
proof (cases "pe_root e \<and> (\<exists>ds. pdm_match e = Some (Some ds)) \<and> fst (pdm_kzalloc w) \<and> pe_handle_init e = 0")
  case False
  with assms show ?thesis
    by (auto simp: qcom_pdm_start_def pdm_kzalloc_def pdm_kfree_def Let_def split: if_splits option.splits)
next
  case True
  then obtain ds where ds: "pdm_match e = Some (Some ds)"
    by blast
  obtain w0 where k: "pdm_kzalloc w = (True, w0)"
    using True by (cases "pdm_kzalloc w") simp
  let ?w1 = "w0\<lparr>pk_handles := Suc (pk_handles w0)\<rparr>"
  obtain ret svcs w2 where run: "add_domains ds [] ?w1 = (ret, svcs, w2)"
    by (metis prod_cases3)
  have h: "pk_handles w0 = pk_handles w" and a1: "pdm_acct (Suc (pk_heap w)) [] ?w1"
    using k by (auto simp: pdm_kzalloc_def pdm_acct_def pdm_blocks_def Let_def split: if_splits)
  note a = add_domains_acct [OF a1 run]
  have "(r, w') = (if ret \<noteq> 0 then (Inl ret, qcom_pdm_stop svcs w2)
      else if pe_add_server e \<noteq> 0 then (Inl (pe_add_server e), qcom_pdm_stop svcs w2)
      else (Inr \<lparr>pm_refcnt = 1, pm_services = svcs\<rparr>, w2))"
    using assms True ds k run by (simp add: qcom_pdm_start_def)
  with a h pdm_stop_acct [of "pk_heap w" svcs w2] show ?thesis
    by (auto simp: pdm_frame_def split: if_splits)
qed

section \<open>Contents of the table\<close>

definition pdm_lookup :: "qcom_pdm_service list \<Rightarrow> string \<Rightarrow> qcom_pdm_domain list" where
  "pdm_lookup svcs n = (case qcom_pdm_find svcs n of None \<Rightarrow> [] | Some s \<Rightarrow> sv_domains s)"

definition pdm_mem_ok :: "pdm_kernel \<Rightarrow> bool" where
  "pdm_mem_ok w \<longleftrightarrow> (\<forall>t. \<not> pk_nomem w t)"

lemma lookup_add_to:
  "qcom_pdm_find svcs n \<noteq> None \<Longrightarrow>
     pdm_lookup (add_to_service svcs n d) m = (if m = n then pdm_lookup svcs n @ [d] else pdm_lookup svcs m)"
  by (induction svcs) (auto simp: pdm_lookup_def qcom_pdm_find_def)

lemma lookup_snoc:
  "qcom_pdm_find svcs n = None \<Longrightarrow> pdm_lookup (svcs @ [\<lparr>sv_name = n, sv_domains = []\<rparr>]) m = pdm_lookup svcs m"
  by (induction svcs) (auto simp: pdm_lookup_def qcom_pdm_find_def split: if_splits)

lemma kzalloc_ok: "pdm_mem_ok w \<Longrightarrow> \<exists>w'. pdm_kzalloc w = (True, w') \<and> pdm_mem_ok w'"
  by (simp add: pdm_mem_ok_def pdm_kzalloc_def Let_def)

lemma append_domain_ok:
  assumes "pdm_mem_ok w" and "qcom_pdm_find svcs n \<noteq> None"
  shows "\<exists>svcs' w'. append_domain svcs n d w = (0, svcs', w') \<and> pdm_mem_ok w' \<and>
    (\<forall>m. pdm_lookup svcs' m = (if m = n then pdm_lookup svcs n @ [d] else pdm_lookup svcs m))"
  using kzalloc_ok [OF assms(1)] lookup_add_to [OF assms(2), of d] by (auto simp: append_domain_def)

lemma add_service_domain_ok:
  assumes mem: "pdm_mem_ok w" and new: "dn \<notin> dm_name ` set (pdm_lookup svcs n)"
  shows "\<exists>svcs' w'. qcom_pdm_add_service_domain n dn i svcs w = (0, svcs', w') \<and> pdm_mem_ok w' \<and>
    (\<forall>m. pdm_lookup svcs' m = pdm_lookup svcs m @ (if m = n then [\<lparr>dm_name = dn, dm_instance_id = i\<rparr>] else []))"
proof (cases "qcom_pdm_find svcs n")
  case (Some s)
  with new have "\<not> (\<exists>x \<in> set (sv_domains s). dm_name x = dn)"
    by (auto simp: pdm_lookup_def)
  with Some append_domain_ok [OF mem, of svcs n "\<lparr>dm_name = dn, dm_instance_id = i\<rparr>"] show ?thesis
    by (auto simp: qcom_pdm_add_service_domain_def Let_def)
next
  case None
  obtain w1 where k: "pdm_kzalloc w = (True, w1)" "pdm_mem_ok w1"
    using kzalloc_ok [OF mem] by blast
  let ?svcs = "svcs @ [\<lparr>sv_name = n, sv_domains = []\<rparr>]"
  from append_domain_ok [OF k(2), of ?svcs n "\<lparr>dm_name = dn, dm_instance_id = i\<rparr>"] find_snoc [OF None]
  obtain svcs' w' where "append_domain ?svcs n \<lparr>dm_name = dn, dm_instance_id = i\<rparr> w1 = (0, svcs', w')" "pdm_mem_ok w'"
    and "\<forall>m. pdm_lookup svcs' m = (if m = n then pdm_lookup ?svcs n @ [\<lparr>dm_name = dn, dm_instance_id = i\<rparr>] else pdm_lookup ?svcs m)"
    by auto
  with None k show ?thesis
    by (auto simp: qcom_pdm_add_service_domain_def Let_def lookup_snoc)
qed

lemma add_services_ok:
  assumes "pdm_mem_ok w" and "distinct ns" and "\<forall>n \<in> set ns. dn \<notin> dm_name ` set (pdm_lookup svcs n)"
  shows "\<exists>svcs' w'. add_services ns dn i svcs w = (0, svcs', w') \<and> pdm_mem_ok w' \<and>
    (\<forall>m. pdm_lookup svcs' m = pdm_lookup svcs m @ (if m \<in> set ns then [\<lparr>dm_name = dn, dm_instance_id = i\<rparr>] else []))"
  using assms
proof (induction ns arbitrary: svcs w)
  case Nil
  then show ?case by simp
next
  case (Cons n ns)
  from add_service_domain_ok [OF Cons.prems(1), of dn svcs n i] Cons.prems(3) obtain svcs1 w1 where
    one: "qcom_pdm_add_service_domain n dn i svcs w = (0, svcs1, w1)" "pdm_mem_ok w1"
    and l: "\<forall>m. pdm_lookup svcs1 m = pdm_lookup svcs m @ (if m = n then [\<lparr>dm_name = dn, dm_instance_id = i\<rparr>] else [])"
    by auto
  have "\<forall>m \<in> set ns. dn \<notin> dm_name ` set (pdm_lookup svcs1 m)"
    using Cons.prems(2,3) l by auto
  with Cons.IH [OF one(2), of svcs1] Cons.prems(2) obtain svcs2 w2 where
    "add_services ns dn i svcs1 w1 = (0, svcs2, w2)" "pdm_mem_ok w2"
    "\<forall>m. pdm_lookup svcs2 m = pdm_lookup svcs1 m @ (if m \<in> set ns then [\<lparr>dm_name = dn, dm_instance_id = i\<rparr>] else [])"
    by auto
  with one l Cons.prems(2) show ?case
    by auto
qed

text \<open>The services a domain provides, the registry service included.\<close>

definition provides :: "qcom_pdm_domain_data \<Rightarrow> string list" where
  "provides dd = TMS_SERVREG_SERVICE # pd_services dd"

definition domain_entry :: "qcom_pdm_domain_data \<Rightarrow> qcom_pdm_domain" where
  "domain_entry dd = \<lparr>dm_name = pd_domain dd, dm_instance_id = pd_instance_id dd\<rparr>"

definition table_ok :: "qcom_pdm_domain_data list \<Rightarrow> bool" where
  "table_ok dds \<longleftrightarrow> distinct (map pd_domain dds) \<and> (\<forall>dd \<in> set dds. distinct (provides dd))"

lemma add_domains_ok:
  assumes "pdm_mem_ok w" and "table_ok dds"
    and "\<forall>dd \<in> set dds. \<forall>n. pd_domain dd \<notin> dm_name ` set (pdm_lookup svcs n)"
  shows "\<exists>svcs' w'. add_domains dds svcs w = (0, svcs', w') \<and> pdm_mem_ok w' \<and>
    (\<forall>m. pdm_lookup svcs' m = pdm_lookup svcs m @ map domain_entry (filter (\<lambda>dd. m \<in> set (provides dd)) dds))"
  using assms
proof (induction dds arbitrary: svcs w)
  case Nil
  then show ?case by simp
next
  case (Cons dd dds)
  have run: "qcom_pdm_add_domain dd svcs w = add_services (provides dd) (pd_domain dd) (pd_instance_id dd) svcs w"
    by (simp add: qcom_pdm_add_domain_def provides_def)
  from add_services_ok [OF Cons.prems(1), of "provides dd" "pd_domain dd" svcs "pd_instance_id dd"] Cons.prems(2,3)
  obtain svcs1 w1 where one: "qcom_pdm_add_domain dd svcs w = (0, svcs1, w1)" "pdm_mem_ok w1"
    and l: "\<forall>m. pdm_lookup svcs1 m = pdm_lookup svcs m @ (if m \<in> set (provides dd) then [domain_entry dd] else [])"
    by (auto simp: table_ok_def run domain_entry_def)
  have "table_ok dds" "\<forall>x \<in> set dds. \<forall>n. pd_domain x \<notin> dm_name ` set (pdm_lookup svcs1 n)"
    using Cons.prems(2,3) l by (auto simp: table_ok_def domain_entry_def image_iff)
  with Cons.IH [OF one(2), of svcs1] obtain svcs2 w2 where
    "add_domains dds svcs1 w1 = (0, svcs2, w2)" "pdm_mem_ok w2"
    "\<forall>m. pdm_lookup svcs2 m = pdm_lookup svcs1 m @ map domain_entry (filter (\<lambda>dd. m \<in> set (provides dd)) dds)"
    by blast
  with one l show ?case
    by auto
qed

text \<open>No platform lists a domain twice or a service twice for one domain.\<close>

lemma tables_ok: "(c, Some dds) \<in> set qcom_pdm_domains \<Longrightarrow> table_ok dds"
  by (auto simp: qcom_pdm_domains_def pdm_platform_defs table_ok_def pdm_domain_defs provides_def TMS_SERVREG_SERVICE_def)

lemma list_domains_eq:
  assumes "unat t + length ds < 2 ^ 32"
  shows "list_domains len nlen offset ds (t, out) =
    (t + word_of_nat (length ds),
     out @ map (\<lambda>d. (strscpy nlen (dm_name d), dm_instance_id d))
       (drop (unat offset - unat t) (take (unat len - unat t) ds)))"
  using assms
proof (induction ds arbitrary: t out)
  case Nil
  then show ?case by simp
next
  case (Cons d ds)
  have t1: "unat (t + 1) = Suc (unat t)"
    using Cons.prems by (simp add: unat_word_ariths)
  have IH: "list_domains len nlen offset ds (t + 1, out') =
      (t + 1 + word_of_nat (length ds), out' @ map (\<lambda>d. (strscpy nlen (dm_name d), dm_instance_id d))
         (drop (unat offset - Suc (unat t)) (take (unat len - Suc (unat t)) ds)))" for out'
    using Cons.IH [of "t + 1" out'] Cons.prems by (simp add: t1)
  have cmp: "offset \<le> t \<longleftrightarrow> unat offset \<le> unat t" "t < len \<longleftrightarrow> unat t < unat len"
    by (simp_all add: word_le_nat_alt word_less_nat_alt)
  show ?case
  proof (cases "unat t < unat len")
    case True
    then have "unat len - unat t = Suc (unat len - Suc (unat t))"
      by simp
    moreover have "unat offset - unat t = (if unat offset \<le> unat t then 0 else Suc (unat offset - Suc (unat t)))"
      by auto
    ultimately show ?thesis
      using True by (simp add: IH cmp add.assoc)
  next
    case False
    then show ?thesis
      by (simp add: IH cmp add.assoc)
  qed
qed

section \<open>Properties\<close>

text \<open>
  C28. On every supported platform with domains the mapper starts when memory and the QMI
  service are available, and its table then lists for every service exactly the domains of
  the platform that provide it, in the order of the platform's list.
\<close>

theorem pdm_start_table:
  assumes "pe_root e" and "pdm_match e = Some (Some dds)" and "pe_handle_init e = 0" and "pe_add_server e = 0"
    and "pdm_mem_ok w"
  shows "\<exists>d w'. qcom_pdm_start e w = (Inr d, w') \<and>
    (\<forall>n. pdm_lookup (pm_services d) n = map domain_entry (filter (\<lambda>dd. n \<in> set (provides dd)) dds))"
proof -
  obtain c where "pe_match e = Some c" "map_of qcom_pdm_domains c = Some (Some dds)"
    using assms(2) by (auto simp: pdm_match_def split: option.splits)
  then have tab: "table_ok dds"
    using tables_ok map_of_SomeD by fastforce
  obtain w1 where k: "pdm_kzalloc w = (True, w1)" "pdm_mem_ok w1"
    using kzalloc_ok [OF assms(5)] by blast
  have none: "pdm_lookup [] n = []" for n
    by (simp add: pdm_lookup_def qcom_pdm_find_def)
  have "pdm_mem_ok (w1\<lparr>pk_handles := Suc (pk_handles w1)\<rparr>)"
    using k(2) by (simp add: pdm_mem_ok_def)
  from add_domains_ok [OF this tab, of "[]"] obtain svcs w2 where
    "add_domains dds [] (w1\<lparr>pk_handles := Suc (pk_handles w1)\<rparr>) = (0, svcs, w2)"
    "\<forall>m. pdm_lookup svcs m = map domain_entry (filter (\<lambda>dd. m \<in> set (provides dd)) dds)"
    by (auto simp: none)
  then show ?thesis
    using assms(1-4) k(1) by (simp add: qcom_pdm_start_def)
qed

definition demo_pdm_env :: pdm_env where
  "demo_pdm_env = \<lparr>pe_root = True, pe_match = Some ''qcom,sc7180'', pe_handle_init = 0, pe_add_server = 0\<rparr>"

definition demo_pdm_kernel :: pdm_kernel where
  "demo_pdm_kernel = \<lparr>pk_tick = 0, pk_nomem = (\<lambda>_. False), pk_heap = 0, pk_handles = 0\<rparr>"

lemma demo_pdm_match: "pdm_match demo_pdm_env = Some (Some sc7180_domains)"
  by (simp add: pdm_match_def demo_pdm_env_def qcom_pdm_domains_def)

theorem pdm_start_table_witness:
  "\<exists>d w'. qcom_pdm_start demo_pdm_env demo_pdm_kernel = (Inr d, w') \<and>
     pdm_lookup (pm_services d) ''wlan/fw'' = [\<lparr>dm_name = ''msm/modem/wlan_pd'', dm_instance_id = 180\<rparr>]"
proof -
  have "map domain_entry (filter (\<lambda>dd. ''wlan/fw'' \<in> set (provides dd)) sc7180_domains) =
      [\<lparr>dm_name = ''msm/modem/wlan_pd'', dm_instance_id = 180\<rparr>]"
    by (simp add: sc7180_domains_def pdm_domain_defs provides_def TMS_SERVREG_SERVICE_def domain_entry_def)
  moreover have "pdm_mem_ok demo_pdm_kernel"
    by (simp add: pdm_mem_ok_def demo_pdm_kernel_def)
  ultimately show ?thesis
    using pdm_start_table [OF _ demo_pdm_match, of demo_pdm_kernel] by (auto simp: demo_pdm_env_def)
qed

text \<open>
  A domain-list response reports the number of all domains of the service but lists only
  those from the offset up to the length of its array: no request returns a domain whose
  position is that length or more, so the offset does not page through longer lists. The
  array is never overrun.
\<close>

theorem pdm_domain_page:
  assumes "length (pdm_lookup svcs (rq_service_name req)) < 2 ^ 32"
    and "qcom_pdm_find svcs (rq_service_name req) \<noteq> None" and "\<not> pk_nomem w (pk_tick w)"
    and "offset = (if rq_domain_offset_valid req then rq_domain_offset req else 0)"
  shows "\<exists>rsp w'. qcom_pdm_get_domain_list len nlen svcs req w = (Some rsp, w') \<and> pk_heap w' = pk_heap w \<and>
    unat (rs_total_domains rsp) = length (pdm_lookup svcs (rq_service_name req)) \<and>
    rs_domain_list rsp = map (\<lambda>d. (strscpy nlen (dm_name d), dm_instance_id d))
      (drop (unat offset) (take (unat len) (pdm_lookup svcs (rq_service_name req)))) \<and>
    length (rs_domain_list rsp) \<le> unat len"
proof -
  obtain s where s: "qcom_pdm_find svcs (rq_service_name req) = Some s"
    using assms(2) by blast
  then have ds: "pdm_lookup svcs (rq_service_name req) = sv_domains s"
    by (simp add: pdm_lookup_def)
  have "list_domains len nlen offset (sv_domains s) (0, []) =
      (word_of_nat (length (sv_domains s)), map (\<lambda>d. (strscpy nlen (dm_name d), dm_instance_id d))
        (drop (unat offset) (take (unat len) (sv_domains s))))"
    using list_domains_eq [of 0 "sv_domains s"] assms(1) ds by simp
  with s ds assms(1,3,4) show ?thesis
    by (auto simp: qcom_pdm_get_domain_list_def pdm_kzalloc_def pdm_kfree_def Let_def unat_of_nat)
qed

theorem pdm_domain_page_witness:
  "\<exists>rsp w'. qcom_pdm_get_domain_list 32 65 [\<lparr>sv_name = ''avs/audio'', sv_domains = [\<lparr>dm_name = ''a'', dm_instance_id = 74\<rparr>]\<rparr>]
     \<lparr>rq_service_name = ''avs/audio'', rq_domain_offset_valid = False, rq_domain_offset = 7\<rparr> demo_pdm_kernel = (Some rsp, w') \<and>
     rs_domain_list rsp = [(''a'', 74)]"
  using pdm_domain_page [of "[\<lparr>sv_name = ''avs/audio'', sv_domains = [\<lparr>dm_name = ''a'', dm_instance_id = 74\<rparr>]\<rparr>]"
      "\<lparr>rq_service_name = ''avs/audio'', rq_domain_offset_valid = False, rq_domain_offset = 7\<rparr>" demo_pdm_kernel 0 32 65]
  by (auto simp: pdm_lookup_def qcom_pdm_find_def demo_pdm_kernel_def strscpy_def)

section \<open>Binding and unbinding devices\<close>

text \<open>
  The driver core binds devices one at a time: a device is bound when its probe returned
  zero, and only a bound device is removed. The errors of the QMI calls are negative.
\<close>

definition pdm_env_ok :: "pdm_env \<Rightarrow> bool" where
  "pdm_env_ok e \<longleftrightarrow> pe_handle_init e \<le> 0 \<and> pe_add_server e \<le> 0"

inductive pdm_reach :: "pdm_state \<Rightarrow> nat set \<Rightarrow> bool" where
  pdm_boot: "pk_heap w = 0 \<Longrightarrow> pk_handles w = 0 \<Longrightarrow>
    pdm_reach \<lparr>ps_data = None, ps_drvdata = (\<lambda>_. False), ps_kernel = w\<rparr> {}"
| pdm_bind: "pdm_reach s B \<Longrightarrow> dev \<notin> B \<Longrightarrow> pdm_env_ok e \<Longrightarrow> qcom_pdm_probe e dev s = (0, s') \<Longrightarrow>
    pdm_reach s' (insert dev B)"
| pdm_refuse: "pdm_reach s B \<Longrightarrow> dev \<notin> B \<Longrightarrow> pdm_env_ok e \<Longrightarrow> qcom_pdm_probe e dev s = (ret, s') \<Longrightarrow> ret \<noteq> 0 \<Longrightarrow>
    pdm_reach s' B"
| pdm_unbind: "pdm_reach s B \<Longrightarrow> dev \<in> B \<Longrightarrow>
    pdm_reach ((qcom_pdm_remove dev s)\<lparr>ps_drvdata := (ps_drvdata s)(dev := False)\<rparr>) (B - {dev})"

definition pdm_inv :: "pdm_state \<Rightarrow> nat set \<Rightarrow> bool" where
  "pdm_inv s B \<longleftrightarrow> finite B \<and> (\<forall>dev. ps_drvdata s dev \<longleftrightarrow> dev \<in> B) \<and>
     (case ps_data s of
        None \<Rightarrow> B = {} \<and> pk_heap (ps_kernel s) = 0 \<and> pk_handles (ps_kernel s) = 0
      | Some d \<Rightarrow> B \<noteq> {} \<and> pm_refcnt d = card B \<and> pdm_acct 1 (pm_services d) (ps_kernel s) \<and>
          pk_handles (ps_kernel s) = 1)"

lemma pdm_inv_bind:
  assumes inv: "pdm_inv s B" and dev: "dev \<notin> B" and run: "qcom_pdm_probe e dev s = (0, s')"
    and fresh: "\<And>w'. qcom_pdm_start e (ps_kernel s) \<noteq> (Inl 0, w')"
  shows "pdm_inv s' (insert dev B)"
proof (cases "ps_data s")
  case None
  then obtain d w where st: "qcom_pdm_start e (ps_kernel s) = (Inr d, w)"
    and s': "s' = s\<lparr>ps_data := Some d, ps_drvdata := (ps_drvdata s)(dev := True), ps_kernel := w\<rparr>"
    using run fresh by (auto simp: qcom_pdm_probe_def split: sum.splits prod.splits)
  have B: "B = {}" "pk_heap (ps_kernel s) = 0" "pk_handles (ps_kernel s) = 0" "\<And>x. \<not> ps_drvdata s x"
    using inv None by (simp_all add: pdm_inv_def)
  with pdm_start_acct [OF st] show ?thesis
    by (simp add: pdm_inv_def s')
next
  case (Some d)
  then have s': "s' = s\<lparr>ps_data := Some (d\<lparr>pm_refcnt := Suc (pm_refcnt d)\<rparr>), ps_drvdata := (ps_drvdata s)(dev := True)\<rparr>"
    using run by (simp add: qcom_pdm_probe_def)
  with inv dev Some show ?thesis
    by (simp add: pdm_inv_def)
qed

lemma pdm_inv_refuse:
  assumes inv: "pdm_inv s B" and dev: "dev \<notin> B" and run: "qcom_pdm_probe e dev s = (ret, s')" and "ret \<noteq> 0"
  shows "pdm_inv s' B"
proof (cases "ps_data s")
  case None
  then obtain w where st: "qcom_pdm_start e (ps_kernel s) = (Inl ret, w)"
    and s': "s' = s\<lparr>ps_drvdata := (ps_drvdata s)(dev := False), ps_kernel := w\<rparr>"
    using run \<open>ret \<noteq> 0\<close> by (auto simp: qcom_pdm_probe_def split: sum.splits prod.splits)
  have "B = {}" "pk_heap (ps_kernel s) = 0" "pk_handles (ps_kernel s) = 0" "\<And>x. \<not> ps_drvdata s x"
    using inv None by (simp_all add: pdm_inv_def)
  with pdm_start_acct [OF st] None show ?thesis
    by (simp add: pdm_inv_def s')
next
  case (Some d)
  with run \<open>ret \<noteq> 0\<close> show ?thesis
    by (simp add: qcom_pdm_probe_def)
qed

lemma pdm_inv_unbind:
  assumes inv: "pdm_inv s B" and dev: "dev \<in> B"
  shows "pdm_inv ((qcom_pdm_remove dev s)\<lparr>ps_drvdata := (ps_drvdata s)(dev := False)\<rparr>) (B - {dev})"
proof -
  obtain d where d: "ps_data s = Some d" "pm_refcnt d = card B" "finite B" "pdm_acct 1 (pm_services d) (ps_kernel s)"
    "pk_handles (ps_kernel s) = 1"
    using inv dev by (auto simp: pdm_inv_def split: option.splits)
  have card: "card (B - {dev}) = card B - 1"
    using d(3) dev by simp
  show ?thesis
  proof (cases "card B = 1")
    case True
    then have "B = {dev}"
      using dev by (auto simp: card_1_singleton_iff)
    with d inv pdm_stop_acct [of 0 "pm_services d" "ps_kernel s"] show ?thesis
      by (simp add: qcom_pdm_remove_def pdm_inv_def)
  next
    case False
    then have "B \<noteq> {dev}"
      by auto
    then have "B - {dev} \<noteq> {}"
      using dev by blast
    moreover have "ps_drvdata s x \<longleftrightarrow> x \<in> B" for x
      using inv by (simp add: pdm_inv_def)
    ultimately show ?thesis
      using False d card dev by (simp add: qcom_pdm_remove_def pdm_inv_def)
  qed
qed

text \<open>A start never fails with the value zero.\<close>

lemma pdm_start_nonzero: "qcom_pdm_start e w \<noteq> (Inl 0, w')"
  by (auto simp: qcom_pdm_start_def split: prod.splits if_splits option.splits)

lemma pdm_reach_inv: "pdm_reach s B \<Longrightarrow> pdm_inv s B"
proof (induction rule: pdm_reach.induct)
  case (pdm_boot w)
  then show ?case by (simp add: pdm_inv_def)
next
  case (pdm_bind s B dev e s')
  then show ?case
    using pdm_inv_bind pdm_start_nonzero by blast
next
  case (pdm_refuse s B dev e ret s')
  then show ?case
    using pdm_inv_refuse by blast
next
  case (pdm_unbind s B dev)
  then show ?case
    using pdm_inv_unbind by blast
qed

text \<open>
  C29. However devices are bound, refused and unbound, the mapper runs exactly as long as one
  of them is bound, its reference count is their number, it holds one QMI handle and the
  memory of its table, and when the last device is gone everything has been released.
\<close>

theorem pdm_lifetime:
  assumes "pdm_reach s B"
  shows "(ps_data s = None \<longleftrightarrow> B = {}) \<and> (\<forall>d. ps_data s = Some d \<longrightarrow> pm_refcnt d = card B) \<and>
    (B = {} \<longrightarrow> pk_heap (ps_kernel s) = 0 \<and> pk_handles (ps_kernel s) = 0)"
  using pdm_reach_inv [OF assms] by (auto simp: pdm_inv_def split: option.splits)

theorem pdm_lifetime_witness:
  "let boot = \<lparr>ps_data = None, ps_drvdata = (\<lambda>_. False), ps_kernel = demo_pdm_kernel\<rparr>;
       up = snd (qcom_pdm_probe demo_pdm_env 1 boot);
       down = (qcom_pdm_remove 1 up)\<lparr>ps_drvdata := (ps_drvdata up)(1 := False)\<rparr>
   in pk_heap (ps_kernel down) = 0"
proof -
  let ?boot = "\<lparr>ps_data = None, ps_drvdata = (\<lambda>_. False), ps_kernel = demo_pdm_kernel\<rparr>"
  let ?up = "snd (qcom_pdm_probe demo_pdm_env 1 ?boot)"
  have boot: "pdm_reach ?boot {}"
    by (rule pdm_boot) (simp_all add: demo_pdm_kernel_def)
  have "fst (qcom_pdm_probe demo_pdm_env 1 ?boot) = 0"
    by code_simp
  then have "qcom_pdm_probe demo_pdm_env 1 ?boot = (0, ?up)"
    by (metis prod.collapse)
  then have "pdm_reach ?up (insert 1 {})"
    by (intro pdm_bind [OF boot]) (simp_all add: pdm_env_ok_def demo_pdm_env_def)
  then have "pdm_reach ((qcom_pdm_remove 1 ?up)\<lparr>ps_drvdata := (ps_drvdata ?up)(1 := False)\<rparr>) (insert 1 {} - {1})"
    by (rule pdm_unbind) simp
  from pdm_lifetime [OF this] show ?thesis
    by (simp add: Let_def)
qed

end
