(* ===== verification/Stages.thy ===== *)
theory Stages
  imports Resources
begin

text \<open>
  The set-up routines of the board modules are straight-line code: look something up, check
  a firmware guard, register something, and on the first failure jump to a clean-up that
  releases every pointer that is not \<open>NULL\<close>, in a fixed order. Here such a routine is the
  list of its stages, each with the answer of the kernel service it calls, and its clean-up
  is the list of resources in the order of release. What is held is the list of the pointers
  that are not \<open>NULL\<close>, the newest first.

  \<^item> \<open>Check ok err\<close>: \<open>if (!ok) { ret = err; goto fail; }\<close>
  \<^item> \<open>Call ret\<close>: a call that holds nothing and fails when \<open>ret\<close> is not zero
  \<^item> \<open>Require rs err\<close>: the same for \<open>if (!r1 || !r2 ...)\<close> on pointers of the module
  \<^item> \<open>Take r ret\<close>: a call that acquires \<open>r\<close> and fails when \<open>ret\<close> is not zero
  \<^item> \<open>Take_checked r ret1 ret2\<close>: acquired, then set up; given back at once when that fails
  \<^item> \<open>Find rs r found keep\<close>: a lookup that is made when \<open>rs\<close> are held, and whose reference is
    put back at once when \<open>keep\<close> does not hold; it never fails by itself
\<close>

datatype 'r stage =
    Check bool int
  | Call int
  | Require "'r list" int
  | Take 'r int
  | Take_checked 'r int int
  | Find "'r list" 'r bool bool

fun run_stages :: "'r stage list \<Rightarrow> 'r list \<Rightarrow> int \<times> 'r revent list \<times> 'r list" where
  "run_stages [] h = (0, [], h)"
| "run_stages (Check ok err # st) h = (if ok then run_stages st h else (err, [], h))"
| "run_stages (Call ret # st) h = (if ret = 0 then run_stages st h else (ret, [], h))"
| "run_stages (Require rs err # st) h =
    (if set rs \<subseteq> set h then run_stages st h else (err, [], h))"
| "run_stages (Take r ret # st) h =
    (if ret = 0 then (case run_stages st (r # h) of (c, t, h') \<Rightarrow> (c, Acq r # t, h'))
     else (ret, [], h))"
| "run_stages (Take_checked r ret1 ret2 # st) h =
    (if ret1 \<noteq> 0 then (ret1, [], h)
     else if ret2 \<noteq> 0 then (ret2, [Acq r, Rel r], h)
     else (case run_stages st (r # h) of (c, t, h') \<Rightarrow> (c, Acq r # t, h')))"
| "run_stages (Find rs r found keep # st) h =
    (if set rs \<subseteq> set h \<and> found then
       if keep then (case run_stages st (r # h) of (c, t, h') \<Rightarrow> (c, Acq r # t, h'))
       else (case run_stages st h of (c, t, h') \<Rightarrow> (c, Acq r # Rel r # t, h'))
     else run_stages st h)"

definition release_held :: "'r list \<Rightarrow> 'r list \<Rightarrow> 'r revent list" where
  "release_held ord h = map Rel (filter (\<lambda>r. r \<in> set h) ord)"

lemma release_held_simps:
  "release_held [] h = []"
  "release_held (x # xs) h = (if x \<in> set h then Rel x # release_held xs h else release_held xs h)"
  "release_held (xs @ ys) h = release_held xs h @ release_held ys h"
  by (simp_all add: release_held_def)

text \<open>
  Replay with dependencies: \<open>uses r\<close> are the resources \<open>r\<close> is built on (its parent device,
  its software node, its clock). A resource may be acquired only while what it uses is held,
  and released only when it is held and nothing held uses it.
\<close>

fun dep_run :: "('r \<Rightarrow> 'r list) \<Rightarrow> 'r revent list \<Rightarrow> 'r list \<Rightarrow> 'r list option" where
  "dep_run uses [] h = Some h"
| "dep_run uses (Acq r # t) h =
    (if set (uses r) \<subseteq> set h then dep_run uses t (r # h) else None)"
| "dep_run uses (Rel r # t) h =
    (if r \<in> set h \<and> (\<forall>q \<in> set h. r \<notin> set (uses q)) then dep_run uses t (remove1 r h) else None)"

lemma dep_run_res_run: "dep_run uses t h = Some h' \<Longrightarrow> res_run t h = Some h'"
  by (induction uses t h rule: dep_run.induct) (auto split: if_splits)

lemma dep_run_append:
  "dep_run uses (s @ t) h = (case dep_run uses s h of None \<Rightarrow> None | Some h' \<Rightarrow> dep_run uses t h')"
  by (induction uses s h rule: dep_run.induct) auto

lemma dep_run_balanced: "dep_run uses t [] = Some [] \<Longrightarrow> balanced t"
  by (simp add: balanced_def dep_run_res_run)

lemma dep_run_frame:
  "dep_run uses t h = Some h' \<Longrightarrow> \<forall>q \<in> set g. uses q = [] \<Longrightarrow> dep_run uses t (h @ g) = Some (h' @ g)"
  by (induction uses t h rule: dep_run.induct) (auto simp: remove1_append split: if_splits)

lemma dep_run_concat:
  "(\<And>e. dep_run uses (c e) [] = Some []) \<Longrightarrow> dep_run uses (concat (map c es)) [] = Some []"
  by (induction es) (simp_all add: dep_run_append)

fun stage_res :: "'r stage list \<Rightarrow> 'r list" where
  "stage_res [] = []"
| "stage_res (Take r _ # st) = r # stage_res st"
| "stage_res (Take_checked r _ _ # st) = r # stage_res st"
| "stage_res (Find _ r _ _ # st) = r # stage_res st"
| "stage_res (_ # st) = stage_res st"

text \<open>The static check of a stage list: \<open>K\<close> is what is certainly held at this point.\<close>

fun stages_ok :: "('r \<Rightarrow> 'r list) \<Rightarrow> 'r list \<Rightarrow> 'r stage list \<Rightarrow> bool" where
  "stages_ok uses K [] \<longleftrightarrow> True"
| "stages_ok uses K (Check _ err # st) \<longleftrightarrow> stages_ok uses K st"
| "stages_ok uses K (Call _ # st) \<longleftrightarrow> stages_ok uses K st"
| "stages_ok uses K (Require rs err # st) \<longleftrightarrow> stages_ok uses (rs @ K) st"
| "stages_ok uses K (Take r _ # st) \<longleftrightarrow>
    r \<notin> set (uses r) \<and> set (uses r) \<subseteq> set K \<and> stages_ok uses (r # K) st"
| "stages_ok uses K (Take_checked r _ _ # st) \<longleftrightarrow>
    r \<notin> set (uses r) \<and> set (uses r) \<subseteq> set K \<and> stages_ok uses (r # K) st"
| "stages_ok uses K (Find rs r _ _ # st) \<longleftrightarrow>
    r \<notin> set (uses r) \<and> set (uses r) \<subseteq> set rs \<union> set K \<and> stages_ok uses K st"

text \<open>An order of release is right when nothing that comes later uses what goes first.\<close>

fun order_ok :: "('r \<Rightarrow> 'r list) \<Rightarrow> 'r list \<Rightarrow> bool" where
  "order_ok uses [] \<longleftrightarrow> True"
| "order_ok uses (p # ps) \<longleftrightarrow>
    p \<notin> set ps \<and> (\<forall>q \<in> set (p # ps). p \<notin> set (uses q)) \<and> order_ok uses ps"

definition held_ok :: "('r \<Rightarrow> 'r list) \<Rightarrow> 'r list \<Rightarrow> bool" where
  "held_ok uses h \<longleftrightarrow> distinct h \<and> (\<forall>q \<in> set h. set (uses q) \<subseteq> set h)"

lemma held_ok_Nil [simp]: "held_ok uses []"
  by (simp add: held_ok_def)

lemma held_ok_Cons:
  "held_ok uses h \<Longrightarrow> r \<notin> set h \<Longrightarrow> set (uses r) \<subseteq> set h \<Longrightarrow> held_ok uses (r # h)"
  by (auto simp: held_ok_def)

text \<open>A fresh resource is used by nothing that is held, so a lookup can be put back.\<close>

lemma dep_run_temporary:
  "held_ok uses h \<Longrightarrow> r \<notin> set h \<Longrightarrow> r \<notin> set (uses r) \<Longrightarrow> set (uses r) \<subseteq> set h \<Longrightarrow>
   dep_run uses (Acq r # Rel r # t) h = dep_run uses t h"
  by (auto simp: held_ok_def)

text \<open>What a run of stages from \<open>h\<close> gives, and how one more acquisition extends it.\<close>

definition stages_post ::
  "('r \<Rightarrow> 'r list) \<Rightarrow> 'r stage list \<Rightarrow> 'r list \<Rightarrow> 'r revent list \<Rightarrow> 'r list \<Rightarrow> bool" where
  "stages_post uses st h t h' \<longleftrightarrow> dep_run uses t h = Some h' \<and> held_ok uses h' \<and>
    set h \<subseteq> set h' \<and> set h' \<subseteq> set h \<union> set (stage_res st)"

definition stages_pre :: "('r \<Rightarrow> 'r list) \<Rightarrow> 'r stage list \<Rightarrow> 'r list \<Rightarrow> 'r list \<Rightarrow> bool" where
  "stages_pre uses st K h \<longleftrightarrow> stages_ok uses K st \<and> set K \<subseteq> set h \<and> held_ok uses h \<and>
    distinct (stage_res st) \<and> set h \<inter> set (stage_res st) = {}"

lemma stages_post_here: "held_ok uses h \<Longrightarrow> stages_post uses st h [] h"
  by (simp add: stages_post_def)

lemma stages_post_take:
  "stages_post uses st (r # h) t h' \<Longrightarrow> set (uses r) \<subseteq> set h \<Longrightarrow>
   stage_res (s # st) = r # stage_res st \<Longrightarrow> stages_post uses (s # st) h (Acq r # t) h'"
  by (auto simp: stages_post_def)

lemma stages_post_put_back:
  "stages_post uses st h t h' \<Longrightarrow> held_ok uses h \<Longrightarrow> r \<notin> set h \<Longrightarrow> r \<notin> set (uses r) \<Longrightarrow>
   set (uses r) \<subseteq> set h \<Longrightarrow> stage_res (s # st) = r # stage_res st \<Longrightarrow>
   stages_post uses (s # st) h (Acq r # Rel r # t) h'"
  by (simp add: stages_post_def dep_run_temporary del: dep_run.simps) blast

lemma stages_post_skip:
  "stages_post uses st h t h' \<Longrightarrow> set (stage_res st) \<subseteq> set (stage_res (s # st)) \<Longrightarrow>
   stages_post uses (s # st) h t h'"
  by (auto simp: stages_post_def)

lemma stages_pre_take:
  "held_ok uses h \<Longrightarrow> r \<notin> set h \<Longrightarrow> set (uses r) \<subseteq> set h \<Longrightarrow> distinct (r # stage_res st) \<Longrightarrow>
   set h \<inter> set (stage_res st) = {} \<Longrightarrow> stages_ok uses K st \<Longrightarrow> set K \<subseteq> set (r # h) \<Longrightarrow>
   stages_pre uses st K (r # h)"
  by (auto simp: stages_pre_def held_ok_Cons)

lemma run_stages_dep:
  "run_stages st h = (ret, t, h') \<Longrightarrow> stages_pre uses st K h \<Longrightarrow> stages_post uses st h t h'"
proof (induction st h arbitrary: K ret t h' rule: run_stages.induct)
  case (1 h)
  then show ?case by (simp add: stages_post_here stages_pre_def)
next
  case (2 ok err st h)
  then show ?case
    by (cases ok) (auto simp: stages_pre_def stages_post_here intro: stages_post_skip)
next
  case (3 c st h)
  then show ?case
    by (cases "c = 0") (auto simp: stages_pre_def stages_post_here intro: stages_post_skip)
next
  case (4 rs err st h)
  have pre: "stages_pre uses st (rs @ K) h" if "set rs \<subseteq> set h" "held_ok uses h"
    using 4(3) that by (auto simp: stages_pre_def)
  have "held_ok uses h"
    using 4(3) by (simp add: stages_pre_def)
  then show ?case
    using 4(2) 4(1) [OF _ _ pre]
    by (auto simp: stages_post_here intro: stages_post_skip split: if_splits)
next
  case (5 r c st h)
  have pre: "stages_pre uses st (r # K) (r # h)" "held_ok uses h" "set (uses r) \<subseteq> set h"
    using 5(3) by (auto simp: stages_pre_def held_ok_Cons)
  then show ?case
    using 5(2) 5(1) [OF _ _ pre(1)]
    by (auto simp: stages_post_here intro: stages_post_take split: if_splits prod.splits)
next
  case (6 r c1 c2 st h)
  have pre: "stages_pre uses st (r # K) (r # h)" "held_ok uses h" "set (uses r) \<subseteq> set h"
      "r \<notin> set h" "r \<notin> set (uses r)"
    using 6(3) by (auto simp: stages_pre_def held_ok_Cons)
  then show ?case
    using 6(2) 6(1) [OF _ _ _ pre(1)]
    by (auto simp: stages_post_here intro: stages_post_take
        intro!: stages_post_put_back [OF stages_post_here] split: if_splits prod.splits)
next
  case (7 rs r found keep st h)
  have facts: "held_ok uses h" "r \<notin> set h" "r \<notin> set (uses r)" "stages_pre uses st K h"
    using 7(5) by (auto simp: stages_pre_def)
  show ?case
  proof (cases "set rs \<subseteq> set h \<and> found")
    case True
    then have used: "set (uses r) \<subseteq> set h"
      using 7(5) by (auto simp: stages_pre_def)
    have pre: "stages_pre uses st K (r # h)"
      by (rule stages_pre_take) (use used facts 7(5) in \<open>auto simp: stages_pre_def\<close>)
    from used show ?thesis
      using True 7(4) facts 7(1) [OF True _ _ pre] 7(2) [OF True _ _ facts(4)]
      by (auto intro: stages_post_take stages_post_put_back split: if_splits prod.splits)
  next
    case False
    then have "run_stages st h = (ret, t, h')"
      using 7(4) by (simp only: run_stages.simps if_False)
    then show ?thesis
      using 7(3) [OF False _ facts(4)] by (auto intro: stages_post_skip)
  qed
qed


text \<open>Releasing in a right order: only what the order does not name stays.\<close>

lemma release_held_dep:
  assumes "distinct h" "order_ok uses ord"
    and "\<forall>q \<in> set h - set ord. set (uses q) \<inter> set ord = {}"
  shows "dep_run uses (release_held ord h) h = Some (filter (\<lambda>r. r \<notin> set ord) h)"
  using assms
proof (induction ord arbitrary: h)
  case (Cons p ps)
  show ?case
  proof (cases "p \<in> set h")
    case True
    have "\<forall>q \<in> set h. p \<notin> set (uses q)"
      using Cons.prems by auto
    moreover have "release_held (p # ps) h = Rel p # release_held ps (remove1 p h)"
      using Cons.prems True
      by (simp add: release_held_def) (intro arg_cong [where f = "map Rel"] filter_cong; auto)
    moreover have "filter (\<lambda>r. r \<notin> set ps) (remove1 p h) = filter (\<lambda>r. r \<notin> set (p # ps)) h"
      using Cons.prems(1) by (auto simp: distinct_remove1_removeAll removeAll_filter_not_eq intro!: filter_cong)
    ultimately show ?thesis
      using Cons.IH [of "remove1 p h"] Cons.prems True by auto
  next
    case False
    then have "filter (\<lambda>r. r \<notin> set ps) h = filter (\<lambda>r. r \<notin> set (p # ps)) h"
      by (auto intro!: filter_cong)
    then show ?thesis
      using Cons.IH [of h] Cons.prems False by (simp add: release_held_def)
  qed
qed (simp add: release_held_def)

lemma release_all:
  assumes "held_ok uses h" "order_ok uses ord" "set h \<subseteq> set ord"
  shows "dep_run uses (release_held ord h) h = Some []"
proof -
  have "filter (\<lambda>r. r \<notin> set ord) h = []"
    using assms(3) by (auto simp: filter_empty_conv)
  moreover have "\<forall>q \<in> set h - set ord. set (uses q) \<inter> set ord = {}"
    using assms(3) by blast
  ultimately show ?thesis
    using release_held_dep [of h uses ord] assms(1,2) by (simp add: held_ok_def)
qed

text \<open>What a run that returns 0 certainly holds, and the guards it has passed.\<close>

fun certain :: "'r stage list \<Rightarrow> 'r list" where
  "certain [] = []"
| "certain (Check _ err # st) = (if err = 0 then [] else certain st)"
| "certain (Call _ # st) = certain st"
| "certain (Require rs err # st) = (if err = 0 then [] else rs @ certain st)"
| "certain (Take r _ # st) = r # certain st"
| "certain (Take_checked r _ _ # st) = r # certain st"
| "certain (Find _ _ _ _ # st) = certain st"

fun guards :: "'r stage list \<Rightarrow> bool" where
  "guards [] \<longleftrightarrow> True"
| "guards (Check ok err # st) \<longleftrightarrow> err = 0 \<or> ok \<and> guards st"
| "guards (Call ret # st) \<longleftrightarrow> ret = 0 \<and> guards st"
| "guards (Require _ err # st) \<longleftrightarrow> err = 0 \<or> guards st"
| "guards (_ # st) \<longleftrightarrow> guards st"

lemma run_stages_Find_skip:
  "\<not> (set rs \<subseteq> set h \<and> found) \<Longrightarrow> run_stages (Find rs r found keep # st) h = run_stages st h"
  by (simp only: run_stages.simps if_False)

text \<open>What a run can hold at its end: not what is always put back.\<close>

fun may_hold :: "'r stage list \<Rightarrow> 'r list" where
  "may_hold [] = []"
| "may_hold (Take r _ # st) = r # may_hold st"
| "may_hold (Take_checked r _ _ # st) = r # may_hold st"
| "may_hold (Find _ r _ keep # st) = (if keep then r # may_hold st else may_hold st)"
| "may_hold (_ # st) = may_hold st"

lemma run_stages_may_hold:
  "run_stages st h = (ret, t, h') \<Longrightarrow> set h' \<subseteq> set h \<union> set (may_hold st)"
proof (induction st h arbitrary: ret t h' rule: run_stages.induct)
  case (7 rs r found keep st h)
  show ?case
  proof (cases "set rs \<subseteq> set h \<and> found")
    case True
    then show ?thesis
      using 7(1,2,4) by (cases keep) (fastforce split: prod.splits)+
  next
    case False
    then show ?thesis
      using 7(3) [OF False] 7(4) unfolding run_stages_Find_skip [OF False] by auto
  qed
qed (fastforce split: if_splits prod.splits)+

lemma singleton_list: "distinct k \<Longrightarrow> set k = {x} \<Longrightarrow> k = [x]"
  by (cases k; cases "tl k") auto

text \<open>The resource of the last stage is held only by a run that returns 0.\<close>

lemma run_stages_last:
  "run_stages (st @ [Take r c]) h = (ret, t, h') \<Longrightarrow> r \<notin> set h \<union> set (may_hold st) \<Longrightarrow>
   ret \<noteq> 0 \<Longrightarrow> r \<notin> set h'"
proof (induction st h arbitrary: ret t h' rule: run_stages.induct)
  case (7 rs q found keep st h)
  show ?case
  proof (cases "set rs \<subseteq> set h \<and> found")
    case True
    then show ?thesis
      using 7(1,2,4-) by (cases keep) (fastforce split: prod.splits)+
  next
    case False
    then show ?thesis
      using 7(3) [OF False] 7(4-) unfolding append_Cons run_stages_Find_skip [OF False]
      by (auto split: if_splits)
  qed
qed (fastforce split: if_splits prod.splits)+

lemma run_stages_mono: "run_stages st h = (ret, t, h') \<Longrightarrow> set h \<subseteq> set h'"
  by (induction st h arbitrary: ret t h' rule: run_stages.induct)
    (fastforce split: if_splits prod.splits)+

lemma run_stages_certain: "run_stages st h = (0, t, h') \<Longrightarrow> set (certain st) \<subseteq> set h'"
proof (induction st h arbitrary: t h' rule: run_stages.induct)
  case (4 rs err st h)
  then show ?case
    using run_stages_mono [of st h 0 t h'] by (auto split: if_splits)
next
  case (5 r c st h)
  then show ?case
    using run_stages_mono [of st "r # h"] by (fastforce split: if_splits prod.splits)
next
  case (6 r c1 c2 st h)
  then show ?case
    using run_stages_mono [of st "r # h"] by (fastforce split: if_splits prod.splits)
next
  case (7 rs r found keep st h)
  then show ?case
    by (cases "set rs \<subseteq> set h \<and> found") (auto split: if_splits prod.splits)
qed (auto split: if_splits)

lemma run_stages_guards: "run_stages st h = (0, t, h') \<Longrightarrow> guards st"
  by (induction st h arbitrary: t h' rule: run_stages.induct)
    (fastforce split: if_splits prod.splits)+

text \<open>
  The contract of a staged set-up routine: the stages of every environment pass the static
  check, and the order of release is right. It need not name everything: what it leaves out
  is what the module keeps, and nothing of that may use what is released.
\<close>

locale staged =
  fixes uses :: "'r \<Rightarrow> 'r list" and stages :: "'env \<Rightarrow> 'r stage list" and order :: "'r list"
  assumes static_ok: "stages_ok uses [] (stages e)" "distinct (stage_res (stages e))"
    and release_ok: "order_ok uses order"
    and kept_ok: "q \<in> set (stage_res (stages e)) \<Longrightarrow> q \<notin> set order \<Longrightarrow> set (uses q) \<inter> set order = {}"
begin

lemma run_dep:
  assumes "run_stages (stages e) [] = (ret, t, h)"
  shows "dep_run uses (t @ release_held order h) [] = Some (filter (\<lambda>r. r \<notin> set order) h)"
proof -
  have post: "stages_post uses (stages e) [] t h"
    using run_stages_dep [OF assms, of uses "[]"] static_ok by (simp add: stages_pre_def)
  then have "\<forall>q \<in> set h - set order. set (uses q) \<inter> set order = {}"
    using kept_ok [of _ e] by (auto simp: stages_post_def)
  then have "dep_run uses (release_held order h) h = Some (filter (\<lambda>r. r \<notin> set order) h)"
    using post by (intro release_held_dep release_ok) (auto simp: stages_post_def held_ok_def)
  then show ?thesis
    using post by (simp add: stages_post_def dep_run_append)
qed

lemma held_distinct: "run_stages (stages e) [] = (ret, t, h) \<Longrightarrow> distinct h"
  using run_stages_dep [of "stages e" "[]" ret t h uses "[]"] static_ok
  by (simp add: stages_pre_def stages_post_def held_ok_def)

lemma held_subset: "run_stages (stages e) [] = (ret, t, h) \<Longrightarrow> set h \<subseteq> set (stage_res (stages e))"
  using run_stages_dep [of "stages e" "[]" ret t h uses "[]"] static_ok
  by (simp add: stages_pre_def stages_post_def)

end

text \<open>A routine whose clean-up names everything it can hold, as a module contract.\<close>

definition staged_load ::
  "('env \<Rightarrow> 'r stage list) \<Rightarrow> 'r list \<Rightarrow> 'env \<Rightarrow> int \<times> 'r revent list \<times> 'r list" where
  "staged_load stages ord e = (case run_stages (stages e) [] of (ret, t, h) \<Rightarrow>
    if ret = 0 then (0, t, h) else (ret, t @ release_held ord h, []))"

locale staged_module = staged uses stages order
  for uses :: "'r \<Rightarrow> 'r list" and stages :: "'env \<Rightarrow> 'r stage list" and order :: "'r list" +
  assumes complete: "set (stage_res (stages e)) \<subseteq> set order"
begin

lemma cycle_dep:
  assumes "run_stages (stages e) [] = (ret, t, h)"
  shows "dep_run uses (t @ release_held order h) [] = Some []"
  using run_dep [OF assms] held_subset [OF assms] complete by (force simp: filter_empty_conv)

end

sublocale staged_module \<subseteq> module_lifecycle "\<lambda>_. True" "staged_load stages order"
    "\<lambda>_ h. release_held order h"
proof (unfold_locales)
  fix e ret t s
  obtain c u h where run: "run_stages (stages e) [] = (c, u, h)"
    by (cases "run_stages (stages e) []")
  note bal = dep_run_balanced [OF cycle_dep [OF run]]
  show "balanced t" if "staged_load stages order e = (ret, t, s)" "ret \<noteq> 0"
    using that bal by (auto simp: staged_load_def run split: if_splits)
  show "balanced (t @ release_held order s)" if "staged_load stages order e = (0, t, s)"
    using that bal by (auto simp: staged_load_def run split: if_splits)
qed

end
