(* ===== verification/Board_Audio.thy ===== *)
theory Board_Audio
  imports Stages
begin

text \<open>
  The audio wiring modules of the board: \<open>tcl_acpi_audio.c\<close> (firmware checks, software nodes
  and devices of the audio DSP), \<open>tcl_acpi_wcd.c\<close> (the codec device, which finds the nodes of
  the former by name), \<open>tcl_lpi_provider.c\<close> (pin controller, which uses clock aliases of the
  former) and \<open>tcl_acpi_card.c\<close> (the sound card and the speaker amplifier). The answers of the
  kernel services are the environment records.
\<close>

section \<open>tcl\_acpi\_audio.c: the software nodes\<close>

datatype audio_node =
    smp_node | in_node | out_node | edge_node | apr_node | q6core_node | q6afe_node
  | q6asm_node | q6adm_node | afe_clock_node | afe_dai_node | asm_dai_node | asm_pcm_node
  | va_macro_hw_node | rx_macro_hw_node | tx_macro_hw_node | swr_rx_node | wcd_rx_node
  | swr_tx_node | wcd_tx_node | pas_node

fun node_name :: "audio_node \<Rightarrow> string" where
  "node_name smp_node = ''tcl-adsp-smp2p''"
| "node_name in_node = ''slave-kernel''"
| "node_name out_node = ''master-kernel''"
| "node_name edge_node = ''tcl-adsp-glink''"
| "node_name apr_node = ''apr''"
| "node_name q6core_node = ''q6core''"
| "node_name q6afe_node = ''q6afe''"
| "node_name q6asm_node = ''q6asm''"
| "node_name q6adm_node = ''q6adm''"
| "node_name afe_clock_node = ''clocks''"
| "node_name afe_dai_node = ''dais''"
| "node_name asm_dai_node = ''dais''"
| "node_name asm_pcm_node = ''dai-0''"
| "node_name va_macro_hw_node = ''va_macro_hw''"
| "node_name rx_macro_hw_node = ''rx_macro_hw''"
| "node_name tx_macro_hw_node = ''tx_macro_hw''"
| "node_name swr_rx_node = ''tcl-swr-rx''"
| "node_name wcd_rx_node = ''wcd-rx''"
| "node_name swr_tx_node = ''tcl-swr-tx''"
| "node_name wcd_tx_node = ''wcd-tx''"
| "node_name pas_node = ''tcl-adsp''"

fun node_parent :: "audio_node \<Rightarrow> audio_node option" where
  "node_parent smp_node = None"
| "node_parent in_node = Some smp_node"
| "node_parent out_node = Some smp_node"
| "node_parent edge_node = None"
| "node_parent apr_node = Some edge_node"
| "node_parent q6core_node = Some apr_node"
| "node_parent q6afe_node = Some apr_node"
| "node_parent q6asm_node = Some apr_node"
| "node_parent q6adm_node = Some apr_node"
| "node_parent afe_clock_node = Some q6afe_node"
| "node_parent afe_dai_node = Some q6afe_node"
| "node_parent asm_dai_node = Some q6asm_node"
| "node_parent asm_pcm_node = Some asm_dai_node"
| "node_parent va_macro_hw_node = Some q6afe_node"
| "node_parent rx_macro_hw_node = Some q6afe_node"
| "node_parent tx_macro_hw_node = Some q6afe_node"
| "node_parent swr_rx_node = Some q6afe_node"
| "node_parent wcd_rx_node = Some swr_rx_node"
| "node_parent swr_tx_node = Some q6afe_node"
| "node_parent wcd_tx_node = Some swr_tx_node"
| "node_parent pas_node = None"

definition nodes :: "audio_node list" where
  "nodes = [smp_node, in_node, out_node, edge_node, apr_node,
    q6core_node, q6afe_node, q6asm_node, q6adm_node,
    afe_clock_node, afe_dai_node, asm_dai_node, asm_pcm_node,
    va_macro_hw_node, rx_macro_hw_node, tx_macro_hw_node,
    swr_rx_node, wcd_rx_node, swr_tx_node, wcd_tx_node, pas_node]"

definition afe_clock_aliases :: "(string \<times> string \<times> string) list" where
  "afe_clock_aliases = [
    (''LPASS_CLK_ID_VA_CORE_MCLK'', ''tcl-sc7280-va'', ''mclk''),
    (''LPASS_HW_MACRO'', ''tcl-sc7280-va'', ''macro''),
    (''LPASS_HW_DCODEC'', ''tcl-sc7280-va'', ''dcodec''),
    (''LPASS_CLK_ID_RX_CORE_MCLK'', ''tcl-sc7280-rx'', ''mclk''),
    (''LPASS_CLK_ID_RX_CORE_NPL_MCLK'', ''tcl-sc7280-rx'', ''npl''),
    (''LPASS_HW_MACRO'', ''tcl-sc7280-rx'', ''macro''),
    (''LPASS_HW_DCODEC'', ''tcl-sc7280-rx'', ''dcodec''),
    (''LPASS_CLK_ID_TX_CORE_MCLK'', ''tcl-sc7280-tx'', ''mclk''),
    (''LPASS_CLK_ID_TX_CORE_NPL_MCLK'', ''tcl-sc7280-tx'', ''npl''),
    (''LPASS_HW_MACRO'', ''tcl-sc7280-tx'', ''macro''),
    (''LPASS_HW_DCODEC'', ''tcl-sc7280-tx'', ''dcodec'')]"

section \<open>tcl\_acpi\_audio.c: set-up and clean-up\<close>

text \<open>
  What the module can hold. \<open>Swr_unnoted i\<close> is an interrupt mapping whose number is 0, which
  the clean-up takes for no mapping. The last group are the references that
  \<open>software_node_find_by_name\<close> returns and the table that is put back at once.
\<close>

datatype audio_res =
    Adsp | Glnk | Pd | Cc | Apcs | Qmp
  | Swr nat | Swr_unnoted nat | Nodes
  | Proxy_dev nat | Proxy_domain nat | Proxy_pm nat
  | Xo | Xo_lookup | Smp | Virq nat | Pas
  | Apcs_node | Qmp_node | Iort

record fw_irq =
  fi_get :: int
  fi_hwirq :: "nat option"
  fi_edge_rising :: bool

record iort_table =
  oem_id :: string
  oem_table_id :: string
  oem_revision :: nat

record efi_md =
  md_type :: nat
  md_phys_addr :: u64
  md_num_pages :: u64

record audio_env =
  ae_acpi_disabled :: bool
  ae_efi_boot :: bool
  ae_iort :: "iort_table option"
  ae_md :: "efi_md option"
  ae_acpi_hid :: "string \<Rightarrow> string option"
  ae_irq :: "nat \<Rightarrow> fw_irq"
  ae_provider :: "string \<Rightarrow> bool option"
  ae_swnode :: "string \<Rightarrow> bool"
  ae_register_devices :: bool
  ae_gsi :: "nat \<Rightarrow> int"
  ae_group :: int
  ae_domain :: "nat \<Rightarrow> bool"
  ae_proxy_dev :: "nat \<Rightarrow> int"
  ae_proxy_add :: "nat \<Rightarrow> int"
  ae_xo :: int
  ae_xo_lookup :: bool
  ae_smp :: int
  ae_smp_bound :: bool
  ae_virq :: "nat \<Rightarrow> nat"
  ae_pas :: int

definition find_acpi :: "audio_env \<Rightarrow> audio_res \<Rightarrow> string \<Rightarrow> string \<Rightarrow> audio_res stage" where
  "find_acpi e r path hid =
    Find [] r (ae_acpi_hid e path \<noteq> None) (ae_acpi_hid e path = Some hid)"

definition provider :: "audio_env \<Rightarrow> audio_res \<Rightarrow> string \<Rightarrow> audio_res stage" where
  "provider e r name = Find [] r (ae_provider e name \<noteq> None) (ae_provider e name = Some True)"

definition firmware_irq :: "nat \<Rightarrow> fw_irq \<Rightarrow> int" where
  "firmware_irq gsi fi =
    (if fi_get fi \<noteq> 0 then fi_get fi
     else if fi_hwirq fi \<noteq> Some gsi \<or> \<not> fi_edge_rising fi then - EINVAL
     else 0)"

definition proxy_domain :: "audio_env \<Rightarrow> nat \<Rightarrow> audio_res stage list" where
  "proxy_domain e slot =
    [Check (ae_domain e slot) (- EINVAL),
     Take_checked (Proxy_dev slot) (ae_proxy_dev e slot) (ae_proxy_add e slot),
     Take (Proxy_domain slot) 0, Take (Proxy_pm slot) 0]"

text \<open>The firmware region of the DSP must lie in one reserved range of the EFI memory map.\<close>

definition EFI_RESERVED_TYPE :: nat where "EFI_RESERVED_TYPE = 0"
definition EFI_PAGE_SHIFT :: nat where "EFI_PAGE_SHIFT = 12"

definition adsp_reserved :: "efi_md option \<Rightarrow> bool" where
  "adsp_reserved m = (case m of None \<Rightarrow> False | Some md \<Rightarrow>
    \<not> (md_type md \<noteq> EFI_RESERVED_TYPE \<or> md_phys_addr md > 0x90b00000 \<or>
       md_num_pages md > drop_bit EFI_PAGE_SHIFT (- 1) \<or>
       push_bit EFI_PAGE_SHIFT (md_num_pages md) < 0x93300000 - md_phys_addr md))"

definition oem_match :: "iort_table \<Rightarrow> bool" where
  "oem_match t \<longleftrightarrow> oem_id t = ''QCOM  '' \<and> oem_table_id t = ''QCOMEDK2'' \<and> oem_revision t = 0x7180"

definition register_gsi :: "audio_env \<Rightarrow> nat \<Rightarrow> audio_res stage" where
  "register_gsi e i = Take (if ae_gsi e i = 0 then Swr_unnoted i else Swr i)
    (if ae_gsi e i < 0 then ae_gsi e i else 0)"

definition validate_stages :: "audio_env \<Rightarrow> audio_res stage list" where
  "validate_stages e =
    [Check (\<not> ae_acpi_disabled e \<and> ae_efi_boot e \<and> ae_iort e \<noteq> None) (- ENODEV),
     Find [] Iort True False,
     Check (oem_match (the (ae_iort e)) \<and> adsp_reserved (ae_md e)) (- EINVAL),
     find_acpi e Adsp (CHR 0x5C # ''_SB.ADSP'') ''QCOM081D'',
     find_acpi e Glnk (CHR 0x5C # ''_SB.GLNK'') ''QCOM088D'',
     Require [Adsp, Glnk] (- ENODEV),
     Call (firmware_irq 194 (ae_irq e 0)),
     Call (firmware_irq 190 (ae_irq e 1)),
     Call (firmware_irq 188 (ae_irq e 2)),
     provider e Pd ''qcom-sc7180-rpmhpd'',
     provider e Cc ''qcom-sc7180-rpmhcc'',
     provider e Apcs ''qcom-apss-shared'',
     provider e Qmp ''qcom_aoss_qmp'',
     Find [] Apcs_node (ae_swnode e ''tcl-apss'') True,
     Find [] Qmp_node (ae_swnode e ''tcl-aoss'') True,
     Require [Pd, Cc, Apcs, Qmp, Apcs_node, Qmp_node] (- ENODEV)]"

definition register_stages :: "audio_env \<Rightarrow> audio_res stage list" where
  "register_stages e =
    [register_gsi e 0, register_gsi e 1, Take Nodes (ae_group e)] @
    proxy_domain e 0 @ proxy_domain e 1 @
    [Take Xo (ae_xo e),
     Take Xo_lookup (if ae_xo_lookup e then 0 else - ENOMEM),
     Take Smp (ae_smp e),
     Check (ae_smp_bound e) (- EPROBE_DEFER),
     Take (Virq 0) (if ae_virq e 0 = 0 then - ENODEV else 0),
     Take (Virq 1) (if ae_virq e 1 = 0 then - ENODEV else 0),
     Take (Virq 2) (if ae_virq e 2 = 0 then - ENODEV else 0),
     Take (Virq 3) (if ae_virq e 3 = 0 then - ENODEV else 0),
     Take Pas (ae_pas e)]"

definition audio_stages :: "audio_env \<Rightarrow> audio_res stage list" where
  "audio_stages e = validate_stages e @ Check (ae_register_devices e) 0 # register_stages e"

definition cleanup_order :: "audio_res list" where
  "cleanup_order = [Pas, Virq 0, Virq 1, Virq 2, Virq 3, Smp, Xo_lookup, Xo,
    Proxy_pm 1, Proxy_domain 1, Proxy_dev 1, Proxy_pm 0, Proxy_domain 0, Proxy_dev 0,
    Nodes, Swr 0, Swr 1, Qmp, Apcs, Cc, Pd, Glnk, Adsp]"

definition cleanup :: "audio_res list \<Rightarrow> audio_res revent list" where
  "cleanup h = release_held cleanup_order h"

text \<open>The status, the trace, and what is held when the routine returns.\<close>

definition tcl_audio_init :: "audio_env \<Rightarrow> int \<times> audio_res revent list \<times> audio_res list" where
  "tcl_audio_init e = (case run_stages (audio_stages e) [] of (ret, t, h) \<Rightarrow>
    if ret = 0 then (0, t, h)
    else (ret, t @ cleanup h, filter (\<lambda>r. r \<notin> set cleanup_order) h))"

text \<open>What is built on what: parents, software nodes, clocks and power domains.\<close>

fun audio_uses :: "audio_res \<Rightarrow> audio_res list" where
  "audio_uses Pas = [Adsp, Nodes, Smp, Virq 0, Virq 1, Virq 2, Virq 3, Proxy_pm 0, Proxy_pm 1,
    Xo_lookup]"
| "audio_uses (Virq i) = [Smp]"
| "audio_uses Smp = [Glnk, Nodes]"
| "audio_uses Xo_lookup = [Xo]"
| "audio_uses Xo = [Cc]"
| "audio_uses (Proxy_domain i) = [Proxy_dev i, Pd]"
| "audio_uses (Proxy_pm i) = [Proxy_domain i]"
| "audio_uses Nodes = [Apcs_node, Qmp_node]"
| "audio_uses _ = []"

lemmas audio_stage_defs = audio_stages_def validate_stages_def register_stages_def
  find_acpi_def provider_def proxy_domain_def register_gsi_def

interpretation audio: staged audio_uses audio_stages cleanup_order
proof
  show "stages_ok audio_uses [] (audio_stages e)" for e
    by (simp add: audio_stage_defs)
  show "distinct (stage_res (audio_stages e))" for e
    by (simp add: audio_stage_defs)
  show "order_ok audio_uses cleanup_order"
    by (simp add: cleanup_order_def)
  show "set (audio_uses q) \<inter> set cleanup_order = {}"
    if "q \<in> set (stage_res (audio_stages e))" "q \<notin> set cleanup_order" for q e
    using that by (auto simp: audio_stage_defs cleanup_order_def split: if_splits)
qed

lemma audio_certain:
  "{Adsp, Glnk, Pd, Cc, Apcs, Qmp, Apcs_node, Qmp_node} \<subseteq> set (certain (audio_stages e))"
  by (simp add: audio_stage_defs)

lemma audio_kept:
  assumes "\<forall>i. ae_gsi e i \<noteq> 0" "run_stages (audio_stages e) [] = (ret, t, h)"
  shows "set (filter (\<lambda>r. r \<notin> set cleanup_order) h) \<subseteq> {Apcs_node, Qmp_node}"
proof -
  have "set (may_hold (audio_stages e)) \<subseteq> set cleanup_order \<union> {Apcs_node, Qmp_node}"
    using assms(1) by (simp add: audio_stage_defs cleanup_order_def)
  then show ?thesis
    using run_stages_may_hold [OF assms(2)] by auto
qed

text \<open>The region that the guard admits, in numbers without wrap-around.\<close>

lemma adsp_reserved_region:
  assumes "adsp_reserved (Some md)"
  shows "unat (md_phys_addr md) \<le> 0x90b00000"
    "0x93300000 \<le> unat (md_phys_addr md) + unat (md_num_pages md) * 4096"
proof -
  let ?p = "md_phys_addr md" and ?n = "md_num_pages md"
  have p: "?p \<le> 0x90b00000" and n: "?n \<le> drop_bit 12 (- 1)"
    and cover: "0x93300000 - ?p \<le> push_bit 12 ?n"
    using assms by (auto simp: adsp_reserved_def EFI_PAGE_SHIFT_def)
  from p show le: "unat ?p \<le> 0x90b00000"
    by (simp add: word_le_nat_alt)
  have "unat ?n \<le> 2 ^ 52 - 1"
    using n by (simp add: word_le_nat_alt unat_drop_bit_eq drop_bit_eq_div)
  then have "unat (push_bit 12 ?n) = unat ?n * 4096"
    by (simp add: push_bit_eq_mult unat_mult_lem [THEN iffD1])
  moreover have "unat (0x93300000 - ?p) = 0x93300000 - unat ?p"
    using p by (subst unat_sub) (simp_all add: word_le_nat_alt)
  ultimately show "0x93300000 \<le> unat ?p + unat ?n * 4096"
    using cover le by (simp add: word_le_nat_alt)
qed

lemma audio_success:
  assumes "tcl_audio_init e = (0, t, h)"
  shows "run_stages (audio_stages e) [] = (0, t, h)"
  using assms by (auto simp: tcl_audio_init_def split: prod.splits if_splits)

text \<open>
  C24. When the set-up of the audio DSP succeeds, also in its validate-only mode, the firmware
  region from 0x90b00000 to 0x93300000 lies inside one reserved range of the EFI memory map,
  without wrap-around of the 64-bit arithmetic of the guard, and the three interrupts of the
  firmware have the expected numbers and a rising edge.
\<close>

theorem adsp_firmware_checked:
  assumes "tcl_audio_init e = (0, t, h)"
  shows "(\<exists>md. ae_md e = Some md \<and> md_type md = EFI_RESERVED_TYPE \<and>
      unat (md_phys_addr md) \<le> 0x90b00000 \<and>
      0x93300000 \<le> unat (md_phys_addr md) + unat (md_num_pages md) * 4096) \<and>
    fi_hwirq (ae_irq e 0) = Some 194 \<and> fi_hwirq (ae_irq e 1) = Some 190 \<and>
    fi_hwirq (ae_irq e 2) = Some 188 \<and> (\<forall>i \<in> {0, 1, 2}. fi_edge_rising (ae_irq e i))"
proof -
  have "guards (audio_stages e)"
    by (rule run_stages_guards [OF audio_success [OF assms]])
  then have ok: "adsp_reserved (ae_md e)" "firmware_irq 194 (ae_irq e 0) = 0"
      "firmware_irq 190 (ae_irq e 1) = 0" "firmware_irq 188 (ae_irq e 2) = 0"
    by (simp_all add: audio_stages_def validate_stages_def find_acpi_def)
  then obtain md where md: "ae_md e = Some md"
    by (cases "ae_md e") (simp_all add: adsp_reserved_def)
  then have "md_type md = EFI_RESERVED_TYPE" "unat (md_phys_addr md) \<le> 0x90b00000"
      "0x93300000 \<le> unat (md_phys_addr md) + unat (md_num_pages md) * 4096"
    using ok(1) adsp_reserved_region [of md] by (simp_all add: adsp_reserved_def)
  with md ok(2-4) show ?thesis
    by (simp add: firmware_irq_def split: if_splits)
qed

definition demo_audio_env :: audio_env where
  "demo_audio_env = \<lparr>ae_acpi_disabled = False, ae_efi_boot = True,
    ae_iort = Some \<lparr>oem_id = ''QCOM  '', oem_table_id = ''QCOMEDK2'', oem_revision = 0x7180\<rparr>,
    ae_md = Some \<lparr>md_type = 0, md_phys_addr = 0x90000000, md_num_pages = 0x4000\<rparr>,
    ae_acpi_hid = (\<lambda>p. if p = CHR 0x5C # ''_SB.ADSP'' then Some ''QCOM081D'' else Some ''QCOM088D''),
    ae_irq = (\<lambda>i. \<lparr>fi_get = 0, fi_hwirq = Some ([194, 190, 188] ! i), fi_edge_rising = True\<rparr>),
    ae_provider = (\<lambda>_. Some True), ae_swnode = (\<lambda>_. True), ae_register_devices = True,
    ae_gsi = (\<lambda>i. 40 + int i), ae_group = 0, ae_domain = (\<lambda>_. True),
    ae_proxy_dev = (\<lambda>_. 0), ae_proxy_add = (\<lambda>_. 0), ae_xo = 0, ae_xo_lookup = True,
    ae_smp = 0, ae_smp_bound = True, ae_virq = (\<lambda>i. 60 + i), ae_pas = 0\<rparr>"

lemma demo_adsp_reserved: "adsp_reserved (ae_md demo_audio_env)"
  by (simp add: demo_audio_env_def adsp_reserved_def EFI_RESERVED_TYPE_def EFI_PAGE_SHIFT_def
      mask_eq_exp_minus_1)

lemma demo_answers:
  "ae_acpi_disabled demo_audio_env = False" "ae_efi_boot demo_audio_env"
  "ae_iort demo_audio_env =
    Some \<lparr>oem_id = ''QCOM  '', oem_table_id = ''QCOMEDK2'', oem_revision = 0x7180\<rparr>"
  "ae_acpi_hid demo_audio_env (CHR 0x5C # ''_SB.ADSP'') = Some ''QCOM081D''"
  "ae_acpi_hid demo_audio_env (CHR 0x5C # ''_SB.GLNK'') = Some ''QCOM088D''"
  "firmware_irq 194 (ae_irq demo_audio_env 0) = 0"
  "firmware_irq 190 (ae_irq demo_audio_env (Suc 0)) = 0"
  "firmware_irq 188 (ae_irq demo_audio_env 2) = 0"
  "ae_provider demo_audio_env p = Some True" "ae_swnode demo_audio_env p"
  "ae_register_devices demo_audio_env"
  "ae_gsi demo_audio_env i = 40 + int i" "ae_group demo_audio_env = 0"
  "ae_domain demo_audio_env i" "ae_proxy_dev demo_audio_env i = 0"
  "ae_proxy_add demo_audio_env i = 0" "ae_xo demo_audio_env = 0" "ae_xo_lookup demo_audio_env"
  "ae_smp demo_audio_env = 0" "ae_smp_bound demo_audio_env"
  "ae_virq demo_audio_env i = 60 + i" "ae_pas demo_audio_env = 0"
  by (simp_all add: demo_audio_env_def firmware_irq_def)

lemma demo_audio_run: "fst (tcl_audio_init demo_audio_env) = 0"
  by (simp add: tcl_audio_init_def audio_stage_defs oem_match_def demo_answers demo_adsp_reserved)

lemma demo_gsi: "ae_gsi demo_audio_env i \<noteq> 0"
  by (simp add: demo_answers)

theorem adsp_firmware_checked_witness:
  "fst (tcl_audio_init demo_audio_env) = 0 \<and> fi_hwirq (ae_irq demo_audio_env 0) = Some 194"
  using adsp_firmware_checked [of demo_audio_env "fst (snd (tcl_audio_init demo_audio_env))"
      "snd (snd (tcl_audio_init demo_audio_env))"] demo_audio_run
  by (cases "tcl_audio_init demo_audio_env") simp

text \<open>
  C22. Loading and unloading the audio wiring never releases anything twice, acquires nothing
  before what it is built on and releases nothing while something still uses it; a failed
  load and an unload give everything back except the references to the two software nodes
  \<open>tcl-apss\<close> and \<open>tcl-aoss\<close>, which the lookup by name takes and no path puts: each completed
  cycle of load and unload leaks exactly these two.
\<close>

theorem audio_cycle_leaks:
  assumes gsi: "\<forall>i. ae_gsi e i \<noteq> 0" and init: "tcl_audio_init e = (ret, t, h)"
  shows "if ret = 0 then
      \<exists>k. dep_run audio_uses (t @ cleanup h) [] = Some k \<and> distinct k \<and> set k = {Apcs_node, Qmp_node}
    else dep_run audio_uses t [] = Some h \<and> set h \<subseteq> {Apcs_node, Qmp_node}"
proof (cases "ret = 0")
  case True
  then have run: "run_stages (audio_stages e) [] = (0, t, h)"
    using init audio_success by simp
  let ?k = "filter (\<lambda>r. r \<notin> set cleanup_order) h"
  have "{Apcs_node, Qmp_node} \<subseteq> set h"
    using run_stages_certain [OF run] audio_certain [of e] by blast
  then have "set ?k = {Apcs_node, Qmp_node}"
    using audio_kept [OF gsi run] by (auto simp: cleanup_order_def)
  then show ?thesis
    using True audio.run_dep [OF run] audio.held_distinct [OF run] by (simp add: cleanup_def)
next
  case False
  then obtain u g where run: "run_stages (audio_stages e) [] = (ret, u, g)"
    and "t = u @ cleanup g" "h = filter (\<lambda>r. r \<notin> set cleanup_order) g"
    using init by (auto simp: tcl_audio_init_def split: prod.splits if_splits)
  then show ?thesis
    using False audio.run_dep [OF run] audio_kept [OF gsi run] by (simp add: cleanup_def)
qed

theorem audio_cycle_leaks_witness:
  "\<exists>t h k. tcl_audio_init demo_audio_env = (0, t, h) \<and>
    dep_run audio_uses (t @ cleanup h) [] = Some k \<and> set k = {Apcs_node, Qmp_node}"
  using audio_cycle_leaks [of demo_audio_env 0 "fst (snd (tcl_audio_init demo_audio_env))"
      "snd (snd (tcl_audio_init demo_audio_env))"] demo_audio_run
  by (metis (no_types, lifting) demo_gsi prod.collapse)

section \<open>tcl\_acpi\_wcd.c\<close>

text \<open>
  The codec module finds the nodes of the audio wiring by name, level by level. The lookup
  \<open>software_node_find_by_name\<close> of the kernel is a parameter, a function of the parent and the
  name; each node it returns carries a reference.
\<close>

datatype wcd_res = Glink_ref | Apr_ref | Q6afe_ref | Rx_master_ref | Tx_master_ref | Rx_ref | Tx_ref | Codec

record wcd_env =
  we_find :: "audio_node option \<Rightarrow> string \<Rightarrow> audio_node option"
  we_codec :: int

definition wcd_child :: "wcd_env \<Rightarrow> audio_node option \<Rightarrow> string \<Rightarrow> audio_node option" where
  "wcd_child e p name = (case p of None \<Rightarrow> None | Some n \<Rightarrow> we_find e (Some n) name)"

definition wcd_stages :: "wcd_env \<Rightarrow> wcd_res stage list" where
  "wcd_stages e = (let
     glink = we_find e None ''tcl-adsp-glink'';
     apr = wcd_child e glink ''apr'';
     q6afe = wcd_child e apr ''q6afe'';
     rx_master = wcd_child e q6afe ''tcl-swr-rx'';
     tx_master = wcd_child e q6afe ''tcl-swr-tx'';
     rx = wcd_child e rx_master ''wcd-rx'';
     tx = wcd_child e tx_master ''wcd-tx''
   in [Find [] Glink_ref (glink \<noteq> None) True,
       Find [Glink_ref] Apr_ref (apr \<noteq> None) True,
       Find [Apr_ref] Q6afe_ref (q6afe \<noteq> None) True,
       Find [Q6afe_ref] Rx_master_ref (rx_master \<noteq> None) True,
       Find [Q6afe_ref] Tx_master_ref (tx_master \<noteq> None) True,
       Find [Rx_master_ref] Rx_ref (rx \<noteq> None) True,
       Find [Tx_master_ref] Tx_ref (tx \<noteq> None) True,
       Require [Rx_ref, Tx_ref] (- ENODEV),
       Take Codec (we_codec e)])"

definition lookup_order :: "wcd_res list" where
  "lookup_order = [Tx_ref, Rx_ref, Tx_master_ref, Rx_master_ref, Q6afe_ref, Apr_ref, Glink_ref]"

definition tcl_acpi_wcd_put_lookup_nodes :: "wcd_res list \<Rightarrow> wcd_res revent list" where
  "tcl_acpi_wcd_put_lookup_nodes h = release_held lookup_order h"

definition tcl_acpi_wcd_init :: "wcd_env \<Rightarrow> int \<times> wcd_res revent list \<times> wcd_res list" where
  "tcl_acpi_wcd_init e = (case run_stages (wcd_stages e) [] of (ret, t, h) \<Rightarrow>
    (ret, t @ tcl_acpi_wcd_put_lookup_nodes h, filter (\<lambda>r. r \<notin> set lookup_order) h))"

definition tcl_acpi_wcd_exit :: "wcd_res list \<Rightarrow> wcd_res revent list" where
  "tcl_acpi_wcd_exit h = release_held [Codec] h"

fun wcd_uses :: "wcd_res \<Rightarrow> wcd_res list" where
  "wcd_uses Apr_ref = [Glink_ref]"
| "wcd_uses Q6afe_ref = [Apr_ref]"
| "wcd_uses Rx_master_ref = [Q6afe_ref]"
| "wcd_uses Tx_master_ref = [Q6afe_ref]"
| "wcd_uses Rx_ref = [Rx_master_ref]"
| "wcd_uses Tx_ref = [Tx_master_ref]"
| "wcd_uses _ = []"

interpretation wcd: staged wcd_uses wcd_stages lookup_order
proof
  show "set (wcd_uses q) \<inter> set lookup_order = {}"
    if "q \<in> set (stage_res (wcd_stages e))" "q \<notin> set lookup_order" for q e
    using that by (auto simp: wcd_stages_def lookup_order_def Let_def)
qed (simp_all add: wcd_stages_def Let_def lookup_order_def)

text \<open>A failed run registers no codec; all that is left of a good one is the codec.\<close>

lemma wcd_codec:
  assumes "run_stages (wcd_stages e) [] = (ret, t, h)"
  shows "filter (\<lambda>r. r \<notin> set lookup_order) h = (if ret = 0 then [Codec] else [])"
proof -
  let ?k = "filter (\<lambda>r. r \<notin> set lookup_order) h"
  have only: "set ?k \<subseteq> {Codec}"
    using run_stages_may_hold [OF assms] by (auto simp: wcd_stages_def lookup_order_def Let_def)
  show ?thesis
  proof (cases "ret = 0")
    case True
    then have "Codec \<in> set h"
      using run_stages_certain [of "wcd_stages e" "[]" t h] assms
      by (simp add: wcd_stages_def Let_def)
    then have "set ?k = {Codec}" "distinct ?k"
      using only wcd.held_distinct [OF assms] by (auto simp: lookup_order_def)
    then show ?thesis
      using True by (simp add: singleton_list)
  next
    case False
    have "wcd_stages e = butlast (wcd_stages e) @ [Take Codec (we_codec e)]"
      by (simp add: wcd_stages_def Let_def)
    then have "Codec \<notin> set h"
      using run_stages_last [of "butlast (wcd_stages e)" Codec "we_codec e" "[]" ret t h] assms False
      by (simp add: wcd_stages_def Let_def)
    then show ?thesis
      using only False by (auto simp: filter_empty_conv)
  qed
qed

definition wcd_cycle :: "wcd_env \<Rightarrow> wcd_res revent list" where
  "wcd_cycle e = (case tcl_acpi_wcd_init e of (ret, t, h) \<Rightarrow>
    if ret = 0 then t @ tcl_acpi_wcd_exit h else t)"

lemma wcd_cycle_dep: "dep_run wcd_uses (wcd_cycle e) [] = Some []"
proof -
  obtain ret t h where run: "run_stages (wcd_stages e) [] = (ret, t, h)"
    by (cases "run_stages (wcd_stages e) []")
  then show ?thesis
    using wcd.run_dep [OF run] wcd_codec [OF run]
    by (auto simp: wcd_cycle_def tcl_acpi_wcd_init_def tcl_acpi_wcd_exit_def
        tcl_acpi_wcd_put_lookup_nodes_def dep_run_append release_held_def split: option.splits)
qed

section \<open>tcl\_lpi\_provider.c\<close>

datatype lpi_res = Core_clk | Audio_clk | Core_lookup | Audio_lookup | Lpi_node | Lpi_pdev

record lpi_env =
  le_dmi :: bool
  le_clk :: "string \<Rightarrow> string \<Rightarrow> int"
  le_core_lookup :: int
  le_audio_lookup :: int
  le_node :: int
  le_pdev :: int

definition lpi_stages :: "lpi_env \<Rightarrow> lpi_res stage list" where
  "lpi_stages e =
    [Check (le_dmi e) (- ENODEV),
     Take Core_clk (le_clk e ''tcl-sc7280-rx'' ''mclk''),
     Take Audio_clk (le_clk e ''tcl-sc7280-rx'' ''npl''),
     Take Core_lookup (le_core_lookup e),
     Take Audio_lookup (le_audio_lookup e),
     Take Lpi_node (le_node e),
     Take Lpi_pdev (le_pdev e)]"

definition lpi_clks_drop :: "lpi_res list" where
  "lpi_clks_drop = [Audio_lookup, Core_lookup]"

definition lpi_clks_put :: "lpi_res list" where
  "lpi_clks_put = [Audio_clk, Core_clk]"

definition lpi_order :: "lpi_res list" where
  "lpi_order = [Lpi_pdev, Lpi_node] @ lpi_clks_drop @ lpi_clks_put"

definition tcl_lpi_provider_init :: "lpi_env \<Rightarrow> int \<times> lpi_res revent list \<times> lpi_res list" where
  "tcl_lpi_provider_init e = staged_load lpi_stages lpi_order e"

definition tcl_lpi_provider_exit :: "lpi_res list \<Rightarrow> lpi_res revent list" where
  "tcl_lpi_provider_exit h = release_held lpi_order h"

fun lpi_uses :: "lpi_res \<Rightarrow> lpi_res list" where
  "lpi_uses Core_lookup = [Core_clk]"
| "lpi_uses Audio_lookup = [Audio_clk]"
| "lpi_uses Lpi_pdev = [Lpi_node, Core_lookup, Audio_lookup]"
| "lpi_uses _ = []"

lemmas lpi_order_defs = lpi_order_def lpi_clks_drop_def lpi_clks_put_def

interpretation lpi: staged_module lpi_uses lpi_stages lpi_order
  by unfold_locales (auto simp: lpi_stages_def lpi_order_defs)

definition lpi_cycle :: "lpi_env \<Rightarrow> lpi_res revent list" where
  "lpi_cycle e = (case tcl_lpi_provider_init e of (ret, t, h) \<Rightarrow>
    if ret = 0 then t @ tcl_lpi_provider_exit h else t)"

lemma lpi_cycle_dep: "dep_run lpi_uses (lpi_cycle e) [] = Some []"
  using lpi.cycle_dep [of e]
  by (auto simp: lpi_cycle_def tcl_lpi_provider_init_def tcl_lpi_provider_exit_def
      staged_load_def split: prod.splits)

section \<open>tcl\_acpi\_card.c\<close>

datatype card_res = Gpio_lookup | Q6adm_dev | Route_device | Card_driver | Card_device

record card_env =
  ce_q6adm :: bool
  ce_route :: int
  ce_driver :: int
  ce_device :: int

definition tcl_card_init :: "card_env \<Rightarrow> int \<times> card_res revent list" where
  "tcl_card_init e =
    (if \<not> ce_q6adm e then (- EPROBE_DEFER, [Acq Gpio_lookup, Rel Gpio_lookup])
     else if ce_route e \<noteq> 0 then
       (ce_route e, [Acq Gpio_lookup, Acq Q6adm_dev, Rel Q6adm_dev, Rel Gpio_lookup])
     else let t = [Acq Gpio_lookup, Acq Q6adm_dev, Acq Route_device, Rel Q6adm_dev] in
       if ce_driver e \<noteq> 0 then (ce_driver e, t @ [Rel Route_device, Rel Gpio_lookup])
       else if ce_device e \<noteq> 0 then
         (ce_device e, t @ [Acq Card_driver, Rel Card_driver, Rel Route_device, Rel Gpio_lookup])
       else (0, t @ [Acq Card_driver, Acq Card_device]))"

definition tcl_card_exit :: "card_res revent list" where
  "tcl_card_exit = [Rel Card_device, Rel Card_driver, Rel Route_device, Rel Gpio_lookup]"

fun card_uses :: "card_res \<Rightarrow> card_res list" where
  "card_uses Card_device = [Card_driver, Route_device, Gpio_lookup]"
| "card_uses _ = []"

definition card_cycle :: "card_env \<Rightarrow> card_res revent list" where
  "card_cycle e = (case tcl_card_init e of (ret, t) \<Rightarrow> if ret = 0 then t @ tcl_card_exit else t)"

lemma card_cycle_dep: "dep_run card_uses (card_cycle e) [] = Some []"
  by (simp add: card_cycle_def tcl_card_init_def tcl_card_exit_def Let_def)

text \<open>
  C35. Any sequence of loads and unloads of the codec, the pin controller and the sound card,
  whatever the kernel answers and wherever a load fails, leaves nothing held, never releases
  anything twice, and never releases a parent, a node or a clock that is still in use.
\<close>

theorem board_modules_balanced:
  "dep_run wcd_uses (concat (map wcd_cycle ws)) [] = Some [] \<and>
   dep_run lpi_uses (concat (map lpi_cycle ls)) [] = Some [] \<and>
   dep_run card_uses (concat (map card_cycle cs)) [] = Some []"
  by (simp add: dep_run_concat wcd_cycle_dep lpi_cycle_dep card_cycle_dep)

text \<open>
  The card device: \<open>probe\<close> takes the two lines of the speaker amplifier, driven low, and the
  power event of the speaker widget drives them. The second result of the event is what is
  written to the lines.
\<close>

datatype dapm_event = POST_PMU | PRE_PMD | Other_event

record probe_env =
  pe_card :: bool
  pe_data :: bool
  pe_speaker_pa :: "int + nat"
  pe_register :: int

definition tcl_card_probe :: "probe_env \<Rightarrow> int \<times> nat option" where
  "tcl_card_probe e =
    (if \<not> pe_card e \<or> \<not> pe_data e then (- ENOMEM, None)
     else case pe_speaker_pa e of
       Inl err \<Rightarrow> (err, None)
     | Inr ndescs \<Rightarrow> if ndescs \<noteq> 2 then (- EINVAL, Some ndescs)
                     else (pe_register e, Some ndescs))"

definition tcl_speaker_pa_event ::
  "nat option \<Rightarrow> (bool list \<Rightarrow> int) \<Rightarrow> dapm_event \<Rightarrow> int \<times> bool list option" where
  "tcl_speaker_pa_event pa set_value event =
    (if event = Other_event then (0, None)
     else let value = (event = POST_PMU) in
       case pa of
         None \<Rightarrow> (- ENODEV, None)
       | Some ndescs \<Rightarrow>
           if ndescs \<noteq> 2 then (- ENODEV, None)
           else let values = replicate ndescs value in (set_value values, Some values))"

text \<open>
  Once the card is probed, powering the speaker up drives both amplifier lines high and
  powering it down drives both low, the status is that of the GPIO call, and every other
  event leaves the lines alone.
\<close>

lemma speaker_pa_follows_power:
  assumes "\<forall>err. pe_speaker_pa e = Inl err \<longrightarrow> err \<noteq> 0"
    and "tcl_card_probe e = (0, pa)"
  shows "tcl_speaker_pa_event pa f POST_PMU = (f [True, True], Some [True, True]) \<and>
    tcl_speaker_pa_event pa f PRE_PMD = (f [False, False], Some [False, False]) \<and>
    tcl_speaker_pa_event pa f Other_event = (0, None)"
proof -
  have "pa = Some 2"
    using assms by (auto simp: tcl_card_probe_def split: if_splits sum.splits)
  then show ?thesis
    by (simp add: tcl_speaker_pa_event_def numeral_2_eq_2 Let_def)
qed

section \<open>How the modules fit together\<close>

text \<open>A group of software nodes can be registered in order when parents come first.\<close>

fun parents_first :: "audio_node list \<Rightarrow> audio_node list \<Rightarrow> bool" where
  "parents_first seen [] \<longleftrightarrow> True"
| "parents_first seen (n # ns) \<longleftrightarrow>
    (case node_parent n of None \<Rightarrow> True | Some p \<Rightarrow> p \<in> set seen) \<and> parents_first (n # seen) ns"

lemma nodes_identified:
  "distinct (map (\<lambda>n. (node_parent n, node_name n)) nodes)"
  by (simp add: nodes_def)

lemma nodes_inj:
  "n \<in> set nodes \<Longrightarrow> m \<in> set nodes \<Longrightarrow> node_parent m = node_parent n \<Longrightarrow>
   node_name m = node_name n \<Longrightarrow> m = n"
  using nodes_identified by (auto simp: distinct_map dest: inj_onD)

text \<open>
  C23. The modules agree on names. The group that the audio wiring registers lists parents
  before children, and no two siblings share a name; so with a lookup by parent and name
  that returns the one registered node there is, the codec module finds its receive and
  transmit nodes and registers the codec; and the two clocks the pin controller asks for are
  among the aliases that the wiring gives to the clock driver.
\<close>

theorem board_names_agree:
  assumes find: "\<And>n. n \<in> set nodes \<Longrightarrow>
      (\<forall>m \<in> set nodes. node_parent m = node_parent n \<and> node_name m = node_name n \<longrightarrow> m = n) \<Longrightarrow>
      we_find we (node_parent n) (node_name n) = Some n"
    and codec: "we_codec we = 0"
    and clocks: "\<And>c dev con. (c, dev, con) \<in> set afe_clock_aliases \<Longrightarrow> le_clk le dev con = 0"
    and lpi: "le_dmi le" "le_core_lookup le = 0" "le_audio_lookup le = 0" "le_node le = 0"
      "le_pdev le = 0"
  shows "parents_first [] nodes \<and> fst (tcl_acpi_wcd_init we) = 0 \<and>
    snd (snd (tcl_acpi_wcd_init we)) = [Codec] \<and> fst (tcl_lpi_provider_init le) = 0"
proof -
  have f: "we_find we (node_parent n) (node_name n) = Some n" if "n \<in> set nodes" for n
    using find [OF that] nodes_inj [OF that] that by blast
  have "fst (tcl_acpi_wcd_init we) = 0 \<and> snd (snd (tcl_acpi_wcd_init we)) = [Codec]"
    using f [of edge_node] f [of apr_node] f [of q6afe_node] f [of swr_rx_node]
      f [of swr_tx_node] f [of wcd_rx_node] f [of wcd_tx_node] codec
    by (simp add: nodes_def tcl_acpi_wcd_init_def wcd_stages_def wcd_child_def lookup_order_def)
  moreover have "fst (tcl_lpi_provider_init le) = 0"
    using clocks [of _ "''tcl-sc7280-rx''" "''mclk''"] clocks [of _ "''tcl-sc7280-rx''" "''npl''"] lpi
    by (simp add: afe_clock_aliases_def tcl_lpi_provider_init_def staged_load_def lpi_stages_def)
  ultimately show ?thesis
    by (simp add: nodes_def)
qed

definition demo_find :: "audio_node option \<Rightarrow> string \<Rightarrow> audio_node option" where
  "demo_find p name = find (\<lambda>n. node_parent n = p \<and> node_name n = name) nodes"

lemma demo_find_node:
  assumes "n \<in> set nodes"
    and "\<forall>m \<in> set nodes. node_parent m = node_parent n \<and> node_name m = node_name n \<longrightarrow> m = n"
  shows "demo_find (node_parent n) (node_name n) = Some n"
proof (cases "demo_find (node_parent n) (node_name n)")
  case None
  then show ?thesis
    using assms by (auto simp: demo_find_def find_None_iff)
next
  case (Some m)
  then have "m \<in> set nodes \<and> node_parent m = node_parent n \<and> node_name m = node_name n"
    unfolding demo_find_def by (auto dest: find_SomeD)
  then show ?thesis
    using assms Some by blast
qed

theorem board_names_agree_witness:
  "fst (tcl_acpi_wcd_init \<lparr>we_find = demo_find, we_codec = 0\<rparr>) = 0 \<and>
   fst (tcl_lpi_provider_init \<lparr>le_dmi = True, le_clk = (\<lambda>_ _. 0), le_core_lookup = 0,
     le_audio_lookup = 0, le_node = 0, le_pdev = 0\<rparr>) = 0"
  using board_names_agree [of "\<lparr>we_find = demo_find, we_codec = 0\<rparr>"
      "\<lparr>le_dmi = True, le_clk = (\<lambda>_ _. 0), le_core_lookup = 0,
        le_audio_lookup = 0, le_node = 0, le_pdev = 0\<rparr>"]
  by (simp add: demo_find_node)

end
