(* ===== verification/Board_Power.thy ===== *)
theory Board_Power
  imports Stages
begin

text \<open>
  The two modules that hold the audio codec powered and out of reset:
  \<open>tcl_acpi_audio_power_hold.c\<close> votes for two regulators through the power controller, and
  \<open>tcl_acpi_codec_reset_hold.c\<close> drives the reset line through three registers of GPIO 58. The
  votes that were accepted are a map from address to value; the register accesses are the log
  of the writes, since what the hardware makes of them is not in the sources.
\<close>

section \<open>tcl\_acpi\_audio\_power\_hold.c\<close>

datatype power_res = Ldo_bank | Bob_bank

record power_state =
  ps_ldo_on :: bool
  ps_bob_on :: bool
  ps_votes :: "u32 \<Rightarrow> u32"
  ps_calls :: nat

record rpmh_client =
  rc_driver :: "string option"
  rc_parent_data :: bool

record power_env =
  pw_dmi :: bool
  pw_addr :: "string \<Rightarrow> u32"
  pw_client :: "string \<Rightarrow> rpmh_client option"
  pw_write :: "nat \<Rightarrow> int"

definition rpmh_vote :: "power_env \<Rightarrow> u32 \<Rightarrow> u32 \<Rightarrow> power_state \<Rightarrow> int \<times> power_state" where
  "rpmh_vote e addr value s = (let ret = pw_write e (ps_calls s) in
    (ret, s\<lparr>ps_calls := Suc (ps_calls s),
            ps_votes := if ret = 0 then (ps_votes s)(addr := value) else ps_votes s\<rparr>))"

definition disable_rails :: "power_env \<Rightarrow> power_state \<Rightarrow> int \<times> power_state" where
  "disable_rails e s0 = (let
     (ret, s1) = (if ps_bob_on s0 then
         case rpmh_vote e 0x40404 0 s0 of (err, s) \<Rightarrow>
           if err = 0 then (0, s\<lparr>ps_bob_on := False\<rparr>) else (err, s)
       else (0, s0))
   in if ps_ldo_on s1 then
        case rpmh_vote e 0x42204 0 s1 of (err, s) \<Rightarrow>
          if err = 0 then (ret, s\<lparr>ps_ldo_on := False\<rparr>)
          else (if ret = 0 then err else ret, s)
      else (ret, s1))"

definition put_banks :: "power_res list \<Rightarrow> power_res revent list" where
  "put_banks h = release_held [Bob_bank, Ldo_bank] h"

text \<open>The lookups and the guard, up to the first vote; both lookups are made in any case.\<close>

definition client_ok :: "rpmh_client option \<Rightarrow> bool" where
  "client_ok c = (case c of None \<Rightarrow> False | Some d \<Rightarrow>
    rc_driver d = Some ''qcom-rpmh-regulator'' \<and> rc_parent_data d)"

definition power_stages :: "power_env \<Rightarrow> power_res stage list" where
  "power_stages e =
    [Check (pw_dmi e) (- ENODEV),
     Check (pw_addr e ''ldoa15'' = 0x42200 \<and> pw_addr e ''bobc1'' = 0x40400) (- ENODEV),
     Find [] Ldo_bank (pw_client e ''tcl-pm6150-reg'' \<noteq> None) True,
     Find [] Bob_bank (pw_client e ''tcl-pm6150l-reg'' \<noteq> None) True,
     Check (client_ok (pw_client e ''tcl-pm6150-reg'') \<and> client_ok (pw_client e ''tcl-pm6150l-reg''))
       (- ENODEV)]"

text \<open>The votes after the first one, in order, each with the flag it sets when it is accepted.\<close>

definition audio_votes :: "(u32 \<times> u32 \<times> (power_state \<Rightarrow> power_state)) list" where
  "audio_votes =
    [(0x42208, 7, id), (0x42204, 1, \<lambda>s. s\<lparr>ps_ldo_on := True\<rparr>),
     (0x40400, 3300, id), (0x40408, 6, id), (0x40404, 1, \<lambda>s. s\<lparr>ps_bob_on := True\<rparr>)]"

fun run_votes ::
  "power_env \<Rightarrow> (u32 \<times> u32 \<times> (power_state \<Rightarrow> power_state)) list \<Rightarrow> power_state \<Rightarrow> int \<times> power_state" where
  "run_votes e [] s = (0, s)"
| "run_votes e ((addr, value, noted) # vs) s = (case rpmh_vote e addr value s of (ret, s1) \<Rightarrow>
    if ret \<noteq> 0 then (ret, s1) else run_votes e vs (noted s1))"

definition tcl_audio_power_hold_init ::
  "power_env \<Rightarrow> power_state \<Rightarrow> int \<times> power_res revent list \<times> power_res list \<times> power_state" where
  "tcl_audio_power_hold_init e s = (case run_stages (power_stages e) [] of (ret, t, h) \<Rightarrow>
    if ret \<noteq> 0 then (ret, t @ put_banks h, [], s)
    else case rpmh_vote e 0x42200 1800 s of (ret, s1) \<Rightarrow>
      if ret \<noteq> 0 then (ret, t @ put_banks h, [], s1)
      else case run_votes e audio_votes s1 of (ret, s2) \<Rightarrow>
        if ret \<noteq> 0 then (ret, t @ put_banks h, [], snd (disable_rails e s2))
        else (0, t, h, s2))"

definition tcl_audio_power_hold_exit ::
  "power_env \<Rightarrow> power_res list \<Rightarrow> power_state \<Rightarrow> power_res revent list \<times> power_state" where
  "tcl_audio_power_hold_exit e h s = (put_banks h, snd (disable_rails e s))"

interpretation banks: staged_module "\<lambda>_. []" power_stages "[Bob_bank, Ldo_bank]"
  by unfold_locales (auto simp: power_stages_def)

definition power_hold_cycle ::
  "power_env \<Rightarrow> power_state \<Rightarrow> int \<times> power_res revent list \<times> power_state" where
  "power_hold_cycle e s = (case tcl_audio_power_hold_init e s of (ret, t, h, s1) \<Rightarrow>
    if ret \<noteq> 0 then (ret, t, s1)
    else case tcl_audio_power_hold_exit e h s1 of (t', s2) \<Rightarrow> (0, t @ t', s2))"

definition power_idle :: power_state where
  "power_idle = \<lparr>ps_ldo_on = False, ps_bob_on = False, ps_votes = (\<lambda>_. 0), ps_calls = 0\<rparr>"

text \<open>The flags say which rails are on, and a rail stays on only after a refused write.\<close>

definition rails_ok :: "power_state \<Rightarrow> bool" where
  "rails_ok s \<longleftrightarrow> ps_ldo_on s = (ps_votes s 0x42204 = 1) \<and> ps_bob_on s = (ps_votes s 0x40404 = 1)"

lemma disable_rails_spec:
  assumes "rails_ok s" "disable_rails e s = (ret, s')"
  shows "rails_ok s' \<and> ps_calls s \<le> ps_calls s' \<and>
    (ps_ldo_on s' \<or> ps_bob_on s' \<longrightarrow> ret \<noteq> 0 \<and> (\<exists>n < ps_calls s'. pw_write e n \<noteq> 0)) \<and>
    (\<forall>a. a \<notin> {0x42204, 0x40404} \<longrightarrow> ps_votes s' a = ps_votes s a)"
  using assms
  by (auto simp: disable_rails_def rpmh_vote_def rails_ok_def Let_def less_Suc_eq
      split: if_splits prod.splits)

lemma run_votes_audio:
  assumes "rails_ok s" "\<not> ps_bob_on s" "run_votes e audio_votes s = (ret, s')"
  shows "rails_ok s' \<and> ps_votes s' 0x42200 = ps_votes s 0x42200 \<and>
    (ret = 0 \<longrightarrow> ps_ldo_on s' \<and> ps_bob_on s' \<and> ps_votes s' 0x42208 = 7 \<and>
      ps_votes s' 0x40400 = 3300 \<and> ps_votes s' 0x40408 = 6)"
  using assms
  by (auto simp: audio_votes_def rpmh_vote_def rails_ok_def Let_def split: if_splits)

text \<open>
  A load that fails, and a load followed by an unload, gives back both regulator banks,
  and neither rail is left switched on unless a write to the power controller was refused.
  The voltage and mode votes are never withdrawn: after a clean cycle the 1.8 V, 3.3 V and
  mode votes are still those of the load.
\<close>

theorem power_hold_released:
  assumes "power_hold_cycle e power_idle = (ret, t, s)"
  shows "balanced t \<and>
    (ps_votes s 0x42204 = 1 \<or> ps_votes s 0x40404 = 1 \<longrightarrow> (\<exists>n < ps_calls s. pw_write e n \<noteq> 0)) \<and>
    (ret = 0 \<longrightarrow> ps_votes s 0x42200 = 1800 \<and> ps_votes s 0x42208 = 7 \<and>
      ps_votes s 0x40400 = 3300 \<and> ps_votes s 0x40408 = 6)"
proof -
  obtain c u h where run: "run_stages (power_stages e) [] = (c, u, h)"
    by (cases "run_stages (power_stages e) []")
  have bal: "balanced (u @ put_banks h)"
    using dep_run_balanced [OF banks.cycle_dep [OF run]] by (simp add: put_banks_def)
  obtain r1 s1 where v1: "rpmh_vote e 0x42200 1800 power_idle = (r1, s1)"
    by (cases "rpmh_vote e 0x42200 1800 power_idle")
  have ok1: "rails_ok s1" "\<not> ps_bob_on s1" "\<not> ps_ldo_on s1" "r1 = 0 \<Longrightarrow> ps_votes s1 0x42200 = 1800"
    using v1 by (auto simp: rpmh_vote_def power_idle_def rails_ok_def Let_def split: if_splits)
  obtain r2 s2 where v2: "run_votes e audio_votes s1 = (r2, s2)"
    by (cases "run_votes e audio_votes s1")
  note ok2 = run_votes_audio [OF ok1(1,2) v2]
  obtain r3 s3 where d: "disable_rails e s2 = (r3, s3)"
    by (cases "disable_rails e s2")
  have ok3: "rails_ok s3" "ps_ldo_on s3 \<or> ps_bob_on s3 \<Longrightarrow> \<exists>n < ps_calls s3. pw_write e n \<noteq> 0"
      "ps_votes s3 a = ps_votes s2 a" if "a \<notin> {0x42204, 0x40404}" for a
    using disable_rails_spec [OF _ d] ok2 that by auto
  show ?thesis
  proof (cases "c = 0 \<and> r1 = 0")
    case True
    then have "t = u @ put_banks h \<and> s = s3 \<and> ret = r2"
      using assms by (auto simp: power_hold_cycle_def tcl_audio_power_hold_init_def
          tcl_audio_power_hold_exit_def run v1 v2 d split: if_splits)
    then show ?thesis
      using bal ok1(4) ok2 ok3(1,2) [of 0] ok3(3) True by (auto simp: rails_ok_def)
  next
    case False
    then have "t = u @ put_banks h \<and> ret \<noteq> 0 \<and> s \<in> {power_idle, s1}"
      using assms by (auto simp: power_hold_cycle_def tcl_audio_power_hold_init_def run v1
          split: if_splits)
    then show ?thesis
      using bal ok1 by (auto simp: rails_ok_def power_idle_def)
  qed
qed

definition demo_power_env :: power_env where
  "demo_power_env = \<lparr>pw_dmi = True,
    pw_addr = (\<lambda>n. if n = ''ldoa15'' then 0x42200 else 0x40400),
    pw_client = (\<lambda>_. Some \<lparr>rc_driver = Some ''qcom-rpmh-regulator'', rc_parent_data = True\<rparr>),
    pw_write = (\<lambda>_. 0)\<rparr>"

lemma demo_power_init: "fst (tcl_audio_power_hold_init demo_power_env power_idle) = 0"
  by (simp add: tcl_audio_power_hold_init_def power_stages_def client_ok_def demo_power_env_def
      audio_votes_def rpmh_vote_def Let_def power_idle_def)

theorem power_hold_released_witness:
  "\<exists>t s. power_hold_cycle demo_power_env power_idle = (0, t, s) \<and>
    ps_votes s 0x42200 = 1800 \<and> ps_votes s 0x42204 \<noteq> 1"
proof -
  obtain t s where "power_hold_cycle demo_power_env power_idle = (0, t, s)"
    using demo_power_init unfolding power_hold_cycle_def
    by (cases "tcl_audio_power_hold_init demo_power_env power_idle")
      (auto simp: tcl_audio_power_hold_exit_def)
  then show ?thesis
    using power_hold_released [of demo_power_env 0 t s] by (simp add: demo_power_env_def)
qed

section \<open>tcl\_acpi\_codec\_reset\_hold.c\<close>

text \<open>Register offsets of GPIO 58: configuration, input/output, presence.\<close>

datatype gpio_reg = Gpio_cfg | Gpio_io | Gpio_present

record reset_env =
  re_dmi :: bool
  re_ioremap :: bool
  re_read :: "gpio_reg \<Rightarrow> u32"

record reset_state =
  rs_mapped :: bool
  rs_active :: bool
  rs_writes :: "(gpio_reg \<times> u32) list"

definition writel :: "gpio_reg \<Rightarrow> u32 \<Rightarrow> reset_state \<Rightarrow> reset_state" where
  "writel reg v s = s\<lparr>rs_writes := rs_writes s @ [(reg, v)]\<rparr>"

definition restore_gpio58 :: "reset_state \<Rightarrow> reset_state" where
  "restore_gpio58 s =
    (if \<not> rs_active s then s
     else (writel Gpio_cfg 1 (writel Gpio_io 0 s))\<lparr>rs_active := False\<rparr>)"

definition tcl_codec_reset_hold_init :: "reset_env \<Rightarrow> reset_state \<Rightarrow> int \<times> reset_state" where
  "tcl_codec_reset_hold_init e s =
    (if \<not> re_dmi e then (- ENODEV, s)
     else if \<not> re_ioremap e then (- ENOMEM, s\<lparr>rs_mapped := False\<rparr>)
     else if re_read e Gpio_present AND 1 = 0 \<or> re_read e Gpio_cfg \<noteq> 1 \<or> re_read e Gpio_io \<noteq> 0
     then (- EBUSY, s\<lparr>rs_mapped := False\<rparr>)
     else (0, writel Gpio_io 2
       ((writel Gpio_cfg 0x200 (writel Gpio_io 0 (s\<lparr>rs_mapped := True\<rparr>)))\<lparr>rs_active := True\<rparr>)))"

definition tcl_codec_reset_hold_exit :: "reset_state \<Rightarrow> reset_state" where
  "tcl_codec_reset_hold_exit s = (restore_gpio58 s)\<lparr>rs_mapped := False\<rparr>"

text \<open>The value a register was last given, the value read before any write otherwise.\<close>

definition last_written :: "reset_env \<Rightarrow> reset_state \<Rightarrow> gpio_reg \<Rightarrow> u32" where
  "last_written e s reg = (case filter (\<lambda>w. fst w = reg) (rs_writes s) of
    [] \<Rightarrow> re_read e reg | ws \<Rightarrow> snd (last ws))"

definition reset_idle :: reset_state where
  "reset_idle = \<lparr>rs_mapped = False, rs_active = False, rs_writes = []\<rparr>"

text \<open>
  A load that is refused, by the board check, the mapping or the guard on the register
  values, writes no register. A load that succeeds drives the line low before it makes it an
  output and then high, and the unload that follows gives every register the value that was
  read before the first write, and unmaps the registers.
\<close>

theorem codec_reset_restores:
  "case tcl_codec_reset_hold_init e reset_idle of (ret, s) \<Rightarrow>
    if ret \<noteq> 0 then rs_writes s = [] \<and> \<not> rs_mapped s
    else rs_writes s = [(Gpio_io, 0), (Gpio_cfg, 0x200), (Gpio_io, 2)] \<and>
      (\<forall>reg. last_written e (tcl_codec_reset_hold_exit s) reg = re_read e reg) \<and>
      \<not> rs_mapped (tcl_codec_reset_hold_exit s) \<and> \<not> rs_active (tcl_codec_reset_hold_exit s)"
proof -
  have "last_written e \<lparr>rs_mapped = False, rs_active = False, rs_writes =
      [(Gpio_io, 0), (Gpio_cfg, 0x200), (Gpio_io, 2), (Gpio_io, 0), (Gpio_cfg, 1)]\<rparr> reg = re_read e reg"
    if "re_read e Gpio_cfg = 1" "re_read e Gpio_io = 0" for reg
    using that by (cases reg) (simp_all add: last_written_def)
  then show ?thesis
    by (auto simp: tcl_codec_reset_hold_init_def reset_idle_def writel_def
        tcl_codec_reset_hold_exit_def restore_gpio58_def split: prod.splits)
qed

end
