(* ===== verification/Spmi_Owner.thy ===== *)
theory Spmi_Owner
  imports Stages
begin

text \<open>
  The adapter that gives the standard PMIC arbiter its resources from ACPI,
  \<open>qcom-spmi-acpi-pwm.c\<close>. Binding puts an interrupt controller level (the PDC) over an idle
  interrupt of the GIC, registers the arbiter and reads the two PMICs and their PWM back;
  unbinding takes all of it down. The pushed interrupt mapping is popped only when the line
  is provably idle again; otherwise it is left in place on purpose, and a later bind starts
  from that state. Device references, nodes and devices are the resources; the answers of the
  kernel to one bind and its teardown are the environment record.
\<close>

datatype owner_res =
    Pdc | Pushed | Fwnode | Child | Ctrl | Pmic_node nat | Pmic nat
  | Lpg_node | Lpg | Pwm_consumer_node | Pwm_consumer | Pwm

record irq_data =
  id_hwirq :: nat
  id_domain :: nat
  id_irqchip_fwnode :: bool
  id_parent_data :: bool
  id_activated :: bool

record pin_state =
  pn_ret :: int
  pn_config :: nat
  pn_enabled :: bool

text \<open>
  The interrupt as the core shows it, depending on whether the PDC level is pushed, and
  (\<open>oe_revision\<close>) whether the subtype that the PMIC driver reports is that of the PM8150L.
\<close>

record owner_env =
  oe_resource :: "(nat \<times> nat) option"
  oe_irq_data :: "bool \<Rightarrow> irq_data option"
  oe_pdc :: bool
  oe_domain :: "int + nat"
  oe_domain_parent :: nat
  oe_masked :: "int \<times> bool"
  oe_active :: "int \<times> bool"
  oe_pending :: "int \<times> bool"
  oe_pin :: pin_state
  oe_push :: int
  oe_fwnode :: int
  oe_child :: int
  oe_child_bound :: bool
  oe_pmic_modular :: bool
  oe_request :: "string \<Rightarrow> int"
  oe_ctrl :: bool
  oe_pmic_node :: "nat \<Rightarrow> int"
  oe_pmic_alloc :: "nat \<Rightarrow> bool"
  oe_pmic_add :: "nat \<Rightarrow> int"
  oe_pmic_usable :: "nat \<Rightarrow> bool"
  oe_lpg_node :: int
  oe_lpg :: int
  oe_lpg_bound :: bool
  oe_revision :: "int + bool"
  oe_regmap :: bool
  oe_bulk_read :: int
  oe_consumer_node :: int
  oe_consumer :: int
  oe_pwm :: int
  oe_pwm_state :: int
  oe_down_irq :: "irq_data option"
  oe_down_pin :: pin_state
  oe_pop :: int

record owner_test =
  ot_held :: "owner_res list"
  ot_irq :: nat
  ot_domain :: "int + nat"
  ot_pin_config :: nat

section \<open>Binding\<close>

definition INT_MAX :: nat where "INT_MAX = 2147483647"

definition pushed :: "owner_test \<Rightarrow> bool" where
  "pushed s \<longleftrightarrow> Pushed \<in> set (ot_held s)"

definition owner_component_bind :: "owner_env \<Rightarrow> owner_test \<Rightarrow> int \<times> owner_test" where
  "owner_component_bind e s =
    (case oe_resource e of
       None \<Rightarrow> (- EINVAL, s)
     | Some (lo, hi) \<Rightarrow>
         if lo \<noteq> hi \<or> lo > INT_MAX then (- EINVAL, s)
         else case oe_irq_data e (pushed s) of
           None \<Rightarrow> (- EINVAL, s)
         | Some d \<Rightarrow>
             if id_hwirq d \<noteq> 513 \<or> \<not> id_irqchip_fwnode d then (- EINVAL, s)
             else (0, s\<lparr>ot_irq := lo\<rparr>))"

definition owner_component_unbind :: "owner_test \<Rightarrow> owner_test" where
  "owner_component_unbind s = s\<lparr>ot_irq := 0\<rparr>"

definition register_one_pmic :: "owner_env \<Rightarrow> nat \<Rightarrow> owner_res stage list" where
  "register_one_pmic e i =
    [Take (Pmic_node i) (oe_pmic_node e i),
     Take_checked (Pmic i) (if oe_pmic_alloc e i then 0 else - ENOMEM) (oe_pmic_add e i),
     Check (oe_pmic_usable e i) (- EPROBE_DEFER)]"

definition owner_register_pmic :: "owner_env \<Rightarrow> owner_res stage list" where
  "owner_register_pmic e =
    [Call (if oe_pmic_modular e then oe_request e ''spmi:spmi-pmic'' else 0),
     Call (oe_request e ''platform:pm8150l-lpg''),
     Take Ctrl (if oe_ctrl e then 0 else - EPROBE_DEFER)] @
    register_one_pmic e 0 @ register_one_pmic e 1 @
    [Take Lpg_node (oe_lpg_node e),
     Take Lpg (oe_lpg e),
     Check (oe_lpg_bound e) (- EPROBE_DEFER),
     Call (case oe_revision e of Inl err \<Rightarrow> err | Inr _ \<Rightarrow> 0),
     Check (oe_revision e = Inr True) (- ENODEV),
     Check (oe_regmap e) (- ENXIO),
     Call (oe_bulk_read e),
     Take Pwm_consumer_node (oe_consumer_node e),
     Take Pwm_consumer (oe_consumer e),
     Take Pwm (oe_pwm e),
     Call (oe_pwm_state e)]"

definition irq_idle :: "owner_env \<Rightarrow> bool \<Rightarrow> bool" where
  "irq_idle e was_pushed = (case oe_irq_data e was_pushed of None \<Rightarrow> False | Some d \<Rightarrow>
    \<not> (id_hwirq d \<noteq> 513 \<or> id_domain d \<noteq> oe_domain_parent e \<or> id_parent_data d \<or> id_activated d))"

definition line_quiet :: "owner_env \<Rightarrow> bool" where
  "line_quiet e \<longleftrightarrow> snd (oe_masked e) \<and> \<not> snd (oe_active e) \<and> \<not> snd (oe_pending e)"

definition transport_stages :: "owner_env \<Rightarrow> bool \<Rightarrow> owner_res stage list" where
  "transport_stages e was_pushed =
    [Call (case oe_domain e of Inl err \<Rightarrow> err | Inr _ \<Rightarrow> 0),
     Check (irq_idle e was_pushed) (- EBUSY),
     Call (fst (oe_masked e)), Call (fst (oe_active e)), Call (fst (oe_pending e)),
     Check (line_quiet e) (- EBUSY),
     Call (pn_ret (oe_pin e)),
     Check (\<not> pn_enabled (oe_pin e) \<and> pn_config (oe_pin e) = 4) (- EBUSY),
     Take Pushed (oe_push e),
     Take Fwnode (oe_fwnode e),
     Take Child (oe_child e),
     Check (oe_child_bound e) (- EPROBE_DEFER)] @
    owner_register_pmic e"

section \<open>Teardown\<close>

definition pmic_release_order :: "owner_res list" where
  "pmic_release_order = [Pwm, Pwm_consumer, Pwm_consumer_node, Lpg, Lpg_node,
    Pmic 1, Pmic_node 1, Pmic 0, Pmic_node 0, Ctrl]"

definition owner_release_pmic :: "owner_res list \<Rightarrow> owner_res revent list" where
  "owner_release_pmic h = release_held pmic_release_order h"

definition line_idle :: "owner_env \<Rightarrow> owner_test \<Rightarrow> bool" where
  "line_idle e s = (case oe_down_irq e of None \<Rightarrow> False | Some d \<Rightarrow>
    \<not> (id_activated d \<or> pn_ret (oe_down_pin e) \<noteq> 0 \<or> pn_enabled (oe_down_pin e) \<or>
       pn_config (oe_down_pin e) \<noteq> ot_pin_config s))"

text \<open>
  \<open>irq_domain_pop_irq\<close> dereferences the stored domain; the field holds an error pointer when
  the last bind could not look the domain up.
\<close>

definition owner_release_transport ::
  "owner_env \<Rightarrow> owner_test \<Rightarrow> (owner_res revent list \<times> owner_test) outcome" where
  "owner_release_transport e s = (let h = ot_held s;
     down = owner_release_pmic h @ release_held [Child, Fwnode] h;
     done = (\<lambda>popped. (down @ (if popped then [Rel Pushed] else []) @ release_held [Pdc] h,
       s\<lparr>ot_held := if pushed s \<and> \<not> popped then [Pushed] else []\<rparr>))
   in if pushed s \<and> line_idle e s then
        case ot_domain s of
          Inl _ \<Rightarrow> Inl Wild_pointer
        | Inr _ \<Rightarrow> Inr (done (oe_pop e = 0))
      else Inr (done False))"

text \<open>Whether a bind gets as far as reading the pin configuration into the state.\<close>

definition pin_read :: "owner_env \<Rightarrow> bool \<Rightarrow> bool" where
  "pin_read e was_pushed \<longleftrightarrow> (case oe_domain e of Inl _ \<Rightarrow> False | Inr _ \<Rightarrow> True) \<and> irq_idle e was_pushed \<and>
    fst (oe_masked e) = 0 \<and> fst (oe_active e) = 0 \<and> fst (oe_pending e) = 0 \<and> line_quiet e \<and>
    pn_ret (oe_pin e) = 0"

definition owner_register_transport ::
  "owner_env \<Rightarrow> owner_test \<Rightarrow> (int \<times> owner_res revent list \<times> owner_test) outcome" where
  "owner_register_transport e s =
    (if \<not> oe_pdc e then Inr (- EPROBE_DEFER, [], s)
     else case run_stages (transport_stages e (pushed s)) (Pdc # ot_held s) of (ret, t, h) \<Rightarrow>
       let s1 = s\<lparr>ot_held := h, ot_domain := oe_domain e,
         ot_pin_config := if pin_read e (pushed s) then pn_config (oe_pin e) else ot_pin_config s\<rparr>
       in if ret = 0 then Inr (0, Acq Pdc # t, s1)
          else bind_outcome (owner_release_transport e s1)
            (\<lambda>(t', s2). Inr (ret, Acq Pdc # t @ t', s2)))"

definition owner_master_bind ::
  "owner_env \<Rightarrow> owner_test \<Rightarrow> (int \<times> owner_res revent list \<times> owner_test) outcome" where
  "owner_master_bind e s = (case owner_component_bind e s of (ret, s1) \<Rightarrow>
    if ret \<noteq> 0 then Inr (ret, [], s1)
    else bind_outcome (owner_register_transport e s1) (\<lambda>(ret, t, s2).
      Inr (ret, t, if ret \<noteq> 0 then owner_component_unbind s2 else s2)))"

definition owner_master_unbind ::
  "owner_env \<Rightarrow> owner_test \<Rightarrow> (owner_res revent list \<times> owner_test) outcome" where
  "owner_master_unbind e s = bind_outcome (owner_release_transport e s)
    (\<lambda>(t, s'). Inr (t, owner_component_unbind s'))"

text \<open>The component framework unbinds what it has bound.\<close>

definition owner_cycle ::
  "owner_env \<Rightarrow> owner_test \<Rightarrow> (owner_res revent list \<times> owner_test) outcome" where
  "owner_cycle e s = bind_outcome (owner_master_bind e s) (\<lambda>(ret, t, s1).
    if ret \<noteq> 0 then Inr (t, s1)
    else bind_outcome (owner_master_unbind e s1) (\<lambda>(t', s2). Inr (t @ t', s2)))"

fun owner_cycles ::
  "owner_env list \<Rightarrow> owner_test \<Rightarrow> (owner_res revent list \<times> owner_test) outcome" where
  "owner_cycles [] s = Inr ([], s)"
| "owner_cycles (e # es) s = bind_outcome (owner_cycle e s) (\<lambda>(t, s1).
    bind_outcome (owner_cycles es s1) (\<lambda>(t', s2). Inr (t @ t', s2)))"

section \<open>Safety of any sequence of binds\<close>

fun owner_uses :: "owner_res \<Rightarrow> owner_res list" where
  "owner_uses Child = [Pushed, Fwnode]"
| "owner_uses Ctrl = [Child]"
| "owner_uses (Pmic i) = [Ctrl, Pmic_node i]"
| "owner_uses Lpg = [Pmic 1, Lpg_node]"
| "owner_uses Pwm_consumer_node = [Lpg_node]"
| "owner_uses Pwm_consumer = [Lpg, Pwm_consumer_node]"
| "owner_uses Pwm = [Pwm_consumer]"
| "owner_uses _ = []"

lemmas owner_stage_defs = transport_stages_def owner_register_pmic_def register_one_pmic_def

definition release_order :: "bool \<Rightarrow> owner_res list" where
  "release_order popped =
    pmic_release_order @ [Child, Fwnode] @ (if popped then [Pushed] else []) @ [Pdc]"

lemma release_order_ok: "order_ok owner_uses (release_order popped)"
  by (cases popped) (simp_all add: release_order_def pmic_release_order_def)

lemma transport_held:
  assumes run: "run_stages (transport_stages e wp) [Pdc] = (ret, t, h)"
  shows "dep_run owner_uses t [Pdc] = Some h" "held_ok owner_uses h"
    "set h \<subseteq> set (release_order True)" "Pdc \<in> set h"
proof -
  have "stages_pre owner_uses (transport_stages e wp) [] [Pdc]"
    by (simp add: stages_pre_def held_ok_def owner_stage_defs)
  from run_stages_dep [OF run this]
  have post: "stages_post owner_uses (transport_stages e wp) [Pdc] t h" .
  moreover have "set (Pdc # stage_res (transport_stages e wp)) \<subseteq> set (release_order True)"
    by (simp add: owner_stage_defs release_order_def pmic_release_order_def)
  ultimately show "dep_run owner_uses t [Pdc] = Some h" "held_ok owner_uses h"
    "set h \<subseteq> set (release_order True)" "Pdc \<in> set h"
    by (auto simp: stages_post_def)
qed

lemma release_order_held:
  assumes "popped \<longrightarrow> Pushed \<in> set h"
  shows "release_held (release_order popped) h = owner_release_pmic h @
    release_held [Child, Fwnode] h @ (if popped then [Rel Pushed] else []) @ release_held [Pdc] h"
proof -
  have "release_held (if popped then [Pushed] else []) h = (if popped then [Rel Pushed] else [])"
    using assms by (simp add: release_held_def)
  then show ?thesis
    unfolding release_order_def release_held_simps(3) owner_release_pmic_def by simp
qed

lemma release_transport_trace:
  assumes "owner_release_transport e s = Inr (t, s')"
  shows "\<exists>popped. (popped \<longrightarrow> pushed s) \<and> t = release_held (release_order popped) (ot_held s) \<and>
    ot_held s' = (if pushed s \<and> \<not> popped then [Pushed] else []) \<and>
    (popped \<longleftrightarrow> pushed s \<and> line_idle e s \<and> oe_pop e = 0)"
proof -
  define popped where "popped \<longleftrightarrow> pushed s \<and> line_idle e s \<and> oe_pop e = 0"
  have "t = release_held (release_order popped) (ot_held s)"
    "ot_held s' = (if pushed s \<and> \<not> popped then [Pushed] else [])"
    using assms
    by (auto simp: release_order_held pushed_def [symmetric] owner_release_transport_def
        popped_def Let_def split: if_splits sum.splits)
  then show ?thesis
    by (intro exI [of _ popped] conjI) (simp_all add: popped_def)
qed

lemma release_transport_dep:
  assumes rel: "owner_release_transport e s = Inr (t, s')"
    and h: "held_ok owner_uses (ot_held s)" "set (ot_held s) \<subseteq> set (release_order True)"
  shows "dep_run owner_uses t (ot_held s) = Some (ot_held s')" "ot_held s' \<in> {[], [Pushed]}"
    "line_idle e s \<Longrightarrow> oe_pop e = 0 \<Longrightarrow> ot_held s' = []"
proof -
  from release_transport_trace [OF rel] obtain popped where
    t: "t = release_held (release_order popped) (ot_held s)" "popped \<longrightarrow> pushed s"
    and s': "ot_held s' = (if pushed s \<and> \<not> popped then [Pushed] else [])"
    and p: "popped \<longleftrightarrow> pushed s \<and> line_idle e s \<and> oe_pop e = 0" by blast
  have rest: "set (ot_held s) - set (release_order popped) = (if pushed s \<and> \<not> popped then {Pushed} else {})"
    using h(2) by (auto simp: release_order_def pushed_def pmic_release_order_def)
  have "dep_run owner_uses t (ot_held s)
      = Some (filter (\<lambda>r. r \<notin> set (release_order popped)) (ot_held s))"
    unfolding t using h(1) rest
    by (intro release_held_dep release_order_ok) (auto simp: held_ok_def split: if_splits)
  moreover have "filter (\<lambda>r. r \<notin> set (release_order popped)) (ot_held s) = ot_held s'"
  proof (cases "pushed s \<and> \<not> popped")
    case True
    then show ?thesis
      using h(1) rest s' by (auto simp: held_ok_def intro!: singleton_list)
  next
    case False
    then show ?thesis
      using rest s' by (auto simp: filter_empty_conv)
  qed
  ultimately show "dep_run owner_uses t (ot_held s) = Some (ot_held s')"
    by simp
  show "ot_held s' \<in> {[], [Pushed]}"
    using s' by simp
  show "ot_held s' = []" if "line_idle e s" "oe_pop e = 0"
    using that s' p by simp
qed

lemma release_transport_defined:
  "ot_domain s = Inr d \<Longrightarrow> \<exists>t s'. owner_release_transport e s = Inr (t, s')"
  by (simp add: owner_release_transport_def Let_def)

text \<open>
  What the adapter relies on: the interrupt controller stays where it was found, and once its
  level is pushed the interrupt shows that level and not the one below.
\<close>

definition owner_valid :: "owner_env \<Rightarrow> bool" where
  "owner_valid e \<longleftrightarrow> (case oe_domain e of Inl _ \<Rightarrow> False | Inr _ \<Rightarrow> True) \<and>
    (case oe_irq_data e True of None \<Rightarrow> True | Some d \<Rightarrow> id_domain d \<noteq> oe_domain_parent e)"

definition owner_inv :: "owner_test \<Rightarrow> bool" where
  "owner_inv s \<longleftrightarrow> ot_held s = [] \<or> ot_held s = [Pushed]"

text \<open>A bind that finds the level still pushed stops at the guard, before it takes anything.\<close>

lemma transport_pushed:
  assumes "owner_valid e"
  shows "run_stages (transport_stages e True) h = (- EBUSY, [], h)"
  using assms
  by (auto simp: transport_stages_def owner_valid_def irq_idle_def split: sum.splits option.splits)

lemma transport_run:
  assumes "owner_valid e" "owner_inv s"
    "run_stages (transport_stages e (pushed s)) (Pdc # ot_held s) = (ret, t, h)"
  shows "dep_run owner_uses t (Pdc # ot_held s) = Some h" "held_ok owner_uses h"
    "set h \<subseteq> set (release_order True)"
proof -
  consider "ot_held s = []" | "ot_held s = [Pushed]"
    using assms(2) by (auto simp: owner_inv_def)
  then have "dep_run owner_uses t (Pdc # ot_held s) = Some h \<and> held_ok owner_uses h \<and>
      set h \<subseteq> set (release_order True)"
  proof cases
    case 1
    then show ?thesis
      using assms(3) transport_held [of e "pushed s" ret t h] by (simp add: pushed_def)
  next
    case 2
    then show ?thesis
      using assms(3) transport_pushed [OF assms(1)]
      by (auto simp: pushed_def held_ok_def release_order_def)
  qed
  then show "dep_run owner_uses t (Pdc # ot_held s) = Some h" "held_ok owner_uses h"
    "set h \<subseteq> set (release_order True)" by simp_all
qed

definition good_run :: "owner_test \<Rightarrow> owner_res revent list \<Rightarrow> owner_test \<Rightarrow> bool" where
  "good_run s t s' \<longleftrightarrow> dep_run owner_uses t (ot_held s) = Some (ot_held s') \<and> owner_inv s'"

lemma owner_register_transport_good:
  assumes "owner_valid e" "owner_inv s"
  obtains ret t s' where "owner_register_transport e s = Inr (ret, t, s')"
    and "ret \<noteq> 0 \<Longrightarrow> good_run s t s'"
    and "ret = 0 \<Longrightarrow> dep_run owner_uses t (ot_held s) = Some (ot_held s') \<and>
      held_ok owner_uses (ot_held s') \<and> set (ot_held s') \<subseteq> set (release_order True) \<and>
      (\<exists>d. ot_domain s' = Inr d)"
proof (cases "oe_pdc e")
  case False
  then show ?thesis
    using assms(2) that [of "- EPROBE_DEFER" "[]" s]
    by (simp add: owner_register_transport_def good_run_def)
next
  case True
  obtain ret t h where run:
      "run_stages (transport_stages e (pushed s)) (Pdc # ot_held s) = (ret, t, h)"
    by (cases "run_stages (transport_stages e (pushed s)) (Pdc # ot_held s)")
  note facts = transport_run [OF assms run]
  define s1 where "s1 = s\<lparr>ot_held := h, ot_domain := oe_domain e,
    ot_pin_config := if pin_read e (pushed s) then pn_config (oe_pin e) else ot_pin_config s\<rparr>"
  obtain d where d: "ot_domain s1 = Inr d"
    using assms(1) by (auto simp: s1_def owner_valid_def split: sum.splits)
  obtain t' s2 where rel: "owner_release_transport e s1 = Inr (t', s2)"
    using release_transport_defined [OF d] by blast
  have "dep_run owner_uses t' h = Some (ot_held s2) \<and> owner_inv s2"
    using release_transport_dep [OF rel] facts by (auto simp: s1_def owner_inv_def)
  then have "good_run s (Acq Pdc # t @ t') s2"
    using facts(1) by (simp add: good_run_def dep_run_append)
  then show ?thesis
    using that [of ret "if ret = 0 then Acq Pdc # t else Acq Pdc # t @ t'" "if ret = 0 then s1 else s2"]
      True run rel facts d
    by (simp add: owner_register_transport_def s1_def [symmetric] Let_def)
      (simp add: s1_def)
qed

lemma owner_cycle_good:
  assumes "owner_valid e" "owner_inv s"
  obtains t s' where "owner_cycle e s = Inr (t, s')" "good_run s t s'"
proof -
  obtain c s1 where bind: "owner_component_bind e s = (c, s1)"
    by (cases "owner_component_bind e s")
  have held: "ot_held s1 = ot_held s"
    using bind by (auto simp: owner_component_bind_def split: option.splits prod.splits if_splits)
  show ?thesis
  proof (cases "c = 0")
    case False
    then show ?thesis
      using that [of "[]" s1] bind held assms(2)
      by (simp add: owner_cycle_def owner_master_bind_def good_run_def owner_inv_def)
  next
    case True
    have "owner_inv s1"
      using held assms(2) by (simp add: owner_inv_def)
    from owner_register_transport_good [OF assms(1) this] obtain ret t s2 where
      reg: "owner_register_transport e s1 = Inr (ret, t, s2)"
      and bad: "ret \<noteq> 0 \<Longrightarrow> good_run s1 t s2"
      and ok: "ret = 0 \<Longrightarrow> dep_run owner_uses t (ot_held s1) = Some (ot_held s2) \<and>
        held_ok owner_uses (ot_held s2) \<and> set (ot_held s2) \<subseteq> set (release_order True) \<and>
        (\<exists>d. ot_domain s2 = Inr d)"
      by blast
    show ?thesis
    proof (cases "ret = 0")
      case False
      then show ?thesis
        using that [of t "owner_component_unbind s2"] bad bind reg True held
        by (simp add: owner_cycle_def owner_master_bind_def good_run_def owner_inv_def
            owner_component_unbind_def)
    next
      case ret: True
      then obtain t' s3 where rel: "owner_release_transport e s2 = Inr (t', s3)"
        using ok release_transport_defined by blast
      then show ?thesis
        using that [of "t @ t'" "owner_component_unbind s3"] ok [OF ret] bind reg True held ret
          release_transport_dep [OF rel]
        by (simp add: owner_cycle_def owner_master_bind_def owner_master_unbind_def good_run_def
            owner_inv_def owner_component_unbind_def dep_run_append)
    qed
  qed
qed

definition owner_new :: owner_test where
  "owner_new = \<lparr>ot_held = [], ot_irq = 0, ot_domain = Inr 0, ot_pin_config = 0\<rparr>"

lemma owner_cycles_good:
  "list_all owner_valid es \<Longrightarrow> owner_inv s \<Longrightarrow>
   \<exists>t s'. owner_cycles es s = Inr (t, s') \<and> good_run s t s'"
proof (induction es arbitrary: s)
  case Nil
  then show ?case
    by (simp add: good_run_def)
next
  case (Cons e es)
  then obtain t s1 where "owner_cycle e s = Inr (t, s1)" and g: "good_run s t s1"
    using owner_cycle_good [of e s] by auto
  moreover obtain t' s2 where "owner_cycles es s1 = Inr (t', s2)" "good_run s1 t' s2"
    using Cons.IH [of s1] Cons.prems g by (auto simp: good_run_def)
  ultimately show ?case
    by (auto simp: good_run_def dep_run_append)
qed


definition gic_irq :: irq_data where
  "gic_irq = \<lparr>id_hwirq = 513, id_domain = 1, id_irqchip_fwnode = True, id_parent_data = False,
    id_activated = False\<rparr>"

text \<open>A run where everything works but the arbiter leaves the pin enabled at teardown.\<close>

definition demo_owner_env :: owner_env where
  "demo_owner_env = \<lparr>oe_resource = Some (40, 40),
    oe_irq_data = (\<lambda>p. Some (if p then gic_irq\<lparr>id_domain := 2\<rparr> else gic_irq)), oe_pdc = True,
    oe_domain = Inr 2, oe_domain_parent = 1, oe_masked = (0, True), oe_active = (0, False),
    oe_pending = (0, False), oe_pin = \<lparr>pn_ret = 0, pn_config = 4, pn_enabled = False\<rparr>,
    oe_push = 0, oe_fwnode = 0, oe_child = 0, oe_child_bound = True, oe_pmic_modular = False,
    oe_request = (\<lambda>_. 0), oe_ctrl = True, oe_pmic_node = (\<lambda>_. 0), oe_pmic_alloc = (\<lambda>_. True),
    oe_pmic_add = (\<lambda>_. 0), oe_pmic_usable = (\<lambda>_. True), oe_lpg_node = 0, oe_lpg = 0,
    oe_lpg_bound = True, oe_revision = Inr True, oe_regmap = True, oe_bulk_read = 0,
    oe_consumer_node = 0, oe_consumer = 0, oe_pwm = 0, oe_pwm_state = 0,
    oe_down_irq = Some gic_irq, oe_down_pin = \<lparr>pn_ret = 0, pn_config = 4, pn_enabled = True\<rparr>,
    oe_pop = 0\<rparr>"

lemma demo_owner_valid: "owner_valid demo_owner_env"
  by (simp add: owner_valid_def demo_owner_env_def gic_irq_def)




section \<open>Probe and remove\<close>

text \<open>
  Both ACPI devices probe with the same routine; the one of the PMIC becomes a component, the
  one of the bus the master. The master holds a reference to the PMIC device, put by a managed
  action: at once when it cannot be added, and by the driver core when the probe fails or the
  device goes.
\<close>

datatype owner_role = Component_role | Master_role
datatype owner_ref = Pm01

record owner_probe_env =
  op_enable :: bool
  op_vendor :: string
  op_product :: string
  op_hid :: "string option"
  op_alloc :: bool
  op_handle :: nat
  op_lookup :: "string \<Rightarrow> nat option"
  op_mem0 :: "(nat \<times> nat) option"
  op_mem1 :: bool
  op_pm01 :: bool
  op_action :: int
  op_component_add :: int
  op_master_add :: int

definition owner_probe ::
  "owner_probe_env \<Rightarrow> int \<times> owner_ref revent list \<times> owner_role option" where
  "owner_probe e =
    (if \<not> op_enable e \<or> op_vendor e \<noteq> ''TCL Communication Ltd.'' \<or> op_product e \<noteq> ''B220G'' \<or>
        op_hid e = None then (- ENODEV, [], None)
     else if \<not> op_alloc e then (- ENOMEM, [], None)
     else if op_hid e = Some ''QCOM0830'' then
       if op_lookup e (CHR 0x5C # ''_SB.PM01'') \<noteq> Some (op_handle e) then (- ENODEV, [], None)
       else (op_component_add e, [], if op_component_add e = 0 then Some Component_role else None)
     else if op_lookup e (CHR 0x5C # ''_SB.SPMI'') \<noteq> Some (op_handle e) then (- ENODEV, [], None)
     else if op_mem0 e \<noteq> Some (0x0c400000, 0x02800000) \<or> op_mem1 e then (- EINVAL, [], None)
     else if op_lookup e (CHR 0x5C # ''_SB.PM01'') = None then (- ENODEV, [], None)
     else if \<not> op_pm01 e then (- ENODEV, [], None)
     else if op_action e \<noteq> 0 then (op_action e, [Acq Pm01, Rel Pm01], None)
     else if op_master_add e \<noteq> 0 then (op_master_add e, [Acq Pm01, Rel Pm01], None)
     else (0, [Acq Pm01], Some Master_role))"

definition owner_remove :: "owner_role option \<Rightarrow> owner_ref revent list" where
  "owner_remove role = (if role = Some Master_role then [Rel Pm01] else [])"

interpretation owner_driver: module_lifecycle "\<lambda>_. True" owner_probe "\<lambda>_. owner_remove"
  by unfold_locales (auto simp: owner_probe_def owner_remove_def balanced_def split: if_splits)

text \<open>On another machine, or when not enabled by the parameter, the driver binds nothing.\<close>

lemma owner_probe_guarded:
  "owner_probe e = (0, t, role) \<Longrightarrow> op_enable e \<and> op_vendor e = ''TCL Communication Ltd.'' \<and>
   op_product e = ''B220G'' \<and> role \<noteq> None"
  by (auto simp: owner_probe_def split: if_splits)

end
