(* ===== verification/Usb_Glue.thy ===== *)
theory Usb_Glue
  imports Stages
begin

text \<open>
  The USB glue driver \<open>tcl_usb_acpi.c\<close>: the board check, probe and remove with every failure
  path, the VBUS override and the role notifiers, and system and runtime power management.
  The QSCRATCH control registers are a function from offset to contents that reads back what
  is written; the answers of the kernel are environment records.
\<close>

section \<open>Registers and roles\<close>

type_synonym regs = "nat \<Rightarrow> u32"

definition BIT :: "nat \<Rightarrow> u32" where "BIT n = push_bit n 1"

definition QSCRATCH_HS_PHY_CTRL :: nat where "QSCRATCH_HS_PHY_CTRL = 0x10"
definition UTMI_OTG_VBUS_VALID :: u32 where "UTMI_OTG_VBUS_VALID = BIT 20"
definition SW_SESSVLD_SEL :: u32 where "SW_SESSVLD_SEL = BIT 28"
definition QSCRATCH_SS_PHY_CTRL :: nat where "QSCRATCH_SS_PHY_CTRL = 0x30"
definition LANE0_PWR_PRESENT :: u32 where "LANE0_PWR_PRESENT = BIT 24"
definition QSCRATCH_GENERAL_CFG :: nat where "QSCRATCH_GENERAL_CFG = 0x08"
definition PIPE_UTMI_CLK_SEL :: u32 where "PIPE_UTMI_CLK_SEL = BIT 0"
definition PIPE3_PHYSTATUS_SW :: u32 where "PIPE3_PHYSTATUS_SW = BIT 3"
definition PIPE_UTMI_CLK_DIS :: u32 where "PIPE_UTMI_CLK_DIS = BIT 8"

definition dwc3_qcom_setbits :: "regs \<Rightarrow> nat \<Rightarrow> u32 \<Rightarrow> regs" where
  "dwc3_qcom_setbits base offset val = base(offset := base offset OR val)"

definition dwc3_qcom_clrbits :: "regs \<Rightarrow> nat \<Rightarrow> u32 \<Rightarrow> regs" where
  "dwc3_qcom_clrbits base offset val = base(offset := base offset AND NOT val)"

definition dwc3_qcom_vbus_override_enable :: "bool \<Rightarrow> regs \<Rightarrow> regs" where
  "dwc3_qcom_vbus_override_enable enable r =
    (if enable then
       dwc3_qcom_setbits (dwc3_qcom_setbits r QSCRATCH_SS_PHY_CTRL LANE0_PWR_PRESENT)
         QSCRATCH_HS_PHY_CTRL (UTMI_OTG_VBUS_VALID OR SW_SESSVLD_SEL)
     else
       dwc3_qcom_clrbits (dwc3_qcom_clrbits r QSCRATCH_SS_PHY_CTRL LANE0_PWR_PRESENT)
         QSCRATCH_HS_PHY_CTRL (UTMI_OTG_VBUS_VALID OR SW_SESSVLD_SEL))"

definition dwc3_qcom_select_utmi_clk :: "regs \<Rightarrow> regs" where
  "dwc3_qcom_select_utmi_clk r =
    dwc3_qcom_clrbits
      (dwc3_qcom_setbits (dwc3_qcom_setbits r QSCRATCH_GENERAL_CFG PIPE_UTMI_CLK_DIS)
        QSCRATCH_GENERAL_CFG (PIPE_UTMI_CLK_SEL OR PIPE3_PHYSTATUS_SW))
      QSCRATCH_GENERAL_CFG PIPE_UTMI_CLK_DIS"

datatype usb_dr_mode = USB_DR_MODE_UNKNOWN | USB_DR_MODE_HOST | USB_DR_MODE_PERIPHERAL | USB_DR_MODE_OTG

type_synonym role_state = "regs \<times> usb_dr_mode"

definition dwc3_qcom_vbus_notifier :: "bool \<Rightarrow> role_state \<Rightarrow> role_state" where
  "dwc3_qcom_vbus_notifier event s = (dwc3_qcom_vbus_override_enable event (fst s),
    if event then USB_DR_MODE_PERIPHERAL else USB_DR_MODE_HOST)"

definition dwc3_qcom_host_notifier :: "bool \<Rightarrow> role_state \<Rightarrow> role_state" where
  "dwc3_qcom_host_notifier event s = (dwc3_qcom_vbus_override_enable (\<not> event) (fst s),
    if event then USB_DR_MODE_HOST else USB_DR_MODE_PERIPHERAL)"

datatype role_event = Vbus_event bool | Host_event bool

fun role_step :: "role_event \<Rightarrow> role_state \<Rightarrow> role_state" where
  "role_step (Vbus_event b) s = dwc3_qcom_vbus_notifier b s"
| "role_step (Host_event b) s = dwc3_qcom_host_notifier b s"

text \<open>The three bits of the override, by register.\<close>

definition override_bit :: "nat \<Rightarrow> nat \<Rightarrow> bool" where
  "override_bit offset n \<longleftrightarrow> offset = QSCRATCH_SS_PHY_CTRL \<and> n = 24 \<or>
    offset = QSCRATCH_HS_PHY_CTRL \<and> (n = 20 \<or> n = 28)"

lemma bit_BIT: "k < 32 \<Longrightarrow> bit (BIT k) n \<longleftrightarrow> n = k"
  by (auto simp: BIT_def bit_exp_iff)

lemma override_bits:
  assumes "n < 32"
  shows "bit (dwc3_qcom_vbus_override_enable enable r offset) n \<longleftrightarrow>
    (if override_bit offset n then enable else bit (r offset) n)"
  using assms
  by (auto simp: dwc3_qcom_vbus_override_enable_def dwc3_qcom_setbits_def dwc3_qcom_clrbits_def
      override_bit_def bit_or_iff bit_and_iff bit_not_iff bit_BIT LANE0_PWR_PRESENT_def
      UTMI_OTG_VBUS_VALID_def SW_SESSVLD_SEL_def QSCRATCH_SS_PHY_CTRL_def QSCRATCH_HS_PHY_CTRL_def)

lemma role_step_mode: "snd (role_step ev s) \<in> {USB_DR_MODE_HOST, USB_DR_MODE_PERIPHERAL}"
  by (cases ev) (simp_all add: dwc3_qcom_vbus_notifier_def dwc3_qcom_host_notifier_def)

lemma role_step_bits:
  assumes "n < 32"
  shows "bit (fst (role_step ev s) offset) n \<longleftrightarrow>
      (if override_bit offset n then snd (role_step ev s) = USB_DR_MODE_PERIPHERAL
       else bit (fst s offset) n)"
  using assms
  by (cases ev)
    (simp_all add: dwc3_qcom_vbus_notifier_def dwc3_qcom_host_notifier_def override_bits)

text \<open>
  C26. After any sequence of role changes the VBUS override and the role agree: in peripheral
  mode all three override bits are set, in host mode all three are clear, and no other bit of
  any register has changed.
\<close>

theorem vbus_override_follows_role:
  assumes "evs \<noteq> []" "n < 32"
  shows "case fold role_step evs (r, m) of (r', m') \<Rightarrow>
    (m' = USB_DR_MODE_HOST \<or> m' = USB_DR_MODE_PERIPHERAL) \<and>
    bit (r' offset) n = (if override_bit offset n then m' = USB_DR_MODE_PERIPHERAL
      else bit (r offset) n)"
proof -
  have "bit (fst (fold role_step es s) offset) n = bit (fst s offset) n"
    if "\<not> override_bit offset n" for es s
    using that role_step_bits [OF assms(2)] by (induction es arbitrary: s) auto
  moreover obtain es ev where "evs = es @ [ev]"
    using assms(1) by (metis rev_exhaust)
  ultimately show ?thesis
    using role_step_bits [OF assms(2), of ev "fold role_step es (r, m)" offset]
      role_step_mode [of ev "fold role_step es (r, m)"]
    by (auto simp: case_prod_beta)
qed

theorem vbus_override_follows_role_witness:
  "snd (fold role_step [Vbus_event True, Host_event True] (\<lambda>_. 0, USB_DR_MODE_OTG)) \<noteq> USB_DR_MODE_OTG"
  using vbus_override_follows_role [of "[Vbus_event True, Host_event True]" 24 0 "\<lambda>_. 0"
      USB_DR_MODE_OTG]
  by (cases "fold role_step [Vbus_event True, Host_event True] (\<lambda>_. 0, USB_DR_MODE_OTG)") auto

section \<open>Probe and remove\<close>

record usb_pdata =
  qscratch_base_offset :: nat
  qscratch_base_size :: nat
  dwc3_core_base_size :: nat
  phy_irq_index :: "string \<Rightarrow> int"
  is_urs :: bool

definition SDM845_QSCRATCH_BASE_OFFSET :: nat where "SDM845_QSCRATCH_BASE_OFFSET = 0xf8800"
definition SDM845_QSCRATCH_SIZE :: nat where "SDM845_QSCRATCH_SIZE = 0x400"
definition TCL_SC7180_DWC3_CORE_SIZE :: nat where "TCL_SC7180_DWC3_CORE_SIZE = 0xe000"

definition tcl_sc7180_acpi_urs_pdata :: usb_pdata where
  "tcl_sc7180_acpi_urs_pdata = \<lparr>qscratch_base_offset = SDM845_QSCRATCH_BASE_OFFSET,
    qscratch_base_size = SDM845_QSCRATCH_SIZE, dwc3_core_base_size = TCL_SC7180_DWC3_CORE_SIZE,
    phy_irq_index = (\<lambda>_. - 1), is_urs = True\<rparr>"

text \<open>
  Resources. \<open>Reset_released\<close> is the controller out of reset, \<open>Clk_on i\<close> an enabled clock; the
  core device is held from its allocation on, is added later, and has a software node.
\<close>

datatype usb_res =
    Reset_released | Clk nat | Clk_on nat | Urs_fwh | Urs_dev
  | Core_dev | Child_res | Core_swnode | Core_added | Dwc3_np | Children
  | Icc_ddr | Icc_apps | Runtime_pm

record usb_env =
  ue_of_node :: bool
  ue_companion :: bool
  ue_hid_match :: bool
  ue_urs0 :: bool
  ue_mem :: "(nat \<times> nat) option"
  ue_cca_seen :: bool
  ue_coherent :: bool
  ue_iommu_ids :: "nat list option"
  ue_iommu_domain :: bool
  ue_alloc :: bool
  ue_match_data :: "usb_pdata option"
  ue_resets :: int
  ue_assert :: int
  ue_deassert :: int
  ue_clk_count :: int
  ue_clk_array :: bool
  ue_clk_get :: "nat \<Rightarrow> int"
  ue_clk_enable :: "nat \<Rightarrow> int"
  ue_urs_name :: bool
  ue_urs_child :: bool
  ue_urs_adev :: bool
  ue_urs_create :: "int option"
  ue_ioremap :: int
  ue_irq :: "string \<Rightarrow> int"
  ue_request :: "string \<Rightarrow> int"
  ue_core_alloc :: bool
  ue_child_res :: bool
  ue_core_irq :: int
  ue_add_resources :: int
  ue_swnode :: int
  ue_core_add :: int
  ue_dwc3_np :: bool
  ue_populate :: int
  ue_find_core :: bool
  ue_icc_ddr :: int
  ue_icc_apps :: int
  ue_set_bw_ddr :: int
  ue_set_bw_apps :: int
  ue_extcon :: int

type_synonym usb_run = "int \<times> usb_res revent list \<times> usb_res list"

definition tcl_acpi_usb_check :: "usb_env \<Rightarrow> int" where
  "tcl_acpi_usb_check e =
    (if ue_of_node e \<or> \<not> ue_companion e \<or> \<not> ue_hid_match e then - ENODEV
     else if \<not> ue_urs0 e then - ENODEV
     else if ue_mem e \<noteq> Some (0x0a600000, 0x000fffff) then - EINVAL
     else if \<not> ue_cca_seen e \<or> ue_coherent e then - EINVAL
     else if ue_iommu_ids e \<noteq> Some [0x540] \<or> \<not> ue_iommu_domain e then - ENODEV
     else 0)"

text \<open>
  The clocks of a device-tree node. On a failed lookup the clocks before it are put, though
  they are enabled; on a failed enable they are disabled and put.
\<close>

fun clk_loop :: "usb_env \<Rightarrow> nat \<Rightarrow> nat \<Rightarrow> usb_run" where
  "clk_loop e i 0 = (0, [], [])"
| "clk_loop e i (Suc n) =
    (if ue_clk_get e i \<noteq> 0 then
       (ue_clk_get e i, map (\<lambda>j. Rel (Clk j)) (rev [0..<i]), map Clk_on (rev [0..<i]))
     else if ue_clk_enable e i < 0 then
       (ue_clk_enable e i, Acq (Clk i) #
          concat (map (\<lambda>j. [Rel (Clk_on j), Rel (Clk j)]) (rev [0..<i])) @ [Rel (Clk i)], [])
     else case clk_loop e (Suc i) n of (ret, t, h) \<Rightarrow>
       (ret, Acq (Clk i) # Acq (Clk_on i) # t, if ret = 0 then h @ [Clk_on i, Clk i] else h))"

definition dwc3_qcom_clk_init :: "usb_env \<Rightarrow> int \<Rightarrow> usb_run" where
  "dwc3_qcom_clk_init e count =
    (if \<not> ue_of_node e \<or> count = 0 then (0, [], [])
     else if count < 0 then (count, [], [])
     else if \<not> ue_clk_array e then (- ENOMEM, [], [])
     else clk_loop e 0 (nat count))"

definition dwc3_qcom_create_urs_usb_platdev :: "usb_env \<Rightarrow> usb_res stage list" where
  "dwc3_qcom_create_urs_usb_platdev e =
    [Check (ue_urs_name e) (- ENODEV),
     Take_checked Urs_fwh (if ue_urs_child e then 0 else - ENODEV)
       (if \<not> ue_urs_adev e then - ENODEV
        else case ue_urs_create e of None \<Rightarrow> - ENODEV | Some ret \<Rightarrow> ret),
     Take Urs_dev 0]"

definition dwc3_qcom_get_irq :: "usb_env \<Rightarrow> usb_pdata \<Rightarrow> string \<Rightarrow> int" where
  "dwc3_qcom_get_irq e pd name =
    (if \<not> ue_of_node e \<and> phy_irq_index pd name < 0 then 0 else ue_irq e name)"

definition setup_one_irq :: "usb_env \<Rightarrow> usb_pdata \<Rightarrow> string \<Rightarrow> usb_res stage" where
  "setup_one_irq e pd name =
    Call (if dwc3_qcom_get_irq e pd name > 0 then ue_request e name else 0)"

definition dwc3_qcom_setup_irq :: "usb_env \<Rightarrow> usb_pdata \<Rightarrow> usb_res stage list" where
  "dwc3_qcom_setup_irq e pd = map (setup_one_irq e pd)
    [''qusb2_phy'', ''dp_hs_phy_irq'', ''dm_hs_phy_irq'', ''ss_phy_irq'']"

definition dwc3_qcom_acpi_register_core :: "usb_env \<Rightarrow> usb_run" where
  "dwc3_qcom_acpi_register_core e =
    (let out = (\<lambda>ret. (ret, [Acq Core_dev, Acq Child_res, Rel Core_dev, Rel Child_res], []))
     in if \<not> ue_core_alloc e then (- ENOMEM, [], [])
        else if \<not> ue_child_res e then (- ENOMEM, [Acq Core_dev, Rel Core_dev], [])
        else if ue_mem e = None then out (- ENODEV)
        else if ue_core_irq e < 0 then out (ue_core_irq e)
        else if ue_add_resources e \<noteq> 0 then out (ue_add_resources e)
        else if ue_swnode e < 0 then out (ue_swnode e)
        else if ue_core_add e \<noteq> 0 then
          (ue_core_add e, [Acq Core_dev, Acq Child_res, Acq Core_swnode, Rel Core_swnode,
             Rel Core_dev, Rel Child_res], [])
        else (0, [Acq Core_dev, Acq Child_res, Acq Core_swnode, Acq Core_added, Rel Child_res],
          [Core_added, Core_swnode, Core_dev]))"

definition dwc3_qcom_of_register_core :: "usb_env \<Rightarrow> usb_run" where
  "dwc3_qcom_of_register_core e =
    (if \<not> ue_dwc3_np e then (- ENODEV, [], [])
     else if ue_populate e \<noteq> 0 then (ue_populate e, [Acq Dwc3_np, Rel Dwc3_np], [])
     else if \<not> ue_find_core e then
       (- ENODEV, [Acq Dwc3_np, Acq Children, Rel Children, Rel Dwc3_np], [])
     else (0, [Acq Dwc3_np, Acq Children, Acq Core_dev, Rel Dwc3_np], [Core_dev, Children]))"

definition dwc3_qcom_interconnect_init :: "usb_env \<Rightarrow> usb_run" where
  "dwc3_qcom_interconnect_init e =
    (if ue_companion e then (0, [], [])
     else if ue_icc_ddr e \<noteq> 0 then (ue_icc_ddr e, [], [])
     else if ue_icc_apps e \<noteq> 0 then (ue_icc_apps e, [Acq Icc_ddr, Rel Icc_ddr], [])
     else let t = [Acq Icc_ddr, Acq Icc_apps] in
       if ue_set_bw_ddr e \<noteq> 0 then (ue_set_bw_ddr e, t @ [Rel Icc_apps, Rel Icc_ddr], [])
       else if ue_set_bw_apps e \<noteq> 0 then (ue_set_bw_apps e, t @ [Rel Icc_apps, Rel Icc_ddr], [])
       else (0, t, [Icc_apps, Icc_ddr]))"

text \<open>Running one part after the other, on what is held so far.\<close>

definition and_then :: "usb_run \<Rightarrow> usb_run \<Rightarrow> usb_run" where
  "and_then r1 r2 = (case r1 of (ret, t, h) \<Rightarrow>
    if ret \<noteq> 0 then (ret, t, h) else case r2 of (ret', t', k) \<Rightarrow> (ret', t @ t', k @ h))"

text \<open>From the URS child device to the notifiers; the managed mapping and interrupts hold nothing.\<close>

definition probe_devices :: "usb_env \<Rightarrow> usb_pdata \<Rightarrow> usb_run" where
  "probe_devices e pd = and_then (and_then (and_then
      (run_stages ((if \<not> ue_of_node e \<and> is_urs pd then dwc3_qcom_create_urs_usb_platdev e else []) @
         [Call (ue_ioremap e)] @ dwc3_qcom_setup_irq e pd) [])
      (if ue_of_node e then dwc3_qcom_of_register_core e else dwc3_qcom_acpi_register_core e))
      (dwc3_qcom_interconnect_init e))
      (if ue_of_node e then ue_extcon e else 0, [], [])"

definition num_clocks :: "usb_env \<Rightarrow> nat" where
  "num_clocks e = (if ue_of_node e then nat (ue_clk_count e) else 0)"

definition core_release :: "usb_res list" where
  "core_release = [Children, Core_swnode, Core_added, Core_dev, Urs_dev, Urs_fwh]"

definition clk_release :: "usb_env \<Rightarrow> usb_res list" where
  "clk_release e = concat (map (\<lambda>i. [Clk_on i, Clk i]) (rev [0..<num_clocks e]))"

definition unwind_order :: "usb_env \<Rightarrow> usb_res list" where
  "unwind_order e = [Icc_ddr, Icc_apps] @ core_release @ clk_release e @ [Reset_released]"

definition dwc3_qcom_probe :: "usb_env \<Rightarrow> usb_run" where
  "dwc3_qcom_probe e =
    (if tcl_acpi_usb_check e \<noteq> 0 then (tcl_acpi_usb_check e, [], [])
     else if \<not> ue_alloc e then (- ENOMEM, [], [])
     else if ue_companion e \<and> ue_match_data e = None then (- EINVAL, [], [])
     else if ue_resets e \<noteq> 0 then (ue_resets e, [], [])
     else if ue_assert e \<noteq> 0 then (ue_assert e, [], [])
     else if ue_deassert e \<noteq> 0 then (ue_deassert e, [Acq Reset_released, Rel Reset_released], [])
     else case dwc3_qcom_clk_init e (ue_clk_count e) of (r1, t1, h1) \<Rightarrow>
       if r1 \<noteq> 0 then (r1, Acq Reset_released # t1 @ [Rel Reset_released], h1)
       else case probe_devices e (the (ue_match_data e)) of (r2, t2, h2) \<Rightarrow>
         let h = h2 @ h1 @ [Reset_released] in
         if r2 \<noteq> 0 then
           (r2, Acq Reset_released # t1 @ t2 @ release_held (unwind_order e) h, [])
         else (0, Acq Reset_released # t1 @ t2 @ [Acq Runtime_pm], Runtime_pm # h))"

definition dwc3_qcom_remove :: "usb_env \<Rightarrow> usb_res list \<Rightarrow> usb_res revent list" where
  "dwc3_qcom_remove e h = release_held
    (core_release @ clk_release e @ [Icc_ddr, Icc_apps, Reset_released, Runtime_pm]) h"

section \<open>Properties of probe\<close>

fun usb_uses :: "usb_res \<Rightarrow> usb_res list" where
  "usb_uses Urs_dev = [Urs_fwh]"
| "usb_uses Core_swnode = [Core_dev]"
| "usb_uses Core_added = [Core_dev]"
| "usb_uses (Clk_on i) = [Clk i]"
| "usb_uses _ = []"

lemma tcl_acpi_usb_check_ok:
  "tcl_acpi_usb_check e = 0 \<Longrightarrow> \<not> ue_of_node e \<and> ue_companion e \<and> ue_mem e = Some (0x0a600000, 0x000fffff)"
  by (simp add: tcl_acpi_usb_check_def split: if_splits)

definition stage_part :: "usb_env \<Rightarrow> usb_pdata \<Rightarrow> usb_res stage list" where
  "stage_part e pd = (if is_urs pd then dwc3_qcom_create_urs_usb_platdev e else []) @
     [Call (ue_ioremap e)] @ dwc3_qcom_setup_irq e pd"

lemma stage_part_run:
  assumes "run_stages (stage_part e pd) [] = (ret, t, h)"
  shows "dep_run usb_uses t [] = Some h" "held_ok usb_uses h" "set h \<subseteq> {Urs_fwh, Urs_dev}"
proof -
  have "stages_pre usb_uses (stage_part e pd) [] []"
    by (simp add: stages_pre_def stage_part_def dwc3_qcom_create_urs_usb_platdev_def
        dwc3_qcom_setup_irq_def setup_one_irq_def)
  from run_stages_dep [OF assms this]
  show "dep_run usb_uses t [] = Some h" "held_ok usb_uses h" "set h \<subseteq> {Urs_fwh, Urs_dev}"
    by (auto simp: stages_post_def stage_part_def dwc3_qcom_create_urs_usb_platdev_def
        dwc3_qcom_setup_irq_def setup_one_irq_def split: if_splits)
qed

lemma acpi_core_run:
  assumes "held_ok usb_uses h" "set h \<subseteq> {Urs_fwh, Urs_dev}"
    "dwc3_qcom_acpi_register_core e = (ret, t, k)"
  shows "dep_run usb_uses t h = Some (k @ h)" "held_ok usb_uses (k @ h)"
    "set k \<subseteq> {Core_added, Core_swnode, Core_dev}"
proof -
  have "r \<notin> set (usb_uses q)" if "q \<in> set h" "r \<notin> {Urs_fwh, Urs_dev}" for q r
    using assms(1,2) that by (auto simp: held_ok_def)
  then show "dep_run usb_uses t h = Some (k @ h)" "held_ok usb_uses (k @ h)"
      "set k \<subseteq> {Core_added, Core_swnode, Core_dev}"
    using assms
    by (auto simp: dwc3_qcom_acpi_register_core_def Let_def held_ok_def split: if_splits)
qed

lemma probe_devices_run:
  assumes "\<not> ue_of_node e" "ue_companion e" "probe_devices e pd = (ret, t, h)"
  shows "dep_run usb_uses t [] = Some h" "held_ok usb_uses h" "set h \<subseteq> set core_release"
proof -
  obtain r1 t1 h1 where part: "run_stages (stage_part e pd) [] = (r1, t1, h1)"
    by (cases "run_stages (stage_part e pd) []")
  obtain r2 t2 h2 where core: "dwc3_qcom_acpi_register_core e = (r2, t2, h2)"
    by (cases "dwc3_qcom_acpi_register_core e")
  note p = stage_part_run [OF part]
  note c = acpi_core_run [OF p(2,3) core]
  have "(ret, t, h) = (if r1 \<noteq> 0 then (r1, t1, h1) else (r2, t1 @ t2, h2 @ h1))"
    using assms part core
    by (auto simp: probe_devices_def and_then_def stage_part_def dwc3_qcom_interconnect_init_def
        split: if_splits)
  then show "dep_run usb_uses t [] = Some h" "held_ok usb_uses h" "set h \<subseteq> set core_release"
    using p c by (auto simp: dep_run_append core_release_def split: if_splits)
qed

definition usb_cycle :: "usb_env \<Rightarrow> usb_res revent list" where
  "usb_cycle e = (case dwc3_qcom_probe e of (ret, t, h) \<Rightarrow>
    if ret = 0 then t @ dwc3_qcom_remove e h else t)"

lemma usb_cycle_dep: "dep_run usb_uses (usb_cycle e) [] = Some []"
proof (cases "tcl_acpi_usb_check e = 0")
  case False
  then show ?thesis
    by (simp add: usb_cycle_def dwc3_qcom_probe_def)
next
  case True
  then have np: "\<not> ue_of_node e" "ue_companion e"
    using tcl_acpi_usb_check_ok by blast+
  obtain r t h where dev: "probe_devices e (the (ue_match_data e)) = (r, t, h)"
    by (cases "probe_devices e (the (ue_match_data e))")
  note d = probe_devices_run [OF np dev]
  let ?h = "h @ [Reset_released]"
  have run: "dep_run usb_uses t [Reset_released] = Some ?h"
    using dep_run_frame [OF d(1), of "[Reset_released]"] by simp
  have held: "held_ok usb_uses ?h" "held_ok usb_uses (Runtime_pm # ?h)"
    using d(2,3) by (auto simp: held_ok_def core_release_def)
  have clk: "dwc3_qcom_clk_init e n = (0, [], [])" "clk_release e = []" for n
    using np by (simp_all add: dwc3_qcom_clk_init_def clk_release_def num_clocks_def)
  have "dep_run usb_uses (release_held (unwind_order e) ?h) ?h = Some []"
    by (rule release_all [OF held(1)])
      (use d(3) in \<open>auto simp: unwind_order_def clk core_release_def\<close>)
  moreover have "dep_run usb_uses (dwc3_qcom_remove e (Runtime_pm # ?h)) (Runtime_pm # ?h) = Some []"
    unfolding dwc3_qcom_remove_def
    by (rule release_all [OF held(2)]) (use d(3) in \<open>auto simp: clk core_release_def\<close>)
  ultimately show ?thesis
    using True run dev clk
    by (simp add: usb_cycle_def dwc3_qcom_probe_def dep_run_append Let_def)
qed


definition demo_usb_env :: usb_env where
  "demo_usb_env = \<lparr>ue_of_node = False, ue_companion = True, ue_hid_match = True, ue_urs0 = True,
    ue_mem = Some (0x0a600000, 0x000fffff), ue_cca_seen = True, ue_coherent = False,
    ue_iommu_ids = Some [0x540], ue_iommu_domain = True, ue_alloc = True,
    ue_match_data = Some tcl_sc7180_acpi_urs_pdata, ue_resets = 0, ue_assert = 0, ue_deassert = 0,
    ue_clk_count = 0, ue_clk_array = True, ue_clk_get = (\<lambda>_. 0), ue_clk_enable = (\<lambda>_. 0),
    ue_urs_name = True, ue_urs_child = True, ue_urs_adev = True, ue_urs_create = Some 0,
    ue_ioremap = 0, ue_irq = (\<lambda>_. 0), ue_request = (\<lambda>_. 0), ue_core_alloc = True,
    ue_child_res = True, ue_core_irq = 50, ue_add_resources = 0, ue_swnode = 0, ue_core_add = 0,
    ue_dwc3_np = False, ue_populate = 0, ue_find_core = False, ue_icc_ddr = 0, ue_icc_apps = 0,
    ue_set_bw_ddr = 0, ue_set_bw_apps = 0, ue_extcon = 0\<rparr>"

lemma demo_usb_probe: "fst (dwc3_qcom_probe demo_usb_env) = 0"
  by (simp add: demo_usb_env_def dwc3_qcom_probe_def tcl_acpi_usb_check_def dwc3_qcom_clk_init_def
      probe_devices_def and_then_def dwc3_qcom_create_urs_usb_platdev_def dwc3_qcom_setup_irq_def
      setup_one_irq_def dwc3_qcom_get_irq_def dwc3_qcom_acpi_register_core_def
      dwc3_qcom_interconnect_init_def tcl_sc7180_acpi_urs_pdata_def)


text \<open>
  The failure path of the clock lookup, which only a device-tree node reaches: the clocks
  before the missing one are put but stay enabled.
\<close>

lemma clk_init_leaks:
  assumes "ue_of_node e" "ue_clk_array e" "ue_clk_get e 0 = 0" "ue_clk_enable e 0 = 0"
    and "ue_clk_get e 1 = err" "err \<noteq> 0"
  shows "dwc3_qcom_clk_init e 2 = (err, [Acq (Clk 0), Acq (Clk_on 0), Rel (Clk 0)], [Clk_on 0])"
  using assms by (simp add: dwc3_qcom_clk_init_def numeral_2_eq_2)

section \<open>Power management\<close>

datatype usb_device_speed = USB_SPEED_UNKNOWN | USB_SPEED_LOW | USB_SPEED_FULL | USB_SPEED_HIGH | USB_SPEED_SUPER

text \<open>
  Enable counts of the clocks, of the two interconnect paths and of the wake-up interrupts;
  \<open>um_irq\<close> says which of the interrupts the driver has.
\<close>

record usb_pm =
  um_suspended :: bool
  um_pm_suspended :: bool
  um_speed :: usb_device_speed
  um_clks :: "int list"
  um_icc_ddr :: int
  um_icc_apps :: int
  um_irq :: "string \<Rightarrow> bool"
  um_wake :: "string \<Rightarrow> int"

text \<open>The answers to one callback: the role and speed read, the clock and interconnect calls.\<close>

record pm_answers =
  pa_host :: bool
  pa_speed :: usb_device_speed
  pa_wakeup :: bool
  pa_clk :: "nat \<Rightarrow> int"
  pa_icc_ddr :: int
  pa_icc_apps :: int
  pa_icc_back :: int

definition dwc3_qcom_interconnect_enable :: "pm_answers \<Rightarrow> usb_pm \<Rightarrow> int \<times> usb_pm" where
  "dwc3_qcom_interconnect_enable a s =
    (if pa_icc_ddr a \<noteq> 0 then (pa_icc_ddr a, s)
     else let s1 = s\<lparr>um_icc_ddr := um_icc_ddr s + 1\<rparr> in
       if pa_icc_apps a \<noteq> 0 then
         (pa_icc_apps a, if pa_icc_back a = 0 then s1\<lparr>um_icc_ddr := um_icc_ddr s1 - 1\<rparr> else s1)
       else (0, s1\<lparr>um_icc_apps := um_icc_apps s1 + 1\<rparr>))"

definition dwc3_qcom_interconnect_disable :: "pm_answers \<Rightarrow> usb_pm \<Rightarrow> int \<times> usb_pm" where
  "dwc3_qcom_interconnect_disable a s =
    (if pa_icc_ddr a \<noteq> 0 then (pa_icc_ddr a, s)
     else let s1 = s\<lparr>um_icc_ddr := um_icc_ddr s - 1\<rparr> in
       if pa_icc_apps a \<noteq> 0 then
         (pa_icc_apps a, if pa_icc_back a = 0 then s1\<lparr>um_icc_ddr := um_icc_ddr s1 + 1\<rparr> else s1)
       else (0, s1\<lparr>um_icc_apps := um_icc_apps s1 - 1\<rparr>))"

definition wakeup_irq :: "int \<Rightarrow> string \<Rightarrow> usb_pm \<Rightarrow> usb_pm" where
  "wakeup_irq d irq s =
    (if \<not> um_irq s irq then s else s\<lparr>um_wake := (um_wake s)(irq := um_wake s irq + d)\<rparr>)"

definition dwc3_qcom_enable_wakeup_irq :: "string \<Rightarrow> usb_pm \<Rightarrow> usb_pm" where
  "dwc3_qcom_enable_wakeup_irq = wakeup_irq 1"

definition dwc3_qcom_disable_wakeup_irq :: "string \<Rightarrow> usb_pm \<Rightarrow> usb_pm" where
  "dwc3_qcom_disable_wakeup_irq = wakeup_irq (- 1)"

definition dwc3_qcom_disable_interrupts :: "usb_pm \<Rightarrow> usb_pm" where
  "dwc3_qcom_disable_interrupts s0 = (let
     s1 = dwc3_qcom_disable_wakeup_irq ''qusb2_phy'' s0;
     s2 = (case um_speed s1 of
         USB_SPEED_LOW \<Rightarrow> dwc3_qcom_disable_wakeup_irq ''dm_hs_phy_irq'' s1
       | USB_SPEED_HIGH \<Rightarrow> dwc3_qcom_disable_wakeup_irq ''dp_hs_phy_irq'' s1
       | USB_SPEED_FULL \<Rightarrow> dwc3_qcom_disable_wakeup_irq ''dp_hs_phy_irq'' s1
       | _ \<Rightarrow> dwc3_qcom_disable_wakeup_irq ''dm_hs_phy_irq''
                (dwc3_qcom_disable_wakeup_irq ''dp_hs_phy_irq'' s1))
   in dwc3_qcom_disable_wakeup_irq ''ss_phy_irq'' s2)"

definition dwc3_qcom_enable_interrupts :: "usb_pm \<Rightarrow> usb_pm" where
  "dwc3_qcom_enable_interrupts s0 = (let
     s1 = dwc3_qcom_enable_wakeup_irq ''qusb2_phy'' s0;
     s2 = (case um_speed s1 of
         USB_SPEED_LOW \<Rightarrow> dwc3_qcom_enable_wakeup_irq ''dm_hs_phy_irq'' s1
       | USB_SPEED_HIGH \<Rightarrow> dwc3_qcom_enable_wakeup_irq ''dp_hs_phy_irq'' s1
       | USB_SPEED_FULL \<Rightarrow> dwc3_qcom_enable_wakeup_irq ''dp_hs_phy_irq'' s1
       | _ \<Rightarrow> dwc3_qcom_enable_wakeup_irq ''dm_hs_phy_irq''
                (dwc3_qcom_enable_wakeup_irq ''dp_hs_phy_irq'' s1))
   in dwc3_qcom_enable_wakeup_irq ''ss_phy_irq'' s2)"

definition dwc3_qcom_suspend :: "pm_answers \<Rightarrow> bool \<Rightarrow> usb_pm \<Rightarrow> int \<times> usb_pm" where
  "dwc3_qcom_suspend a wakeup s =
    (if um_suspended s then (0, s)
     else let
       s1 = s\<lparr>um_clks := map (\<lambda>c. c - 1) (um_clks s)\<rparr>;
       s2 = snd (dwc3_qcom_interconnect_disable a s1);
       s3 = (if pa_host a \<and> wakeup then dwc3_qcom_enable_interrupts (s2\<lparr>um_speed := pa_speed a\<rparr>)
             else s2)
     in (0, s3\<lparr>um_suspended := True\<rparr>))"

text \<open>The first clock that cannot be enabled stops the loop; those before it are disabled again.\<close>

definition clk_failed :: "pm_answers \<Rightarrow> nat \<Rightarrow> nat option" where
  "clk_failed a n = find (\<lambda>i. pa_clk a i < 0) [0..<n]"

definition dwc3_qcom_resume :: "pm_answers \<Rightarrow> bool \<Rightarrow> usb_pm \<Rightarrow> int \<times> usb_pm" where
  "dwc3_qcom_resume a wakeup s =
    (if \<not> um_suspended s then (0, s)
     else let
       s1 = (if pa_host a \<and> wakeup then dwc3_qcom_disable_interrupts s else s)
     in case clk_failed a (length (um_clks s1)) of
          Some i \<Rightarrow> (pa_clk a i, s1)
        | None \<Rightarrow> let
            s2 = s1\<lparr>um_clks := map (\<lambda>c. c + 1) (um_clks s1)\<rparr>;
            s3 = snd (dwc3_qcom_interconnect_enable a s2)
          in (0, s3\<lparr>um_suspended := False\<rparr>))"

definition dwc3_qcom_pm_suspend :: "bool \<Rightarrow> pm_answers \<Rightarrow> usb_pm \<Rightarrow> int \<times> usb_pm" where
  "dwc3_qcom_pm_suspend companion a s =
    (if companion then (- EBUSY, s)
     else case dwc3_qcom_suspend a (pa_wakeup a) s of (ret, s1) \<Rightarrow>
       if ret \<noteq> 0 then (ret, s1) else (0, s1\<lparr>um_pm_suspended := True\<rparr>))"

definition dwc3_qcom_pm_resume :: "pm_answers \<Rightarrow> usb_pm \<Rightarrow> int \<times> usb_pm" where
  "dwc3_qcom_pm_resume a s = (case dwc3_qcom_resume a (pa_wakeup a) s of (ret, s1) \<Rightarrow>
    if ret \<noteq> 0 then (ret, s1) else (0, s1\<lparr>um_pm_suspended := False\<rparr>))"

definition dwc3_qcom_runtime_suspend :: "bool \<Rightarrow> pm_answers \<Rightarrow> usb_pm \<Rightarrow> int \<times> usb_pm" where
  "dwc3_qcom_runtime_suspend companion a s =
    (if companion then (- EBUSY, s) else dwc3_qcom_suspend a True s)"

definition dwc3_qcom_runtime_resume :: "pm_answers \<Rightarrow> usb_pm \<Rightarrow> int \<times> usb_pm" where
  "dwc3_qcom_runtime_resume a s = dwc3_qcom_resume a True s"

datatype pm_event = Pm_suspend pm_answers | Pm_resume pm_answers
  | Runtime_suspend pm_answers | Runtime_resume pm_answers

fun pm_step :: "bool \<Rightarrow> pm_event \<Rightarrow> usb_pm \<Rightarrow> usb_pm" where
  "pm_step companion (Pm_suspend a) s = snd (dwc3_qcom_pm_suspend companion a s)"
| "pm_step companion (Pm_resume a) s = snd (dwc3_qcom_pm_resume a s)"
| "pm_step companion (Runtime_suspend a) s = snd (dwc3_qcom_runtime_suspend companion a s)"
| "pm_step companion (Runtime_resume a) s = snd (dwc3_qcom_runtime_resume a s)"

lemma pm_step_acpi:
  "\<not> um_suspended s \<Longrightarrow> \<not> um_pm_suspended s \<Longrightarrow> pm_step True ev s = s"
  by (cases ev) (simp_all add: dwc3_qcom_pm_suspend_def dwc3_qcom_pm_resume_def
      dwc3_qcom_runtime_suspend_def dwc3_qcom_runtime_resume_def dwc3_qcom_resume_def)

lemma pm_steps_acpi:
  "\<not> um_suspended s \<Longrightarrow> \<not> um_pm_suspended s \<Longrightarrow> fold (pm_step True) evs s = s"
  by (induction evs) (simp_all add: pm_step_acpi)

text \<open>Enabling and disabling the wake-up interrupts at the same speed cancel out.\<close>

definition has_irq :: "usb_pm \<Rightarrow> string \<Rightarrow> string \<Rightarrow> int" where
  "has_irq s irq x = (if x = irq \<and> um_irq s irq then 1 else 0)"

lemma wakeup_irq_sum:
  "wakeup_irq d irq s = s\<lparr>um_wake := \<lambda>x. um_wake s x + d * has_irq s irq x\<rparr>"
  by (auto simp: wakeup_irq_def has_irq_def fun_eq_iff intro!: usb_pm.equality)

lemma has_irq_update [simp]: "has_irq (s\<lparr>um_wake := f\<rparr>) = has_irq s"
  by (simp add: has_irq_def fun_eq_iff)

definition speed_irqs :: "usb_device_speed \<Rightarrow> string list" where
  "speed_irqs v = (case v of USB_SPEED_LOW \<Rightarrow> [''dm_hs_phy_irq''] | USB_SPEED_HIGH \<Rightarrow> [''dp_hs_phy_irq'']
    | USB_SPEED_FULL \<Rightarrow> [''dp_hs_phy_irq''] | _ \<Rightarrow> [''dp_hs_phy_irq'', ''dm_hs_phy_irq''])"

definition speed_sum :: "usb_pm \<Rightarrow> string \<Rightarrow> int" where
  "speed_sum s x = has_irq s ''qusb2_phy'' x +
    sum_list (map (\<lambda>irq. has_irq s irq x) (speed_irqs (um_speed s))) + has_irq s ''ss_phy_irq'' x"

lemma enable_interrupts_sum:
  "dwc3_qcom_enable_interrupts s = s\<lparr>um_wake := \<lambda>x. um_wake s x + speed_sum s x\<rparr>"
  by (cases "um_speed s")
    (simp_all add: dwc3_qcom_enable_interrupts_def dwc3_qcom_enable_wakeup_irq_def Let_def
      wakeup_irq_sum speed_sum_def speed_irqs_def add.assoc)

lemma disable_interrupts_sum:
  "dwc3_qcom_disable_interrupts s = s\<lparr>um_wake := \<lambda>x. um_wake s x - speed_sum s x\<rparr>"
  by (cases "um_speed s")
    (simp_all add: dwc3_qcom_disable_interrupts_def dwc3_qcom_disable_wakeup_irq_def Let_def
      wakeup_irq_sum speed_sum_def speed_irqs_def diff_diff_eq add.assoc)

lemma clk_all_ok: "\<forall>i. pa_clk a i = 0 \<Longrightarrow> clk_failed a n = None"
  by (simp add: clk_failed_def find_None_iff)

definition answers_ok :: "pm_answers \<Rightarrow> bool" where
  "answers_ok a \<longleftrightarrow> pa_icc_ddr a = 0 \<and> pa_icc_apps a = 0"

lemma interconnect_ok:
  assumes "answers_ok a"
  shows "dwc3_qcom_interconnect_disable a s =
      (0, s\<lparr>um_icc_ddr := um_icc_ddr s - 1, um_icc_apps := um_icc_apps s - 1\<rparr>)"
    "dwc3_qcom_interconnect_enable a s =
      (0, s\<lparr>um_icc_ddr := um_icc_ddr s + 1, um_icc_apps := um_icc_apps s + 1\<rparr>)"
  using assms
  by (simp_all add: dwc3_qcom_interconnect_disable_def dwc3_qcom_interconnect_enable_def
      answers_ok_def Let_def)

lemma suspend_resume:
  assumes "\<not> um_suspended s" "answers_ok a" "answers_ok b" "\<forall>i. pa_clk b i = 0"
    "pa_host b = pa_host a"
  shows "dwc3_qcom_resume b wakeup (snd (dwc3_qcom_suspend a wakeup s)) =
    (0, s\<lparr>um_speed := if pa_host a \<and> wakeup then pa_speed a else um_speed s\<rparr>)"
proof (cases "pa_host a \<and> wakeup")
  case True
  then show ?thesis
    using assms
    by (simp add: dwc3_qcom_suspend_def dwc3_qcom_resume_def Let_def interconnect_ok clk_all_ok
        enable_interrupts_sum disable_interrupts_sum speed_sum_def has_irq_def comp_def)
next
  case False
  then show ?thesis
    using assms
    by (auto simp: dwc3_qcom_suspend_def dwc3_qcom_resume_def Let_def interconnect_ok clk_all_ok
        comp_def)
qed

text \<open>
  C27. On an ACPI device, the only kind the probe accepts, no sequence of power-management
  callbacks changes the state the probe left: every suspend is refused and every resume has
  nothing to do. The suspend and resume routines themselves are inverse, whatever the speed of
  the attached device, when the calls succeed and the role and the wake-up setting are the
  same both times: the clocks, paths and wake-up interrupts are enabled as often as before.
\<close>

theorem usb_pm_balanced:
  assumes "\<not> um_suspended s" "\<not> um_pm_suspended s"
  shows "fold (pm_step True) evs s = s \<and>
    (answers_ok a \<and> answers_ok b \<and> (\<forall>i. pa_clk b i = 0) \<and> pa_host b = pa_host a \<longrightarrow>
      (case dwc3_qcom_resume b wakeup (snd (dwc3_qcom_suspend a wakeup s)) of (ret, s') \<Rightarrow>
        ret = 0 \<and> um_clks s' = um_clks s \<and> um_icc_ddr s' = um_icc_ddr s \<and>
        um_icc_apps s' = um_icc_apps s \<and> um_wake s' = um_wake s \<and> \<not> um_suspended s'))"
  using assms pm_steps_acpi [OF assms] by (simp add: suspend_resume)

definition demo_pm :: usb_pm where
  "demo_pm = \<lparr>um_suspended = False, um_pm_suspended = False, um_speed = USB_SPEED_UNKNOWN,
    um_clks = [1, 1], um_icc_ddr = 1, um_icc_apps = 1, um_irq = (\<lambda>_. True), um_wake = (\<lambda>_. 0)\<rparr>"

definition demo_answers_pm :: "bool \<Rightarrow> pm_answers" where
  "demo_answers_pm w = \<lparr>pa_host = True, pa_speed = USB_SPEED_HIGH, pa_wakeup = w, pa_clk = (\<lambda>_. 0),
    pa_icc_ddr = 0, pa_icc_apps = 0, pa_icc_back = 0\<rparr>"

theorem usb_pm_balanced_witness:
  "um_wake (snd (dwc3_qcom_resume (demo_answers_pm True) True
    (snd (dwc3_qcom_suspend (demo_answers_pm True) True demo_pm)))) = (\<lambda>_. 0)"
  using usb_pm_balanced [of demo_pm "[]" "demo_answers_pm True" "demo_answers_pm True" True]
  by (cases "dwc3_qcom_resume (demo_answers_pm True) True
      (snd (dwc3_qcom_suspend (demo_answers_pm True) True demo_pm))")
    (simp add: demo_pm_def demo_answers_pm_def answers_ok_def)

text \<open>
  Without the refusal the wake-up setting matters: a runtime suspend followed by a system
  suspend and a system resume with wake-up off leaves the interrupts enabled, and the next
  runtime suspend enables them a second time.
\<close>

lemma wake_irq_enabled_twice:
  "um_wake (fold (pm_step False) [Runtime_suspend (demo_answers_pm True),
      Pm_suspend (demo_answers_pm False), Pm_resume (demo_answers_pm False),
      Runtime_suspend (demo_answers_pm True)] demo_pm) ''ss_phy_irq'' = 2"
  by (simp add: dwc3_qcom_pm_suspend_def dwc3_qcom_pm_resume_def dwc3_qcom_runtime_suspend_def
      dwc3_qcom_suspend_def dwc3_qcom_resume_def Let_def interconnect_ok clk_all_ok answers_ok_def
      enable_interrupts_sum speed_sum_def speed_irqs_def has_irq_def demo_pm_def demo_answers_pm_def)

end
