(* ===== verification/Remote_Q6v5.thy ===== *)
theory Remote_Q6v5
  imports Stages
begin

text \<open>
  The common code of the Hexagon remote processors, \<open>tcl-q6v5.c\<close>: the bandwidth vote and the
  load state of a processor that is being started, the five interrupts it raises (watchdog,
  fatal, ready, handover, stop-ack), the two completions the driver waits on, and the stop
  request. \<open>struct qcom_q6v5\<close> is embedded in the structure of the loader; here the record of
  the loader extends the record \<open>q6v5\<close>, and every operation works on the extended record, so
  the handover callback (\<open>container_of\<close> in the source) reaches the loader's own fields.

  The kernel services that answer with a status are functions of the number of the call.
\<close>

record q6v5_env =
  qe_icc :: "nat \<Rightarrow> int"
  qe_qmp :: "nat \<Rightarrow> int"
  qe_svc :: "nat \<Rightarrow> int"

datatype crash_type = RPROC_WATCHDOG | RPROC_FATAL_ERROR

record q6v5 =
  q_qmp :: bool
  q_running :: bool
  q_handover_issued :: bool
  q_start_done :: nat
  q_stop_done :: nat
  q_irq_depth :: nat
  q_bw :: bool
  q_load_state :: bool
  q_stop_bit :: bool
  q_crashes :: "crash_type list"
  q_tick :: nat

datatype q6v5_irq = Wdog | Fatal | Ready | Handover | Stop_ack

text \<open>A call of a service: its answer, and the number of the next call.\<close>

definition ask :: "(nat \<Rightarrow> int) \<Rightarrow> 'a q6v5_scheme \<Rightarrow> int \<times> 'a q6v5_scheme" where
  "ask f s = (f (q_tick s), s\<lparr>q_tick := Suc (q_tick s)\<rparr>)"

definition icc_set_bw :: "q6v5_env \<Rightarrow> bool \<Rightarrow> 'a q6v5_scheme \<Rightarrow> int \<times> 'a q6v5_scheme" where
  "icc_set_bw e vote s = (let (ret, s) = ask (qe_icc e) s in
    (ret, if ret < 0 then s else s\<lparr>q_bw := vote\<rparr>))"

definition q6v5_load_state_toggle ::
  "q6v5_env \<Rightarrow> bool \<Rightarrow> 'a q6v5_scheme \<Rightarrow> int \<times> 'a q6v5_scheme" where
  "q6v5_load_state_toggle e enable s = (if \<not> q_qmp s then (0, s)
    else let (ret, s) = ask (qe_qmp e) s in
      (ret, if ret \<noteq> 0 then s else s\<lparr>q_load_state := enable\<rparr>))"

definition qcom_q6v5_prepare :: "q6v5_env \<Rightarrow> 'a q6v5_scheme \<Rightarrow> int \<times> 'a q6v5_scheme" where
  "qcom_q6v5_prepare e s = (let (ret, s) = icc_set_bw e True s in
    if ret < 0 then (ret, s)
    else let (ret, s) = q6v5_load_state_toggle e True s in
      if ret \<noteq> 0 then (ret, snd (icc_set_bw e False s))
      else (0, s\<lparr>q_start_done := 0, q_stop_done := 0, q_running := True,
                 q_handover_issued := False, q_irq_depth := q_irq_depth s - 1\<rparr>))"

definition qcom_q6v5_unprepare :: "q6v5_env \<Rightarrow> 'a q6v5_scheme \<Rightarrow> bool \<times> 'a q6v5_scheme" where
  "qcom_q6v5_unprepare e s = (let
      s = s\<lparr>q_irq_depth := Suc (q_irq_depth s)\<rparr>;
      s = snd (q6v5_load_state_toggle e False s);
      s = snd (icc_set_bw e False s)
    in (\<not> q_handover_issued s, s))"

definition q6v5_wdog_interrupt :: "'a q6v5_scheme \<Rightarrow> 'a q6v5_scheme" where
  "q6v5_wdog_interrupt s = (if \<not> q_running s then s\<lparr>q_stop_done := Suc (q_stop_done s)\<rparr>
    else s\<lparr>q_running := False, q_crashes := q_crashes s @ [RPROC_WATCHDOG]\<rparr>)"

definition q6v5_fatal_interrupt :: "'a q6v5_scheme \<Rightarrow> 'a q6v5_scheme" where
  "q6v5_fatal_interrupt s = (if \<not> q_running s then s
    else s\<lparr>q_running := False, q_crashes := q_crashes s @ [RPROC_FATAL_ERROR]\<rparr>)"

definition q6v5_ready_interrupt :: "'a q6v5_scheme \<Rightarrow> 'a q6v5_scheme" where
  "q6v5_ready_interrupt s = s\<lparr>q_start_done := Suc (q_start_done s)\<rparr>"

definition q6v5_handover_interrupt ::
  "('a q6v5_scheme \<Rightarrow> 'a q6v5_scheme) option \<Rightarrow> q6v5_env \<Rightarrow> 'a q6v5_scheme \<Rightarrow> 'a q6v5_scheme" where
  "q6v5_handover_interrupt handover e s = (if q_handover_issued s then s
    else let
      s = (case handover of None \<Rightarrow> s | Some f \<Rightarrow> f s);
      s = snd (icc_set_bw e False s)
    in s\<lparr>q_handover_issued := True\<rparr>)"

definition q6v5_stop_interrupt :: "'a q6v5_scheme \<Rightarrow> 'a q6v5_scheme" where
  "q6v5_stop_interrupt s = s\<lparr>q_stop_done := Suc (q_stop_done s)\<rparr>"

text \<open>
  Delivery of an interrupt. Only the handover interrupt is ever disabled; while it is, its
  handler does not run.
\<close>

fun q6v5_interrupt ::
  "('a q6v5_scheme \<Rightarrow> 'a q6v5_scheme) option \<Rightarrow> q6v5_env \<Rightarrow> q6v5_irq \<Rightarrow> 'a q6v5_scheme \<Rightarrow>
   'a q6v5_scheme" where
  "q6v5_interrupt handover e Wdog s = q6v5_wdog_interrupt s"
| "q6v5_interrupt handover e Fatal s = q6v5_fatal_interrupt s"
| "q6v5_interrupt handover e Ready s = q6v5_ready_interrupt s"
| "q6v5_interrupt handover e Handover s =
    (if q_irq_depth s = 0 then q6v5_handover_interrupt handover e s else s)"
| "q6v5_interrupt handover e Stop_ack s = q6v5_stop_interrupt s"

definition q6v5_irqs ::
  "('a q6v5_scheme \<Rightarrow> 'a q6v5_scheme) option \<Rightarrow> q6v5_env \<Rightarrow> q6v5_irq list \<Rightarrow> 'a q6v5_scheme \<Rightarrow>
   'a q6v5_scheme" where
  "q6v5_irqs handover e irqs s = fold (q6v5_interrupt handover e) irqs s"

text \<open>
  The two waits: \<open>irqs\<close> are the interrupts delivered until the waiter goes on. It takes one
  completion when there is one, and times out otherwise.
\<close>

definition qcom_q6v5_wait_for_start ::
  "('a q6v5_scheme \<Rightarrow> 'a q6v5_scheme) option \<Rightarrow> q6v5_env \<Rightarrow> q6v5_irq list \<Rightarrow> 'a q6v5_scheme \<Rightarrow>
   int \<times> 'a q6v5_scheme" where
  "qcom_q6v5_wait_for_start handover e irqs s = (let s = q6v5_irqs handover e irqs s in
    if q_start_done s = 0 then (- ETIMEDOUT, s)
    else (0, s\<lparr>q_start_done := q_start_done s - 1\<rparr>))"

definition qcom_q6v5_request_stop ::
  "('a q6v5_scheme \<Rightarrow> 'a q6v5_scheme) option \<Rightarrow> q6v5_env \<Rightarrow> bool \<Rightarrow> bool \<Rightarrow> q6v5_irq list \<Rightarrow>
   'a q6v5_scheme \<Rightarrow> int \<times> 'a q6v5_scheme" where
  "qcom_q6v5_request_stop handover e rproc_running shutdown_acked irqs s = (let
      s = s\<lparr>q_running := False\<rparr>
    in if \<not> rproc_running \<or> shutdown_acked then (0, s)
    else let s = q6v5_irqs handover e irqs (s\<lparr>q_stop_bit := True\<rparr>) in
      if q_stop_done s = 0 then (- ETIMEDOUT, s\<lparr>q_stop_bit := False\<rparr>)
      else (0, s\<lparr>q_stop_done := q_stop_done s - 1, q_stop_bit := False\<rparr>))"

definition qcom_q6v5_panic :: "'a q6v5_scheme \<Rightarrow> nat \<times> 'a q6v5_scheme" where
  "qcom_q6v5_panic s = (200, s\<lparr>q_stop_bit := True\<rparr>)"

text \<open>
  The initialiser. Everything but the handle of the always-on processor (\<open>qmp_get\<close>) is owned
  by the device and goes away with it, so the handle is the one resource to give back. The
  result is the status, the trace of the handle, and whether it is held.
\<close>

record q6v5_init_env =
  qi_get_irq :: "q6v5_irq \<Rightarrow> int"
  qi_request_irq :: "q6v5_irq \<Rightarrow> int"
  qi_state :: int
  qi_qmp :: int
  qi_load_state :: bool
  qi_kstrdup :: bool
  qi_icc :: int

fun q6v5_request_irqs :: "q6v5_init_env \<Rightarrow> q6v5_irq list \<Rightarrow> int" where
  "q6v5_request_irqs i [] = 0"
| "q6v5_request_irqs i (x # xs) =
    (if qi_get_irq i x < 0 then qi_get_irq i x
     else if qi_request_irq i x \<noteq> 0 then qi_request_irq i x
     else q6v5_request_irqs i xs)"

definition qcom_q6v5_init :: "q6v5_init_env \<Rightarrow> int \<times> unit revent list \<times> bool" where
  "qcom_q6v5_init i = (let ret = q6v5_request_irqs i [Wdog, Fatal, Ready, Handover, Stop_ack] in
    if ret \<noteq> 0 then (ret, [], False)
    else if qi_state i \<noteq> 0 then (qi_state i, [], False)
    else if qi_qmp i \<noteq> 0 then
      if qi_qmp i \<noteq> - ENODEV then (qi_qmp i, [], False)
      else (qi_icc i, [], False)
    else if \<not> (qi_load_state i \<and> qi_kstrdup i) then
      (if qi_load_state i then - ENOMEM else - EINVAL, [Acq (), Rel ()], False)
    else (qi_icc i, [Acq ()], True))"

definition qcom_q6v5_deinit :: "bool \<Rightarrow> unit revent list" where
  "qcom_q6v5_deinit qmp = (if qmp then [Rel ()] else [])"

lemmas q6v5_interrupt_defs = q6v5_wdog_interrupt_def q6v5_fatal_interrupt_def
  q6v5_ready_interrupt_def q6v5_stop_interrupt_def

lemmas q6v5_call_defs = ask_def icc_set_bw_def q6v5_load_state_toggle_def Let_def split_beta

lemma q6v5_irqs_simps [simp]:
  "q6v5_irqs handover e [] s = s"
  "q6v5_irqs handover e (i # irqs) s = q6v5_irqs handover e irqs (q6v5_interrupt handover e i s)"
  by (simp_all add: q6v5_irqs_def)

text \<open>The calls of the services touch neither the flags of the interrupts nor the loader.\<close>

lemma q6v5_calls_frame [simp]:
  "q6v5.more (snd (icc_set_bw e v s)) = q6v5.more s"
  "q6v5.more (snd (q6v5_load_state_toggle e v s)) = q6v5.more s"
  "q_irq_depth (snd (icc_set_bw e v s)) = q_irq_depth s"
  "q_irq_depth (snd (q6v5_load_state_toggle e v s)) = q_irq_depth s"
  "q_handover_issued (snd (icc_set_bw e v s)) = q_handover_issued s"
  "q_handover_issued (snd (q6v5_load_state_toggle e v s)) = q_handover_issued s"
  "q_start_done (snd (icc_set_bw e v s)) = q_start_done s"
  "q_crashes (snd (icc_set_bw e v s)) = q_crashes s"
  "q_running (snd (icc_set_bw e v s)) = q_running s"
  by (simp_all add: q6v5_call_defs)

lemma qcom_q6v5_unprepare_frame:
  "qcom_q6v5_unprepare e s = (h, s') \<Longrightarrow> h = (\<not> q_handover_issued s) \<and>
   q_handover_issued s' = q_handover_issued s \<and>
   q_irq_depth s' = Suc (q_irq_depth s) \<and> q6v5.more s' = q6v5.more s"
  by (auto simp: qcom_q6v5_unprepare_def Let_def)

lemma qcom_q6v5_prepare_frame:
  "qcom_q6v5_prepare e s = (ret, s') \<Longrightarrow> q6v5.more s' = q6v5.more s \<and>
   (if ret = 0 then \<not> q_handover_issued s' \<and> q_irq_depth s' = q_irq_depth s - 1 \<and> q_running s'
      \<and> q_start_done s' = 0
    else q_handover_issued s' = q_handover_issued s \<and> q_irq_depth s' = q_irq_depth s)"
  by (auto simp: qcom_q6v5_prepare_def q6v5_call_defs split: if_splits)

text \<open>
  What the common code relies on in the handover callback of its client: it leaves the
  fields of the common structure alone, and gives back one level of the resources the client
  holds for the processor. \<open>level k\<close> says that the client holds each of them \<open>k\<close> times, at
  most once when all is well; it looks at the fields of the client only.
\<close>

locale q6v5_client =
  fixes handover :: "'a q6v5_scheme \<Rightarrow> 'a q6v5_scheme"
    and level :: "int \<Rightarrow> 'a q6v5_scheme \<Rightarrow> bool"
  assumes handover_common: "q6v5.truncate (handover s) = q6v5.truncate s"
    and handover_level: "k \<le> 1 \<Longrightarrow> level k s \<Longrightarrow> level (k - 1) (handover s)"
    and level_frame: "q6v5.more s' = q6v5.more s \<Longrightarrow> level k s' = level k s"
begin

lemma handover_fields [simp]:
  "q_start_done (handover s) = q_start_done s" "q_crashes (handover s) = q_crashes s"
  "q_running (handover s) = q_running s" "q_irq_depth (handover s) = q_irq_depth s"
  "q_handover_issued (handover s) = q_handover_issued s"
  using handover_common [of s] by (simp_all add: q6v5.truncate_def)

text \<open>A completion is a counter: it does not matter what else comes in between.\<close>

lemma start_done_irq:
  "q_start_done (q6v5_interrupt (Some handover) e i s) = q_start_done s + of_bool (i = Ready)"
  by (cases i) (auto simp: q6v5_interrupt_defs q6v5_handover_interrupt_def Let_def)

lemma start_done_irqs:
  "q_start_done (q6v5_irqs (Some handover) e irqs s) = q_start_done s + count_list irqs Ready"
  by (induction irqs arbitrary: s) (simp_all add: start_done_irq)

text \<open>A crash is reported at most once for each start.\<close>

lemma crash_once_irq:
  "length (q_crashes (q6v5_interrupt (Some handover) e i s))
     + of_bool (q_running (q6v5_interrupt (Some handover) e i s)) =
   length (q_crashes s) + (of_bool (q_running s) :: nat)"
  by (cases i) (auto simp: q6v5_interrupt_defs q6v5_handover_interrupt_def Let_def)

lemma crash_once_irqs:
  "length (q_crashes (q6v5_irqs (Some handover) e irqs s))
     + of_bool (q_running (q6v5_irqs (Some handover) e irqs s)) =
   length (q_crashes s) + (of_bool (q_running s) :: nat)"
  by (induction irqs arbitrary: s) (simp_all add: crash_once_irq)

text \<open>
  However many handover interrupts arrive, the client's resources go down one level, and
  only while the interrupt is enabled.
\<close>

lemma irq_handover:
  "q_handover_issued (q6v5_interrupt (Some handover) e i s) \<longleftrightarrow>
   q_handover_issued s \<or> (i = Handover \<and> q_irq_depth s = 0)"
  by (cases i) (auto simp: q6v5_interrupt_defs q6v5_handover_interrupt_def Let_def)

lemma irq_depth: "q_irq_depth (q6v5_interrupt (Some handover) e i s) = q_irq_depth s"
  by (cases i) (auto simp: q6v5_interrupt_defs q6v5_handover_interrupt_def Let_def)

lemma irq_level:
  "k \<le> 1 \<Longrightarrow> level k s \<Longrightarrow> level (k - of_bool (\<not> q_handover_issued s \<and> i = Handover \<and> q_irq_depth s = 0))
    (q6v5_interrupt (Some handover) e i s)"
proof (cases "\<not> q_handover_issued s \<and> i = Handover \<and> q_irq_depth s = 0")
  case True
  then have "q6v5.more (q6v5_interrupt (Some handover) e i s) = q6v5.more (handover s)"
    by (simp add: q6v5_handover_interrupt_def Let_def)
  from level_frame [OF this, of "k - 1"] show "k \<le> 1 \<Longrightarrow> level k s \<Longrightarrow> ?thesis"
    using True handover_level [of k s] by (simp del: q6v5_interrupt.simps)
next
  case False
  then have "q6v5.more (q6v5_interrupt (Some handover) e i s) = q6v5.more s"
    by (cases i) (auto simp: q6v5_interrupt_defs q6v5_handover_interrupt_def)
  from level_frame [OF this, of k] show "k \<le> 1 \<Longrightarrow> level k s \<Longrightarrow> ?thesis"
    using False by (auto simp del: q6v5_interrupt.simps)
qed

lemma irqs_depth: "q_irq_depth (q6v5_irqs (Some handover) e irqs s) = q_irq_depth s"
  by (induction irqs arbitrary: s) (simp_all add: irq_depth)

lemma irqs_handover:
  "q_handover_issued (q6v5_irqs (Some handover) e irqs s) \<longleftrightarrow>
   q_handover_issued s \<or> (Handover \<in> set irqs \<and> q_irq_depth s = 0)"
  by (induction irqs arbitrary: s) (auto simp: irq_handover irq_depth)

lemma irqs_level:
  "k \<le> 1 \<Longrightarrow> level k s \<Longrightarrow>
   level (k - of_bool (\<not> q_handover_issued s \<and> Handover \<in> set irqs \<and> q_irq_depth s = 0))
    (q6v5_irqs (Some handover) e irqs s)"
proof (induction irqs arbitrary: s k)
  case (Cons i irqs)
  from Cons.IH [OF _ irq_level [OF Cons.prems, of i e]] Cons.prems(1) show ?case
    by (cases "q_handover_issued s"; cases "q_irq_depth s = 0"; cases "i = Handover")
      (simp_all add: irq_handover irq_depth del: q6v5_interrupt.simps)
qed simp

text \<open>While the processor runs: held once before the handover, not at all after it.\<close>

lemma irqs_held:
  "level (1 - of_bool (q_handover_issued s)) s \<Longrightarrow>
   level (1 - of_bool (q_handover_issued (q6v5_irqs (Some handover) e irqs s)))
     (q6v5_irqs (Some handover) e irqs s)"
  using irqs_level [of "1 - of_bool (q_handover_issued s)" s irqs e]
  by (cases "q_handover_issued s") (simp_all add: irqs_handover)

lemma request_stop_held:
  assumes "qcom_q6v5_request_stop (Some handover) e running acked irqs s = (ret, s')"
    and "level (1 - of_bool (q_handover_issued s)) s"
  shows "level (1 - of_bool (q_handover_issued s')) s' \<and> q_irq_depth s' = q_irq_depth s"
proof -
  let ?s = "s\<lparr>q_running := False, q_stop_bit := True\<rparr>"
  let ?t = "q6v5_irqs (Some handover) e irqs ?s"
  have start: "level k (s\<lparr>q_running := False\<rparr>) = level k s" "level k ?s = level k s" for k
    by (rule level_frame; simp)+
  have last: "level k (?t\<lparr>q_stop_bit := False\<rparr>) = level k ?t"
      "level k (?t\<lparr>q_stop_done := n, q_stop_bit := False\<rparr>) = level k ?t" for k n
    by (rule level_frame; simp)+
  show ?thesis
    using assms irqs_held [of ?s e irqs] irqs_depth [of e irqs ?s]
    by (auto simp: qcom_q6v5_request_stop_def Let_def start last split: if_splits)
qed

end

text \<open>The handle leaks exactly when the interconnect path cannot be had after it was taken.\<close>

lemma qcom_q6v5_init_trace:
  assumes "qcom_q6v5_init i = (ret, t, held)"
  shows "res_run t [] = Some (if held then [()] else [])"
    and "held \<Longrightarrow> qi_qmp i = 0 \<and> ret = qi_icc i"
    and "balanced (t @ qcom_q6v5_deinit held)"
  using assms
  by (auto simp: qcom_q6v5_init_def qcom_q6v5_deinit_def balanced_def Let_def split: if_splits)

end
