(* ===== verification/Remote_Pas.thy ===== *)
theory Remote_Pas
  imports Remote_Q6v5 "HOL-Library.Word"
begin

text \<open>
  The loader of the remote processors, \<open>q6v5-pas-v6.18.c\<close>. It holds proxy resources (power
  domains, clocks, supplies) for a processor that is being started until the processor hands
  over, that is, votes for itself; loads and authenticates the firmware through the secure
  world; and gives everything back when the processor stops.

  The record \<open>pas\<close> extends the common structure. A proxy resource is its enable count as the
  driver has driven it, a power domain its usage count and whether the maximum performance
  state is voted for. \<open>p_scm\<close> logs the calls of the secure world that start and stop an image.
\<close>

datatype scm_call = Auth int | Shutdown int

record pas_cfg =
  pc_cx :: bool
  pc_px :: bool
  pc_pd_count :: nat
  pc_pas_id :: int
  pc_dtb_pas_id :: int
  pc_lite_pas_id :: int
  pc_lite_dtb_pas_id :: int
  pc_decrypt_shutdown :: bool
  pc_smem_host_id :: int

record pas = q6v5 +
  p_xo :: int
  p_aggre2 :: int
  p_cx :: int
  p_px :: int
  p_pds :: "(int \<times> bool) list"
  p_firmware :: bool
  p_dtb_firmware :: nat
  p_metadata :: bool
  p_dtb_metadata :: bool
  p_scm :: "scm_call list"

section \<open>Proxy power domains\<close>

definition pd_on :: "nat \<Rightarrow> pas \<Rightarrow> pas" where
  "pd_on i s = s\<lparr>p_pds := (p_pds s)[i := (fst (p_pds s ! i) + 1, True)]\<rparr>"

definition pd_off :: "nat \<Rightarrow> pas \<Rightarrow> pas" where
  "pd_off i s = s\<lparr>p_pds := (p_pds s)[i := (fst (p_pds s ! i) - 1, False)]\<rparr>"

text \<open>
  \<open>pm_runtime_get_sync\<close> raises the usage count even when it fails, and \<open>put_noidle\<close> takes that
  back; the performance state was set before the call.
\<close>

function pds_enable_from :: "q6v5_env \<Rightarrow> nat \<Rightarrow> nat \<Rightarrow> pas \<Rightarrow> int \<times> pas" where
  "pds_enable_from e i n s = (if i < n then
      let (ret, s) = ask (qe_svc e) (pd_on i s) in
      if ret < 0 then (ret, fold pd_off (rev [0..<i]) (pd_off i s))
      else pds_enable_from e (Suc i) n s
    else (0, s))"
  by pat_completeness auto
termination by (relation "measure (\<lambda>(e, i, n, s). n - i)") auto

declare pds_enable_from.simps [simp del]

definition qcom_pas_pds_enable :: "q6v5_env \<Rightarrow> nat \<Rightarrow> pas \<Rightarrow> int \<times> pas" where
  "qcom_pas_pds_enable e n s = pds_enable_from e 0 n s"

definition qcom_pas_pds_disable :: "nat \<Rightarrow> pas \<Rightarrow> pas" where
  "qcom_pas_pds_disable n s = fold pd_off [0..<n] s"

section \<open>Secure world calls\<close>

definition scm_shutdown :: "q6v5_env \<Rightarrow> int \<Rightarrow> pas \<Rightarrow> int \<times> pas" where
  "scm_shutdown e pid s = ask (qe_svc e) (s\<lparr>p_scm := p_scm s @ [Shutdown pid]\<rparr>)"

definition scm_auth :: "q6v5_env \<Rightarrow> int \<Rightarrow> pas \<Rightarrow> int \<times> pas" where
  "scm_auth e pid s = ask (qe_svc e) (s\<lparr>p_scm := p_scm s @ [Auth pid]\<rparr>)"

text \<open>\<open>do \<dots> while (ret == -EINVAL && --retry_num)\<close>, from \<open>retry_num\<close> that is not 0.\<close>

fun shutdown_poll :: "q6v5_env \<Rightarrow> int \<Rightarrow> nat \<Rightarrow> pas \<Rightarrow> int \<times> pas" where
  "shutdown_poll e pid 0 s = (- EINVAL, s)"
| "shutdown_poll e pid (Suc n) s = (let (ret, s) = scm_shutdown e pid s in
    if ret = - EINVAL \<and> n \<noteq> 0 then shutdown_poll e pid n s else (ret, s))"

definition qcom_pas_shutdown_poll_decrypt :: "pas_cfg \<Rightarrow> q6v5_env \<Rightarrow> pas \<Rightarrow> int \<times> pas" where
  "qcom_pas_shutdown_poll_decrypt c e s = shutdown_poll e (pc_pas_id c) 50 s"

definition release_metadata :: "pas_cfg \<Rightarrow> pas \<Rightarrow> pas" where
  "release_metadata c s = (let s = s\<lparr>p_metadata := False\<rparr> in
    if pc_dtb_pas_id c \<noteq> 0 then s\<lparr>p_dtb_metadata := False\<rparr> else s)"

definition qcom_pas_unprepare :: "pas_cfg \<Rightarrow> pas \<Rightarrow> int \<times> pas" where
  "qcom_pas_unprepare c s = (0, release_metadata c s)"

text \<open>
  \<open>p_dtb_firmware\<close> counts the references to the device tree image: \<open>request_firmware\<close> adds
  one, \<open>release_firmware\<close> gives one back.
\<close>

definition qcom_pas_load :: "pas_cfg \<Rightarrow> q6v5_env \<Rightarrow> pas \<Rightarrow> int \<times> pas" where
  "qcom_pas_load c e s = (let
      s = s\<lparr>p_firmware := True\<rparr>;
      s = (if pc_lite_pas_id c \<noteq> 0 then snd (scm_shutdown e (pc_lite_pas_id c) s) else s);
      s = (if pc_lite_dtb_pas_id c \<noteq> 0 then snd (scm_shutdown e (pc_lite_dtb_pas_id c) s) else s)
    in if pc_dtb_pas_id c = 0 then (0, s)
    else let (ret, s) = ask (qe_svc e) s in
      if ret \<noteq> 0 then (ret, s)
      else let s = s\<lparr>p_dtb_firmware := Suc (p_dtb_firmware s)\<rparr>; (ret, s) = ask (qe_svc e) s in
        if ret \<noteq> 0 then (ret, s\<lparr>p_dtb_firmware := p_dtb_firmware s - 1\<rparr>)
        else let s = s\<lparr>p_dtb_metadata := True\<rparr>; (ret, s) = ask (qe_svc e) s in
          if ret \<noteq> 0 then (ret, s\<lparr>p_dtb_metadata := False, p_dtb_firmware := p_dtb_firmware s - 1\<rparr>)
          else (0, s))"

section \<open>Handover, start and stop\<close>

definition qcom_pas_handover :: "pas_cfg \<Rightarrow> pas \<Rightarrow> pas" where
  "qcom_pas_handover c s = (let
      s = (if pc_px c then s\<lparr>p_px := p_px s - 1\<rparr> else s);
      s = (if pc_cx c then s\<lparr>p_cx := p_cx s - 1\<rparr> else s);
      s = s\<lparr>p_aggre2 := p_aggre2 s - 1\<rparr>;
      s = s\<lparr>p_xo := p_xo s - 1\<rparr>
    in qcom_pas_pds_disable (pc_pd_count c) s)"

text \<open>The labels of \<open>qcom_pas_start\<close>, each falling through to the next.\<close>

definition disable_irqs :: "q6v5_env \<Rightarrow> int \<Rightarrow> pas \<Rightarrow> int \<times> pas" where
  "disable_irqs e ret s = (ret, (snd (qcom_q6v5_unprepare e s))\<lparr>p_firmware := False\<rparr>)"

definition disable_proxy_pds :: "pas_cfg \<Rightarrow> q6v5_env \<Rightarrow> int \<Rightarrow> pas \<Rightarrow> int \<times> pas" where
  "disable_proxy_pds c e ret s = disable_irqs e ret (qcom_pas_pds_disable (pc_pd_count c) s)"

definition disable_xo_clk :: "pas_cfg \<Rightarrow> q6v5_env \<Rightarrow> int \<Rightarrow> pas \<Rightarrow> int \<times> pas" where
  "disable_xo_clk c e ret s = disable_proxy_pds c e ret (s\<lparr>p_xo := p_xo s - 1\<rparr>)"

definition disable_aggre2_clk :: "pas_cfg \<Rightarrow> q6v5_env \<Rightarrow> int \<Rightarrow> pas \<Rightarrow> int \<times> pas" where
  "disable_aggre2_clk c e ret s = disable_xo_clk c e ret (s\<lparr>p_aggre2 := p_aggre2 s - 1\<rparr>)"

definition disable_cx_supply :: "pas_cfg \<Rightarrow> q6v5_env \<Rightarrow> int \<Rightarrow> pas \<Rightarrow> int \<times> pas" where
  "disable_cx_supply c e ret s =
    disable_aggre2_clk c e ret (if pc_cx c then s\<lparr>p_cx := p_cx s - 1\<rparr> else s)"

definition disable_px_supply :: "pas_cfg \<Rightarrow> q6v5_env \<Rightarrow> int \<Rightarrow> pas \<Rightarrow> int \<times> pas" where
  "disable_px_supply c e ret s =
    disable_cx_supply c e ret (if pc_px c then s\<lparr>p_px := p_px s - 1\<rparr> else s)"

definition release_pas_metadata :: "pas_cfg \<Rightarrow> q6v5_env \<Rightarrow> int \<Rightarrow> pas \<Rightarrow> int \<times> pas" where
  "release_pas_metadata c e ret s = disable_px_supply c e ret (release_metadata c s)"

text \<open>
  The part of the start after the proxies are held: authenticate the device tree image, load
  and authenticate the main image, and wait for the processor to signal that it is ready.
  \<open>irqs\<close> are the interrupts delivered during the wait.
\<close>

definition start_images :: "pas_cfg \<Rightarrow> q6v5_env \<Rightarrow> q6v5_irq list \<Rightarrow> pas \<Rightarrow> int \<times> pas" where
  "start_images c e irqs s = (let
      (ret, s) = (if pc_dtb_pas_id c \<noteq> 0 then scm_auth e (pc_dtb_pas_id c) s else (0, s))
    in if ret \<noteq> 0 then disable_px_supply c e ret s
    else let (ret, s) = ask (qe_svc e) s in
    if ret \<noteq> 0 then disable_px_supply c e ret s
    else let s = s\<lparr>p_metadata := True\<rparr>; (ret, s) = ask (qe_svc e) s in
    if ret \<noteq> 0 then release_pas_metadata c e ret s
    else let (ret, s) = scm_auth e (pc_pas_id c) s in
    if ret \<noteq> 0 then release_pas_metadata c e ret s
    else let (ret, s) = qcom_q6v5_wait_for_start (Some (qcom_pas_handover c)) e irqs s in
    if ret = - ETIMEDOUT then
      release_pas_metadata c e ret (snd (scm_shutdown e (pc_pas_id c) s))
    else (0, (release_metadata c s)\<lparr>p_firmware := False\<rparr>))"

text \<open>The acquisition of the proxies, before the images are started.\<close>

definition start_proxies :: "pas_cfg \<Rightarrow> q6v5_env \<Rightarrow> q6v5_irq list \<Rightarrow> pas \<Rightarrow> int \<times> pas" where
  "start_proxies c e irqs s = (let (ret, s) = qcom_pas_pds_enable e (pc_pd_count c) s in
    if ret < 0 then disable_irqs e ret s
    else let (ret, s) = ask (qe_svc e) s in
    if ret \<noteq> 0 then disable_proxy_pds c e ret s
    else let s = s\<lparr>p_xo := p_xo s + 1\<rparr>; (ret, s) = ask (qe_svc e) s in
    if ret \<noteq> 0 then disable_xo_clk c e ret s
    else let s = s\<lparr>p_aggre2 := p_aggre2 s + 1\<rparr>;
      (ret, s) = (if pc_cx c then ask (qe_svc e) s else (0, s)) in
    if ret \<noteq> 0 then disable_aggre2_clk c e ret s
    else let s = (if pc_cx c then s\<lparr>p_cx := p_cx s + 1\<rparr> else s);
      (ret, s) = (if pc_px c then ask (qe_svc e) s else (0, s)) in
    if ret \<noteq> 0 then disable_cx_supply c e ret s
    else start_images c e irqs (if pc_px c then s\<lparr>p_px := p_px s + 1\<rparr> else s))"

definition qcom_pas_start :: "pas_cfg \<Rightarrow> q6v5_env \<Rightarrow> q6v5_irq list \<Rightarrow> pas \<Rightarrow> int \<times> pas" where
  "qcom_pas_start c e irqs s = (let (ret, s) = qcom_q6v5_prepare e s in
    if ret \<noteq> 0 then (ret, s) else start_proxies c e irqs s)"

definition qcom_pas_stop ::
  "pas_cfg \<Rightarrow> q6v5_env \<Rightarrow> bool \<Rightarrow> bool \<Rightarrow> q6v5_irq list \<Rightarrow> pas \<Rightarrow> int \<times> pas" where
  "qcom_pas_stop c e rproc_running shutdown_acked irqs s = (let
      (ret, s) = qcom_q6v5_request_stop (Some (qcom_pas_handover c)) e rproc_running
        shutdown_acked irqs s;
      (ret, s) = scm_shutdown e (pc_pas_id c) s;
      (ret, s) = (if ret \<noteq> 0 \<and> pc_decrypt_shutdown c
        then qcom_pas_shutdown_poll_decrypt c e s else (ret, s));
      (ret, s) = (if pc_dtb_pas_id c \<noteq> 0 then scm_shutdown e (pc_dtb_pas_id c) s else (ret, s));
      (handover, s) = qcom_q6v5_unprepare e s;
      s = (if handover then qcom_pas_handover c s else s)
    in if pc_smem_host_id c \<noteq> 0 then ask (qe_svc e) s else (ret, s))"

definition qcom_pas_panic :: "pas \<Rightarrow> nat \<times> pas" where
  "qcom_pas_panic s = qcom_q6v5_panic s"

section \<open>Addresses\<close>

text \<open>
  Addresses and sizes have 64 bits; the offset is an \<open>int\<close>, so 32 bits of the difference are
  kept and read as a signed number, and the sum with the length is again one of 64 bits.
\<close>

definition pas_offset :: "u64 \<Rightarrow> u64 \<Rightarrow> u64 \<Rightarrow> u32 option" where
  "pas_offset diff len mem_size = (let offset = ucast diff :: u32 in
    if sint offset < 0 \<or> mem_size < scast offset + len then None else Some offset)"

definition qcom_pas_da_to_va :: "u64 \<Rightarrow> u64 \<Rightarrow> u64 \<Rightarrow> u64 \<Rightarrow> u32 option" where
  "qcom_pas_da_to_va mem_reloc mem_size da len = pas_offset (da - mem_reloc) len mem_size"

definition qcom_pas_segment_dump ::
  "(nat \<Rightarrow> u8) \<Rightarrow> u64 \<Rightarrow> u64 \<Rightarrow> u64 \<Rightarrow> u64 \<Rightarrow> u64 \<Rightarrow> u64 \<Rightarrow> u8 list" where
  "qcom_pas_segment_dump mem mem_phys mem_size seg_da seg_offset offset len =
    (case pas_offset (seg_da + seg_offset + offset - mem_phys) len mem_size of
       None \<Rightarrow> replicate (unat len) 0xFF
     | Some at \<Rightarrow> map mem [unat at..<unat at + unat len])"

section \<open>Proxies, level by level\<close>

text \<open>\<open>proxy_level c k\<close>: every proxy resource of the configuration is enabled \<open>k\<close> times.\<close>

definition proxy_level :: "pas_cfg \<Rightarrow> int \<Rightarrow> pas \<Rightarrow> bool" where
  "proxy_level c k s \<longleftrightarrow> p_xo s = k \<and> p_aggre2 s = k \<and> p_cx s = (if pc_cx c then k else 0) \<and>
    p_px s = (if pc_px c then k else 0) \<and> p_pds s = replicate (pc_pd_count c) (k, 0 < k)"

definition counts :: "pas \<Rightarrow> int \<times> int \<times> int \<times> int \<times> (int \<times> bool) list" where
  "counts s = (p_xo s, p_aggre2 s, p_cx s, p_px s, p_pds s)"

lemma counts_more: "q6v5.more s' = q6v5.more s \<Longrightarrow> counts s' = counts s"
  by (cases s; cases s') (simp add: counts_def)

lemma proxy_level_counts:
  "proxy_level c k s \<longleftrightarrow> counts s = (k, k, if pc_cx c then k else 0, if pc_px c then k else 0,
    replicate (pc_pd_count c) (k, 0 < k))"
  by (auto simp: proxy_level_def counts_def)

lemma pd_more [simp]: "q6v5.truncate (pd_off i s) = q6v5.truncate s"
    "q6v5.truncate (pd_on i s) = q6v5.truncate s"
  by (simp_all add: pd_off_def pd_on_def q6v5.truncate_def)

lemma fold_pd_off_truncate [simp]: "q6v5.truncate (fold pd_off xs s) = q6v5.truncate s"
  by (induction xs arbitrary: s) simp_all

text \<open>The rest of the state is not touched by the power domains.\<close>

definition same_but_pds :: "pas \<Rightarrow> pas \<Rightarrow> bool" where
  "same_but_pds s' s \<longleftrightarrow> p_xo s' = p_xo s \<and> p_aggre2 s' = p_aggre2 s \<and> p_cx s' = p_cx s \<and>
    p_px s' = p_px s \<and> q_irq_depth s' = q_irq_depth s \<and>
    q_handover_issued s' = q_handover_issued s \<and> q_start_done s' = q_start_done s"

lemma same_but_pds_refl: "same_but_pds s s"
  by (simp add: same_but_pds_def)

lemma same_but_pds_trans: "same_but_pds s'' s' \<Longrightarrow> same_but_pds s' s \<Longrightarrow> same_but_pds s'' s"
  by (simp add: same_but_pds_def)

lemma same_but_pds_step:
  "same_but_pds (pd_off i s) s" "same_but_pds (pd_on i s) s" "same_but_pds (snd (ask f s)) s"
  by (simp_all add: same_but_pds_def pd_off_def pd_on_def ask_def)

lemma same_but_pds_fold: "same_but_pds (fold pd_off xs s) s"
  by (induction xs arbitrary: s) (auto simp: same_but_pds_refl
      intro: same_but_pds_trans same_but_pds_step)

text \<open>Switching a set of power domains off, in any order, is a pointwise decrement.\<close>

lemma fold_pd_off:
  "distinct xs \<Longrightarrow> set xs \<subseteq> {..<length (p_pds s)} \<Longrightarrow> p_pds (fold pd_off xs s) =
   map (\<lambda>i. if i \<in> set xs then (fst (p_pds s ! i) - 1, False) else p_pds s ! i)
     [0..<length (p_pds s)]"
proof (induction xs arbitrary: s)
  case Nil
  show ?case
    by (simp add: map_nth)
next
  case (Cons x xs)
  have "length (p_pds (pd_off x s)) = length (p_pds s)"
    by (simp add: pd_off_def)
  then have "p_pds (fold pd_off (x # xs) s) = map (\<lambda>i. if i \<in> set xs
      then (fst (p_pds (pd_off x s) ! i) - 1, False) else p_pds (pd_off x s) ! i)
      [0..<length (p_pds s)]"
    using Cons.IH [of "pd_off x s"] Cons.prems by simp
  moreover have "p_pds (pd_off x s) = (p_pds s)[x := (fst (p_pds s ! x) - 1, False)]"
    by (simp add: pd_off_def)
  ultimately show ?case
    using Cons.prems by (auto simp: nth_list_update)
qed

lemma pds_disable_replicate:
  "p_pds s = replicate n (k, b) \<Longrightarrow>
   p_pds (qcom_pas_pds_disable n s) = replicate n (k - 1, False)"
  using fold_pd_off [of "[0..<n]" s]
  by (auto simp: qcom_pas_pds_disable_def atLeast0LessThan intro!: nth_equalityI)

text \<open>
  Switching the domains on either raises all of them or, when one fails, leaves all of them
  as they were. The loop invariant: the domains below \<open>i\<close> are on.
\<close>

definition pds_upto :: "nat \<Rightarrow> nat \<Rightarrow> (int \<times> bool) list" where
  "pds_upto i n = map (\<lambda>j. if j < i then (1, True) else (0, False)) [0..<n]"

lemma pds_upto_ends: "pds_upto 0 n = replicate n (0, False)" "pds_upto n n = replicate n (1, True)"
  by (auto simp: pds_upto_def intro!: nth_equalityI)

lemma pds_upto_step: "i < n \<Longrightarrow> (pds_upto i n)[i := (1, True)] = pds_upto (Suc i) n"
  by (auto simp: pds_upto_def nth_list_update intro!: nth_equalityI)

lemma ask_fields [simp]:
  "q6v5.more (snd (ask f s)) = q6v5.more s" "counts (snd (ask f p)) = counts p"
  "q_irq_depth (snd (ask f s)) = q_irq_depth s"
  "q_handover_issued (snd (ask f s)) = q_handover_issued s"
  "p_pds (snd (ask f p)) = p_pds p" "p_xo (snd (ask f p)) = p_xo p"
  "p_aggre2 (snd (ask f p)) = p_aggre2 p" "p_cx (snd (ask f p)) = p_cx p"
  "p_px (snd (ask f p)) = p_px p"
  by (simp_all add: ask_def counts_def)

lemma pds_unroll:
  "i < n \<Longrightarrow> p_pds s = pds_upto (Suc i) n \<Longrightarrow>
   p_pds (fold pd_off (rev [0..<i]) (pd_off i s)) = replicate n (0, False)"
  using fold_pd_off [of "i # rev [0..<i]" s]
  by (auto simp: pds_upto_def atLeast0LessThan intro!: nth_equalityI)


lemma pds_enable_from:
  "pds_enable_from e i n s = (ret, s') \<Longrightarrow> i \<le> n \<Longrightarrow> p_pds s = pds_upto i n \<Longrightarrow>
   p_pds s' = replicate n (if ret < 0 then (0, False) else (1, True)) \<and> ret \<le> 0 \<and>
   same_but_pds s' s"
proof (induction e i n s arbitrary: ret s' rule: pds_enable_from.induct)
  case (1 e i n s)
  obtain r1 s1 where call: "ask (qe_svc e) (pd_on i s) = (r1, s1)"
    by (cases "ask (qe_svc e) (pd_on i s)")
  have same: "same_but_pds s1 s"
    using same_but_pds_trans [OF same_but_pds_step(3) same_but_pds_step(2)] call
    by (metis snd_conv)
  show ?case
  proof (cases "i < n")
    case True
    have pds: "p_pds s1 = pds_upto (Suc i) n"
      using call 1(4) True pds_upto_step [OF True]
      by (auto simp: ask_def pd_on_def pds_upto_def)
    show ?thesis
    proof (cases "r1 < 0")
      case True
      then have "s' = fold pd_off (rev [0..<i]) (pd_off i s1)" "ret = r1"
        using 1(2) \<open>i < n\<close> by (simp_all add: pds_enable_from.simps [of e i] call)
      then show ?thesis
        using True pds_unroll [OF \<open>i < n\<close> pds] same_but_pds_trans [OF same_but_pds_fold
            same_but_pds_trans [OF same_but_pds_step(1) same]] by simp
    next
      case False
      then have "pds_enable_from e (Suc i) n s1 = (ret, s')"
        using 1(2) \<open>i < n\<close> by (simp add: pds_enable_from.simps [of e i] call)
      then show ?thesis
        using 1(1) [OF \<open>i < n\<close> call [symmetric] refl False _ _ pds] \<open>i < n\<close> same
        by (auto intro: same_but_pds_trans)
    qed
  next
    case False
    then show ?thesis
      using 1(2-4) by (simp add: pds_enable_from.simps [of e n n s] pds_upto_ends same_but_pds_refl)
  qed
qed

section \<open>The labels of the start\<close>

lemma unprepare_counts [simp]:
  "counts (snd (qcom_q6v5_unprepare e s)) = counts s"
  "q_irq_depth (snd (qcom_q6v5_unprepare e s)) = Suc (q_irq_depth s)"
  using qcom_q6v5_unprepare_frame [of e s] counts_more
  by (metis prod.collapse)+

text \<open>What a label gives back, and that each disables the handover interrupt once.\<close>

definition unwound :: "pas_cfg \<Rightarrow> bool \<Rightarrow> bool \<Rightarrow> bool \<Rightarrow> bool \<Rightarrow> bool \<Rightarrow> pas \<Rightarrow> int \<Rightarrow> int \<times> pas \<Rightarrow> bool" where
  "unwound c px cx aggre2 xo pds s ret r \<longleftrightarrow> fst r = ret \<and>
    q_irq_depth (snd r) = Suc (q_irq_depth s) \<and>
    counts (snd r) = (p_xo s - of_bool xo, p_aggre2 s - of_bool aggre2,
      p_cx s - of_bool (cx \<and> pc_cx c), p_px s - of_bool (px \<and> pc_px c),
      p_pds (if pds then qcom_pas_pds_disable (pc_pd_count c) s else s))"

lemma disable_irqs_unwound: "unwound c False False False False False s ret (disable_irqs e ret s)"
  using unprepare_counts [of e s] by (simp add: unwound_def disable_irqs_def counts_def)

lemma pds_disable_cong:
  "p_pds s' = p_pds s \<Longrightarrow> p_pds (qcom_pas_pds_disable n s') = p_pds (qcom_pas_pds_disable n s)"
proof -
  have "p_pds s' = p_pds s \<Longrightarrow> p_pds (fold pd_off xs s') = p_pds (fold pd_off xs s)" for xs
    by (induction xs arbitrary: s s') (simp_all add: pd_off_def)
  then show "p_pds s' = p_pds s \<Longrightarrow> ?thesis"
    by (simp add: qcom_pas_pds_disable_def)
qed

lemma pds_disable_fields [simp]:
  "p_xo (qcom_pas_pds_disable n s) = p_xo s" "p_aggre2 (qcom_pas_pds_disable n s) = p_aggre2 s"
  "p_cx (qcom_pas_pds_disable n s) = p_cx s" "p_px (qcom_pas_pds_disable n s) = p_px s"
  "q_irq_depth (qcom_pas_pds_disable n s) = q_irq_depth s"
  "q_handover_issued (qcom_pas_pds_disable n s) = q_handover_issued s"
  using same_but_pds_fold [of "[0..<n]" s] by (simp_all add: qcom_pas_pds_disable_def same_but_pds_def)

lemma disable_proxy_pds_unwound:
  "unwound c False False False False True s ret (disable_proxy_pds c e ret s)"
  using disable_irqs_unwound [of c "qcom_pas_pds_disable (pc_pd_count c) s" ret e]
  by (simp add: unwound_def disable_proxy_pds_def)

lemma disable_xo_clk_unwound:
  "unwound c False False False True True s ret (disable_xo_clk c e ret s)"
  using disable_proxy_pds_unwound [of c "s\<lparr>p_xo := p_xo s - 1\<rparr>" ret e]
    pds_disable_cong [of "s\<lparr>p_xo := p_xo s - 1\<rparr>" s]
  by (simp add: unwound_def disable_xo_clk_def)

lemma disable_aggre2_clk_unwound:
  "unwound c False False True True True s ret (disable_aggre2_clk c e ret s)"
  using disable_xo_clk_unwound [of c "s\<lparr>p_aggre2 := p_aggre2 s - 1\<rparr>" ret e]
    pds_disable_cong [of "s\<lparr>p_aggre2 := p_aggre2 s - 1\<rparr>" s]
  by (simp add: unwound_def disable_aggre2_clk_def)

lemma disable_cx_supply_unwound:
  "unwound c False True True True True s ret (disable_cx_supply c e ret s)"
  using disable_aggre2_clk_unwound [of c "if pc_cx c then s\<lparr>p_cx := p_cx s - 1\<rparr> else s" ret e]
    pds_disable_cong [of "s\<lparr>p_cx := p_cx s - 1\<rparr>" s]
  by (simp add: unwound_def disable_cx_supply_def split: if_splits)

lemma disable_px_supply_unwound:
  "unwound c True True True True True s ret (disable_px_supply c e ret s)"
  using disable_cx_supply_unwound [of c "if pc_px c then s\<lparr>p_px := p_px s - 1\<rparr> else s" ret e]
    pds_disable_cong [of "s\<lparr>p_px := p_px s - 1\<rparr>" s]
  by (simp add: unwound_def disable_px_supply_def split: if_splits)

text \<open>With the proxies at level \<open>k\<close> the last two labels leave them at level \<open>k - 1\<close>.\<close>

lemma unwound_level:
  "unwound c True True True True True s ret r \<Longrightarrow> proxy_level c k s \<Longrightarrow> k \<le> 1 \<Longrightarrow>
   fst r = ret \<and> proxy_level c (k - 1) (snd r) \<and> q_irq_depth (snd r) = Suc (q_irq_depth s)"
  using pds_disable_replicate [of s "pc_pd_count c" k "0 < k"]
  by (auto simp: unwound_def counts_def proxy_level_def)

lemma release_metadata_frame [simp]:
  "proxy_level c k (release_metadata c s) = proxy_level c k s"
  "q_irq_depth (release_metadata c s) = q_irq_depth s"
  "q_handover_issued (release_metadata c s) = q_handover_issued s"
  by (simp_all add: release_metadata_def proxy_level_def Let_def)

lemma disable_px_supply_level:
  "disable_px_supply c e ret s = (r, s') \<Longrightarrow> proxy_level c k s \<Longrightarrow> k \<le> 1 \<Longrightarrow>
   r = ret \<and> proxy_level c (k - 1) s' \<and> q_irq_depth s' = Suc (q_irq_depth s)"
  using unwound_level [OF disable_px_supply_unwound [of c s ret e], of k] by auto

lemma release_pas_metadata_level:
  "release_pas_metadata c e ret s = (r, s') \<Longrightarrow> proxy_level c k s \<Longrightarrow> k \<le> 1 \<Longrightarrow>
   r = ret \<and> proxy_level c (k - 1) s' \<and> q_irq_depth s' = Suc (q_irq_depth s)"
  using disable_px_supply_level [of c e ret "release_metadata c s" r s' k]
  by (simp add: release_pas_metadata_def)

section \<open>The handover callback as a client of the common code\<close>

lemma handover_truncate: "q6v5.truncate (qcom_pas_handover c s) = q6v5.truncate s"
  by (simp add: qcom_pas_handover_def qcom_pas_pds_disable_def Let_def)
    (simp add: q6v5.truncate_def)

lemma pas_handover_level:
  "k \<le> 1 \<Longrightarrow> proxy_level c k s \<Longrightarrow> proxy_level c (k - 1) (qcom_pas_handover c s)"
  by (simp add: qcom_pas_handover_def proxy_level_def Let_def
      pds_disable_replicate [where k = k and b = "0 < k"])

lemma proxy_level_more: "q6v5.more s' = q6v5.more s \<Longrightarrow> proxy_level c k s' = proxy_level c k s"
  by (simp add: proxy_level_counts counts_more [of s' s])

interpretation pas_client: q6v5_client "qcom_pas_handover c" "proxy_level c" for c
  by unfold_locales (fact handover_truncate pas_handover_level proxy_level_more)+

lemma ask_level [simp]: "proxy_level c k (snd (ask f s)) = proxy_level c k s"
  by (simp add: proxy_level_counts)

lemma scm_frame [simp]:
  "proxy_level c k (snd (scm_auth e i s)) = proxy_level c k s"
  "proxy_level c k (snd (scm_shutdown e i s)) = proxy_level c k s"
  "q_irq_depth (snd (scm_auth e i s)) = q_irq_depth s"
  "q_irq_depth (snd (scm_shutdown e i s)) = q_irq_depth s"
  "q_handover_issued (snd (scm_auth e i s)) = q_handover_issued s"
  "q_handover_issued (snd (scm_shutdown e i s)) = q_handover_issued s"
  "q_start_done (snd (scm_auth e i s)) = q_start_done s"
  by (simp_all add: scm_auth_def scm_shutdown_def ask_def proxy_level_def)

lemma wait_for_start_level:
  assumes "qcom_q6v5_wait_for_start (Some (qcom_pas_handover c)) e irqs s = (ret, s')"
    and "proxy_level c 1 s" "q_irq_depth s = 0" "\<not> q_handover_issued s" "q_start_done s = 0"
  shows "ret = (if Ready \<in> set irqs then 0 else - ETIMEDOUT)"
    and "q_handover_issued s' \<longleftrightarrow> Handover \<in> set irqs"
    and "q_irq_depth s' = 0"
    and "proxy_level c (1 - of_bool (Handover \<in> set irqs)) s'"
proof -
  let ?s = "q6v5_irqs (Some (qcom_pas_handover c)) e irqs s"
  have level: "proxy_level c (1 - of_bool (Handover \<in> set irqs)) ?s"
    using pas_client.irqs_level [of 1 c s irqs e] assms by simp
  have s': "s' = (if Ready \<in> set irqs then ?s\<lparr>q_start_done := q_start_done ?s - 1\<rparr> else ?s)"
      "ret = (if Ready \<in> set irqs then 0 else - ETIMEDOUT)"
    using assms(1,5)
    by (auto simp: qcom_q6v5_wait_for_start_def Let_def pas_client.start_done_irqs
        count_list_0_iff split: if_splits)
  show "ret = (if Ready \<in> set irqs then 0 else - ETIMEDOUT)"
    by (fact s'(2))
  show "q_handover_issued s' \<longleftrightarrow> Handover \<in> set irqs" "q_irq_depth s' = 0"
    using assms(3,4) by (simp_all add: s'(1) pas_client.irqs_handover pas_client.irqs_depth)
  show "proxy_level c (1 - of_bool (Handover \<in> set irqs)) s'"
    using level proxy_level_more [of "?s\<lparr>q_start_done := q_start_done ?s - 1\<rparr>" ?s]
    by (simp add: s'(1))
qed

text \<open>
  A start that fails gives back what it took, with one exception: it timed out after the
  processor had handed over, and gives the proxies back for the second time.
\<close>

definition start_post :: "pas_cfg \<Rightarrow> q6v5_irq list \<Rightarrow> int \<Rightarrow> pas \<Rightarrow> bool" where
  "start_post c irqs ret s' \<longleftrightarrow>
    (if ret = 0 then q_irq_depth s' = 0 \<and> proxy_level c (1 - of_bool (q_handover_issued s')) s'
     else q_irq_depth s' = 1 \<and> (proxy_level c 0 s' \<or>
       ret = - ETIMEDOUT \<and> Handover \<in> set irqs \<and> Ready \<notin> set irqs \<and> proxy_level c (- 1) s'))"

definition primed :: "pas_cfg \<Rightarrow> pas \<Rightarrow> bool" where
  "primed c s \<longleftrightarrow> proxy_level c 1 s \<and> q_irq_depth s = 0 \<and> \<not> q_handover_issued s \<and> q_start_done s = 0"

lemma primed_frame [simp]:
  "primed c (snd (ask f s)) = primed c s" "primed c (snd (scm_auth e i s)) = primed c s"
  "primed c (s\<lparr>p_metadata := b\<rparr>) = primed c s"
  by (simp_all add: primed_def) (simp_all add: proxy_level_def ask_def)

lemma disable_px_supply_post:
  "primed c s \<Longrightarrow> ret \<noteq> 0 \<Longrightarrow>
   start_post c irqs (fst (disable_px_supply c e ret s)) (snd (disable_px_supply c e ret s))"
  using disable_px_supply_level [of c e ret s "fst (disable_px_supply c e ret s)"
    "snd (disable_px_supply c e ret s)" 1]
  by (simp add: start_post_def primed_def)

lemma release_pas_metadata_post:
  "primed c s \<Longrightarrow> ret \<noteq> 0 \<Longrightarrow>
   start_post c irqs (fst (release_pas_metadata c e ret s)) (snd (release_pas_metadata c e ret s))"
  using release_pas_metadata_level [of c e ret s "fst (release_pas_metadata c e ret s)"
    "snd (release_pas_metadata c e ret s)" 1]
  by (simp add: start_post_def primed_def)

lemma start_wait_post:
  assumes "primed c s" "qcom_q6v5_wait_for_start (Some (qcom_pas_handover c)) e irqs s = (ret, s1)"
    and "(r, s') = (if ret = - ETIMEDOUT then
      release_pas_metadata c e ret (snd (scm_shutdown e i s1))
      else (0, (release_metadata c s1)\<lparr>p_firmware := False\<rparr>))"
  shows "start_post c irqs r s'"
proof -
  note wait = wait_for_start_level [OF assms(2)]
  show ?thesis
  proof (cases "Ready \<in> set irqs")
    case True
    then have "s' = (release_metadata c s1)\<lparr>p_firmware := False\<rparr>" "r = 0"
      using assms wait(1) by (simp_all add: primed_def)
    moreover have "proxy_level c k ((release_metadata c s1)\<lparr>p_firmware := False\<rparr>) = proxy_level c k s1" for k
      using release_metadata_frame(1) [of c k s1] by (simp add: proxy_level_def)
    ultimately show ?thesis
      using assms(1) wait by (simp add: start_post_def primed_def)
  next
    case False
    then have "release_pas_metadata c e (- ETIMEDOUT) (snd (scm_shutdown e i s1)) = (r, s')"
      using assms wait(1) by (simp add: primed_def)
    from release_pas_metadata_level [OF this, of "1 - of_bool (Handover \<in> set irqs)"] show ?thesis
      using assms(1) wait False by (auto simp: start_post_def primed_def)
  qed
qed

lemma start_images_post:
  assumes "start_images c e irqs s = (ret, s')" "primed c s"
  shows "start_post c irqs ret s'"
proof -
  define a where "a = (if pc_dtb_pas_id c \<noteq> 0 then scm_auth e (pc_dtb_pas_id c) s else (0, s))"
  define b where "b = ask (qe_svc e) (snd a)"
  define d where "d = ask (qe_svc e) ((snd b)\<lparr>p_metadata := True\<rparr>)"
  define f where "f = scm_auth e (pc_pas_id c) (snd d)"
  define w where "w = qcom_q6v5_wait_for_start (Some (qcom_pas_handover c)) e irqs (snd f)"
  have primed: "primed c (snd a)" "primed c (snd b)" "primed c (snd d)" "primed c (snd f)"
    using assms(2) by (simp_all add: a_def b_def d_def f_def)
  have "(ret, s') = (if fst a \<noteq> 0 then disable_px_supply c e (fst a) (snd a)
    else if fst b \<noteq> 0 then disable_px_supply c e (fst b) (snd b)
    else if fst d \<noteq> 0 then release_pas_metadata c e (fst d) (snd d)
    else if fst f \<noteq> 0 then release_pas_metadata c e (fst f) (snd f)
    else if fst w = - ETIMEDOUT then
      release_pas_metadata c e (fst w) (snd (scm_shutdown e (pc_pas_id c) (snd w)))
    else (0, (release_metadata c (snd w))\<lparr>p_firmware := False\<rparr>))"
    unfolding assms(1) [symmetric] start_images_def a_def [symmetric] Let_def split_beta
      b_def [symmetric] d_def [symmetric] f_def [symmetric] w_def [symmetric] ..
  then show ?thesis
    using disable_px_supply_post [OF primed(1), of "fst a" irqs e]
      disable_px_supply_post [OF primed(2), of "fst b" irqs e]
      release_pas_metadata_post [OF primed(3), of "fst d" irqs e]
      release_pas_metadata_post [OF primed(4), of "fst f" irqs e]
      start_wait_post [OF primed(4), of e irqs "fst w" "snd w" ret s' "pc_pas_id c"] w_def
    by (metis prod.collapse fst_conv snd_conv)
qed

text \<open>Part of the way through the acquisitions, and the label that fits each point.\<close>

definition partly :: "pas_cfg \<Rightarrow> bool \<Rightarrow> bool \<Rightarrow> bool \<Rightarrow> bool \<Rightarrow> bool \<Rightarrow> pas \<Rightarrow> bool" where
  "partly c px cx aggre2 xo pds s \<longleftrightarrow> p_xo s = of_bool xo \<and> p_aggre2 s = of_bool aggre2 \<and>
    p_cx s = of_bool (cx \<and> pc_cx c) \<and> p_px s = of_bool (px \<and> pc_px c) \<and>
    p_pds s = replicate (pc_pd_count c) (of_bool pds, pds) \<and>
    q_irq_depth s = 0 \<and> \<not> q_handover_issued s \<and> q_start_done s = 0"

lemma partly_steps:
  "partly c px cx aggre2 xo pds (snd (ask f s)) = partly c px cx aggre2 xo pds s"
  "partly c px cx aggre2 False pds s \<Longrightarrow> partly c px cx aggre2 True pds (s\<lparr>p_xo := p_xo s + 1\<rparr>)"
  "partly c px cx False xo pds s \<Longrightarrow> partly c px cx True xo pds (s\<lparr>p_aggre2 := p_aggre2 s + 1\<rparr>)"
  "partly c px False aggre2 xo pds s \<Longrightarrow>
   partly c px True aggre2 xo pds (if pc_cx c then s\<lparr>p_cx := p_cx s + 1\<rparr> else s)"
  "partly c False cx aggre2 xo pds s \<Longrightarrow>
   partly c True cx aggre2 xo pds (if pc_px c then s\<lparr>p_px := p_px s + 1\<rparr> else s)"
  by (auto simp: partly_def ask_def)

lemma partly_primed: "partly c True True True True True s = primed c s"
  by (auto simp: partly_def primed_def proxy_level_def)

lemma partly_unwound:
  assumes "unwound c px cx aggre2 xo pds s ret r" "partly c px cx aggre2 xo pds s" "ret \<noteq> 0"
  shows "start_post c irqs (fst r) (snd r)"
  using assms pds_disable_replicate [of s "pc_pd_count c" 1 True]
  by (cases pds) (auto simp: unwound_def partly_def start_post_def proxy_level_def counts_def)

lemma pds_enable_partly:
  assumes "partly c False False False False False s"
    and "qcom_pas_pds_enable e (pc_pd_count c) s = (ret, s')"
  shows "partly c False False False False (\<not> ret < 0) s'"
  using assms pds_enable_from [of e 0 "pc_pd_count c" s ret s']
  by (auto simp: partly_def qcom_pas_pds_enable_def pds_upto_ends same_but_pds_def)

lemma start_proxies_post:
  assumes "start_proxies c e irqs s = (ret, s')" "partly c False False False False False s"
  shows "start_post c irqs ret s'"
proof -
  define b where "b = qcom_pas_pds_enable e (pc_pd_count c) s"
  define d where "d = ask (qe_svc e) (snd b)"
  define f where "f = ask (qe_svc e) ((snd d)\<lparr>p_xo := p_xo (snd d) + 1\<rparr>)"
  define g where "g = (let s = (snd f)\<lparr>p_aggre2 := p_aggre2 (snd f) + 1\<rparr> in
    if pc_cx c then ask (qe_svc e) s else (0, s))"
  define h where "h = (let s = (if pc_cx c then (snd g)\<lparr>p_cx := p_cx (snd g) + 1\<rparr> else snd g) in
    if pc_px c then ask (qe_svc e) s else (0, s))"
  define i where "i = (if pc_px c then (snd h)\<lparr>p_px := p_px (snd h) + 1\<rparr> else snd h)"
  have run: "(ret, s') = (if fst b < 0 then disable_irqs e (fst b) (snd b)
    else if fst d \<noteq> 0 then disable_proxy_pds c e (fst d) (snd d)
    else if fst f \<noteq> 0 then disable_xo_clk c e (fst f) (snd f)
    else if fst g \<noteq> 0 then disable_aggre2_clk c e (fst g) (snd g)
    else if fst h \<noteq> 0 then disable_cx_supply c e (fst h) (snd h)
    else start_images c e irqs i)"
    unfolding assms(1) [symmetric] start_proxies_def Let_def split_beta
      b_def [symmetric] d_def [symmetric] f_def [symmetric] g_def [unfolded Let_def, symmetric]
      h_def [unfolded Let_def, symmetric] i_def [symmetric] ..
  have pb: "partly c False False False False (\<not> fst b < 0) (snd b)"
    by (rule pds_enable_partly [OF assms(2)]) (simp add: b_def)
  show ?thesis
  proof (cases "fst b < 0")
    case True
    then show ?thesis
      using run pb partly_unwound [OF disable_irqs_unwound, of c "snd b" "fst b" irqs e]
      by (simp add: prod_eq_iff)
  next
    case False
    then have pd: "partly c False False False False True (snd d)"
      using pb by (simp add: d_def partly_steps)
    then have pf: "partly c False False False True True (snd f)"
      by (simp add: f_def partly_steps)
    then have pg: "partly c False False True True True (snd g)"
      by (simp add: g_def Let_def partly_steps)
    then have ph: "partly c False True True True True (snd h)"
      using partly_steps(4) [OF pg] by (auto simp: h_def Let_def partly_steps(1))
    then have "primed c i"
      using partly_steps(5) [OF ph] by (simp add: i_def partly_primed)
    then show ?thesis
      using run False start_images_post [of c e irqs i ret s']
        partly_unwound [OF disable_proxy_pds_unwound pd, of "fst d" irqs e]
        partly_unwound [OF disable_xo_clk_unwound pf, of "fst f" irqs e]
        partly_unwound [OF disable_aggre2_clk_unwound pg, of "fst g" irqs e]
        partly_unwound [OF disable_cx_supply_unwound ph, of "fst h" irqs e]
      by (auto simp: prod_eq_iff split: if_splits)
  qed
qed

lemma qcom_pas_start_post:
  assumes "qcom_pas_start c e irqs s = (ret, s')" "proxy_level c 0 s" "q_irq_depth s = 1"
  shows "start_post c irqs ret s'"
proof -
  obtain r s1 where prep: "qcom_q6v5_prepare e s = (r, s1)"
    by (cases "qcom_q6v5_prepare e s")
  note frame = qcom_q6v5_prepare_frame [OF prep]
  have level: "proxy_level c 0 s1"
    using frame assms(2) proxy_level_more [of s1 s c 0] by simp
  show ?thesis
  proof (cases "r = 0")
    case False
    then show ?thesis
      using frame level assms by (simp add: qcom_pas_start_def prep start_post_def)
  next
    case True
    then have "partly c False False False False False s1"
      using frame level assms(3) by (auto simp: partly_def proxy_level_def)
    then show ?thesis
      using True assms(1) by (simp add: qcom_pas_start_def prep start_proxies_post)
  qed
qed

section \<open>Stop\<close>

lemma shutdown_poll_frame:
  "proxy_level c k (snd (shutdown_poll e i n s)) = proxy_level c k s \<and>
   q_irq_depth (snd (shutdown_poll e i n s)) = q_irq_depth s \<and>
   q_handover_issued (snd (shutdown_poll e i n s)) = q_handover_issued s"
  by (induction n arbitrary: s) (simp_all add: Let_def split_beta)

text \<open>The polling ends after at most as many calls as it was given retries.\<close>

lemma shutdown_poll_bound:
  "\<exists>m \<le> n. p_scm (snd (shutdown_poll e i n s)) = p_scm s @ replicate m (Shutdown i)"
proof (induction n arbitrary: s)
  case (Suc n)
  have one: "p_scm (snd (scm_shutdown e i s)) = p_scm s @ [Shutdown i]"
    by (simp add: scm_shutdown_def ask_def)
  obtain m where "m \<le> n" "p_scm (snd (shutdown_poll e i n (snd (scm_shutdown e i s)))) =
      p_scm s @ replicate (Suc m) (Shutdown i)"
    using Suc.IH [of "snd (scm_shutdown e i s)"] one by auto
  then show ?case
    using one by (cases "fst (scm_shutdown e i s) = - EINVAL \<and> n \<noteq> 0")
      (auto simp: Let_def split_beta intro: exI [of _ "Suc m"] exI [of _ 1])
qed simp

lemma qcom_pas_stop_level:
  assumes "qcom_pas_stop c e running acked irqs s = (ret, s')"
    and "proxy_level c (1 - of_bool (q_handover_issued s)) s" "q_irq_depth s = 0"
  shows "proxy_level c 0 s' \<and> q_irq_depth s' = 1"
proof -
  define a where
    "a = qcom_q6v5_request_stop (Some (qcom_pas_handover c)) e running acked irqs s"
  define b where "b = scm_shutdown e (pc_pas_id c) (snd a)"
  define d where "d = (if fst b \<noteq> 0 \<and> pc_decrypt_shutdown c
    then qcom_pas_shutdown_poll_decrypt c e (snd b) else (fst b, snd b))"
  define f where "f = (if pc_dtb_pas_id c \<noteq> 0 then scm_shutdown e (pc_dtb_pas_id c) (snd d)
    else (fst d, snd d))"
  define g where "g = qcom_q6v5_unprepare e (snd f)"
  define h where "h = (if fst g then qcom_pas_handover c (snd g) else snd g)"
  have run: "(ret, s') = (if pc_smem_host_id c \<noteq> 0 then ask (qe_svc e) h else (fst f, h))"
    unfolding assms(1) [symmetric] qcom_pas_stop_def a_def [symmetric] Let_def split_beta
      b_def [symmetric] d_def [symmetric] f_def [symmetric] g_def [symmetric] h_def [symmetric] ..
  have "proxy_level c (1 - of_bool (q_handover_issued (snd a))) (snd a) \<and> q_irq_depth (snd a) = 0"
    using pas_client.request_stop_held [of c e running acked irqs s "fst a" "snd a"] assms(2,3)
    by (simp add: a_def)
  then have f: "proxy_level c (1 - of_bool (q_handover_issued (snd f))) (snd f)" "q_irq_depth (snd f) = 0"
    by (auto simp: f_def d_def b_def shutdown_poll_frame qcom_pas_shutdown_poll_decrypt_def)
  have g: "fst g = (\<not> q_handover_issued (snd f))" "q_irq_depth (snd g) = 1"
      "proxy_level c k (snd g) = proxy_level c k (snd f)" for k
    using qcom_q6v5_unprepare_frame [of e "snd f" "fst g" "snd g"] f(2)
      proxy_level_more [of "snd g" "snd f" c k] by (simp_all add: g_def)
  have "proxy_level c 0 h \<and> q_irq_depth h = 1"
    using f g(1,2) g(3) [of 0] g(3) [of 1] pas_handover_level [of 1 c "snd g"] by (auto simp: h_def)
  moreover have "s' = h \<or> s' = snd (ask (qe_svc e) h)"
    using run by (auto simp: prod_eq_iff split: if_splits)
  ultimately show ?thesis
    by auto
qed

section \<open>A processor over its life\<close>

text \<open>
  The remoteproc core loads and starts a processor that is down, and stops one that is up;
  interrupts come at any time. \<open>pas_step\<close> is one such step; the boolean says whether the
  processor is up. The environment is one for each step.
\<close>

datatype pas_op =
    Load
  | Start "q6v5_irq list"
  | Interrupt q6v5_irq
  | Stop bool bool "q6v5_irq list"
  | Unprepare
  | Panic

fun pas_step :: "pas_cfg \<Rightarrow> bool \<times> pas \<Rightarrow> q6v5_env \<times> pas_op \<Rightarrow> bool \<times> pas" where
  "pas_step c (up, s) (e, Load) = (up, if up then s else snd (qcom_pas_load c e s))"
| "pas_step c (up, s) (e, Start irqs) = (if up then (up, s)
    else case qcom_pas_start c e irqs s of (ret, s') \<Rightarrow> (ret = 0, s'))"
| "pas_step c (up, s) (e, Interrupt i) =
    (up, q6v5_interrupt (Some (qcom_pas_handover c)) e i s)"
| "pas_step c (up, s) (e, Stop running acked irqs) = (if \<not> up then (up, s)
    else (False, snd (qcom_pas_stop c e running acked irqs s)))"
| "pas_step c (up, s) (e, Unprepare) = (up, if up then s else snd (qcom_pas_unprepare c s))"
| "pas_step c (up, s) (e, Panic) = (up, snd (qcom_pas_panic s))"

definition pas_init :: "pas_cfg \<Rightarrow> bool \<Rightarrow> pas" where
  "pas_init c qmp = \<lparr>q_qmp = qmp, q_running = False, q_handover_issued = False, q_start_done = 0,
    q_stop_done = 0, q_irq_depth = 1, q_bw = False, q_load_state = False, q_stop_bit = False,
    q_crashes = [], q_tick = 0, p_xo = 0, p_aggre2 = 0, p_cx = 0, p_px = 0,
    p_pds = replicate (pc_pd_count c) (0, False), p_firmware = False, p_dtb_firmware = 0,
    p_metadata = False, p_dtb_metadata = False, p_scm = []\<rparr>"

text \<open>
  The invariant: a processor that is up holds each proxy once until it hands over and not at
  all afterwards, one that is down holds none; and the handover interrupt is enabled exactly
  while the processor is up.
\<close>

definition pas_inv :: "pas_cfg \<Rightarrow> bool \<times> pas \<Rightarrow> bool" where
  "pas_inv c st \<longleftrightarrow> (case st of (up, s) \<Rightarrow>
    q_irq_depth s = (if up then 0 else 1) \<and>
    proxy_level c (if up then 1 - of_bool (q_handover_issued s) else 0) s)"

text \<open>The one step that breaks it: a start that times out after the handover.\<close>

fun late_failure :: "pas_cfg \<Rightarrow> bool \<times> pas \<Rightarrow> q6v5_env \<times> pas_op \<Rightarrow> bool" where
  "late_failure c (up, s) (e, Start irqs) \<longleftrightarrow> \<not> up \<and> Handover \<in> set irqs \<and> Ready \<notin> set irqs \<and>
    fst (qcom_pas_start c e irqs s) = - ETIMEDOUT"
| "late_failure c _ _ \<longleftrightarrow> False"

fun no_late_failure :: "pas_cfg \<Rightarrow> bool \<times> pas \<Rightarrow> (q6v5_env \<times> pas_op) list \<Rightarrow> bool" where
  "no_late_failure c st [] \<longleftrightarrow> True"
| "no_late_failure c st (op # ops) \<longleftrightarrow>
    \<not> late_failure c st op \<and> no_late_failure c (pas_step c st op) ops"

lemma pas_load_frame:
  "proxy_level c k (snd (qcom_pas_load c e s)) = proxy_level c k s \<and>
   q_irq_depth (snd (qcom_pas_load c e s)) = q_irq_depth s"
  by (auto simp: qcom_pas_load_def Let_def split_beta scm_shutdown_def ask_def proxy_level_def)

lemma interrupt_inv:
  "pas_inv c (up, s) \<Longrightarrow> pas_inv c (up, q6v5_interrupt (Some (qcom_pas_handover c)) e i s)"
  using pas_client.irq_level [of "if up then 1 - of_bool (q_handover_issued s) else 0" c s i e]
  by (cases up; cases "q_handover_issued s"; cases "i = Handover")
    (auto simp: pas_inv_def pas_client.irq_handover pas_client.irq_depth
      simp del: q6v5_interrupt.simps)

lemma pas_step_inv:
  assumes "pas_inv c (up, s)" "\<not> late_failure c (up, s) (e, op)"
  shows "pas_inv c (pas_step c (up, s) (e, op))"
proof (cases op)
  case Load
  then show ?thesis
    using assms pas_load_frame [of c 0 e s] by (cases up) (simp_all add: pas_inv_def)
next
  case (Start irqs)
  then show ?thesis
    using assms qcom_pas_start_post [of c e irqs s]
    by (auto simp: pas_inv_def start_post_def split: prod.splits if_splits)
next
  case (Interrupt i)
  then show ?thesis
    using interrupt_inv [OF assms(1), of e i] by simp
next
  case (Stop running acked irqs)
  then show ?thesis
    using assms qcom_pas_stop_level [of c e running acked irqs s]
    by (cases "qcom_pas_stop c e running acked irqs s"; cases up) (auto simp: pas_inv_def)
next
  case Unprepare
  then show ?thesis
    using assms by (cases up) (simp_all add: pas_inv_def qcom_pas_unprepare_def)
next
  case Panic
  then show ?thesis
    using assms proxy_level_more [of "snd (qcom_pas_panic s)" s]
    by (cases up) (simp_all add: pas_inv_def qcom_pas_panic_def qcom_q6v5_panic_def)
qed

lemma pas_run_inv:
  "pas_inv c st \<Longrightarrow> no_late_failure c st ops \<Longrightarrow> pas_inv c (foldl (pas_step c) st ops)"
proof (induction ops arbitrary: st)
  case (Cons op ops)
  then show ?case
    using pas_step_inv [of c "fst st" "snd st" "fst op" "snd op"] by simp
qed simp

lemma pas_init_inv: "pas_inv c (False, pas_init c qmp)"
  by (simp add: pas_inv_def pas_init_def proxy_level_def)

section \<open>The handover that comes too early\<close>

text \<open>With services that all succeed the start gets to the wait, with the proxies held.\<close>

definition all_succeed :: "q6v5_env \<Rightarrow> bool" where
  "all_succeed e \<longleftrightarrow> (\<forall>n. qe_icc e n = 0 \<and> qe_qmp e n = 0 \<and> qe_svc e n = 0)"

lemma all_succeed_ask:
  "all_succeed e \<Longrightarrow> fst (ask (qe_svc e) s) = 0" "all_succeed e \<Longrightarrow> fst (scm_auth e i p) = 0"
  by (simp_all add: all_succeed_def ask_def scm_auth_def)

lemma pds_enable_succeeds: "all_succeed e \<Longrightarrow> fst (pds_enable_from e i n s) = 0"
proof (induction e i n s rule: pds_enable_from.induct)
  case (1 e i n s)
  obtain r s1 where call: "ask (qe_svc e) (pd_on i s) = (r, s1)"
    by (cases "ask (qe_svc e) (pd_on i s)")
  then have "r = 0"
    using all_succeed_ask(1) [OF 1(2), of "pd_on i s"] by simp
  then show ?case
    using 1(1) [OF _ call [symmetric] refl] 1(2)
    by (cases "i < n") (simp_all add: pds_enable_from.simps [of e i n s] call)
qed

lemma start_images_late_handover:
  assumes "all_succeed e" "primed c s" "Handover \<in> set irqs" "Ready \<notin> set irqs"
    and "start_images c e irqs s = (ret, s')"
  shows "ret = - ETIMEDOUT \<and> proxy_level c (- 1) s'"
proof -
  define a where "a = snd (if pc_dtb_pas_id c \<noteq> 0 then scm_auth e (pc_dtb_pas_id c) s else (0, s))"
  define f where "f = snd (scm_auth e (pc_pas_id c)
    (snd (ask (qe_svc e) ((snd (ask (qe_svc e) a))\<lparr>p_metadata := True\<rparr>))))"
  obtain r w where wait: "qcom_q6v5_wait_for_start (Some (qcom_pas_handover c)) e irqs f = (r, w)"
    by (cases "qcom_q6v5_wait_for_start (Some (qcom_pas_handover c)) e irqs f")
  have "primed c f"
    using assms(2) by (simp add: f_def a_def)
  note level = wait_for_start_level [OF wait] this
  have "start_images c e irqs s =
      release_pas_metadata c e r (snd (scm_shutdown e (pc_pas_id c) w))"
    using level assms(4) wait
    by (simp add: start_images_def Let_def split_beta all_succeed_ask [OF assms(1)] primed_def
        flip: a_def) (simp add: f_def)
  from release_pas_metadata_level [OF this [symmetric, unfolded assms(5)], of 0] show ?thesis
    using level assms(3,4) by (simp add: primed_def)
qed

lemma start_proxies_reaches_images:
  assumes "all_succeed e" "partly c False False False False False s"
  shows "\<exists>i. primed c i \<and> start_proxies c e irqs s = start_images c e irqs i"
proof -
  define b where "b = snd (qcom_pas_pds_enable e (pc_pd_count c) s)"
  define d where "d = (let s = snd (ask (qe_svc e) b) in s\<lparr>p_xo := p_xo s + 1\<rparr>)"
  define f where "f = (let s = snd (ask (qe_svc e) d) in s\<lparr>p_aggre2 := p_aggre2 s + 1\<rparr>)"
  define g where "g = (let s = (if pc_cx c then snd (ask (qe_svc e) f) else f) in
    if pc_cx c then s\<lparr>p_cx := p_cx s + 1\<rparr> else s)"
  define h where "h = (let s = (if pc_px c then snd (ask (qe_svc e) g) else g) in
    if pc_px c then s\<lparr>p_px := p_px s + 1\<rparr> else s)"
  have ret: "fst (qcom_pas_pds_enable e (pc_pd_count c) s) = 0"
    using pds_enable_succeeds [OF assms(1)] by (simp add: qcom_pas_pds_enable_def)
  then have "partly c False False False False True b"
    using pds_enable_partly [OF assms(2), of e 0 b] by (simp add: b_def prod_eq_iff)
  then have "partly c False False False True True d"
    using partly_steps(2) [of c False False False True "snd (ask (qe_svc e) b)"]
    by (simp add: d_def Let_def partly_steps(1))
  then have "partly c False False True True True f"
    using partly_steps(3) [of c False False True True "snd (ask (qe_svc e) d)"]
    by (simp add: f_def Let_def partly_steps(1))
  then have "partly c False True True True True g"
    using partly_steps(4) [of c False True True True f]
      partly_steps(4) [of c False True True True "snd (ask (qe_svc e) f)"]
    by (auto simp: g_def Let_def partly_steps(1))
  then have "primed c h"
    using partly_steps(5) [of c True True True True g]
      partly_steps(5) [of c True True True True "snd (ask (qe_svc e) g)"]
    by (auto simp: h_def Let_def partly_steps(1) partly_primed)
  moreover have "start_proxies c e irqs s = start_images c e irqs h"
    using ret by (simp add: start_proxies_def h_def g_def f_def d_def b_def Let_def split_beta
        all_succeed_ask [OF assms(1)])
  ultimately show ?thesis
    by blast
qed

section \<open>Properties of the life of a processor\<close>


definition quiet_env :: q6v5_env where
  "quiet_env = \<lparr>qe_icc = (\<lambda>_. 0), qe_qmp = (\<lambda>_. 0), qe_svc = (\<lambda>_. 0)\<rparr>"

definition adsp_cfg :: pas_cfg where
  "adsp_cfg = \<lparr>pc_cx = True, pc_px = False, pc_pd_count = 2, pc_pas_id = 1, pc_dtb_pas_id = 0,
    pc_lite_pas_id = 0, pc_lite_dtb_pas_id = 0, pc_decrypt_shutdown = False, pc_smem_host_id = 0\<rparr>"


text \<open>
  C37. A processor that hands over while the driver still waits for it to be ready, and then
  is not ready in time: every service succeeds, the start reports the time-out, and each
  proxy has been given back twice, once by the handover and once by the error path.
\<close>

theorem late_handover_double_release:
  assumes "pas_inv c (False, s)" "all_succeed e" "Handover \<in> set irqs" "Ready \<notin> set irqs"
  shows "\<exists>s'. qcom_pas_start c e irqs s = (- ETIMEDOUT, s') \<and> proxy_level c (- 1) s'"
proof -
  obtain r s1 where prep: "qcom_q6v5_prepare e s = (r, s1)"
    by (cases "qcom_q6v5_prepare e s")
  then have "r = 0"
    using assms(2) by (auto simp: qcom_q6v5_prepare_def q6v5_call_defs all_succeed_def split: if_splits)
  moreover have "proxy_level c 0 s1"
    using assms(1) qcom_q6v5_prepare_frame [OF prep] proxy_level_more [of s1 s c 0]
    by (simp add: pas_inv_def)
  ultimately have "partly c False False False False False s1"
    using assms(1) qcom_q6v5_prepare_frame [OF prep]
    by (auto simp: pas_inv_def partly_def proxy_level_def)
  then obtain i where i: "primed c i" "start_proxies c e irqs s1 = start_images c e irqs i"
    using start_proxies_reaches_images [OF assms(2)] by blast
  then show ?thesis
    using start_images_late_handover [OF assms(2) i(1) assms(3,4)] prep \<open>r = 0\<close>
    by (cases "start_images c e irqs i") (simp add: qcom_pas_start_def)
qed

theorem late_handover_double_release_witness:
  "\<exists>s'. qcom_pas_start adsp_cfg quiet_env [Handover] (pas_init adsp_cfg True) = (- ETIMEDOUT, s') \<and>
    proxy_level adsp_cfg (- 1) s'"
  by (rule late_handover_double_release)
    (simp_all add: pas_init_inv all_succeed_def quiet_env_def)

section \<open>Address translation\<close>

lemma pas_offset_scast:
  assumes "0 \<le> sint (x :: u32)"
  shows "(scast x :: u64) = ucast x" "unat x < 2 ^ 31"
proof -
  have "sint x < 2 ^ 31"
    using sint_lt [of x] by simp
  then have eq: "uint x = sint x"
    using assms by (subst uint_sint) (simp add: take_bit_int_eq_self)
  show "(scast x :: u64) = ucast x"
    by (simp only: scast_eq ucast_eq eq)
  show "unat x < 2 ^ 31"
    using \<open>sint x < 2 ^ 31\<close> eq by (simp add: unat_eq_nat_uint nat_less_iff)
qed

lemma pas_offset_bound:
  assumes "pas_offset diff len mem_size = Some off" "unat len < 2 ^ 64 - 2 ^ 31"
  shows "unat off + unat len \<le> unat mem_size"
proof -
  let ?o = "ucast off :: u64"
  have off: "off = ucast diff" "0 \<le> sint off" "\<not> mem_size < scast off + len"
    using assms(1) by (auto simp: pas_offset_def Let_def split: if_splits)
  note o = pas_offset_scast [OF off(2)]
  have u: "unat ?o = unat off"
    using o(2) by (simp add: unsigned_ucast_eq take_bit_nat_eq_self)
  have "unat (?o + len) = unat off + unat len"
    using o(2) assms(2) by (subst unat_add_lem [THEN iffD1]) (simp_all add: u)
  then show ?thesis
    using off(3) o(1) by (simp add: not_less word_le_nat_alt)
qed

lemma sint_small:
  assumes "unat (x :: u32) < 2 ^ 31"
  shows "sint x = uint x"
proof -
  have "int (unat x) < int (2 ^ 31)"
    using assms by (simp only: of_nat_less_iff)
  then have "uint x < 2 ^ 31"
    unfolding uint_nat by simp
  moreover have "- (2 ^ 31) \<le> uint x"
    by (rule order_trans [OF _ uint_ge_0]) simp
  ultimately show ?thesis
    unfolding sint_uint by (intro signed_take_bit_int_eq_self) simp_all
qed

lemma pas_offset_exact:
  assumes "unat diff < 2 ^ 31" "unat len < 2 ^ 64 - 2 ^ 31"
  shows "pas_offset diff len mem_size =
    (if unat diff + unat len \<le> unat mem_size then Some (ucast diff) else None)"
proof -
  let ?o = "ucast diff :: u32"
  have d: "unat ?o = unat diff"
    using assms(1) by (simp add: unsigned_ucast_eq take_bit_nat_eq_self)
  have pos: "0 \<le> sint ?o"
    using sint_small [of ?o] d assms(1) by simp
  have up: "(ucast ?o :: u64) = diff"
    using d assms(1) by (intro word_unat_eq_iff [THEN iffD2])
      (simp add: unsigned_ucast_eq unsigned_take_bit_eq take_bit_nat_eq_self)
  have "unat (diff + len) = unat diff + unat len"
    using assms by (subst unat_add_lem [THEN iffD1]) simp_all
  then show ?thesis
    using pos pas_offset_scast(1) [OF pos] up
    by (simp add: pas_offset_def Let_def not_le word_less_nat_alt)
qed

lemma pas_offset_alias: "pas_offset (diff + 2 ^ 32 * k) len mem_size = pas_offset diff len mem_size"
proof -
  have "(ucast (diff + 2 ^ 32 * k) :: u32) = ucast diff"
    by transfer (simp add: take_bit_eq_mod mod_mod_cancel)
  then show ?thesis
    by (simp add: pas_offset_def)
qed


text \<open>
  C19. The translation of a device address: below 2 GiB from the base, and for lengths that
  do not wrap, it succeeds exactly when the whole range lies in the region and gives the
  offset; but the offset keeps only 32 bits of the difference, so an address that lies any
  multiple of 4 GiB away gets the same answer.
\<close>

theorem da_to_va_correct:
  assumes "unat (da - mem_reloc) < 2 ^ 31" "unat len < 2 ^ 64 - 2 ^ 31"
  shows "qcom_pas_da_to_va mem_reloc mem_size da len =
      (if unat (da - mem_reloc) + unat len \<le> unat mem_size then Some (ucast (da - mem_reloc)) else None) \<and>
    qcom_pas_da_to_va mem_reloc mem_size (da + 2 ^ 32 * k) len =
      qcom_pas_da_to_va mem_reloc mem_size da len"
proof -
  have "da + 2 ^ 32 * k - mem_reloc = (da - mem_reloc) + 2 ^ 32 * k"
    by simp
  then show ?thesis
    using pas_offset_exact [OF assms] pas_offset_alias [of "da - mem_reloc" k]
    by (simp only: qcom_pas_da_to_va_def)
qed

theorem da_to_va_correct_witness:
  "qcom_pas_da_to_va 0x8C600000 0x1A00000 0x8C601000 0x100 = Some 0x1000 \<and>
   qcom_pas_da_to_va 0x8C600000 0x1A00000 (0x8C601000 + 2 ^ 32 * 3) 0x100 = Some 0x1000"
  using da_to_va_correct [of "0x8C601000" "0x8C600000" "0x100" "0x1A00000" 3] by simp

text \<open>A dump never reads outside the region, and what it cannot read is filled.\<close>

lemma segment_dump_bounded:
  assumes "unat len < 2 ^ 64 - 2 ^ 31"
    and "\<And>i. i < unat mem_size \<Longrightarrow> mem i = mem' i"
  shows "qcom_pas_segment_dump mem mem_phys mem_size da off at len =
    qcom_pas_segment_dump mem' mem_phys mem_size da off at len"
    and "length (qcom_pas_segment_dump mem mem_phys mem_size da off at len) = unat len"
  using pas_offset_bound [OF _ assms(1)] assms(2)
  by (auto simp: qcom_pas_segment_dump_def split: option.splits) force

end
