(* ===== verification/Remote_Pas_Data.thy ===== *)
theory Remote_Pas_Data
  imports Prelude
begin

text \<open>
  The tables of \<open>q6v5-pas-v6.18.c\<close>: what the loader knows about each remote processor
  (firmware files, identifiers of the secure world, proxy power domains, memory regions to
  hand over), and the device tree compatibles that select an entry. Fields the source does
  not name are zero, \<open>NULL\<close> or false.
\<close>

text \<open>The numbers of the virtual machines are not in the sources; they are names here.\<close>

datatype vmid = VMID_UNSET | QCOM_SCM_VMID_MSS_MSA | QCOM_SCM_VMID_CDSP

record qcom_pas_data =
  d_crash_reason_smem :: int
  d_firmware_name :: string
  d_dtb_firmware_name :: "string option"
  d_pas_id :: int
  d_dtb_pas_id :: int
  d_lite_pas_id :: int
  d_lite_dtb_pas_id :: int
  d_minidump_id :: nat
  d_auto_boot :: bool
  d_decrypt_shutdown :: bool
  d_proxy_pd_names :: "string list option"
  d_load_state :: "string option"
  d_ssr_name :: string
  d_sysmon_name :: string
  d_ssctl_id :: int
  d_smem_host_id :: nat
  d_region_assign_idx :: nat
  d_region_assign_count :: nat
  d_region_assign_shared :: bool
  d_region_assign_vmid :: vmid

definition no_data :: qcom_pas_data where
  "no_data = \<lparr>d_crash_reason_smem = 0, d_firmware_name = [], d_dtb_firmware_name = None,
    d_pas_id = 0, d_dtb_pas_id = 0, d_lite_pas_id = 0, d_lite_dtb_pas_id = 0, d_minidump_id = 0,
    d_auto_boot = False, d_decrypt_shutdown = False, d_proxy_pd_names = None,
    d_load_state = None, d_ssr_name = [], d_sysmon_name = [], d_ssctl_id = 0, d_smem_host_id = 0,
    d_region_assign_idx = 0, d_region_assign_count = 0, d_region_assign_shared = False,
    d_region_assign_vmid = VMID_UNSET\<rparr>"

definition adsp_resource_init :: qcom_pas_data where
  "adsp_resource_init = no_data\<lparr>
    d_crash_reason_smem := 423, d_firmware_name := ''adsp.mdt'', d_pas_id := 1,
    d_auto_boot := True, d_ssr_name := ''lpass'', d_sysmon_name := ''adsp'', d_ssctl_id := 20\<rparr>"

definition sa8775p_adsp_resource :: qcom_pas_data where
  "sa8775p_adsp_resource = no_data\<lparr>
    d_crash_reason_smem := 423, d_firmware_name := ''adsp.mbn'', d_pas_id := 1,
    d_minidump_id := 5, d_auto_boot := True, d_proxy_pd_names := Some [''lcx'', ''lmx''],
    d_load_state := Some ''adsp'', d_ssr_name := ''lpass'', d_sysmon_name := ''adsp'',
    d_ssctl_id := 20\<rparr>"

definition sdm845_adsp_resource_init :: qcom_pas_data where
  "sdm845_adsp_resource_init = no_data\<lparr>
    d_crash_reason_smem := 423, d_firmware_name := ''adsp.mdt'', d_pas_id := 1,
    d_auto_boot := True, d_load_state := Some ''adsp'', d_ssr_name := ''lpass'',
    d_sysmon_name := ''adsp'', d_ssctl_id := 20\<rparr>"

definition sm6350_adsp_resource :: qcom_pas_data where
  "sm6350_adsp_resource = no_data\<lparr>
    d_crash_reason_smem := 423, d_firmware_name := ''adsp.mdt'', d_pas_id := 1,
    d_auto_boot := True, d_proxy_pd_names := Some [''lcx'', ''lmx''],
    d_load_state := Some ''adsp'', d_ssr_name := ''lpass'', d_sysmon_name := ''adsp'',
    d_ssctl_id := 20\<rparr>"

definition sm6375_mpss_resource :: qcom_pas_data where
  "sm6375_mpss_resource = no_data\<lparr>
    d_crash_reason_smem := 421, d_firmware_name := ''modem.mdt'', d_pas_id := 4,
    d_minidump_id := 3, d_proxy_pd_names := Some [''cx''], d_ssr_name := ''mpss'',
    d_sysmon_name := ''modem'', d_ssctl_id := 18\<rparr>"

definition sm8150_adsp_resource :: qcom_pas_data where
  "sm8150_adsp_resource = no_data\<lparr>
    d_crash_reason_smem := 423, d_firmware_name := ''adsp.mdt'', d_pas_id := 1,
    d_auto_boot := True, d_proxy_pd_names := Some [''cx''], d_load_state := Some ''adsp'',
    d_ssr_name := ''lpass'', d_sysmon_name := ''adsp'', d_ssctl_id := 20\<rparr>"

definition sm8250_adsp_resource :: qcom_pas_data where
  "sm8250_adsp_resource = no_data\<lparr>
    d_crash_reason_smem := 423, d_firmware_name := ''adsp.mdt'', d_pas_id := 1,
    d_minidump_id := 5, d_auto_boot := True, d_proxy_pd_names := Some [''lcx'', ''lmx''],
    d_load_state := Some ''adsp'', d_ssr_name := ''lpass'', d_sysmon_name := ''adsp'',
    d_ssctl_id := 20\<rparr>"

definition sm8350_adsp_resource :: qcom_pas_data where
  "sm8350_adsp_resource = no_data\<lparr>
    d_crash_reason_smem := 423, d_firmware_name := ''adsp.mdt'', d_pas_id := 1,
    d_auto_boot := True, d_proxy_pd_names := Some [''lcx'', ''lmx''],
    d_load_state := Some ''adsp'', d_ssr_name := ''lpass'', d_sysmon_name := ''adsp'',
    d_ssctl_id := 20\<rparr>"

definition msm8996_adsp_resource :: qcom_pas_data where
  "msm8996_adsp_resource = no_data\<lparr>
    d_crash_reason_smem := 423, d_firmware_name := ''adsp.mdt'', d_pas_id := 1,
    d_auto_boot := True, d_proxy_pd_names := Some [''cx''], d_ssr_name := ''lpass'',
    d_sysmon_name := ''adsp'', d_ssctl_id := 20\<rparr>"

definition cdsp_resource_init :: qcom_pas_data where
  "cdsp_resource_init = no_data\<lparr>
    d_crash_reason_smem := 601, d_firmware_name := ''cdsp.mdt'', d_pas_id := 18,
    d_auto_boot := True, d_ssr_name := ''cdsp'', d_sysmon_name := ''cdsp'', d_ssctl_id := 23\<rparr>"

definition sa8775p_cdsp0_resource :: qcom_pas_data where
  "sa8775p_cdsp0_resource = no_data\<lparr>
    d_crash_reason_smem := 601, d_firmware_name := ''cdsp0.mbn'', d_pas_id := 18,
    d_minidump_id := 7, d_auto_boot := True,
    d_proxy_pd_names := Some [''cx'', ''mxc'', ''nsp''], d_load_state := Some ''cdsp'',
    d_ssr_name := ''cdsp'', d_sysmon_name := ''cdsp'', d_ssctl_id := 23\<rparr>"

definition sa8775p_cdsp1_resource :: qcom_pas_data where
  "sa8775p_cdsp1_resource = no_data\<lparr>
    d_crash_reason_smem := 633, d_firmware_name := ''cdsp1.mbn'', d_pas_id := 30,
    d_minidump_id := 20, d_auto_boot := True,
    d_proxy_pd_names := Some [''cx'', ''mxc'', ''nsp''], d_load_state := Some ''nsp'',
    d_ssr_name := ''cdsp1'', d_sysmon_name := ''cdsp1'', d_ssctl_id := 32\<rparr>"

definition sdm845_cdsp_resource_init :: qcom_pas_data where
  "sdm845_cdsp_resource_init = no_data\<lparr>
    d_crash_reason_smem := 601, d_firmware_name := ''cdsp.mdt'', d_pas_id := 18,
    d_auto_boot := True, d_load_state := Some ''cdsp'', d_ssr_name := ''cdsp'',
    d_sysmon_name := ''cdsp'', d_ssctl_id := 23\<rparr>"

definition sm6350_cdsp_resource :: qcom_pas_data where
  "sm6350_cdsp_resource = no_data\<lparr>
    d_crash_reason_smem := 601, d_firmware_name := ''cdsp.mdt'', d_pas_id := 18,
    d_auto_boot := True, d_proxy_pd_names := Some [''cx'', ''mx''],
    d_load_state := Some ''cdsp'', d_ssr_name := ''cdsp'', d_sysmon_name := ''cdsp'',
    d_ssctl_id := 23\<rparr>"

definition sm8150_cdsp_resource :: qcom_pas_data where
  "sm8150_cdsp_resource = no_data\<lparr>
    d_crash_reason_smem := 601, d_firmware_name := ''cdsp.mdt'', d_pas_id := 18,
    d_auto_boot := True, d_proxy_pd_names := Some [''cx''], d_load_state := Some ''cdsp'',
    d_ssr_name := ''cdsp'', d_sysmon_name := ''cdsp'', d_ssctl_id := 23\<rparr>"

definition sm8250_cdsp_resource :: qcom_pas_data where
  "sm8250_cdsp_resource = no_data\<lparr>
    d_crash_reason_smem := 601, d_firmware_name := ''cdsp.mdt'', d_pas_id := 18,
    d_auto_boot := True, d_proxy_pd_names := Some [''cx''], d_load_state := Some ''cdsp'',
    d_ssr_name := ''cdsp'', d_sysmon_name := ''cdsp'', d_ssctl_id := 23\<rparr>"

definition sc8280xp_nsp0_resource :: qcom_pas_data where
  "sc8280xp_nsp0_resource = no_data\<lparr>
    d_crash_reason_smem := 601, d_firmware_name := ''cdsp.mdt'', d_pas_id := 18,
    d_auto_boot := True, d_proxy_pd_names := Some [''nsp''], d_ssr_name := ''cdsp0'',
    d_sysmon_name := ''cdsp'', d_ssctl_id := 23\<rparr>"

definition sc8280xp_nsp1_resource :: qcom_pas_data where
  "sc8280xp_nsp1_resource = no_data\<lparr>
    d_crash_reason_smem := 633, d_firmware_name := ''cdsp.mdt'', d_pas_id := 30,
    d_auto_boot := True, d_proxy_pd_names := Some [''nsp''], d_ssr_name := ''cdsp1'',
    d_sysmon_name := ''cdsp1'', d_ssctl_id := 32\<rparr>"

definition x1e80100_adsp_resource :: qcom_pas_data where
  "x1e80100_adsp_resource = no_data\<lparr>
    d_crash_reason_smem := 423, d_firmware_name := ''adsp.mdt'',
    d_dtb_firmware_name := Some ''adsp_dtb.mdt'', d_pas_id := 1, d_dtb_pas_id := 36,
    d_lite_pas_id := 31, d_lite_dtb_pas_id := 41, d_minidump_id := 5, d_auto_boot := True,
    d_proxy_pd_names := Some [''lcx'', ''lmx''], d_load_state := Some ''adsp'',
    d_ssr_name := ''lpass'', d_sysmon_name := ''adsp'', d_ssctl_id := 20\<rparr>"

definition x1e80100_cdsp_resource :: qcom_pas_data where
  "x1e80100_cdsp_resource = no_data\<lparr>
    d_crash_reason_smem := 601, d_firmware_name := ''cdsp.mdt'',
    d_dtb_firmware_name := Some ''cdsp_dtb.mdt'', d_pas_id := 18, d_dtb_pas_id := 37,
    d_minidump_id := 7, d_auto_boot := True,
    d_proxy_pd_names := Some [''cx'', ''mxc'', ''nsp''], d_load_state := Some ''cdsp'',
    d_ssr_name := ''cdsp'', d_sysmon_name := ''cdsp'', d_ssctl_id := 23\<rparr>"

definition sm8350_cdsp_resource :: qcom_pas_data where
  "sm8350_cdsp_resource = no_data\<lparr>
    d_crash_reason_smem := 601, d_firmware_name := ''cdsp.mdt'', d_pas_id := 18,
    d_minidump_id := 7, d_auto_boot := True, d_proxy_pd_names := Some [''cx'', ''mxc''],
    d_load_state := Some ''cdsp'', d_ssr_name := ''cdsp'', d_sysmon_name := ''cdsp'',
    d_ssctl_id := 23\<rparr>"

definition sa8775p_gpdsp0_resource :: qcom_pas_data where
  "sa8775p_gpdsp0_resource = no_data\<lparr>
    d_crash_reason_smem := 640, d_firmware_name := ''gpdsp0.mbn'', d_pas_id := 39,
    d_minidump_id := 21, d_auto_boot := True, d_proxy_pd_names := Some [''cx'', ''mxc''],
    d_load_state := Some ''gpdsp0'', d_ssr_name := ''gpdsp0'', d_sysmon_name := ''gpdsp0'',
    d_ssctl_id := 33\<rparr>"

definition sa8775p_gpdsp1_resource :: qcom_pas_data where
  "sa8775p_gpdsp1_resource = no_data\<lparr>
    d_crash_reason_smem := 641, d_firmware_name := ''gpdsp1.mbn'', d_pas_id := 40,
    d_minidump_id := 22, d_auto_boot := True, d_proxy_pd_names := Some [''cx'', ''mxc''],
    d_load_state := Some ''gpdsp1'', d_ssr_name := ''gpdsp1'', d_sysmon_name := ''gpdsp1'',
    d_ssctl_id := 34\<rparr>"

definition mpss_resource_init :: qcom_pas_data where
  "mpss_resource_init = no_data\<lparr>
    d_crash_reason_smem := 421, d_firmware_name := ''modem.mdt'', d_pas_id := 4,
    d_minidump_id := 3, d_proxy_pd_names := Some [''cx'', ''mss''],
    d_load_state := Some ''modem'', d_ssr_name := ''mpss'', d_sysmon_name := ''modem'',
    d_ssctl_id := 18\<rparr>"

definition sc8180x_mpss_resource :: qcom_pas_data where
  "sc8180x_mpss_resource = no_data\<lparr>
    d_crash_reason_smem := 421, d_firmware_name := ''modem.mdt'', d_pas_id := 4,
    d_proxy_pd_names := Some [''cx''], d_load_state := Some ''modem'', d_ssr_name := ''mpss'',
    d_sysmon_name := ''modem'', d_ssctl_id := 18\<rparr>"

definition msm8996_slpi_resource_init :: qcom_pas_data where
  "msm8996_slpi_resource_init = no_data\<lparr>
    d_crash_reason_smem := 424, d_firmware_name := ''slpi.mdt'', d_pas_id := 12,
    d_auto_boot := True, d_proxy_pd_names := Some [''ssc_cx''], d_ssr_name := ''dsps'',
    d_sysmon_name := ''slpi'', d_ssctl_id := 22\<rparr>"

definition sdm845_slpi_resource_init :: qcom_pas_data where
  "sdm845_slpi_resource_init = no_data\<lparr>
    d_crash_reason_smem := 424, d_firmware_name := ''slpi.mdt'', d_pas_id := 12,
    d_auto_boot := True, d_proxy_pd_names := Some [''lcx'', ''lmx''],
    d_load_state := Some ''slpi'', d_ssr_name := ''dsps'', d_sysmon_name := ''slpi'',
    d_ssctl_id := 22\<rparr>"

definition wcss_resource_init :: qcom_pas_data where
  "wcss_resource_init = no_data\<lparr>
    d_crash_reason_smem := 421, d_firmware_name := ''wcnss.mdt'', d_pas_id := 6,
    d_auto_boot := True, d_ssr_name := ''mpss'', d_sysmon_name := ''wcnss'', d_ssctl_id := 18\<rparr>"

definition sdx55_mpss_resource :: qcom_pas_data where
  "sdx55_mpss_resource = no_data\<lparr>
    d_crash_reason_smem := 421, d_firmware_name := ''modem.mdt'', d_pas_id := 4,
    d_auto_boot := True, d_proxy_pd_names := Some [''cx'', ''mss''], d_ssr_name := ''mpss'',
    d_sysmon_name := ''modem'', d_ssctl_id := 34\<rparr>"

definition milos_cdsp_resource :: qcom_pas_data where
  "milos_cdsp_resource = no_data\<lparr>
    d_crash_reason_smem := 601, d_firmware_name := ''cdsp.mbn'',
    d_dtb_firmware_name := Some ''cdsp_dtb.mbn'', d_pas_id := 18, d_dtb_pas_id := 37,
    d_minidump_id := 7, d_auto_boot := True, d_proxy_pd_names := Some [''cx'', ''mx''],
    d_load_state := Some ''cdsp'', d_ssr_name := ''cdsp'', d_sysmon_name := ''cdsp'',
    d_ssctl_id := 23, d_smem_host_id := 5\<rparr>"

definition sm8450_mpss_resource :: qcom_pas_data where
  "sm8450_mpss_resource = no_data\<lparr>
    d_crash_reason_smem := 421, d_firmware_name := ''modem.mdt'', d_pas_id := 4,
    d_minidump_id := 3, d_decrypt_shutdown := True, d_proxy_pd_names := Some [''cx'', ''mss''],
    d_load_state := Some ''modem'', d_ssr_name := ''mpss'', d_sysmon_name := ''modem'',
    d_ssctl_id := 18\<rparr>"

definition sm8550_adsp_resource :: qcom_pas_data where
  "sm8550_adsp_resource = no_data\<lparr>
    d_crash_reason_smem := 423, d_firmware_name := ''adsp.mdt'',
    d_dtb_firmware_name := Some ''adsp_dtb.mdt'', d_pas_id := 1, d_dtb_pas_id := 36,
    d_minidump_id := 5, d_auto_boot := True, d_proxy_pd_names := Some [''lcx'', ''lmx''],
    d_load_state := Some ''adsp'', d_ssr_name := ''lpass'', d_sysmon_name := ''adsp'',
    d_ssctl_id := 20, d_smem_host_id := 2\<rparr>"

definition sm8550_cdsp_resource :: qcom_pas_data where
  "sm8550_cdsp_resource = no_data\<lparr>
    d_crash_reason_smem := 601, d_firmware_name := ''cdsp.mdt'',
    d_dtb_firmware_name := Some ''cdsp_dtb.mdt'', d_pas_id := 18, d_dtb_pas_id := 37,
    d_minidump_id := 7, d_auto_boot := True,
    d_proxy_pd_names := Some [''cx'', ''mxc'', ''nsp''], d_load_state := Some ''cdsp'',
    d_ssr_name := ''cdsp'', d_sysmon_name := ''cdsp'', d_ssctl_id := 23, d_smem_host_id := 5\<rparr>"

definition sm8550_mpss_resource :: qcom_pas_data where
  "sm8550_mpss_resource = no_data\<lparr>
    d_crash_reason_smem := 421, d_firmware_name := ''modem.mdt'',
    d_dtb_firmware_name := Some ''modem_dtb.mdt'', d_pas_id := 4, d_dtb_pas_id := 38,
    d_minidump_id := 3, d_decrypt_shutdown := True, d_proxy_pd_names := Some [''cx'', ''mss''],
    d_load_state := Some ''modem'', d_ssr_name := ''mpss'', d_sysmon_name := ''modem'',
    d_ssctl_id := 18, d_smem_host_id := 1, d_region_assign_idx := 2,
    d_region_assign_count := 1, d_region_assign_vmid := QCOM_SCM_VMID_MSS_MSA\<rparr>"

definition sc7280_wpss_resource :: qcom_pas_data where
  "sc7280_wpss_resource = no_data\<lparr>
    d_crash_reason_smem := 626, d_firmware_name := ''wpss.mdt'', d_pas_id := 6,
    d_minidump_id := 4, d_proxy_pd_names := Some [''cx'', ''mx''],
    d_load_state := Some ''wpss'', d_ssr_name := ''wpss'', d_sysmon_name := ''wpss'',
    d_ssctl_id := 25\<rparr>"

definition sm8650_cdsp_resource :: qcom_pas_data where
  "sm8650_cdsp_resource = no_data\<lparr>
    d_crash_reason_smem := 601, d_firmware_name := ''cdsp.mdt'',
    d_dtb_firmware_name := Some ''cdsp_dtb.mdt'', d_pas_id := 18, d_dtb_pas_id := 37,
    d_minidump_id := 7, d_auto_boot := True,
    d_proxy_pd_names := Some [''cx'', ''mxc'', ''nsp''], d_load_state := Some ''cdsp'',
    d_ssr_name := ''cdsp'', d_sysmon_name := ''cdsp'', d_ssctl_id := 23, d_smem_host_id := 5,
    d_region_assign_idx := 2, d_region_assign_count := 1, d_region_assign_shared := True,
    d_region_assign_vmid := QCOM_SCM_VMID_CDSP\<rparr>"

definition sm8650_mpss_resource :: qcom_pas_data where
  "sm8650_mpss_resource = no_data\<lparr>
    d_crash_reason_smem := 421, d_firmware_name := ''modem.mdt'',
    d_dtb_firmware_name := Some ''modem_dtb.mdt'', d_pas_id := 4, d_dtb_pas_id := 38,
    d_minidump_id := 3, d_decrypt_shutdown := True, d_proxy_pd_names := Some [''cx'', ''mss''],
    d_load_state := Some ''modem'', d_ssr_name := ''mpss'', d_sysmon_name := ''modem'',
    d_ssctl_id := 18, d_smem_host_id := 1, d_region_assign_idx := 2,
    d_region_assign_count := 3, d_region_assign_vmid := QCOM_SCM_VMID_MSS_MSA\<rparr>"

definition sm8750_mpss_resource :: qcom_pas_data where
  "sm8750_mpss_resource = no_data\<lparr>
    d_crash_reason_smem := 421, d_firmware_name := ''modem.mdt'',
    d_dtb_firmware_name := Some ''modem_dtb.mdt'', d_pas_id := 4, d_dtb_pas_id := 38,
    d_minidump_id := 3, d_decrypt_shutdown := True, d_proxy_pd_names := Some [''cx'', ''mss''],
    d_load_state := Some ''modem'', d_ssr_name := ''mpss'', d_sysmon_name := ''modem'',
    d_ssctl_id := 18, d_smem_host_id := 1, d_region_assign_idx := 2,
    d_region_assign_count := 2, d_region_assign_vmid := QCOM_SCM_VMID_MSS_MSA\<rparr>"

definition qcom_pas_of_match :: "(string \<times> qcom_pas_data) list" where
  "qcom_pas_of_match = [
    (''qcom,milos-adsp-pas'', sm8550_adsp_resource),
    (''qcom,milos-cdsp-pas'', milos_cdsp_resource),
    (''qcom,milos-mpss-pas'', sm8450_mpss_resource),
    (''qcom,milos-wpss-pas'', sc7280_wpss_resource),
    (''qcom,msm8226-adsp-pil'', msm8996_adsp_resource),
    (''qcom,msm8953-adsp-pil'', msm8996_adsp_resource),
    (''qcom,msm8974-adsp-pil'', adsp_resource_init),
    (''qcom,msm8996-adsp-pil'', msm8996_adsp_resource),
    (''qcom,msm8996-slpi-pil'', msm8996_slpi_resource_init),
    (''qcom,msm8998-adsp-pas'', msm8996_adsp_resource),
    (''qcom,msm8998-slpi-pas'', msm8996_slpi_resource_init),
    (''qcom,qcs404-adsp-pas'', adsp_resource_init),
    (''qcom,qcs404-cdsp-pas'', cdsp_resource_init),
    (''qcom,qcs404-wcss-pas'', wcss_resource_init),
    (''qcom,sa8775p-adsp-pas'', sa8775p_adsp_resource),
    (''qcom,sa8775p-cdsp0-pas'', sa8775p_cdsp0_resource),
    (''qcom,sa8775p-cdsp1-pas'', sa8775p_cdsp1_resource),
    (''qcom,sa8775p-gpdsp0-pas'', sa8775p_gpdsp0_resource),
    (''qcom,sa8775p-gpdsp1-pas'', sa8775p_gpdsp1_resource),
    (''qcom,sar2130p-adsp-pas'', sm8350_adsp_resource),
    (''qcom,sc7180-adsp-pas'', sm8250_adsp_resource),
    (''qcom,sc7180-mpss-pas'', mpss_resource_init),
    (''qcom,sc7280-adsp-pas'', sm8350_adsp_resource),
    (''qcom,sc7280-cdsp-pas'', sm6350_cdsp_resource),
    (''qcom,sc7280-mpss-pas'', mpss_resource_init),
    (''qcom,sc7280-wpss-pas'', sc7280_wpss_resource),
    (''qcom,sc8180x-adsp-pas'', sm8150_adsp_resource),
    (''qcom,sc8180x-cdsp-pas'', sm8150_cdsp_resource),
    (''qcom,sc8180x-mpss-pas'', sc8180x_mpss_resource),
    (''qcom,sc8280xp-adsp-pas'', sm8250_adsp_resource),
    (''qcom,sc8280xp-nsp0-pas'', sc8280xp_nsp0_resource),
    (''qcom,sc8280xp-nsp1-pas'', sc8280xp_nsp1_resource),
    (''qcom,sdm660-adsp-pas'', adsp_resource_init),
    (''qcom,sdm845-adsp-pas'', sdm845_adsp_resource_init),
    (''qcom,sdm845-cdsp-pas'', sdm845_cdsp_resource_init),
    (''qcom,sdm845-slpi-pas'', sdm845_slpi_resource_init),
    (''qcom,sdx55-mpss-pas'', sdx55_mpss_resource),
    (''qcom,sdx75-mpss-pas'', sm8650_mpss_resource),
    (''qcom,sm6115-adsp-pas'', adsp_resource_init),
    (''qcom,sm6115-cdsp-pas'', cdsp_resource_init),
    (''qcom,sm6115-mpss-pas'', sc8180x_mpss_resource),
    (''qcom,sm6350-adsp-pas'', sm6350_adsp_resource),
    (''qcom,sm6350-cdsp-pas'', sm6350_cdsp_resource),
    (''qcom,sm6350-mpss-pas'', mpss_resource_init),
    (''qcom,sm6375-adsp-pas'', sm6350_adsp_resource),
    (''qcom,sm6375-cdsp-pas'', sm8150_cdsp_resource),
    (''qcom,sm6375-mpss-pas'', sm6375_mpss_resource),
    (''qcom,sm8150-adsp-pas'', sm8150_adsp_resource),
    (''qcom,sm8150-cdsp-pas'', sm8150_cdsp_resource),
    (''qcom,sm8150-mpss-pas'', mpss_resource_init),
    (''qcom,sm8150-slpi-pas'', sdm845_slpi_resource_init),
    (''qcom,sm8250-adsp-pas'', sm8250_adsp_resource),
    (''qcom,sm8250-cdsp-pas'', sm8250_cdsp_resource),
    (''qcom,sm8250-slpi-pas'', sdm845_slpi_resource_init),
    (''qcom,sm8350-adsp-pas'', sm8350_adsp_resource),
    (''qcom,sm8350-cdsp-pas'', sm8350_cdsp_resource),
    (''qcom,sm8350-slpi-pas'', sdm845_slpi_resource_init),
    (''qcom,sm8350-mpss-pas'', mpss_resource_init),
    (''qcom,sm8450-adsp-pas'', sm8350_adsp_resource),
    (''qcom,sm8450-cdsp-pas'', sm8350_cdsp_resource),
    (''qcom,sm8450-slpi-pas'', sdm845_slpi_resource_init),
    (''qcom,sm8450-mpss-pas'', sm8450_mpss_resource),
    (''qcom,sm8550-adsp-pas'', sm8550_adsp_resource),
    (''qcom,sm8550-cdsp-pas'', sm8550_cdsp_resource),
    (''qcom,sm8550-mpss-pas'', sm8550_mpss_resource),
    (''qcom,sm8650-adsp-pas'', sm8550_adsp_resource),
    (''qcom,sm8650-cdsp-pas'', sm8650_cdsp_resource),
    (''qcom,sm8650-mpss-pas'', sm8650_mpss_resource),
    (''qcom,sm8750-mpss-pas'', sm8750_mpss_resource),
    (''qcom,x1e80100-adsp-pas'', x1e80100_adsp_resource),
    (''qcom,x1e80100-cdsp-pas'', x1e80100_cdsp_resource)]"

definition MAX_ASSIGN_COUNT :: nat where "MAX_ASSIGN_COUNT = 3"

definition PROXY_PDS :: nat where "PROXY_PDS = 3"

text \<open>
  What the driver relies on in an entry without checking it: the array of proxy devices has
  room for the named domains, a device tree image has both a file name and an identifier, the
  regions to hand over lie behind those of the images and are no more than the arrays hold.
\<close>

definition pas_data_ok :: "qcom_pas_data \<Rightarrow> bool" where
  "pas_data_ok d \<longleftrightarrow>
    (case d_proxy_pd_names d of None \<Rightarrow> True | Some ns \<Rightarrow>
       0 < length ns \<and> length ns \<le> PROXY_PDS \<and> distinct ns) \<and>
    (d_dtb_firmware_name d \<noteq> None) = (d_dtb_pas_id d \<noteq> 0) \<and>
    d_pas_id d \<noteq> 0 \<and> d_pas_id d \<notin> {d_dtb_pas_id d, d_lite_pas_id d, d_lite_dtb_pas_id d} \<and>
    d_region_assign_count d \<le> MAX_ASSIGN_COUNT \<and>
    (d_region_assign_count d \<noteq> 0) = (d_region_assign_idx d \<noteq> 0) \<and>
    (d_region_assign_idx d \<noteq> 0 \<longrightarrow>
       (if d_dtb_pas_id d \<noteq> 0 then 2 else 1) \<le> d_region_assign_idx d \<and>
       d_region_assign_vmid d \<noteq> VMID_UNSET)"

lemmas pas_data_defs = no_data_def
  adsp_resource_init_def cdsp_resource_init_def milos_cdsp_resource_def mpss_resource_init_def
  msm8996_adsp_resource_def msm8996_slpi_resource_init_def sa8775p_adsp_resource_def
  sa8775p_cdsp0_resource_def sa8775p_cdsp1_resource_def sa8775p_gpdsp0_resource_def
  sa8775p_gpdsp1_resource_def sc7280_wpss_resource_def sc8180x_mpss_resource_def
  sc8280xp_nsp0_resource_def sc8280xp_nsp1_resource_def sdm845_adsp_resource_init_def
  sdm845_cdsp_resource_init_def sdm845_slpi_resource_init_def sdx55_mpss_resource_def
  sm6350_adsp_resource_def sm6350_cdsp_resource_def sm6375_mpss_resource_def
  sm8150_adsp_resource_def sm8150_cdsp_resource_def sm8250_adsp_resource_def
  sm8250_cdsp_resource_def sm8350_adsp_resource_def sm8350_cdsp_resource_def
  sm8450_mpss_resource_def sm8550_adsp_resource_def sm8550_cdsp_resource_def
  sm8550_mpss_resource_def sm8650_cdsp_resource_def sm8650_mpss_resource_def
  sm8750_mpss_resource_def wcss_resource_init_def x1e80100_adsp_resource_def
  x1e80100_cdsp_resource_def

lemma pas_entries_ok: "list_all (\<lambda>(c, d). pas_data_ok d) qcom_pas_of_match"
  by (simp add: qcom_pas_of_match_def pas_data_ok_def pas_data_defs PROXY_PDS_def MAX_ASSIGN_COUNT_def)

lemma pas_compatibles_distinct: "distinct (map fst qcom_pas_of_match)"
  by code_simp

end
