(* ===== verification/Remote_Pas_Probe.thy ===== *)
theory Remote_Pas_Probe
  imports Remote_Pas Remote_Pas_Data
begin

text \<open>
  Probe and removal of the loader (\<open>q6v5-pas-v6.18.c\<close>): what a probe takes, what each label of
  its error path gives back, and what is left behind. Everything the driver core owns on
  behalf of the device (clocks, supplies, mappings, interrupts) goes away with the device;
  the resources here are those the driver has to give back itself.
\<close>

datatype pas_res =
  Wakeup | Region nat | Pd_runtime | Pd nat | Qmp | Glink | Smd | Pdm | Sysmon | Ssr | Rproc

datatype attach_answer = Attached | Attach_null | Attach_error int

abbreviation ENODATA :: int where "ENODATA \<equiv> 61"

record mem_answer =
  ma_node :: bool
  ma_rmem :: bool
  ma_ioremap :: bool

record pas_probe_env =
  pe_desc :: "qcom_pas_data option"
  pe_scm_available :: bool
  pe_fw_name :: int
  pe_dtb_fw_name :: int
  pe_alloc :: bool
  pe_wakeup :: int
  pe_mem :: mem_answer
  pe_dtb_mem :: mem_answer
  pe_region_found :: "nat \<Rightarrow> bool"
  pe_assign :: "nat \<Rightarrow> int"
  pe_xo :: int
  pe_aggre2 :: int
  pe_cx :: int
  pe_px :: int
  pe_pm_domain :: bool
  pe_attach :: "nat \<Rightarrow> attach_answer"
  pe_q6v5 :: q6v5_init_env
  pe_sysmon :: int
  pe_rproc_add :: int

definition region_count :: "qcom_pas_data \<Rightarrow> nat" where
  "region_count d = min MAX_ASSIGN_COUNT (d_region_assign_count d)"

definition qcom_pas_init_clock :: "pas_probe_env \<Rightarrow> int" where
  "qcom_pas_init_clock e = (if pe_xo e \<noteq> 0 then pe_xo e else pe_aggre2 e)"

definition qcom_pas_init_regulator :: "pas_probe_env \<Rightarrow> int \<times> bool \<times> bool" where
  "qcom_pas_init_regulator e =
    (if pe_cx e \<noteq> 0 \<and> pe_cx e \<noteq> - ENODEV then (pe_cx e, False, False)
     else if pe_px e \<noteq> 0 \<and> pe_px e \<noteq> - ENODEV then (pe_px e, pe_cx e = 0, False)
     else (0, pe_cx e = 0, pe_px e = 0))"

definition alloc_region :: "mem_answer \<Rightarrow> int" where
  "alloc_region m = (if \<not> ma_node m then - EINVAL else if \<not> ma_rmem m then - EINVAL
    else if \<not> ma_ioremap m then - EBUSY else 0)"

definition qcom_pas_alloc_memory_region :: "pas_probe_env \<Rightarrow> qcom_pas_data \<Rightarrow> int" where
  "qcom_pas_alloc_memory_region e d =
    (if alloc_region (pe_mem e) \<noteq> 0 then alloc_region (pe_mem e)
     else if d_dtb_firmware_name d = None \<or> d_dtb_pas_id d = 0 then 0
     else alloc_region (pe_dtb_mem e))"

text \<open>The status, and how many regions are assigned when the loop ends.\<close>

function assign_from :: "pas_probe_env \<Rightarrow> nat \<Rightarrow> nat \<Rightarrow> int \<times> nat" where
  "assign_from e i n = (if i < n then
      if \<not> pe_region_found e i then (- EINVAL, i)
      else if pe_assign e i < 0 then (pe_assign e i, i)
      else assign_from e (Suc i) n
    else (0, i))"
  by pat_completeness auto
termination by (relation "measure (\<lambda>(e, i, n). n - i)") auto

declare assign_from.simps [simp del]

definition qcom_pas_assign_memory_region :: "pas_probe_env \<Rightarrow> qcom_pas_data \<Rightarrow> int \<times> nat" where
  "qcom_pas_assign_memory_region e d =
    (if d_region_assign_idx d = 0 then (0, 0) else assign_from e 0 (region_count d))"

definition qcom_pas_unassign_memory_region :: "qcom_pas_data \<Rightarrow> pas_res revent list" where
  "qcom_pas_unassign_memory_region d =
    (if d_region_assign_idx d = 0 \<or> d_region_assign_shared d then []
     else map (Rel \<circ> Region) [0..<region_count d])"

text \<open>The status or the number of domains, the trace, and what is attached.\<close>

function attach_from ::
  "pas_probe_env \<Rightarrow> nat \<Rightarrow> nat \<Rightarrow> int \<times> pas_res revent list \<times> pas_res list" where
  "attach_from e i n = (if i < n then
      (case pe_attach e i of
         Attached \<Rightarrow> attach_from e (Suc i) n
       | Attach_null \<Rightarrow>
           (- ENODATA, map (Acq \<circ> Pd) [0..<i] @ map (Rel \<circ> Pd) (rev [0..<i]), [])
       | Attach_error err \<Rightarrow>
           (err, map (Acq \<circ> Pd) [0..<i] @ map (Rel \<circ> Pd) (rev [0..<i]), []))
    else (int n, map (Acq \<circ> Pd) [0..<n], map Pd [0..<n]))"
  by pat_completeness auto
termination by (relation "measure (\<lambda>(e, i, n). n - i)") auto

declare attach_from.simps [simp del]

definition qcom_pas_pds_attach ::
  "pas_probe_env \<Rightarrow> qcom_pas_data \<Rightarrow> int \<times> pas_res revent list \<times> pas_res list" where
  "qcom_pas_pds_attach e d = (case d_proxy_pd_names d of
      None \<Rightarrow> (0, [], [])
    | Some ns \<Rightarrow>
        if length ns = 1 \<and> pe_pm_domain e then (1, [Acq Pd_runtime], [Pd_runtime])
        else attach_from e 0 (length ns))"

definition qcom_pas_pds_detach :: "pas_probe_env \<Rightarrow> nat \<Rightarrow> pas_res revent list" where
  "qcom_pas_pds_detach e n = (if n = 1 \<and> pe_pm_domain e then [Rel Pd_runtime]
    else map (Rel \<circ> Pd) [0..<n])"

definition q6v5_trace :: "unit revent list \<Rightarrow> pas_res revent list" where
  "q6v5_trace = map (\<lambda>ev. case ev of Acq _ \<Rightarrow> Acq Qmp | Rel _ \<Rightarrow> Rel Qmp)"

text \<open>
  The probe: the status, the trace, and for the removal the number of domains and whether
  the handle of the always-on processor is held. The labels of the error path are the lists
  of releases, each ending in the next.
\<close>

definition qcom_pas_probe_device ::
  "pas_probe_env \<Rightarrow> qcom_pas_data \<Rightarrow> int \<times> pas_res revent list \<times> nat \<times> bool" where
  "qcom_pas_probe_device e d = (let
      free_rproc = [Rel Wakeup];
      unassign_mem = qcom_pas_unassign_memory_region d @ free_rproc;
      mem = qcom_pas_alloc_memory_region e d;
      (assign, k) = qcom_pas_assign_memory_region e d;
      t1 = [Acq Wakeup] @ map (Acq \<circ> Region) [0..<k];
      reg = fst (qcom_pas_init_regulator e);
      (pds, tp, devs) = qcom_pas_pds_attach e d;
      n = length devs;
      detach_proxy_pds = qcom_pas_pds_detach e n @ unassign_mem;
      (init, tq, qmp) = qcom_q6v5_init (pe_q6v5 e);
      t2 = t1 @ tp @ q6v5_trace tq;
      deinit = [Rel Pdm, Rel Smd, Rel Glink] @ q6v5_trace (qcom_q6v5_deinit qmp) @ detach_proxy_pds;
      t3 = t2 @ [Acq Glink, Acq Smd, Acq Pdm];
      remove_ssr_sysmon = [Rel Ssr, Rel Sysmon] @ deinit;
      t4 = t3 @ [Acq Sysmon, Acq Ssr]
    in if pe_wakeup e \<noteq> 0 then (pe_wakeup e, [], 0, False)
    else if mem \<noteq> 0 then (mem, [Acq Wakeup] @ free_rproc, 0, False)
    else if assign \<noteq> 0 then (assign, t1 @ free_rproc, 0, False)
    else if qcom_pas_init_clock e \<noteq> 0 then (qcom_pas_init_clock e, t1 @ unassign_mem, 0, False)
    else if reg \<noteq> 0 then (reg, t1 @ unassign_mem, 0, False)
    else if pds < 0 then (pds, t1 @ tp @ unassign_mem, 0, False)
    else if init \<noteq> 0 then (init, t2 @ detach_proxy_pds, 0, False)
    else if pe_sysmon e \<noteq> 0 then (pe_sysmon e, t3 @ deinit, 0, False)
    else if pe_rproc_add e \<noteq> 0 then (pe_rproc_add e, t4 @ remove_ssr_sysmon, 0, False)
    else (0, t4 @ [Acq Rproc], n, qmp))"

definition qcom_pas_probe ::
  "pas_probe_env \<Rightarrow> int \<times> pas_res revent list \<times> nat \<times> bool" where
  "qcom_pas_probe e = (case pe_desc e of
      None \<Rightarrow> (- EINVAL, [], 0, False)
    | Some d \<Rightarrow>
        if \<not> pe_scm_available e then (- EPROBE_DEFER, [], 0, False)
        else if pe_fw_name e < 0 \<and> pe_fw_name e \<noteq> - EINVAL then (pe_fw_name e, [], 0, False)
        else if d_dtb_firmware_name d \<noteq> None \<and> pe_dtb_fw_name e < 0 \<and>
          pe_dtb_fw_name e \<noteq> - EINVAL then (pe_dtb_fw_name e, [], 0, False)
        else if \<not> pe_alloc e then (- ENOMEM, [], 0, False)
        else qcom_pas_probe_device e d)"

definition qcom_pas_remove ::
  "pas_probe_env \<Rightarrow> qcom_pas_data \<Rightarrow> nat \<Rightarrow> bool \<Rightarrow> pas_res revent list" where
  "qcom_pas_remove e d n qmp = [Rel Rproc] @ q6v5_trace (qcom_q6v5_deinit qmp) @
    qcom_pas_unassign_memory_region d @
    [Rel Glink, Rel Sysmon, Rel Smd, Rel Pdm, Rel Ssr] @
    qcom_pas_pds_detach e n @ [Rel Wakeup]"

text \<open>One life of the device: a probe and, when it succeeds, the removal.\<close>

definition pas_cycle :: "pas_probe_env \<Rightarrow> pas_res revent list" where
  "pas_cycle e = (let (ret, t, n, qmp) = qcom_pas_probe e in
    (case pe_desc e of None \<Rightarrow> t | Some d \<Rightarrow> if ret = 0 then t @ qcom_pas_remove e d n qmp else t))"

text \<open>Acquisitions pile up; releases of distinct held resources take them out, in any order.\<close>

lemma res_run_acquire: "res_run (map (Acq \<circ> f) xs) h = Some (rev (map f xs) @ h)"
  by (induction xs arbitrary: h) simp_all

lemma res_run_release:
  "distinct rs \<Longrightarrow> set rs \<subseteq> set h \<Longrightarrow> distinct h \<Longrightarrow>
   res_run (map Rel rs) h = Some (filter (\<lambda>r. r \<notin> set rs) h)"
proof (induction rs arbitrary: h)
  case (Cons x rs)
  have "filter (\<lambda>r. r \<notin> set rs) (remove1 x h) = filter (\<lambda>r. r \<notin> set (x # rs)) h"
    using Cons.prems(3) by (auto simp: distinct_remove1_removeAll removeAll_filter_not_eq
        intro!: filter_cong)
  then show ?case
    using Cons.IH [of "remove1 x h"] Cons.prems by auto
qed simp

lemma balanced_release_all:
  "res_run t [] = Some h \<Longrightarrow> distinct h \<Longrightarrow> distinct rs \<Longrightarrow> set rs = set h \<Longrightarrow>
   balanced (t @ map Rel rs)"
  by (simp add: balanced_def res_run_append res_run_release)

lemma assign_from_le: "assign_from e i n = (ret, k) \<Longrightarrow> i \<le> n \<Longrightarrow> i \<le> k \<and> k \<le> n \<and> (ret = 0 \<longrightarrow> k = n)"
proof (induction e i n rule: assign_from.induct)
  case (1 e i n)
  show ?case
    using 1(2) [unfolded assign_from.simps [of e i n]] 1(1) 1(3) by (auto split: if_splits)
qed

definition attach_ok :: "pas_probe_env \<Rightarrow> bool" where
  "attach_ok e \<longleftrightarrow> (\<forall>i err. pe_attach e i = Attach_error err \<longrightarrow> err < 0)"

lemma attach_from_trace:
  "attach_from e i n = (ret, t, devs) \<Longrightarrow> i \<le> n \<Longrightarrow> attach_ok e \<Longrightarrow>
   (if ret < 0 then \<exists>j. t = map (Acq \<circ> Pd) [0..<j] @ map (Rel \<circ> Pd) (rev [0..<j])
    else t = map (Acq \<circ> Pd) [0..<n] \<and> devs = map Pd [0..<n])"
proof (induction e i n rule: attach_from.induct)
  case (1 e i n)
  show ?case
  proof (cases "i < n")
    case True
    then show ?thesis
      using 1(2) [unfolded attach_from.simps [of e i n]] 1(1) [OF True] 1(3,4)
      by (cases "pe_attach e i") (auto simp: attach_ok_def)
  next
    case False
    then show ?thesis
      using 1(2) [unfolded attach_from.simps [of e i n]] 1(3) by auto
  qed
qed

text \<open>The attached domains, seen from outside: either all of them, or none of them.\<close>

lemma pds_attach_cases:
  assumes "qcom_pas_pds_attach e d = (ret, t, devs)" "attach_ok e"
  obtains (nothing) "ret = 0" "t = []" "devs = []"
    | (single) "pe_pm_domain e" "ret = 1" "t = [Acq Pd_runtime]" "devs = [Pd_runtime]"
    | (failed) j where "ret < 0" "t = map (Acq \<circ> Pd) [0..<j] @ map (Rel \<circ> Pd) (rev [0..<j])"
    | (every) n where "\<not> ret < 0" "t = map (Acq \<circ> Pd) [0..<n]" "devs = map Pd [0..<n]"
        "\<not> (n = 1 \<and> pe_pm_domain e)"
proof (cases "d_proxy_pd_names d")
  case None
  show ?thesis
    by (rule nothing) (use None assms(1) in \<open>auto simp: qcom_pas_pds_attach_def\<close>)
next
  case (Some ns)
  show ?thesis
  proof (cases "length ns = 1 \<and> pe_pm_domain e")
    case True
    show ?thesis
      by (rule single) (use True Some assms(1) in \<open>auto simp: qcom_pas_pds_attach_def\<close>)
  next
    case False
    then have "attach_from e 0 (length ns) = (ret, t, devs)"
      using Some assms(1) by (auto simp: qcom_pas_pds_attach_def)
    from attach_from_trace [OF this _ assms(2)] show ?thesis
      using failed every [of "length ns"] False by (auto split: if_splits)
  qed
qed

lemma pds_attach_held:
  assumes "qcom_pas_pds_attach e d = (ret, t, devs)" "attach_ok e"
  shows "res_run t h = Some (if ret < 0 then h else rev devs @ h) \<and>
    (\<not> ret < 0 \<longrightarrow> distinct devs \<and> set devs \<subseteq> insert Pd_runtime (range Pd) \<and>
      qcom_pas_pds_detach e (length devs) = map Rel devs)"
  using assms
proof (cases rule: pds_attach_cases)
  case (failed j)
  have "balanced (map (Acq \<circ> Pd) [0..<j] @ map Rel (map Pd (rev [0..<j])))"
    by (rule balanced_release_all [OF res_run_acquire]) (simp_all add: distinct_map inj_on_def)
  then show ?thesis
    using failed balanced_frame [of t h] by simp
next
  case (every n)
  then show ?thesis
    by (auto simp: qcom_pas_pds_detach_def distinct_map inj_on_def res_run_acquire)
qed (simp_all add: qcom_pas_pds_detach_def)

lemma q6v5_trace_held:
  "qcom_q6v5_init i = (ret, t, qmp) \<Longrightarrow>
   res_run (q6v5_trace t) h = Some ((if qmp then [Qmp] else []) @ h)"
  by (auto simp: qcom_q6v5_init_def q6v5_trace_def Let_def split: if_splits)

lemma q6v5_trace_deinit: "q6v5_trace (qcom_q6v5_deinit qmp) = map Rel (if qmp then [Qmp] else [])"
  by (simp add: qcom_q6v5_deinit_def q6v5_trace_def)

text \<open>
  The two failures that leave something behind: a region cannot be assigned after others
  were, and the interconnect path cannot be had after the handle was taken.
\<close>

definition regions_left :: "pas_probe_env \<Rightarrow> qcom_pas_data \<Rightarrow> nat" where
  "regions_left e d = (case qcom_pas_assign_memory_region e d of (ret, k) \<Rightarrow> if ret \<noteq> 0 then k else 0)"

definition qmp_left :: "pas_probe_env \<Rightarrow> bool" where
  "qmp_left e \<longleftrightarrow> (case qcom_q6v5_init (pe_q6v5 e) of (ret, _, qmp) \<Rightarrow> ret \<noteq> 0 \<and> qmp)"

lemma unassign_regions:
  "qcom_pas_assign_memory_region e d = (0, k) \<Longrightarrow> \<not> d_region_assign_shared d \<Longrightarrow>
   qcom_pas_unassign_memory_region d = map Rel (map Region [0..<k])"
  using assign_from_le [of e 0 "region_count d" 0 k]
  by (auto simp: qcom_pas_assign_memory_region_def qcom_pas_unassign_memory_region_def
      split: if_splits)

text \<open>Each label fits the point it is jumped to from; \<open>regs\<close>, \<open>ds\<close>, \<open>qs\<close> are what is held.\<close>

lemma pas_labels_balanced:
  assumes "distinct regs" "set regs \<subseteq> range Region" "distinct ds"
    and "set ds \<subseteq> insert Pd_runtime (range Pd)" "distinct qs" "set qs \<subseteq> {Qmp}"
    and t1: "res_run t1 [] = Some (rev regs @ [Wakeup])"
    and tp: "\<And>h. res_run tp h = Some (rev ds @ h)"
    and tq: "\<And>h. res_run tq h = Some (qs @ h)"
  shows "balanced (t1 @ map Rel (regs @ [Wakeup]))"
    and "balanced (t1 @ tp @ map Rel (ds @ regs @ [Wakeup]))"
    and "balanced (t1 @ tp @ tq @ map Rel (qs @ ds @ regs @ [Wakeup]))"
    and "balanced (t1 @ tp @ tq @ [Acq Glink, Acq Smd, Acq Pdm] @
      map Rel ([Pdm, Smd, Glink] @ qs @ ds @ regs @ [Wakeup]))"
    and "balanced (t1 @ tp @ tq @ [Acq Glink, Acq Smd, Acq Pdm, Acq Sysmon, Acq Ssr] @
      map Rel ([Ssr, Sysmon, Pdm, Smd, Glink] @ qs @ ds @ regs @ [Wakeup]))"
    and "balanced (t1 @ tp @ tq @ [Acq Glink, Acq Smd, Acq Pdm, Acq Sysmon, Acq Ssr, Acq Rproc] @
      map Rel ([Rproc] @ qs @ regs @ [Glink, Sysmon, Smd, Pdm, Ssr] @ ds @ [Wakeup]))"
proof -
  have bal: "balanced (t1 @ u @ map Rel rs)"
    if "res_run u (rev regs @ [Wakeup]) = Some h" "distinct h" "distinct rs" "set rs = set h" for u h rs
    using balanced_release_all [of "t1 @ u" h rs] t1 that by (simp add: res_run_append)
  note held = res_run_append tp tq
  show "balanced (t1 @ map Rel (regs @ [Wakeup]))"
    using bal [of "[]" "rev regs @ [Wakeup]" "regs @ [Wakeup]"] assms by (auto simp: held)
  show "balanced (t1 @ tp @ map Rel (ds @ regs @ [Wakeup]))"
    using bal [of tp "rev ds @ rev regs @ [Wakeup]" "ds @ regs @ [Wakeup]"] assms by (auto simp: held)
  show "balanced (t1 @ tp @ tq @ map Rel (qs @ ds @ regs @ [Wakeup]))"
    using bal [of "tp @ tq" "qs @ rev ds @ rev regs @ [Wakeup]" "qs @ ds @ regs @ [Wakeup]"] assms
    by (auto simp: held)
  from this [folded append_assoc] show b: "balanced (t1 @ tp @ tq @ [Acq Glink, Acq Smd, Acq Pdm] @
      map Rel ([Pdm, Smd, Glink] @ qs @ ds @ regs @ [Wakeup]))"
    using balanced_nested [of "t1 @ tp @ tq" "map Rel (qs @ ds @ regs @ [Wakeup])"
        "[Acq Glink, Acq Smd, Acq Pdm, Rel Pdm, Rel Smd, Rel Glink]"]
    by (simp add: balanced_def [of "[Acq _, Acq _, Acq _, Rel _, Rel _, Rel _]"])
  show "balanced (t1 @ tp @ tq @ [Acq Glink, Acq Smd, Acq Pdm, Acq Sysmon, Acq Ssr] @
      map Rel ([Ssr, Sysmon, Pdm, Smd, Glink] @ qs @ ds @ regs @ [Wakeup]))"
    using balanced_nested [of "t1 @ tp @ tq @ [Acq Glink, Acq Smd, Acq Pdm]"
        "map Rel ([Pdm, Smd, Glink] @ qs @ ds @ regs @ [Wakeup])"
        "[Acq Sysmon, Acq Ssr, Rel Ssr, Rel Sysmon]"] b
    by (simp add: balanced_def [of "[Acq _, Acq _, Rel _, Rel _]"])
  show "balanced (t1 @ tp @ tq @ [Acq Glink, Acq Smd, Acq Pdm, Acq Sysmon, Acq Ssr, Acq Rproc] @
      map Rel ([Rproc] @ qs @ regs @ [Glink, Sysmon, Smd, Pdm, Ssr] @ ds @ [Wakeup]))"
    using bal [of "tp @ tq @ [Acq Glink, Acq Smd, Acq Pdm, Acq Sysmon, Acq Ssr, Acq Rproc]"
        "[Rproc, Ssr, Sysmon, Pdm, Smd, Glink] @ qs @ rev ds @ rev regs @ [Wakeup]"
        "[Rproc] @ qs @ regs @ [Glink, Sysmon, Smd, Pdm, Ssr] @ ds @ [Wakeup]"] assms
    by (auto simp: held)
qed

lemma pas_device_balanced:
  assumes "qcom_pas_probe_device e d = (ret, t, n, qmp)"
    and "attach_ok e" "\<not> d_region_assign_shared d" "regions_left e d = 0" "\<not> qmp_left e"
  shows "balanced (if ret = 0 then t @ qcom_pas_remove e d n qmp else t)"
proof -
  obtain a k where assign: "qcom_pas_assign_memory_region e d = (a, k)"
    by (cases "qcom_pas_assign_memory_region e d")
  obtain r tp devs where pds: "qcom_pas_pds_attach e d = (r, tp, devs)"
    by (cases "qcom_pas_pds_attach e d") auto
  obtain i tq q where init: "qcom_q6v5_init (pe_q6v5 e) = (i, tq, q)"
    by (cases "qcom_q6v5_init (pe_q6v5 e)") auto
  let ?regs = "map Region [0..<k]"
  let ?qs = "if q then [Qmp] else []"
  let ?ds = "if r < 0 then [] else devs"
  let ?t1 = "[Acq Wakeup] @ map (Acq \<circ> Region) [0..<k]"
  note p = pds_attach_held [OF pds assms(2)]
  note q = q6v5_trace_held [OF init]
  have regs: "distinct ?regs" "set ?regs \<subseteq> range Region" "distinct ?qs" "set ?qs \<subseteq> {Qmp}"
    by (auto simp: distinct_map inj_on_def)
  have ds: "distinct ?ds" "set ?ds \<subseteq> insert Pd_runtime (range Pd)" "res_run tp h = Some (rev ?ds @ h)" for h
    using p [of h] by auto
  have t1: "res_run ?t1 [] = Some (rev ?regs @ [Wakeup])"
    by (simp add: res_run_acquire)
  note labels = pas_labels_balanced [OF regs(1,2) ds(1,2) regs(3,4) t1 ds(3) q]
  have un: "qcom_pas_unassign_memory_region d = map Rel ?regs" if "a = 0"
    using unassign_regions [of e d k] assign assms(3) that by simp
  have kq: "k = 0" if "a \<noteq> 0"
    using assms(4) assign that by (simp add: regions_left_def)
  have qi: "\<not> q" if "i \<noteq> 0"
    using assms(5) init that by (simp add: qmp_left_def)
  show ?thesis
    using assms(1) labels un kq qi p [of "[]"]
    by (auto simp: qcom_pas_probe_device_def assign pds init q6v5_trace_deinit qcom_pas_remove_def Let_def
        balanced_def [of "[]"] balanced_def [of "[Acq _, Rel _]"] split: if_splits)
qed

section \<open>The loader as a module\<close>

text \<open>
  The answers under which a life of the device leaves nothing behind. A region that is
  shared with the processor is never taken back, by the design of the driver.
\<close>

definition pas_clean :: "pas_probe_env \<Rightarrow> bool" where
  "pas_clean e \<longleftrightarrow> attach_ok e \<and> (case pe_desc e of None \<Rightarrow> True | Some d \<Rightarrow>
    \<not> d_region_assign_shared d \<and> regions_left e d = 0 \<and> \<not> qmp_left e)"

definition pas_load_module ::
  "pas_probe_env \<Rightarrow> int \<times> pas_res revent list \<times> (qcom_pas_data \<times> nat \<times> bool) option" where
  "pas_load_module e = (case qcom_pas_probe e of (ret, t, n, qmp) \<Rightarrow>
    (ret, t, map_option (\<lambda>d. (d, n, qmp)) (pe_desc e)))"

definition pas_unload_module ::
  "pas_probe_env \<Rightarrow> (qcom_pas_data \<times> nat \<times> bool) option \<Rightarrow> pas_res revent list" where
  "pas_unload_module e st = (case st of None \<Rightarrow> [] | Some (d, n, qmp) \<Rightarrow> qcom_pas_remove e d n qmp)"

lemma pas_probe_balanced:
  assumes "pas_clean e" "qcom_pas_probe e = (ret, t, n, qmp)"
  shows "ret \<noteq> 0 \<Longrightarrow> balanced t"
    and "ret = 0 \<Longrightarrow> \<exists>d. pe_desc e = Some d \<and> balanced (t @ qcom_pas_remove e d n qmp)"
  using assms pas_device_balanced [of e _ ret t n qmp]
  by (auto simp: qcom_pas_probe_def pas_clean_def balanced_def [of "[]"]
      split: option.splits if_splits)

interpretation pas_module: module_lifecycle pas_clean pas_load_module pas_unload_module
proof (unfold_locales)
  fix e ret t s
  assume "pas_clean e"
  note probe = pas_probe_balanced [OF this]
  show "balanced t" if "pas_load_module e = (ret, t, s)" "ret \<noteq> 0"
    using probe(1) that by (auto simp: pas_load_module_def split: prod.splits)
  show "balanced (t @ pas_unload_module e s)" if "pas_load_module e = (0, t, s)"
    using probe(2) that
    by (fastforce simp: pas_load_module_def pas_unload_module_def split: prod.splits)
qed

lemma pas_module_cycle: "pas_module.cycle = pas_cycle"
  by (rule ext) (auto simp: pas_module.cycle_def pas_cycle_def pas_load_module_def
      pas_unload_module_def split: prod.splits option.splits)

text \<open>
  C13. Over any number of lives of the device, each with its own answers of the kernel
  services, probe and removal of the loader release exactly what they acquired, whatever
  fails; except when a memory region is refused after others were handed over, when the
  interconnect is refused after the handle of the always-on processor was taken, or when
  the regions are shared on purpose.
\<close>

theorem pas_lifecycle:
  assumes "list_all pas_clean es"
  shows "balanced (concat (map pas_cycle es))"
  using pas_module.cycles_balanced [OF assms] by (simp add: pas_module_cycle)

definition good_irqs :: q6v5_init_env where
  "good_irqs = \<lparr>qi_get_irq = (\<lambda>_. 5), qi_request_irq = (\<lambda>_. 0), qi_state = 0, qi_qmp = 0,
    qi_load_state = True, qi_kstrdup = True, qi_icc = 0\<rparr>"

definition good_probe :: "qcom_pas_data \<Rightarrow> pas_probe_env" where
  "good_probe d = \<lparr>pe_desc = Some d, pe_scm_available = True, pe_fw_name = 0, pe_dtb_fw_name = 0,
    pe_alloc = True, pe_wakeup = 0, pe_mem = \<lparr>ma_node = True, ma_rmem = True, ma_ioremap = True\<rparr>,
    pe_dtb_mem = \<lparr>ma_node = True, ma_rmem = True, ma_ioremap = True\<rparr>,
    pe_region_found = (\<lambda>_. True), pe_assign = (\<lambda>_. 0), pe_xo = 0, pe_aggre2 = 0,
    pe_cx = - ENODEV, pe_px = - ENODEV, pe_pm_domain = False, pe_attach = (\<lambda>_. Attached),
    pe_q6v5 = good_irqs, pe_sysmon = 0, pe_rproc_add = 0\<rparr>"

theorem pas_lifecycle_witness:
  "list_all pas_clean [good_probe sm8150_adsp_resource,
     (good_probe sm8150_adsp_resource)\<lparr>pe_rproc_add := - ENOMEM\<rparr>] \<and>
   balanced (concat (map pas_cycle [good_probe sm8150_adsp_resource,
     (good_probe sm8150_adsp_resource)\<lparr>pe_rproc_add := - ENOMEM\<rparr>]))"
proof -
  have clean: "list_all pas_clean [good_probe sm8150_adsp_resource,
     (good_probe sm8150_adsp_resource)\<lparr>pe_rproc_add := - ENOMEM\<rparr>]"
    by (simp add: pas_clean_def good_probe_def attach_ok_def sm8150_adsp_resource_def no_data_def
        regions_left_def qcom_pas_assign_memory_region_def qmp_left_def good_irqs_def
        qcom_q6v5_init_def)
  show ?thesis
    using clean pas_lifecycle [OF clean] by blast
qed

text \<open>
  When the secure world refuses a memory region after it has accepted the ones before
  it, the probe fails and those stay with the remote processor: the error path skips the
  label that takes them back.
\<close>

theorem pas_regions_leak:
  assumes "pe_desc e = Some d" "pe_scm_available e" "pe_fw_name e = 0" "pe_dtb_fw_name e = 0"
    "pe_alloc e" "pe_wakeup e = 0" "qcom_pas_alloc_memory_region e d = 0" "regions_left e d = k"
    "fst (qcom_pas_assign_memory_region e d) \<noteq> 0"
  shows "res_run (pas_cycle e) [] = Some (rev (map Region [0..<k]))"
proof -
  obtain a where assign: "qcom_pas_assign_memory_region e d = (a, k)" "a \<noteq> 0"
    using assms(8,9) by (auto simp: regions_left_def split: prod.splits if_splits)
  have "qcom_pas_probe e = (a, [Acq Wakeup] @ map (Acq \<circ> Region) [0..<k] @ [Rel Wakeup], 0, False)"
    using assms(1-7) assign
    by (simp add: qcom_pas_probe_def qcom_pas_probe_device_def Let_def split_beta)
  then show ?thesis
    using assms(1) assign(2)
    by (auto simp: pas_cycle_def res_run_append res_run_acquire remove1_append)
qed

theorem pas_regions_leak_witness:
  "res_run (pas_cycle ((good_probe sm8650_mpss_resource)
      \<lparr>pe_assign := (\<lambda>i. if i < 2 then 0 else - EINVAL)\<rparr>)) [] = Some [Region 1, Region 0]"
proof -
  let ?e = "(good_probe sm8650_mpss_resource)\<lparr>pe_assign := (\<lambda>i. if i < 2 then 0 else - EINVAL)\<rparr>"
  have run: "qcom_pas_assign_memory_region ?e sm8650_mpss_resource = (- EINVAL, 2)"
    by (simp add: qcom_pas_assign_memory_region_def sm8650_mpss_resource_def no_data_def
        region_count_def MAX_ASSIGN_COUNT_def good_probe_def assign_from.simps numeral_eq_Suc)
  have "res_run (pas_cycle ?e) [] = Some (rev (map Region [0..<2]))"
    by (rule pas_regions_leak [where d = sm8650_mpss_resource])
      (simp_all add: run regions_left_def, simp_all add: good_probe_def
        qcom_pas_alloc_memory_region_def alloc_region_def)
  then show ?thesis
    by (simp add: numeral_2_eq_2)
qed


end
