(* ===== verification/Qrtr_Ns_User.thy ===== *)
theory Qrtr_Ns_User
  imports Qrtr_Ns
begin

text \<open>
  \<^verbatim>\<open>qrtr-ns-v1.1.c\<close>: the name service as a user-space program, the reference the kernel's
  name service was written after. Its hash map and its hash function are a library of their
  own that is not among the sources; here they are the parameter \<open>ns_libs\<close>, with the laws the
  program relies on as \<open>libs_ok\<close>. Allocation, \<open>map_create\<close> and \<open>sendto\<close> are answers of the
  environment by the number of the call. A handler that ends the program
  (\<open>LOGE_AND_EXIT\<close>) gives \<open>None\<close>. A loop that deletes from a map while it visits it is taken to
  visit the entries the map had when the loop began.
\<close>

section \<open>The map library\<close>

record ('t, 'v) map_ops =
  mo_ok :: "'t \<Rightarrow> bool"
  mo_empty :: 't
  mo_get :: "'t \<Rightarrow> u32 \<Rightarrow> 'v option"
  mo_put :: "'t \<Rightarrow> u32 \<Rightarrow> 'v \<Rightarrow> 't"
  mo_remove :: "'t \<Rightarrow> u32 \<Rightarrow> 't"
  mo_entries :: "'t \<Rightarrow> (u32 \<times> 'v) list"

definition map_laws :: "('t, 'v) map_ops \<Rightarrow> bool" where
  "map_laws m \<longleftrightarrow> mo_ok m (mo_empty m) \<and> (\<forall>k. mo_get m (mo_empty m) k = None) \<and>
    (\<forall>t k v. mo_ok m t \<longrightarrow> mo_ok m (mo_put m t k v) \<and>
       (\<forall>k'. mo_get m (mo_put m t k v) k' = (if k' = k then Some v else mo_get m t k'))) \<and>
    (\<forall>t k. mo_ok m t \<longrightarrow> mo_ok m (mo_remove m t k) \<and>
       (\<forall>k'. mo_get m (mo_remove m t k) k' = (if k' = k then None else mo_get m t k'))) \<and>
    (\<forall>t. mo_ok m t \<longrightarrow> map_of (mo_entries m t) = mo_get m t)"

record ('n, 's) ns_libs =
  lb_nodes :: "('n, 's) map_ops"
  lb_services :: "('s, qrtr_server) map_ops"
  lb_hash :: "u32 \<Rightarrow> u32"

definition libs_ok :: "('n, 's) ns_libs \<Rightarrow> bool" where
  "libs_ok lb \<longleftrightarrow> map_laws (lb_nodes lb) \<and> map_laws (lb_services lb) \<and> inj (lb_hash lb)"

section \<open>State\<close>

datatype user_msg = Pkt qrtr_ctrl_pkt | Raw bytes

record 'n user_ns =
  us_nodes :: 'n
  us_lookups :: "qrtr_lookup list"
  us_local_node :: u32
  us_sock :: bool
  us_tick :: nat
  us_nomem :: "nat \<Rightarrow> bool"
  us_result :: "nat \<Rightarrow> int"
  us_stack :: "nat \<Rightarrow> u32"
  us_sent :: "(sockaddr_qrtr \<times> user_msg) list"

definition user_call :: "'n user_ns \<Rightarrow> 'n user_ns" where
  "user_call s = s\<lparr>us_tick := Suc (us_tick s)\<rparr>"

definition user_send :: "sockaddr_qrtr \<Rightarrow> user_msg \<Rightarrow> 'n user_ns \<Rightarrow> int \<times> 'n user_ns" where
  "user_send dest msg s =
     (us_result s (us_tick s), (user_call s)\<lparr>us_sent := us_sent s @ [(dest, msg)]\<rparr>)"

section \<open>Servers\<close>

definition user_services :: "('n, 's) ns_libs \<Rightarrow> 'n user_ns \<Rightarrow> u32 \<Rightarrow> 's" where
  "user_services lb s node = (case mo_get (lb_nodes lb) (us_nodes s) (lb_hash lb node) of
     None \<Rightarrow> mo_empty (lb_services lb) | Some t \<Rightarrow> t)"

definition set_services :: "('n, 's) ns_libs \<Rightarrow> u32 \<Rightarrow> 's \<Rightarrow> 'n user_ns \<Rightarrow> 'n user_ns" where
  "set_services lb node t s =
     s\<lparr>us_nodes := mo_put (lb_nodes lb) (us_nodes s) (lb_hash lb node) t\<rparr>"

definition user_node_get :: "('n, 's) ns_libs \<Rightarrow> u32 \<Rightarrow> 'n user_ns \<Rightarrow> (bool \<times> 'n user_ns) option" where
  "user_node_get lb node_id s =
     (case mo_get (lb_nodes lb) (us_nodes s) (lb_hash lb node_id) of
        Some _ \<Rightarrow> Some (True, s)
      | None \<Rightarrow>
          (let s1 = user_call s; s2 = user_call s1; s3 = user_call s2 in
           if us_nomem s (us_tick s) then Some (False, s1)
           else if us_nomem s (us_tick s1) then None
           else if us_nomem s (us_tick s2) then Some (False, s3)
           else Some (True, set_services lb node_id (mo_empty (lb_services lb)) s3)))"

definition user_server_match :: "qrtr_server \<Rightarrow> qrtr_server_filter \<Rightarrow> bool" where
  "user_server_match srv f =
     (let ifilter = flt_ifilter f in
      if flt_service f \<noteq> 0 \<and> srv_service srv \<noteq> flt_service f then False
      else (let ifilter = (if ifilter = 0 \<and> flt_instance f \<noteq> 0 then NOT 0 else ifilter) in
            (srv_instance srv AND ifilter) = flt_instance f))"

definition user_server_query :: "('n, 's) ns_libs \<Rightarrow> qrtr_server_filter \<Rightarrow> 'n user_ns \<Rightarrow> qrtr_server list" where
  "user_server_query lb f s = concat (map (\<lambda>(_, t).
     filter (\<lambda>srv. user_server_match srv f) (map snd (mo_entries (lb_services lb) t)))
     (mo_entries (lb_nodes lb) (us_nodes s)))"

definition user_announce_new :: "uapi \<Rightarrow> sockaddr_qrtr \<Rightarrow> qrtr_server \<Rightarrow> 'n user_ns \<Rightarrow> int \<times> 'n user_ns" where
  "user_announce_new u dest srv = user_send dest (Pkt (server_pkt (ua_cmd u CMD_NEW_SERVER) srv))"

definition user_announce_del :: "uapi \<Rightarrow> sockaddr_qrtr \<Rightarrow> qrtr_server \<Rightarrow> 'n user_ns \<Rightarrow> int \<times> 'n user_ns" where
  "user_announce_del u dest srv = user_send dest (Pkt (server_pkt (ua_cmd u CMD_DEL_SERVER) srv))"

definition user_lookup_notify ::
  "uapi \<Rightarrow> sockaddr_qrtr \<Rightarrow> qrtr_server option \<Rightarrow> bool \<Rightarrow> 'n user_ns \<Rightarrow> 'n user_ns" where
  "user_lookup_notify u to srv new s =
     (let cmd = (if new then ua_cmd u CMD_NEW_SERVER else ua_cmd u CMD_DEL_SERVER);
          pkt = (case srv of None \<Rightarrow> \<lparr>cp_cmd = cmd, cp_w0 = 0, cp_w1 = 0, cp_w2 = 0, cp_w3 = 0\<rparr>
                 | Some x \<Rightarrow> server_pkt cmd x)
      in snd (user_send to (Pkt pkt) s))"

fun user_announce_loop :: "uapi \<Rightarrow> sockaddr_qrtr \<Rightarrow> qrtr_server list \<Rightarrow> 'n user_ns \<Rightarrow> int \<times> 'n user_ns" where
  "user_announce_loop u sq [] s = (0, s)"
| "user_announce_loop u sq (srv # srvs) s =
     (case user_announce_new u sq srv s of (rc, s1) \<Rightarrow>
      if rc < 0 then (rc, s1) else user_announce_loop u sq srvs s1)"

definition servers_of :: "('n, 's) ns_libs \<Rightarrow> 'n user_ns \<Rightarrow> u32 \<Rightarrow> qrtr_server list" where
  "servers_of lb s node = map snd (mo_entries (lb_services lb) (user_services lb s node))"

definition annouce_servers ::
  "('n, 's) ns_libs \<Rightarrow> uapi \<Rightarrow> sockaddr_qrtr \<Rightarrow> 'n user_ns \<Rightarrow> (int \<times> 'n user_ns) option" where
  "annouce_servers lb u sq s =
     (case user_node_get lb (us_local_node s) s of None \<Rightarrow> None | Some (got, s1) \<Rightarrow>
      if \<not> got then Some (0, s1)
      else Some (user_announce_loop u sq (servers_of lb s1 (us_local_node s1)) s1))"

definition user_server_add ::
  "('n, 's) ns_libs \<Rightarrow> u32 \<Rightarrow> u32 \<Rightarrow> u32 \<Rightarrow> u32 \<Rightarrow> 'n user_ns \<Rightarrow>
   (qrtr_server option \<times> 'n user_ns) option" where
  "user_server_add lb service inst node_id port s =
     (if service = 0 \<or> port = 0 then Some (None, s)
      else if us_nomem s (us_tick s) then Some (None, user_call s)
      else (case user_node_get lb node_id (user_call s) of None \<Rightarrow> None | Some (node, s2) \<Rightarrow>
        if \<not> node then Some (None, s2)
        else if us_nomem s2 (us_tick s2) then Some (None, user_call s2)
        else (let srv = \<lparr>srv_service = service, srv_instance = inst, srv_node = node_id, srv_port = port\<rparr>;
                  t = mo_put (lb_services lb) (user_services lb s2 node_id) (lb_hash lb port) srv
              in Some (Some srv, set_services lb node_id t (user_call s2)))))"

fun user_notify_lookups :: "uapi \<Rightarrow> qrtr_server \<Rightarrow> bool \<Rightarrow> qrtr_lookup list \<Rightarrow> 'n user_ns \<Rightarrow> 'n user_ns" where
  "user_notify_lookups u srv new [] s = s"
| "user_notify_lookups u srv new (lk # lks) s =
     user_notify_lookups u srv new lks
       (if lk_service lk \<noteq> 0 \<and> lk_service lk \<noteq> srv_service srv then s
        else if lk_instance lk \<noteq> 0 \<and> lk_instance lk \<noteq> srv_instance srv then s
        else user_lookup_notify u (lk_sq lk) (Some srv) new s)"

definition user_server_del ::
  "('n, 's) ns_libs \<Rightarrow> uapi \<Rightarrow> u32 \<Rightarrow> u32 \<Rightarrow> 'n user_ns \<Rightarrow> int \<times> 'n user_ns" where
  "user_server_del lb u node port s =
     (case mo_get (lb_services lb) (user_services lb s node) (lb_hash lb port) of
        None \<Rightarrow> (- ENOENT, s)
      | Some srv \<Rightarrow>
          (let s1 = set_services lb node (mo_remove (lb_services lb) (user_services lb s node) (lb_hash lb port)) s;
               s2 = (if srv_node srv = us_local_node s1 then snd (user_announce_del u (bcast_sq u) srv s1) else s1)
           in (0, user_notify_lookups u srv False (us_lookups s2) s2)))"

section \<open>Control messages\<close>

definition user_cmd_hello ::
  "('n, 's) ns_libs \<Rightarrow> uapi \<Rightarrow> sockaddr_qrtr \<Rightarrow> bytes \<Rightarrow> 'n user_ns \<Rightarrow> (int \<times> 'n user_ns) option" where
  "user_cmd_hello lb u sq buf s =
     (case user_send sq (Raw buf) s of (rc, s1) \<Rightarrow>
      if rc > 0 then annouce_servers lb u sq s1 else Some (rc, s1))"

fun user_bye_servers :: "('n, 's) ns_libs \<Rightarrow> uapi \<Rightarrow> u32 \<Rightarrow> qrtr_server list \<Rightarrow> 'n user_ns \<Rightarrow> 'n user_ns" where
  "user_bye_servers lb u node [] s = s"
| "user_bye_servers lb u node (srv # srvs) s =
     user_bye_servers lb u node srvs (snd (user_server_del lb u node (srv_port srv) s))"

fun user_tell_servers :: "qrtr_ctrl_pkt \<Rightarrow> qrtr_server list \<Rightarrow> 'n user_ns \<Rightarrow> 'n user_ns" where
  "user_tell_servers pkt [] s = s"
| "user_tell_servers pkt (srv # srvs) s = user_tell_servers pkt srvs
     (snd (user_send \<lparr>sq_node = srv_node srv, sq_port = srv_port srv\<rparr> (Pkt pkt) s))"

definition user_tell_local ::
  "('n, 's) ns_libs \<Rightarrow> qrtr_ctrl_pkt \<Rightarrow> 'n user_ns \<Rightarrow> (int \<times> 'n user_ns) option" where
  "user_tell_local lb pkt s =
     (case user_node_get lb (us_local_node s) s of None \<Rightarrow> None | Some (got, s1) \<Rightarrow>
      if \<not> got then Some (0, s1)
      else Some (0, user_tell_servers pkt (servers_of lb s1 (us_local_node s1)) s1))"

definition user_cmd_bye ::
  "('n, 's) ns_libs \<Rightarrow> uapi \<Rightarrow> sockaddr_qrtr \<Rightarrow> 'n user_ns \<Rightarrow> (int \<times> 'n user_ns) option" where
  "user_cmd_bye lb u from s =
     (case user_node_get lb (sq_node from) s of None \<Rightarrow> None | Some (got, s1) \<Rightarrow>
      if \<not> got then Some (0, s1)
      else user_tell_local lb
        \<lparr>cp_cmd = ua_cmd u CMD_BYE, cp_w0 = sq_node from, cp_w1 = 0, cp_w2 = 0, cp_w3 = 0\<rparr>
        (user_bye_servers lb u (sq_node from) (servers_of lb s1 (sq_node from)) s1))"

text \<open>The packet of a removed client is not cleared before two of its words are set.\<close>

definition user_cmd_del_client ::
  "('n, 's) ns_libs \<Rightarrow> uapi \<Rightarrow> sockaddr_qrtr \<Rightarrow> u32 \<Rightarrow> u32 \<Rightarrow> 'n user_ns \<Rightarrow> (int \<times> 'n user_ns) option" where
  "user_cmd_del_client lb u from node_id port s =
     (if sq_node from \<noteq> node_id then Some (- EINVAL, s)
      else if sq_node from = us_local_node s \<and> sq_port from \<noteq> port then Some (- EINVAL, s)
      else (let s1 = s\<lparr>us_lookups := filter (\<lambda>lk. \<not> (sq_node (lk_sq lk) = node_id \<and> sq_port (lk_sq lk) = port))
              (us_lookups s)\<rparr> in
        case user_node_get lb node_id s1 of None \<Rightarrow> None | Some (got, s2) \<Rightarrow>
        user_tell_local lb
          \<lparr>cp_cmd = ua_cmd u CMD_DEL_CLIENT, cp_w0 = node_id, cp_w1 = port,
           cp_w2 = us_stack s2 0, cp_w3 = us_stack s2 1\<rparr>
          (if got then snd (user_server_del lb u node_id port s2) else s2)))"

definition user_speaks_for :: "'n user_ns \<Rightarrow> sockaddr_qrtr \<Rightarrow> u32 \<Rightarrow> u32 \<Rightarrow> u32 \<times> u32" where
  "user_speaks_for s from node_id port =
     (if sq_node from = us_local_node s then (sq_node from, sq_port from) else (node_id, port))"

definition user_cmd_new_server ::
  "('n, 's) ns_libs \<Rightarrow> uapi \<Rightarrow> sockaddr_qrtr \<Rightarrow> u32 \<Rightarrow> u32 \<Rightarrow> u32 \<Rightarrow> u32 \<Rightarrow> 'n user_ns \<Rightarrow>
   (int \<times> 'n user_ns) option" where
  "user_cmd_new_server lb u from service inst node_id0 port0 s =
     (case user_speaks_for s from node_id0 port0 of (node_id, port) \<Rightarrow>
      if sq_node from \<noteq> node_id then Some (- EINVAL, s)
      else (case user_server_add lb service inst node_id port s of
          None \<Rightarrow> None
        | Some (None, s1) \<Rightarrow> Some (- EINVAL, s1)
        | Some (Some srv, s1) \<Rightarrow>
            (case (if srv_node srv = us_local_node s1 then user_announce_new u (bcast_sq u) srv s1 else (0, s1)) of
               (rc, s2) \<Rightarrow> Some (rc, user_notify_lookups u srv True (us_lookups s2) s2))))"

definition user_cmd_del_server ::
  "('n, 's) ns_libs \<Rightarrow> uapi \<Rightarrow> sockaddr_qrtr \<Rightarrow> u32 \<Rightarrow> u32 \<Rightarrow> u32 \<Rightarrow> u32 \<Rightarrow> 'n user_ns \<Rightarrow>
   (int \<times> 'n user_ns) option" where
  "user_cmd_del_server lb u from service inst node_id0 port0 s =
     (case user_speaks_for s from node_id0 port0 of (node_id, port) \<Rightarrow>
      if sq_node from \<noteq> node_id then Some (- EINVAL, s)
      else if sq_node from = us_local_node s \<and> sq_port from \<noteq> port then Some (- EINVAL, s)
      else (case user_node_get lb node_id s of None \<Rightarrow> None | Some (got, s1) \<Rightarrow>
            if \<not> got then Some (- ENOENT, s1) else Some (user_server_del lb u node_id port s1)))"

fun user_list_servers :: "uapi \<Rightarrow> sockaddr_qrtr \<Rightarrow> qrtr_server list \<Rightarrow> 'n user_ns \<Rightarrow> 'n user_ns" where
  "user_list_servers u from [] s = s"
| "user_list_servers u from (srv # srvs) s =
     user_list_servers u from srvs (user_lookup_notify u from (Some srv) True s)"

definition user_cmd_new_lookup ::
  "('n, 's) ns_libs \<Rightarrow> uapi \<Rightarrow> sockaddr_qrtr \<Rightarrow> u32 \<Rightarrow> u32 \<Rightarrow> 'n user_ns \<Rightarrow> int \<times> 'n user_ns" where
  "user_cmd_new_lookup lb u from service inst s =
     (if sq_node from \<noteq> us_local_node s then (- EINVAL, s)
      else if us_nomem s (us_tick s) then (- EINVAL, user_call s)
      else (let s1 = user_call s;
                s2 = s1\<lparr>us_lookups := us_lookups s1 @ [\<lparr>lk_service = service, lk_instance = inst, lk_sq = from\<rparr>]\<rparr>;
                reply = user_server_query lb \<lparr>flt_service = service, flt_instance = inst, flt_ifilter = 0\<rparr> s2
            in (0, user_lookup_notify u from None True (user_list_servers u from reply s2))))"

definition user_cmd_del_lookup :: "sockaddr_qrtr \<Rightarrow> u32 \<Rightarrow> u32 \<Rightarrow> 'n user_ns \<Rightarrow> int \<times> 'n user_ns" where
  "user_cmd_del_lookup from service inst s =
     (0, s\<lparr>us_lookups := filter (\<lambda>lk. \<not> (sq_node (lk_sq lk) = sq_node from \<and> sq_port (lk_sq lk) = sq_port from \<and>
        lk_service lk = service \<and> \<not> (lk_instance lk \<noteq> 0 \<and> lk_instance lk \<noteq> inst))) (us_lookups s)\<rparr>)"

definition user_dispatch ::
  "('n, 's) ns_libs \<Rightarrow> uapi \<Rightarrow> sockaddr_qrtr \<Rightarrow> bytes \<Rightarrow> qrtr_ctrl_pkt \<Rightarrow> 'n user_ns \<Rightarrow>
   (int \<times> 'n user_ns) option" where
  "user_dispatch lb u sq buf pkt s =
     (let cmd = cp_cmd pkt in
      if cmd = ua_cmd u CMD_HELLO then user_cmd_hello lb u sq buf s
      else if cmd = ua_cmd u CMD_BYE then user_cmd_bye lb u sq s
      else if cmd = ua_cmd u CMD_DEL_CLIENT then user_cmd_del_client lb u sq (cp_w0 pkt) (cp_w1 pkt) s
      else if cmd = ua_cmd u CMD_NEW_SERVER
        then user_cmd_new_server lb u sq (cp_w0 pkt) (cp_w1 pkt) (cp_w2 pkt) (cp_w3 pkt) s
      else if cmd = ua_cmd u CMD_DEL_SERVER
        then user_cmd_del_server lb u sq (cp_w0 pkt) (cp_w1 pkt) (cp_w2 pkt) (cp_w3 pkt) s
      else if cmd = ua_cmd u CMD_EXIT \<or> cmd = ua_cmd u CMD_PING \<or> cmd = ua_cmd u CMD_RESUME_TX then Some (0, s)
      else if cmd = ua_cmd u CMD_NEW_LOOKUP then Some (user_cmd_new_lookup lb u sq (cp_w0 pkt) (cp_w1 pkt) s)
      else if cmd = ua_cmd u CMD_DEL_LOOKUP then Some (user_cmd_del_lookup sq (cp_w0 pkt) (cp_w1 pkt) s)
      else Some (0, s))"

text \<open>
  One call of the callback: \<open>recvfrom\<close> fails, or gives the message and its sender. The buffer
  is on the stack and not cleared: what follows the message in it is \<open>rest\<close>.
\<close>

definition ctrl_port_fn ::
  "('n, 's) ns_libs \<Rightarrow> uapi \<Rightarrow> int + (bytes \<times> bytes \<times> sockaddr_qrtr) \<Rightarrow> 'n user_ns \<Rightarrow>
   'n user_ns option" where
  "ctrl_port_fn lb u r s = (case r of
      Inl _ \<Rightarrow> Some (s\<lparr>us_sock := False\<rparr>)
    | Inr (msg, rest, sq) \<Rightarrow>
        if msg = [] then Some (s\<lparr>us_sock := False\<rparr>)
        else if length msg < 4 then Some s
        else map_option snd (user_dispatch lb u sq msg (read_pkt (take 4096 msg @ rest)) s))"

fun user_loop ::
  "('n, 's) ns_libs \<Rightarrow> uapi \<Rightarrow> (int + (bytes \<times> bytes \<times> sockaddr_qrtr)) list \<Rightarrow> 'n user_ns \<Rightarrow>
   'n user_ns option" where
  "user_loop lb u [] s = Some s"
| "user_loop lb u (r # rs) s = (if us_sock s
    then (case ctrl_port_fn lb u r s of None \<Rightarrow> None | Some s1 \<Rightarrow> user_loop lb u rs s1) else Some s)"

definition user_say_hello :: "uapi \<Rightarrow> 'n user_ns \<Rightarrow> int \<times> 'n user_ns" where
  "user_say_hello u s =
     (case user_send (bcast_sq u)
        (Pkt \<lparr>cp_cmd = ua_cmd u CMD_HELLO, cp_w0 = 0, cp_w1 = 0, cp_w2 = 0, cp_w3 = 0\<rparr>) s of
      (rc, s1) \<Rightarrow> if rc < 0 then (rc, s1) else (0, s1))"

text \<open>
  The start of the program. The parsing of the options, \<open>strtoul\<close> and the system calls are
  answers of the environment. The result is how the program ends, or the state it serves
  from and the address it has set.
\<close>

record user_main_env =
  um_options_ok :: bool
  um_optind :: nat
  um_argv :: "string list"
  um_strtoul :: "string \<Rightarrow> nat \<times> string"
  um_waiter :: bool
  um_map_create :: bool
  um_socket :: int
  um_sockname :: "int + u32"
  um_bind :: int
  um_foreground :: bool
  um_fork :: int

datatype 'n user_start = Usage | Exits | Dormant | Parent_exits | Serving "nat option" "'n user_ns"

definition user_serve ::
  "('n, 's) ns_libs \<Rightarrow> uapi \<Rightarrow> user_main_env \<Rightarrow> 'n user_ns \<Rightarrow> nat option \<Rightarrow> 'n user_start" where
  "user_serve lb u e s0 addr =
     (if \<not> um_waiter e then Exits
      else if \<not> um_map_create e then Exits
      else if um_socket e < 0 then Exits
      else case um_sockname e of
        Inl _ \<Rightarrow> Exits
      | Inr node \<Rightarrow>
          if um_bind e < 0 then (if um_bind e = - EADDRINUSE then Dormant else Exits)
          else (case user_say_hello u (s0\<lparr>us_nodes := mo_empty (lb_nodes lb), us_lookups := [],
              us_local_node := node, us_sock := True\<rparr>) of (rc, s) \<Rightarrow>
            if rc \<noteq> 0 then Exits
            else if \<not> um_foreground e \<and> um_fork e \<noteq> 0 then Parent_exits
            else Serving addr s))"

definition user_main ::
  "('n, 's) ns_libs \<Rightarrow> uapi \<Rightarrow> user_main_env \<Rightarrow> 'n user_ns \<Rightarrow> 'n user_start" where
  "user_main lb u e s0 =
     (if \<not> um_options_ok e then Usage
      else if um_optind e < length (um_argv e) then
        (let (addr, ep) = um_strtoul e (um_argv e ! um_optind e) in
         if um_argv e ! 1 = [] \<or> ep \<noteq> [] \<or> 2 ^ 32 - 1 \<le> addr then Usage
         else if um_optind e + 1 \<noteq> length (um_argv e) then Usage
         else user_serve lb u e s0 (Some addr))
      else if um_optind e \<noteq> length (um_argv e) then Usage
      else user_serve lb u e s0 None)"

section \<open>Invariant and registry\<close>

definition services_ok :: "('n, 's) ns_libs \<Rightarrow> u32 \<Rightarrow> 's \<Rightarrow> bool" where
  "services_ok lb k t \<longleftrightarrow> mo_ok (lb_services lb) t \<and>
     (\<forall>j srv. mo_get (lb_services lb) t j = Some srv \<longrightarrow>
        k = lb_hash lb (srv_node srv) \<and> j = lb_hash lb (srv_port srv) \<and>
        srv_port srv \<noteq> 0 \<and> srv_service srv \<noteq> 0)"

definition us_inv :: "('n, 's) ns_libs \<Rightarrow> 'n user_ns \<Rightarrow> bool" where
  "us_inv lb s \<longleftrightarrow> mo_ok (lb_nodes lb) (us_nodes s) \<and>
     (\<forall>k t. mo_get (lb_nodes lb) (us_nodes s) k = Some t \<longrightarrow> services_ok lb k t) \<and>
     (\<forall>lk \<in> set (us_lookups s). sq_node (lk_sq lk) = us_local_node s)"

definition us_reg :: "('n, 's) ns_libs \<Rightarrow> 'n user_ns \<Rightarrow> u32 \<times> u32 \<rightharpoonup> u32 \<times> u32" where
  "us_reg lb s = (\<lambda>(n, p). map_option (\<lambda>srv. (srv_service srv, srv_instance srv))
     (mo_get (lb_services lb) (user_services lb s n) (lb_hash lb p)))"

definition us_abs :: "('n, 's) ns_libs \<Rightarrow> 'n user_ns \<Rightarrow> registry" where
  "us_abs lb s = (us_reg lb s, us_lookups s)"

definition us_core :: "'n user_ns \<Rightarrow> 'n \<times> qrtr_lookup list \<times> u32 \<times> (nat \<Rightarrow> bool) \<times> bool" where
  "us_core s = (us_nodes s, us_lookups s, us_local_node s, us_nomem s, us_sock s)"

text \<open>What a step keeps beside the tables: the address, the memory to come, the socket.\<close>

definition us_same :: "'n user_ns \<Rightarrow> 'n user_ns \<Rightarrow> bool" where
  "us_same s s' \<longleftrightarrow> us_lookups s' = us_lookups s \<and> us_local_node s' = us_local_node s \<and>
     us_nomem s' = us_nomem s \<and> us_sock s' = us_sock s"

lemma us_same_trans: "us_same s s1 \<Longrightarrow> us_same s1 s2 \<Longrightarrow> us_same s s2"
  by (simp add: us_same_def)

lemma us_same_refl: "us_same s s"
  by (simp add: us_same_def)

lemma us_core_same:
  "us_core s' = us_core s \<Longrightarrow> us_same s s' \<and> us_reg lb s' = us_reg lb s \<and> us_inv lb s' = us_inv lb s \<and>
   user_services lb s' = user_services lb s"
  by (simp add: us_core_def us_same_def us_reg_def us_inv_def user_services_def fun_eq_iff)

lemma user_call_core [simp]: "us_core (user_call s) = us_core s"
  by (simp add: user_call_def us_core_def)

lemma user_send_core [simp]: "us_core (snd (user_send d m s)) = us_core s"
  by (simp add: user_send_def user_call_def us_core_def)

lemma user_lookup_notify_core [simp]: "us_core (user_lookup_notify u to srv new s) = us_core s"
  by (simp add: user_lookup_notify_def Let_def)

lemma user_announce_core [simp]:
  "us_core (snd (user_announce_new u d srv s)) = us_core s"
  "us_core (snd (user_announce_del u d srv s)) = us_core s"
  by (simp_all add: user_announce_new_def user_announce_del_def)

lemma user_announce_loop_core [simp]: "us_core (snd (user_announce_loop u sq srvs s)) = us_core s"
  by (induction srvs arbitrary: s) (simp_all add: split_beta)

lemma user_announce_loop_run: "user_announce_loop u sq srvs s = (rc, s') \<Longrightarrow> us_core s' = us_core s"
  using user_announce_loop_core [of u sq srvs s] by simp

lemma user_announce_new_run: "user_announce_new u d srv s = (rc, s') \<Longrightarrow> us_core s' = us_core s"
  using user_announce_core(1) [of u d srv s] by simp

lemma user_notify_lookups_core [simp]: "us_core (user_notify_lookups u srv new lks s) = us_core s"
  by (induction lks arbitrary: s) simp_all

lemma user_tell_servers_core [simp]: "us_core (user_tell_servers pkt srvs s) = us_core s"
  by (induction srvs arbitrary: s) simp_all

lemma user_list_servers_core [simp]: "us_core (user_list_servers u from srvs s) = us_core s"
  by (induction srvs arbitrary: s) simp_all

text \<open>
  A message that speaks about a node other than the one it comes from. The local node may
  name any node, because its messages always count for the sender itself. The program
  ignores such messages; otherwise it keeps the registry of the kernel's name service.
\<close>

fun spoofed :: "u32 \<Rightarrow> sockaddr_qrtr \<Rightarrow> ns_msg \<Rightarrow> bool" where
  "spoofed me from (M_new_server sv i n p) \<longleftrightarrow> sq_node from \<noteq> n \<and> sq_node from \<noteq> me"
| "spoofed me from (M_del_server sv i n p) \<longleftrightarrow> sq_node from \<noteq> n \<and> sq_node from \<noteq> me"
| "spoofed me from _ \<longleftrightarrow> False"

definition user_spec :: "u32 \<Rightarrow> sockaddr_qrtr \<Rightarrow> ns_msg \<Rightarrow> registry \<Rightarrow> registry" where
  "user_spec me from msg r = (if spoofed me from msg then r else ns_spec me from msg r)"

text \<open>With memory left, the kernel's name service does what the registry says.\<close>

lemma ns_dispatch_abs:
  assumes "ns_inv h s" "mem_ok s" "inj (ua_cmd u)" "msg_pkt u msg pkt"
  shows "ns_abs (snd (ns_dispatch u sq pkt s)) = ns_spec (ns_local_node s) sq msg (ns_abs s)"
proof -
  have add: "ns_abs (snd (ctrl_cmd_new_server u sq sv i n p s)) =
      ns_spec (ns_local_node s) sq (M_new_server sv i n p) (ns_abs s)" for sv i n p
    using ctrl_cmd_new_server_spec [OF assms(1) refl] assms(2) by blast
  have look: "ns_abs (snd (ctrl_cmd_new_lookup u sq sv i s)) =
      ns_spec (ns_local_node s) sq (M_new_lookup sv i) (ns_abs s)" for sv i
    using ctrl_cmd_new_lookup_spec [OF assms(1) refl] assms(2) by blast
  note rest = ctrl_cmd_hello_spec [OF assms(1), THEN conjunct2] ctrl_cmd_bye_spec [OF assms(1), THEN conjunct2]
    ctrl_cmd_del_client_spec [OF assms(1), THEN conjunct2] ctrl_cmd_del_server_spec [OF assms(1), THEN conjunct2]
    ctrl_cmd_del_lookup_spec [OF assms(1), THEN conjunct2]
  show ?thesis
    unfolding ns_dispatch_msg [OF assms(3,4)]
    by (cases msg) (simp_all add: add look rest del: ns_spec.simps)
qed

definition us_keeps :: "('n, 's) ns_libs \<Rightarrow> 'n user_ns \<Rightarrow> 'n user_ns \<Rightarrow> bool" where
  "us_keeps lb s s' \<longleftrightarrow> us_inv lb s' \<and> us_local_node s' = us_local_node s \<and> us_nomem s' = us_nomem s \<and>
     us_sock s' = us_sock s"

definition user_mem_ok :: "'n user_ns \<Rightarrow> bool" where
  "user_mem_ok s \<longleftrightarrow> (\<forall>t. \<not> us_nomem s t)"

text \<open>
  Side by side with the kernel's name service: both are well-formed, have memory left, speak
  for the same node and know the same servers and lookups.
\<close>

definition agree :: "('n, 's) ns_libs \<Rightarrow> nat \<Rightarrow> qrtr_ns \<Rightarrow> 'n user_ns \<Rightarrow> bool" where
  "agree lb h s t \<longleftrightarrow> ns_inv h s \<and> us_inv lb t \<and> mem_ok s \<and> user_mem_ok t \<and> us_sock t \<and>
     ns_local_node s = us_local_node t \<and> ns_abs s = us_abs lb t"

definition pkt_spoofed :: "uapi \<Rightarrow> u32 \<Rightarrow> sockaddr_qrtr \<Rightarrow> qrtr_ctrl_pkt \<Rightarrow> bool" where
  "pkt_spoofed u me sq pkt \<longleftrightarrow> cp_cmd pkt \<in> {ua_cmd u CMD_NEW_SERVER, ua_cmd u CMD_DEL_SERVER} \<and>
     sq_node sq \<noteq> cp_w2 pkt \<and> sq_node sq \<noteq> me"

text \<open>A packet is one of the messages of the registry, or both services ignore it.\<close>

lemma pkt_cases:
  "(\<exists>m. msg_pkt u m pkt) \<or> (\<forall>sq s. ns_dispatch u sq pkt s = (0, s)) \<and>
   (\<forall>sq buf t. user_dispatch lb u sq buf pkt t = Some (0, t))"
proof (cases "\<exists>m. msg_pkt u m pkt")
  case False
  then have no: "\<not> msg_pkt u m pkt" for m
    by blast
  have "cp_cmd pkt \<notin> ua_cmd u ` {CMD_HELLO, CMD_BYE, CMD_DEL_CLIENT, CMD_NEW_SERVER, CMD_DEL_SERVER,
      CMD_NEW_LOOKUP, CMD_DEL_LOOKUP}"
    using no [of M_hello] no [of M_bye] no [of "M_del_client (cp_w0 pkt) (cp_w1 pkt)"]
      no [of "M_new_server (cp_w0 pkt) (cp_w1 pkt) (cp_w2 pkt) (cp_w3 pkt)"]
      no [of "M_del_server (cp_w0 pkt) (cp_w1 pkt) (cp_w2 pkt) (cp_w3 pkt)"]
      no [of "M_new_lookup (cp_w0 pkt) (cp_w1 pkt)"] no [of "M_del_lookup (cp_w0 pkt) (cp_w1 pkt)"]
    by simp
  then show ?thesis
    by (simp add: ns_dispatch_def user_dispatch_def Let_def)
qed simp

lemma pkt_spoofed_msg: "msg_pkt u m pkt \<Longrightarrow> \<not> pkt_spoofed u me sq pkt \<Longrightarrow> \<not> spoofed me sq m"
  by (cases m) (auto simp: pkt_spoofed_def)

section \<open>With a library that keeps its laws\<close>

locale ns_library =
  fixes lb :: "('n, 's) ns_libs"
  assumes libs: "libs_ok lb"
begin

abbreviation hash :: "u32 \<Rightarrow> u32" where "hash \<equiv> lb_hash lb"

lemma hash_eq [simp]: "hash a = hash b \<longleftrightarrow> a = b"
  using libs by (simp add: libs_ok_def inj_eq)

lemma laws: "map_laws (lb_nodes lb)" "map_laws (lb_services lb)"
  using libs by (simp_all add: libs_ok_def)

lemma services_empty: "services_ok lb k (mo_empty (lb_services lb))"
  using laws(2) by (simp add: services_ok_def map_laws_def)

lemma user_services_ok: "us_inv lb s \<Longrightarrow> services_ok lb (hash n) (user_services lb s n)"
  using services_empty by (auto simp: us_inv_def user_services_def split: option.splits)

lemma set_services_inv:
  "us_inv lb s \<Longrightarrow> services_ok lb (hash n) t \<Longrightarrow> us_inv lb (set_services lb n t s)"
  using laws(1) by (simp add: us_inv_def set_services_def map_laws_def)

lemma services_set: "us_inv lb s \<Longrightarrow>
  user_services lb (set_services lb n t s) m = (if m = n then t else user_services lb s m)"
  using laws(1) by (simp add: us_inv_def set_services_def user_services_def map_laws_def)

lemma set_services_same [simp]: "us_same s (set_services lb n t s)"
  by (simp add: us_same_def set_services_def)

lemma node_get_user:
  assumes "us_inv lb s" "user_node_get lb n s = Some (got, s')"
  shows "us_inv lb s' \<and> us_same s s' \<and> us_reg lb s' = us_reg lb s \<and>
    (\<forall>m. user_services lb s' m = user_services lb s m)"
    and "\<not> got \<Longrightarrow> user_services lb s n = mo_empty (lb_services lb) \<and> (\<exists>t. us_nomem s t)"
proof -
  have three: "us_core (user_call (user_call (user_call s))) = us_core s"
    by simp
  note frame = us_core_same [OF three, of lb]
  have "user_services lb s n = mo_empty (lb_services lb)" if "mo_get (lb_nodes lb) (us_nodes s) (hash n) = None"
    using that by (simp add: user_services_def)
  then show "us_inv lb s' \<and> us_same s s' \<and> us_reg lb s' = us_reg lb s \<and>
      (\<forall>m. user_services lb s' m = user_services lb s m)"
    using assms frame set_services_inv [OF _ services_empty, of "user_call (user_call (user_call s))" n]
      services_set [of "user_call (user_call (user_call s))" n "mo_empty (lb_services lb)"]
      us_core_same [OF user_call_core [of s], of lb]
      us_same_trans [OF _ set_services_same [of "user_call (user_call (user_call s))" n "mo_empty (lb_services lb)"], of s]
    by (auto simp: user_node_get_def Let_def us_same_refl us_reg_def fun_eq_iff split: option.splits if_splits)
  show "\<not> got \<Longrightarrow> user_services lb s n = mo_empty (lb_services lb) \<and> (\<exists>t. us_nomem s t)"
    using assms(2) by (auto simp: user_node_get_def user_services_def Let_def split: option.splits if_splits)
qed

lemma put_services:
  assumes inv: "us_inv lb s" and srv: "srv_node srv = n" "srv_port srv = p" "p \<noteq> 0" "srv_service srv \<noteq> 0"
  defines "s' \<equiv> set_services lb n (mo_put (lb_services lb) (user_services lb s n) (hash p) srv) s"
  shows "us_inv lb s'" "us_reg lb s' = (us_reg lb s)((n, p) \<mapsto> (srv_service srv, srv_instance srv))"
proof -
  have "services_ok lb (hash n) (mo_put (lb_services lb) (user_services lb s n) (hash p) srv)"
    using user_services_ok [OF inv, of n] laws(2) srv by (auto simp: services_ok_def map_laws_def)
  then show "us_inv lb s'"
    unfolding s'_def by (rule set_services_inv [OF inv])
  show "us_reg lb s' = (us_reg lb s)((n, p) \<mapsto> (srv_service srv, srv_instance srv))"
    using user_services_ok [OF inv, of n] laws(2)
    by (auto simp: s'_def us_reg_def services_set [OF inv] services_ok_def map_laws_def fun_eq_iff)
qed

lemma remove_services:
  fixes n p :: u32
  assumes inv: "us_inv lb s"
  defines "s' \<equiv> set_services lb n (mo_remove (lb_services lb) (user_services lb s n) (hash p)) s"
  shows "us_inv lb s'" "us_reg lb s' = (us_reg lb s)((n, p) := None)"
proof -
  have "services_ok lb (hash n) (mo_remove (lb_services lb) (user_services lb s n) (hash p))"
    using user_services_ok [OF inv, of n] laws(2) by (auto simp: services_ok_def map_laws_def)
  then show "us_inv lb s'"
    unfolding s'_def by (rule set_services_inv [OF inv])
  show "us_reg lb s' = (us_reg lb s)((n, p) := None)"
    using user_services_ok [OF inv, of n] laws(2)
    by (auto simp: s'_def us_reg_def services_set [OF inv] services_ok_def map_laws_def fun_eq_iff)
qed

lemma server_add_user:
  assumes inv: "us_inv lb s" and run: "user_server_add lb service inst n p s = Some (r, s')"
  shows "us_inv lb s' \<and> us_same s s' \<and>
    (case r of None \<Rightarrow> us_reg lb s' = us_reg lb s \<and> (service = 0 \<or> p = 0 \<or> (\<exists>t. us_nomem s t))
     | Some srv \<Rightarrow> srv = \<lparr>srv_service = service, srv_instance = inst, srv_node = n, srv_port = p\<rparr> \<and>
         service \<noteq> 0 \<and> p \<noteq> 0 \<and> us_reg lb s' = (us_reg lb s)((n, p) \<mapsto> (service, inst)))"
proof (cases "service = 0 \<or> p = 0 \<or> us_nomem s (us_tick s)")
  case True
  then show ?thesis
    using run inv us_core_same [OF user_call_core [of s], of lb]
    by (auto simp: user_server_add_def us_same_refl split: if_splits)
next
  case False
  note c1 = us_core_same [OF user_call_core [of s], of lb]
  obtain node s2 where g: "user_node_get lb n (user_call s) = Some (node, s2)"
    using run False by (auto simp: user_server_add_def split: option.splits)
  have i1: "us_inv lb (user_call s)"
    using c1 inv by simp
  note gu = node_get_user [OF i1 g]
  note c2 = us_core_same [OF user_call_core [of s2], of lb]
  have same: "us_same s s2" "us_same s (user_call s2)"
    using gu(1) c1 c2 us_same_trans by blast+
  show ?thesis
  proof (cases "node \<and> \<not> us_nomem s2 (us_tick s2)")
    case True
    let ?srv = "\<lparr>srv_service = service, srv_instance = inst, srv_node = n, srv_port = p\<rparr>"
    have "r = Some ?srv" "s' = set_services lb n
        (mo_put (lb_services lb) (user_services lb (user_call s2) n) (hash p) ?srv) (user_call s2)"
      using run False g True c2 by (simp_all add: user_server_add_def Let_def)
    moreover have "us_inv lb (user_call s2)"
      using gu(1) c2 by simp
    ultimately show ?thesis
      using put_services [of "user_call s2" ?srv n p] False gu(1) c1 c2
        us_same_trans [OF same(2) set_services_same] by simp
  next
    case False2: False
    then have "r = None" "s' = (if node then user_call s2 else s2)"
      using run False g by (auto simp: user_server_add_def split: if_splits)
    moreover have "\<exists>t. us_nomem s t"
      using False2 gu c1 same by (auto simp: us_same_def)
    ultimately show ?thesis
      using gu(1) c1 c2 same by auto
  qed
qed

lemma server_del_user:
  assumes inv: "us_inv lb s" and run: "user_server_del lb u n p s = (ret, s')"
  shows "us_inv lb s' \<and> us_same s s' \<and> us_reg lb s' = (us_reg lb s)((n, p) := None)"
proof (cases "mo_get (lb_services lb) (user_services lb s n) (hash p)")
  case None
  then show ?thesis
    using run inv by (auto simp: user_server_del_def us_same_refl us_reg_def fun_eq_iff)
next
  case (Some srv)
  let ?s1 = "set_services lb n (mo_remove (lb_services lb) (user_services lb s n) (hash p)) s"
  have "us_core s' = us_core ?s1"
    using run Some by (auto simp: user_server_del_def Let_def)
  note c = us_core_same [OF this, of lb]
  show ?thesis
    using c remove_services [OF inv, of n p] us_same_trans [of s ?s1 s']
    by (simp add: us_same_def set_services_def)
qed

lemma bye_servers_user:
  "us_inv lb s \<Longrightarrow> us_inv lb (user_bye_servers lb u n srvs s) \<and> us_same s (user_bye_servers lb u n srvs s) \<and>
   us_reg lb (user_bye_servers lb u n srvs s) =
     (\<lambda>(m, p). if m = n \<and> p \<in> srv_port ` set srvs then None else us_reg lb s (m, p))"
proof (induction srvs arbitrary: s)
  case Nil
  then show ?case
    by (simp add: us_same_refl)
next
  case (Cons srv srvs)
  obtain ret s1 where d: "user_server_del lb u n (srv_port srv) s = (ret, s1)"
    by fastforce
  note ds = server_del_user [OF Cons.prems d]
  show ?case
    using Cons.IH [of s1] ds us_same_trans [of s s1] d by (auto simp: fun_eq_iff)
qed

text \<open>The servers of a node are exactly those its registry entries speak of.\<close>

lemma servers_of_ports:
  assumes "us_inv lb s" "p \<notin> srv_port ` set (servers_of lb s n)"
  shows "us_reg lb s (n, p) = None"
proof (rule ccontr)
  note ok = user_services_ok [OF assms(1), of n]
  have entries: "map_of (mo_entries (lb_services lb) (user_services lb s n)) =
      mo_get (lb_services lb) (user_services lb s n)"
    using laws(2) ok by (simp add: map_laws_def services_ok_def)
  assume "us_reg lb s (n, p) \<noteq> None"
  then obtain srv where srv: "mo_get (lb_services lb) (user_services lb s n) (hash p) = Some srv"
    by (auto simp: us_reg_def)
  then have "hash p = hash (srv_port srv)"
    using ok unfolding services_ok_def by blast
  then have "srv_port srv = p"
    by simp
  moreover have "srv \<in> set (servers_of lb s n)"
    using srv map_of_SomeD [of "mo_entries (lb_services lb) (user_services lb s n)" "hash p" srv] entries
    by (force simp: servers_of_def)
  ultimately show False
    using assms(2) by blast
qed

lemma tell_local_user:
  assumes "us_inv lb s" "user_tell_local lb pkt s = Some (ret, s')"
  shows "us_inv lb s' \<and> us_same s s' \<and> us_reg lb s' = us_reg lb s"
proof -
  obtain got s1 where g: "user_node_get lb (us_local_node s) s = Some (got, s1)"
    using assms(2) by (auto simp: user_tell_local_def split: option.splits)
  note gu = node_get_user(1) [OF assms(1) g]
  have "us_core s' = us_core s1"
    using assms(2) g by (auto simp: user_tell_local_def split: if_splits)
  from us_core_same [OF this, of lb] show ?thesis
    using gu us_same_trans [of s s1 s'] by auto
qed

lemma hello_user:
  assumes "us_inv lb s" "user_cmd_hello lb u sq buf s = Some (ret, s')"
  shows "us_inv lb s' \<and> us_same s s' \<and> us_reg lb s' = us_reg lb s"
proof -
  obtain rc s1 where send: "user_send sq (Raw buf) s = (rc, s1)"
    by fastforce
  have "us_core s1 = us_core s"
    using user_send_core [of sq "Raw buf" s] send by simp
  note c1 = us_core_same [OF this, of lb]
  show ?thesis
  proof (cases "0 < rc")
    case True
    then obtain got s2 where g: "user_node_get lb (us_local_node s1) s1 = Some (got, s2)"
      using assms(2) send by (auto simp: user_cmd_hello_def annouce_servers_def split: option.splits)
    have i1: "us_inv lb s1"
      using c1 assms(1) by simp
    note gu = node_get_user(1) [OF i1 g]
    have "us_core s' = us_core s2"
      using assms(2) send True g
      by (auto simp: user_cmd_hello_def annouce_servers_def user_announce_loop_run split: if_splits)
    from us_core_same [OF this, of lb] show ?thesis
      using gu c1 us_same_trans [of s s1 s2] us_same_trans [of s s2 s'] by auto
  next
    case False
    then show ?thesis
      using assms send c1 by (simp add: user_cmd_hello_def)
  qed
qed

lemma bye_user:
  assumes "us_inv lb s" "user_cmd_bye lb u from s = Some (ret, s')"
  shows "us_inv lb s' \<and> us_same s s' \<and>
    us_reg lb s' = (\<lambda>(n, p). if n = sq_node from then None else us_reg lb s (n, p))"
proof -
  let ?n = "sq_node from"
  obtain got s1 where g: "user_node_get lb ?n s = Some (got, s1)"
    using assms(2) by (auto simp: user_cmd_bye_def split: option.splits)
  note gu = node_get_user [OF assms(1) g]
  show ?thesis
  proof (cases got)
    case False
    then have "us_reg lb s (?n, p) = None" for p
      using gu(2) laws(2) by (simp add: us_reg_def map_laws_def)
    then show ?thesis
      using assms(2) g gu(1) False by (auto simp: user_cmd_bye_def fun_eq_iff)
  next
    case True
    let ?s2 = "user_bye_servers lb u ?n (servers_of lb s1 ?n) s1"
    have i1: "us_inv lb s1"
      using gu(1) by simp
    note b = bye_servers_user [OF i1, of u ?n "servers_of lb s1 ?n"]
    obtain pkt where "user_tell_local lb pkt ?s2 = Some (ret, s')"
      using assms(2) g True by (auto simp: user_cmd_bye_def)
    from tell_local_user [OF _ this] b gu(1) show ?thesis
      using us_same_trans [of s s1 ?s2] us_same_trans [of s ?s2 s'] servers_of_ports [OF i1, of _ ?n]
      by (auto simp: fun_eq_iff)
  qed
qed

lemma del_client_user:
  assumes inv: "us_inv lb s" and run: "user_cmd_del_client lb u from n p s = Some (ret, s')"
  shows "us_inv lb s' \<and> us_local_node s' = us_local_node s \<and> us_nomem s' = us_nomem s \<and>
    us_sock s' = us_sock s \<and>
    us_abs lb s' = ns_spec (us_local_node s) from (M_del_client n p) (us_abs lb s)"
proof (cases "sq_node from \<noteq> n \<or> (sq_node from = us_local_node s \<and> sq_port from \<noteq> p)")
  case True
  then show ?thesis
    using run inv by (auto simp: user_cmd_del_client_def us_abs_def split: if_splits)
next
  case False
  let ?s1 = "s\<lparr>us_lookups := filter (\<lambda>lk. \<not> (sq_node (lk_sq lk) = n \<and> sq_port (lk_sq lk) = p)) (us_lookups s)\<rparr>"
  have i1: "us_inv lb ?s1" "us_reg lb ?s1 = us_reg lb s"
    using inv by (auto simp: us_inv_def us_reg_def user_services_def)
  obtain got s2 where g: "user_node_get lb n ?s1 = Some (got, s2)"
    using run False by (auto simp: user_cmd_del_client_def Let_def split: option.splits)
  note gu = node_get_user [OF i1(1) g]
  let ?s3 = "if got then snd (user_server_del lb u n p s2) else s2"
  have d: "us_inv lb ?s3 \<and> us_same ?s1 ?s3 \<and> us_reg lb ?s3 = (us_reg lb s)((n, p) := None)"
  proof (cases got)
    case True
    obtain r s3 where sd: "user_server_del lb u n p s2 = (r, s3)"
      by fastforce
    then show ?thesis
      using True server_del_user [OF _ sd] gu(1) i1 us_same_trans [of ?s1 s2 s3] by auto
  next
    case False
    then have "us_reg lb s (n, p) = None"
      using gu(2) laws(2) i1(2) by (simp add: us_reg_def map_laws_def user_services_def)
    then show ?thesis
      using False gu(1) i1 by (auto simp: fun_eq_iff)
  qed
  obtain pkt where "user_tell_local lb pkt ?s3 = Some (ret, s')"
    using run False g by (auto simp: user_cmd_del_client_def Let_def)
  from tell_local_user [OF _ this] d False show ?thesis
    by (auto simp: us_same_def us_abs_def sq_eq)
qed

lemma new_server_user:
  assumes inv: "us_inv lb s" and run: "user_cmd_new_server lb u from sv i n p s = Some (ret, s')"
    and mine: "sq_node from = n \<or> sq_node from = us_local_node s"
  shows "us_inv lb s' \<and> us_same s s' \<and>
    (us_abs lb s' = ns_spec (us_local_node s) from (M_new_server sv i n p) (us_abs lb s) \<or>
     (\<exists>t. us_nomem s t) \<and> us_abs lb s' = us_abs lb s)"
proof -
  obtain n' p' where who: "user_speaks_for s from n p = (n', p')"
    by fastforce
  have who': "(if sq_node from = us_local_node s then (us_local_node s, sq_port from) else (n, p)) = (n', p')"
      "n' = sq_node from"
    using who mine by (auto simp: user_speaks_for_def split: if_splits)
  obtain r s1 where a: "user_server_add lb sv i n' p' s = Some (r, s1)"
    using run who who'(2) by (auto simp: user_cmd_new_server_def split: option.splits)
  note as = server_add_user [OF inv a]
  show ?thesis
  proof (cases r)
    case None
    then have "s' = s1"
      using run who a who'(2) by (simp add: user_cmd_new_server_def)
    then show ?thesis
      using None as who'(1) by (auto simp: us_same_def us_abs_def Let_def)
  next
    case (Some srv)
    have "us_core s' = us_core s1"
      using run who a who'(2) Some
      by (auto simp: user_cmd_new_server_def user_announce_new_run split: if_splits prod.splits)
    from us_core_same [OF this, of lb] show ?thesis
      using as Some who'(1) us_same_trans [of s s1 s'] by (auto simp: us_same_def us_abs_def Let_def)
  qed
qed

lemma del_server_user:
  assumes inv: "us_inv lb s" and run: "user_cmd_del_server lb u from sv i n p s = Some (ret, s')"
    and mine: "sq_node from = n \<or> sq_node from = us_local_node s"
  shows "us_inv lb s' \<and> us_same s s' \<and>
    us_abs lb s' = ns_spec (us_local_node s) from (M_del_server sv i n p) (us_abs lb s)"
proof -
  obtain n' p' where who: "user_speaks_for s from n p = (n', p')"
    by fastforce
  have who': "(if sq_node from = us_local_node s then (us_local_node s, sq_port from) else (n, p)) = (n', p')"
      "n' = sq_node from" "\<not> (sq_node from = us_local_node s \<and> sq_port from \<noteq> p')"
    using who mine by (auto simp: user_speaks_for_def split: if_splits)
  obtain got s1 where g: "user_node_get lb n' s = Some (got, s1)"
    using run who who' by (auto simp: user_cmd_del_server_def split: option.splits if_splits)
  note gu = node_get_user [OF inv g]
  show ?thesis
  proof (cases got)
    case True
    then have "user_server_del lb u n' p' s1 = (ret, s')"
      using run who who'(2,3) g by (auto simp: user_cmd_del_server_def split: if_splits)
    from server_del_user [OF _ this] gu(1) show ?thesis
      using who'(1) us_same_trans [of s s1 s'] by (auto simp: us_same_def us_abs_def)
  next
    case False
    then have "us_reg lb s (n', p') = None"
      using gu(2) laws(2) by (simp add: us_reg_def map_laws_def)
    moreover have "s' = s1"
      using run who who'(2,3) g False by (auto simp: user_cmd_del_server_def split: if_splits)
    ultimately show ?thesis
      using gu(1) who'(1) by (auto simp: us_same_def us_abs_def fun_eq_iff)
  qed
qed

lemma new_lookup_user:
  assumes inv: "us_inv lb s" and run: "user_cmd_new_lookup lb u from sv i s = (ret, s')"
  shows "us_inv lb s' \<and> us_local_node s' = us_local_node s \<and> us_nomem s' = us_nomem s \<and> us_sock s' = us_sock s \<and>
    (us_abs lb s' = ns_spec (us_local_node s) from (M_new_lookup sv i) (us_abs lb s) \<or>
     (\<exists>t. us_nomem s t) \<and> us_abs lb s' = us_abs lb s)"
proof (cases "sq_node from = us_local_node s \<and> \<not> us_nomem s (us_tick s)")
  case True
  note c1 = us_core_same [OF user_call_core [of s], of lb]
  let ?s2 = "(user_call s)\<lparr>us_lookups := us_lookups (user_call s) @ [\<lparr>lk_service = sv, lk_instance = i, lk_sq = from\<rparr>]\<rparr>"
  have "us_core s' = us_core ?s2"
    using run True by (auto simp: user_cmd_new_lookup_def Let_def)
  note c2 = us_core_same [OF this, of lb]
  have "us_inv lb ?s2" "us_reg lb ?s2 = us_reg lb (user_call s)"
    using c1 inv True by (auto simp: us_inv_def us_reg_def user_services_def us_same_def fun_eq_iff)
  then show ?thesis
    using c1 c2 True by (auto simp: us_same_def us_abs_def)
next
  case False
  then show ?thesis
    using run inv us_core_same [OF user_call_core [of s], of lb]
    by (auto simp: user_cmd_new_lookup_def us_same_def us_abs_def split: if_splits)
qed

lemma del_lookup_user:
  assumes "us_inv lb s" "user_cmd_del_lookup from sv i s = (ret, s')"
  shows "us_inv lb s' \<and> us_local_node s' = us_local_node s \<and> us_nomem s' = us_nomem s \<and> us_sock s' = us_sock s \<and>
    us_abs lb s' = ns_spec (us_local_node s) from (M_del_lookup sv i) (us_abs lb s)"
proof -
  let ?P = "\<lambda>lk. sq_node (lk_sq lk) = sq_node from \<and> sq_port (lk_sq lk) = sq_port from \<and>
        lk_service lk = sv \<and> \<not> (lk_instance lk \<noteq> 0 \<and> lk_instance lk \<noteq> i)"
  have s': "s' = s\<lparr>us_lookups := filter (\<lambda>lk. \<not> ?P lk) (us_lookups s)\<rparr>"
    using assms(2) by (simp add: user_cmd_del_lookup_def)
  have "filter (\<lambda>lk. \<not> ?P lk) (us_lookups s) =
      filter (\<lambda>lk. \<not> (lk_sq lk = from \<and> lk_service lk = sv \<and> lk_instance lk \<in> {0, i})) (us_lookups s)"
    by (rule filter_cong) auto
  then have "us_abs lb s' = ns_spec (us_local_node s) from (M_del_lookup sv i) (us_abs lb s)"
    unfolding us_abs_def s' us_reg_def user_services_def by simp
  moreover have "us_inv lb s'"
    using assms(1) by (simp add: s' us_inv_def)
  ultimately show ?thesis
    by (simp add: s')
qed

lemma user_dispatch_msg:
  assumes "inj (ua_cmd u)" "msg_pkt u msg pkt"
  shows "user_dispatch lb u sq buf pkt s = (case msg of
       M_hello \<Rightarrow> user_cmd_hello lb u sq buf s
     | M_bye \<Rightarrow> user_cmd_bye lb u sq s
     | M_del_client n p \<Rightarrow> user_cmd_del_client lb u sq n p s
     | M_new_server sv i n p \<Rightarrow> user_cmd_new_server lb u sq sv i n p s
     | M_del_server sv i n p \<Rightarrow> user_cmd_del_server lb u sq sv i n p s
     | M_new_lookup sv i \<Rightarrow> Some (user_cmd_new_lookup lb u sq sv i s)
     | M_del_lookup sv i \<Rightarrow> Some (user_cmd_del_lookup sq sv i s))"
  using assms by (cases msg) (auto simp: user_dispatch_def Let_def inj_eq)

lemma spoofed_ignored:
  "spoofed (us_local_node s) from (M_new_server sv i n p) \<Longrightarrow>
   user_cmd_new_server lb u from sv i n p s = Some (- EINVAL, s)"
  "spoofed (us_local_node s) from (M_del_server sv i n p) \<Longrightarrow>
   user_cmd_del_server lb u from sv i n p s = Some (- EINVAL, s)"
  by (auto simp: user_cmd_new_server_def user_cmd_del_server_def user_speaks_for_def)

lemma dispatch_user:
  assumes inv: "us_inv lb s" and cmd: "inj (ua_cmd u)" "msg_pkt u msg pkt"
    and run: "user_dispatch lb u sq buf pkt s = Some (ret, s')"
  shows "us_keeps lb s s' \<and> (us_abs lb s' = user_spec (us_local_node s) sq msg (us_abs lb s) \<or>
     (\<exists>t. us_nomem s t) \<and> us_abs lb s' = us_abs lb s)"
proof (cases msg)
  case M_hello
  then show ?thesis
    using run hello_user [OF inv] unfolding user_dispatch_msg [OF cmd]
    by (auto simp: us_keeps_def us_same_def us_abs_def user_spec_def)
next
  case M_bye
  then show ?thesis
    using run bye_user [OF inv] unfolding user_dispatch_msg [OF cmd]
    by (auto simp: us_keeps_def us_same_def us_abs_def user_spec_def)
next
  case (M_del_client n p)
  then show ?thesis
    using run del_client_user [OF inv] unfolding user_dispatch_msg [OF cmd]
    by (auto simp: us_keeps_def user_spec_def)
next
  case (M_new_server sv i n p)
  then show ?thesis
    using run new_server_user [OF inv, of u sq sv i n p ret s'] inv
      spoofed_ignored(1) [of s sq sv i n p u] unfolding user_dispatch_msg [OF cmd]
    by (cases "spoofed (us_local_node s) sq msg") (auto simp: us_keeps_def us_same_def user_spec_def)
next
  case (M_del_server sv i n p)
  then show ?thesis
    using run del_server_user [OF inv, of u sq sv i n p ret s'] inv
      spoofed_ignored(2) [of s sq sv i n p u] unfolding user_dispatch_msg [OF cmd]
    by (cases "spoofed (us_local_node s) sq msg") (auto simp: us_keeps_def us_same_def user_spec_def)
next
  case (M_new_lookup sv i)
  then show ?thesis
    using run new_lookup_user [OF inv, of u sq sv i ret s'] unfolding user_dispatch_msg [OF cmd]
    by (auto simp: us_keeps_def user_spec_def)
next
  case (M_del_lookup sv i)
  then show ?thesis
    using run del_lookup_user [OF inv, of sq sv i ret s'] unfolding user_dispatch_msg [OF cmd]
    by (auto simp: us_keeps_def user_spec_def)
qed

text \<open>The program goes on as long as there is memory.\<close>

lemma mem_same: "us_same s s' \<Longrightarrow> user_mem_ok s' = user_mem_ok s"
  by (simp add: us_same_def user_mem_ok_def)

lemma node_get_total: "user_mem_ok s \<Longrightarrow> user_node_get lb n s \<noteq> None"
  by (auto simp: user_mem_ok_def user_node_get_def Let_def split: option.splits)

lemma tell_local_total: "user_mem_ok s \<Longrightarrow> user_tell_local lb pkt s \<noteq> None"
  using node_get_total [of s "us_local_node s"] by (auto simp: user_tell_local_def)

lemma hello_total: "user_mem_ok s \<Longrightarrow> user_cmd_hello lb u sq buf s \<noteq> None"
proof -
  assume mem: "user_mem_ok s"
  obtain rc s1 where send: "user_send sq (Raw buf) s = (rc, s1)"
    by fastforce
  then have "us_core s1 = us_core s"
    using user_send_core [of sq "Raw buf" s] by simp
  then have "user_mem_ok s1"
    using mem mem_same us_core_same by blast
  then show ?thesis
    using node_get_total [of s1 "us_local_node s1"] send by (auto simp: user_cmd_hello_def annouce_servers_def)
qed

lemma bye_total: "us_inv lb s \<Longrightarrow> user_mem_ok s \<Longrightarrow> user_cmd_bye lb u from s \<noteq> None"
proof -
  assume inv: "us_inv lb s" and mem: "user_mem_ok s"
  obtain got s1 where g: "user_node_get lb (sq_node from) s = Some (got, s1)"
    using node_get_total [OF mem, of "sq_node from"] by auto
  note gu = node_get_user(1) [OF inv g]
  have "user_mem_ok (user_bye_servers lb u (sq_node from) (servers_of lb s1 (sq_node from)) s1)"
    using gu mem bye_servers_user [of s1 u "sq_node from" "servers_of lb s1 (sq_node from)"] mem_same
      by blast
  then show ?thesis
    using g tell_local_total by (auto simp: user_cmd_bye_def)
qed

lemma del_client_total: "us_inv lb s \<Longrightarrow> user_mem_ok s \<Longrightarrow> user_cmd_del_client lb u from n p s \<noteq> None"
proof -
  assume inv: "us_inv lb s" and mem: "user_mem_ok s"
  let ?s1 = "s\<lparr>us_lookups := filter (\<lambda>lk. \<not> (sq_node (lk_sq lk) = n \<and> sq_port (lk_sq lk) = p)) (us_lookups s)\<rparr>"
  have i1: "us_inv lb ?s1" "user_mem_ok ?s1"
    using inv mem by (auto simp: us_inv_def user_mem_ok_def)
  obtain got s2 where g: "user_node_get lb n ?s1 = Some (got, s2)"
    using node_get_total [OF i1(2), of n] by auto
  note gu = node_get_user(1) [OF i1(1) g]
  obtain r s3 where sd: "user_server_del lb u n p s2 = (r, s3)"
    by fastforce
  have "user_mem_ok s2" "user_mem_ok s3"
    using gu i1(2) mem_same server_del_user [OF _ sd] by blast+
  then show ?thesis
    using g sd tell_local_total by (auto simp: user_cmd_del_client_def Let_def)
qed

lemma new_server_total: "user_mem_ok s \<Longrightarrow> user_cmd_new_server lb u from sv i n p s \<noteq> None"
proof -
  assume "user_mem_ok s"
  then have mem: "user_mem_ok (user_call s)"
    by (simp add: user_mem_ok_def user_call_def)
  obtain n' p' where who: "user_speaks_for s from n p = (n', p')"
    by fastforce
  have "user_server_add lb sv i n' p' s \<noteq> None"
    using node_get_total [OF mem, of n']
    by (cases "user_node_get lb n' (user_call s)") (auto simp: user_server_add_def Let_def)
  then show ?thesis
    by (auto simp: user_cmd_new_server_def who split: prod.splits option.splits)
qed

lemma del_server_total: "user_mem_ok s \<Longrightarrow> user_cmd_del_server lb u from sv i n p s \<noteq> None"
proof -
  assume mem: "user_mem_ok s"
  obtain n' p' where who: "user_speaks_for s from n p = (n', p')"
    by fastforce
  obtain got s1 where "user_node_get lb n' s = Some (got, s1)"
    using node_get_total [OF mem, of n'] by auto
  then show ?thesis
    by (auto simp: user_cmd_del_server_def who)
qed

lemma dispatch_total:
  "us_inv lb s \<Longrightarrow> user_mem_ok s \<Longrightarrow> user_dispatch lb u sq buf pkt s \<noteq> None"
  by (simp add: user_dispatch_def Let_def hello_total bye_total del_client_total new_server_total
      del_server_total del: not_None_eq)

lemma agree_msg:
  assumes agree: "agree lb h s t" and cmd: "inj (ua_cmd u)" "msg_pkt u msg pkt"
    and honest: "\<not> spoofed (ns_local_node s) sq msg"
  shows "\<exists>ret t'. user_dispatch lb u sq buf pkt t = Some (ret, t') \<and>
    agree lb h (snd (ns_dispatch u sq pkt s)) t' \<and> us_local_node t' = us_local_node t"
proof -
  have inv: "ns_inv h s" "us_inv lb t" "mem_ok s" "user_mem_ok t" "ns_local_node s = us_local_node t"
      "ns_abs s = us_abs lb t"
    using agree by (simp_all add: agree_def)
  obtain ret t' where run: "user_dispatch lb u sq buf pkt t = Some (ret, t')"
    using dispatch_total [OF inv(2,4), of u sq buf pkt] by auto
  have user: "us_keeps lb t t'" "us_abs lb t' = ns_spec (us_local_node t) sq msg (us_abs lb t)"
    using dispatch_user [OF inv(2) cmd run] inv(4,5) honest by (auto simp: user_mem_ok_def user_spec_def)
  have kernel: "ns_keeps h s (snd (ns_dispatch u sq pkt s))"
      "ns_abs (snd (ns_dispatch u sq pkt s)) = ns_spec (ns_local_node s) sq msg (ns_abs s)"
    using ns_dispatch_keeps [OF inv(1)] ns_dispatch_abs [OF inv(1,3) cmd] by auto
  show ?thesis
    using run user kernel inv agree
    by (auto simp: agree_def us_keeps_def ns_keeps_def mem_ok_def user_mem_ok_def)
qed

lemma agree_pkt:
  assumes "agree lb h s t" "inj (ua_cmd u)" "\<not> pkt_spoofed u (ns_local_node s) sq pkt"
  shows "\<exists>ret t'. user_dispatch lb u sq buf pkt t = Some (ret, t') \<and>
    agree lb h (snd (ns_dispatch u sq pkt s)) t' \<and> us_local_node t' = us_local_node t"
  using pkt_cases [of u pkt lb] agree_msg [OF assms(1,2)] pkt_spoofed_msg [OF _ assms(3)] assms(1)
  by (metis snd_conv)

text \<open>A message of full length reads the same from either buffer.\<close>

lemma full_message:
  assumes "20 \<le> length m" "length m \<le> recv_buf_size"
  shows "read_pkt (take 4096 m @ rest) = read_pkt m"
    and "length buf = recv_buf_size \<Longrightarrow> read_pkt (mem_put 0 (take recv_buf_size m) buf) = read_pkt m"
proof -
  show "read_pkt (take 4096 m @ rest) = read_pkt m"
    using assms by (simp add: read_pkt_def le32_def mem_slice_def recv_buf_size_def)
  assume "length buf = recv_buf_size"
  note put = le32_put(1) [OF this assms(2)]
  show "read_pkt (mem_put 0 (take recv_buf_size m) buf) = read_pkt m"
    using assms by (simp add: read_pkt_def put)
qed

lemma agree_run:
  assumes cmd: "inj (ua_cmd u)"
  shows "agree lb h s t \<Longrightarrow> length buf = recv_buf_size \<Longrightarrow>
   list_all (\<lambda>(m, sq). 20 \<le> length m \<and> length m \<le> recv_buf_size \<and>
     \<not> pkt_spoofed u (ns_local_node s) sq (read_pkt m)) ms \<Longrightarrow>
   \<exists>t'. user_loop lb u (map (\<lambda>(m, sq). Inr (m, rest m, sq)) ms) t = Some t' \<and>
     agree lb h (snd (foldl (worker_step u) (buf, s) ms)) t'"
proof (induction ms arbitrary: s t buf)
  case (Cons ev ms)
  obtain m sq where ev: "ev = (m, sq)"
    by fastforce
  have len: "20 \<le> length m" "length m \<le> recv_buf_size"
      and honest: "\<not> pkt_spoofed u (ns_local_node s) sq (read_pkt m)"
    using Cons.prems(3) ev by simp_all
  note full = full_message(1) [OF len] full_message(2) [OF len Cons.prems(2)]
  obtain ret t1 where step: "user_dispatch lb u sq m (read_pkt m) t = Some (ret, t1)"
      "agree lb h (snd (ns_dispatch u sq (read_pkt m) s)) t1" "us_local_node t1 = us_local_node t"
    using agree_pkt [OF Cons.prems(1) cmd honest, of m] by blast
  let ?buf = "mem_put 0 (take recv_buf_size m) buf"
  let ?s1 = "snd (ns_dispatch u sq (read_pkt m) s)"
  have "length ?buf = recv_buf_size"
    using Cons.prems(2) by (simp add: window)
  moreover have "ns_local_node ?s1 = ns_local_node s"
    using step(2,3) Cons.prems(1) by (simp add: agree_def)
  ultimately obtain t' where rest: "user_loop lb u (map (\<lambda>(m, sq). Inr (m, rest m, sq)) ms) t1 = Some t'"
      "agree lb h (snd (foldl (worker_step u) (?buf, ?s1) ms)) t'"
    using Cons.IH [OF step(2), of ?buf] Cons.prems(3) by auto
  have port: "ctrl_port_fn lb u (Inr (m, rest m, sq)) t = Some t1"
    using len step(1) full(1) by (auto simp: ctrl_port_fn_def)
  have kern: "worker_step u (buf, s) (m, sq) = (?buf, ?s1)"
    using full(2) by (simp add: worker_step_def Let_def)
  show ?case
    using rest port kern Cons.prems(1) by (simp add: ev agree_def)
qed simp

end

section \<open>The kernel's tables as the library\<close>

definition xa_ops :: "('v xarray, 'v) map_ops" where
  "xa_ops = \<lparr>mo_ok = xa_ok, mo_empty = [], mo_get = xa_load, mo_put = xa_store, mo_remove = xa_erase,
    mo_entries = id\<rparr>"

definition xa_libs :: "(servers xarray, servers) ns_libs" where
  "xa_libs = \<lparr>lb_nodes = xa_ops, lb_services = xa_ops, lb_hash = id\<rparr>"

lemma map_of_xa_load: "map_of t = xa_load t"
  by (simp add: fun_eq_iff xa_load_def)

lemma xa_map_laws: "map_laws xa_ops"
  by (simp add: map_laws_def xa_ops_def xa.ok_empty xa.ok_store xa.ok_erase xa.load_empty xa.load_store
      xa.load_erase map_of_xa_load)

lemma xa_libs_ok: "libs_ok xa_libs"
  by (simp add: libs_ok_def xa_libs_def xa_map_laws)

interpretation xa_lib: ns_library xa_libs
  by unfold_locales (rule xa_libs_ok)

section \<open>Properties\<close>

text \<open>
  C6. The user-space name service and the kernel's keep the same registry: from states that
  know the same servers and lookups, over any messages of full length in which no node
  speaks for another, and with memory to spare, the program does not end and both know the
  same servers and lookups afterwards, whatever the map library is like inside, whatever
  lies on the stack behind a message and whatever the sends return.
\<close>

theorem name_services_agree:
  assumes "libs_ok lb" "inj (ua_cmd u)" "agree lb h s t" "length buf = recv_buf_size"
    and "list_all (\<lambda>(m, sq). 20 \<le> length m \<and> length m \<le> recv_buf_size \<and>
      \<not> pkt_spoofed u (ns_local_node s) sq (read_pkt m)) ms"
  shows "\<exists>t'. user_loop lb u (map (\<lambda>(m, sq). Inr (m, rest m, sq)) ms) t = Some t' \<and>
    agree lb h (snd (foldl (worker_step u) (buf, s) ms)) t'"
  using ns_library.agree_run [OF ns_library.intro [OF assms(1)] assms(2-5)] .

definition boot_env :: ns_env where
  "boot_env = \<lparr>ne_sock = 0, ne_sockname = Inr 1, ne_workqueue = True, ne_bind = 0,
    ne_result = (\<lambda>_. 20), ne_nomem = (\<lambda>_. False)\<rparr>"

definition user_boot :: "servers xarray user_ns" where
  "user_boot = \<lparr>us_nodes = [], us_lookups = [], us_local_node = 1, us_sock = True, us_tick = 0,
    us_nomem = (\<lambda>_. False), us_result = (\<lambda>_. 20), us_stack = (\<lambda>_. 0xDEADBEEF), us_sent = []\<rparr>"

text \<open>A new server message of service 15, instance 1, at node 5, port 42, as bytes.\<close>

definition new_server_msg :: bytes where
  "new_server_msg = [4, 0, 0, 0, 15, 0, 0, 0, 1, 0, 0, 0, 5, 0, 0, 0, 42, 0, 0, 0]"

lemma new_server_msg_pkt:
  "read_pkt new_server_msg = \<lparr>cp_cmd = 4, cp_w0 = 15, cp_w1 = 1, cp_w2 = 5, cp_w3 = 42\<rparr>"
  by (simp add: read_pkt_def new_server_msg_def le32_def mem_slice_def)

lemma boot_agree: "agree xa_libs 0 (ns_boot boot_env 1) user_boot"
  by (simp add: agree_def ns_boot_def boot_env_def user_boot_def ns_inv_def nodes_ok_def ns_objects_def
      us_inv_def xa_libs_def xa_ops_def xa.ok_empty xa.load_empty mem_ok_def user_mem_ok_def ns_abs_def
      us_abs_def ns_reg_def us_reg_def ns_servers_def user_services_def xa_total_def fun_eq_iff)

theorem name_services_agree_witness:
  "\<exists>t'. user_loop xa_libs linux_uapi
      (map (\<lambda>(m, sq). Inr (m, [], sq)) [(new_server_msg, \<lparr>sq_node = 5, sq_port = 42\<rparr>)]) user_boot = Some t' \<and>
    agree xa_libs 0 (snd (foldl (worker_step linux_uapi) (replicate recv_buf_size 0, ns_boot boot_env 1)
      [(new_server_msg, \<lparr>sq_node = 5, sq_port = 42\<rparr>)])) t'"
  by (rule name_services_agree)
    (simp_all add: xa_libs_ok linux_uapi_inj boot_agree new_server_msg_pkt pkt_spoofed_def,
     simp add: new_server_msg_def recv_buf_size_def)

text \<open>
  C39. Where the two differ: a message in which a remote node registers a server for another
  node. The user-space service refuses it and keeps its registry; the kernel's service has
  no such check and files the server under the node the message names.
\<close>

theorem kernel_accepts_spoofed:
  assumes "inj (ua_cmd u)" "ns_inv h s" "mem_ok s" "us_inv lb t" "us_local_node t = ns_local_node s"
    and "sq_node sq \<noteq> n" "sq_node sq \<noteq> ns_local_node s" "sv \<noteq> 0" "p \<noteq> 0"
    and "pkt = \<lparr>cp_cmd = ua_cmd u CMD_NEW_SERVER, cp_w0 = sv, cp_w1 = i, cp_w2 = n, cp_w3 = p\<rparr>"
  shows "user_dispatch lb u sq buf pkt t = Some (- EINVAL, t) \<and>
    ns_reg (snd (ns_dispatch u sq pkt s)) (n, p) = Some (sv, i)"
proof -
  have msg: "msg_pkt u (M_new_server sv i n p) pkt"
    using assms(10) by simp
  have "ns_abs (snd (ns_dispatch u sq pkt s)) = ns_spec (ns_local_node s) sq (M_new_server sv i n p) (ns_abs s)"
    by (rule ns_dispatch_abs [OF assms(2,3,1) msg])
  moreover have "user_dispatch lb u sq buf pkt t = user_cmd_new_server lb u sq sv i n p t"
    using assms(1,10) by (simp add: user_dispatch_def Let_def inj_eq)
  ultimately show ?thesis
    using assms(5-9) by (simp add: user_cmd_new_server_def user_speaks_for_def ns_abs_def Let_def)
qed

theorem kernel_accepts_spoofed_witness:
  "user_dispatch xa_libs linux_uapi \<lparr>sq_node = 7, sq_port = 9\<rparr> new_server_msg
     (read_pkt new_server_msg) user_boot = Some (- EINVAL, user_boot) \<and>
   ns_reg (snd (ns_dispatch linux_uapi \<lparr>sq_node = 7, sq_port = 9\<rparr> (read_pkt new_server_msg)
     (ns_boot boot_env 1))) (5, 42) = Some (15, 1)"
proof -
  have facts: "ns_inv 0 (ns_boot boot_env 1)" "mem_ok (ns_boot boot_env 1)" "us_inv xa_libs user_boot"
    using boot_agree by (simp_all add: agree_def)
  show ?thesis
    by (rule kernel_accepts_spoofed [OF linux_uapi_inj facts, where n = 5 and sv = 15 and i = 1 and p = 42])
      (simp_all add: new_server_msg_pkt linux_uapi_def user_boot_def ns_boot_def)
qed

end
