(* ===== verification/Wlan_Qmi.thy ===== *)
theory Wlan_Qmi
  imports Resources "HOL-Library.Multiset"
begin

text \<open>
  \<^verbatim>\<open>tcl-ath10k-qmi.c\<close>: how the WLAN driver brings its firmware up over QMI. The driver answers
  the arrival of the firmware service with a fixed sequence of requests, hands the memory
  regions the firmware asks for over to it through the secure world, downloads the board data
  in segments, and takes the regions back when the service goes away. The arrivals,
  departures and indications come as events through a queue and are handled one at a time.

  The constants of the message definitions are not in the sources; they are the parameter
  \<open>wlfw\<close>. The answers of the QMI layer, of the secure world and of the driver core are
  functions of the number of the call.
\<close>

section \<open>Messages\<close>

record wlfw =
  wl_success :: int
  wl_malformed :: int
  wl_not_supported :: int
  wl_max_data :: nat
  wl_max_mem_reg :: nat
  wl_max_ce :: nat
  wl_max_svc :: nat
  wl_max_shadow :: nat
  wl_mode_off :: nat

record bdf_seg =
  bs_total :: nat
  bs_seg_id :: nat
  bs_data :: bytes
  bs_end :: bool

record mem_region =
  mr_addr :: u64
  mr_size :: u32
  mr_secure :: bool

type_synonym ce_tgt_cfg = "u32 \<times> u32 \<times> u32 \<times> u32 \<times> u32"
type_synonym ce_svc_cfg = "u32 \<times> u32 \<times> u32"

datatype wlfw_req =
    Msa_info u64 u32
  | Msa_ready
  | Bdf bdf_seg
  | Cal_report "u8 option" "u32 list"
  | Wlan_mode nat
  | Wlan_cfg "ce_tgt_cfg list" "ce_svc_cfg list" "u32 list"
  | Cap
  | Host_cap bool
  | Ini u8
  | Ind_register bool

record cap_resp =
  cr_chip :: "(u32 \<times> u32) option"
  cr_board :: "u32 option"
  cr_soc :: "u32 option"
  cr_fw_version :: "(u32 \<times> string) option"
  cr_build_id :: "string option"

section \<open>State and environment\<close>

record wlan_env =
  we_nomem :: "nat \<Rightarrow> bool"
  we_init :: "nat \<Rightarrow> int"
  we_send :: "nat \<Rightarrow> int"
  we_wait :: "nat \<Rightarrow> int"
  we_result :: "nat \<Rightarrow> int"
  we_error :: "nat \<Rightarrow> int"
  we_regions :: "nat \<Rightarrow> mem_region list"
  we_cap :: "nat \<Rightarrow> cap_resp"
  we_fw_ready :: "nat \<Rightarrow> bool"
  we_assign :: "nat \<Rightarrow> int"
  we_board :: "nat \<Rightarrow> int + bytes"

datatype wlan_event = Server_arrive | Server_exit | Fw_ready_ind | Msa_ready_ind

datatype snoc_ind = Ind_fw_ready | Ind_fw_down

record ath10k_qmi =
  w_tick :: nat
  w_txns :: int
  w_sent :: "wlfw_req list"
  w_msa_paddr :: u64
  w_msa_size :: u32
  w_fixed_perm :: bool
  w_no_msa_ready :: bool
  w_nr_mem_region :: nat
  w_mem_region :: "mem_region list"
  w_trace :: "mem_region revent list"
  w_fw_ready :: bool
  w_init_done :: bool
  w_events :: "wlan_event list"
  w_chip_id :: u32
  w_chip_family :: u32
  w_board_id :: u32
  w_soc_id :: u32
  w_fw_version :: u32
  w_timestamp :: string
  w_build_id :: string
  w_xo_cal :: "u8 option"
  w_8bit_host_cap :: bool
  w_cal_data :: "(u32 \<times> bool \<times> u32) list"
  w_board_data :: bytes
  w_board_file :: bool
  w_smem :: "bytes option"
  w_unregistering :: bool
  w_modem_stopped :: bool
  w_crash_dumps :: nat
  w_indications :: "snoc_ind list"

definition w_call :: "(nat \<Rightarrow> 'r) \<Rightarrow> ath10k_qmi \<Rightarrow> 'r \<times> ath10k_qmi" where
  "w_call f s = (f (w_tick s), s\<lparr>w_tick := Suc (w_tick s)\<rparr>)"

section \<open>Permissions of the memory regions\<close>

definition ath10k_qmi_map_msa_permission :: "wlan_env \<Rightarrow> mem_region \<Rightarrow> ath10k_qmi \<Rightarrow> int \<times> ath10k_qmi" where
  "ath10k_qmi_map_msa_permission e r s = (let (ret, s) = w_call (we_assign e) s in
     (ret, if ret < 0 then s else s\<lparr>w_trace := w_trace s @ [Acq r]\<rparr>))"

definition ath10k_qmi_unmap_msa_permission :: "wlan_env \<Rightarrow> mem_region \<Rightarrow> ath10k_qmi \<Rightarrow> int \<times> ath10k_qmi" where
  "ath10k_qmi_unmap_msa_permission e r s = (let (ret, s) = w_call (we_assign e) s in
     (ret, if ret < 0 then s else s\<lparr>w_trace := w_trace s @ [Rel r]\<rparr>))"

fun unmap_regions :: "wlan_env \<Rightarrow> mem_region list \<Rightarrow> ath10k_qmi \<Rightarrow> ath10k_qmi" where
  "unmap_regions e [] s = s"
| "unmap_regions e (r # rs) s = unmap_regions e rs (snd (ath10k_qmi_unmap_msa_permission e r s))"

text \<open>\<open>mapped\<close> are the regions mapped so far, the last one first, as the error path undoes them.\<close>

fun map_regions :: "wlan_env \<Rightarrow> mem_region list \<Rightarrow> mem_region list \<Rightarrow> ath10k_qmi \<Rightarrow> int \<times> ath10k_qmi" where
  "map_regions e mapped [] s = (0, s)"
| "map_regions e mapped (r # rs) s = (let (ret, s) = ath10k_qmi_map_msa_permission e r s in
     if ret \<noteq> 0 then (ret, unmap_regions e mapped s) else map_regions e (r # mapped) rs s)"

definition ath10k_qmi_setup_msa_permissions :: "wlan_env \<Rightarrow> ath10k_qmi \<Rightarrow> int \<times> ath10k_qmi" where
  "ath10k_qmi_setup_msa_permissions e s = (if w_fixed_perm s then (0, s)
     else map_regions e [] (take (w_nr_mem_region s) (w_mem_region s)) s)"

definition ath10k_qmi_remove_msa_permission :: "wlan_env \<Rightarrow> ath10k_qmi \<Rightarrow> ath10k_qmi" where
  "ath10k_qmi_remove_msa_permission e s = (if w_fixed_perm s then s
     else unmap_regions e (take (w_nr_mem_region s) (w_mem_region s)) s)"

section \<open>Synchronous requests\<close>

text \<open>
  Every request runs the same way: open a transaction, send (and cancel the transaction when
  that fails), wait. The result is the status and the number of the call, which selects the
  response.
\<close>

definition wlfw_sync :: "wlan_env \<Rightarrow> wlfw_req \<Rightarrow> ath10k_qmi \<Rightarrow> int \<times> nat \<times> ath10k_qmi" where
  "wlfw_sync e req s = (let n = w_tick s; s = s\<lparr>w_tick := Suc n\<rparr> in
     if we_init e n < 0 then (we_init e n, n, s)
     else let s = s\<lparr>w_txns := w_txns s + 1\<rparr> in
     if we_send e n < 0 then (we_send e n, n, s\<lparr>w_txns := w_txns s - 1\<rparr>)
     else let s = s\<lparr>w_sent := w_sent s @ [req], w_txns := w_txns s - 1\<rparr> in
     if we_wait e n < 0 then (we_wait e n, n, s) else (0, n, s))"

definition region_bad :: "ath10k_qmi \<Rightarrow> mem_region \<Rightarrow> bool" where
  "region_bad s r \<longleftrightarrow> (let max_mapped = w_msa_paddr s + ucast (w_msa_size s) in
     w_msa_size s < mr_size r \<or> max_mapped < mr_addr r \<or> mr_addr r < w_msa_paddr s \<or>
     max_mapped < ucast (mr_size r) + mr_addr r)"

text \<open>
  The checks of the regions in turn. A bad one clears the entries written before it; the
  number of regions is set before the checks and stays.
\<close>

fun take_regions :: "mem_region list \<Rightarrow> nat \<Rightarrow> ath10k_qmi \<Rightarrow> int \<times> ath10k_qmi" where
  "take_regions [] i s = (0, s)"
| "take_regions (r # rs) i s = (if region_bad s r
     then (- EINVAL, s\<lparr>w_mem_region := replicate i \<lparr>mr_addr = 0, mr_size = 0, mr_secure = False\<rparr> @
        drop i (w_mem_region s)\<rparr>)
     else take_regions rs (Suc i) (s\<lparr>w_mem_region := (w_mem_region s)[i := r]\<rparr>))"

definition ath10k_qmi_msa_mem_info_send_sync_msg :: "wlfw \<Rightarrow> wlan_env \<Rightarrow> ath10k_qmi \<Rightarrow> int \<times> ath10k_qmi" where
  "ath10k_qmi_msa_mem_info_send_sync_msg w e s =
     (let (ret, n, s) = wlfw_sync e (Msa_info (w_msa_paddr s) (w_msa_size s)) s in
      if ret < 0 then (ret, s)
      else if we_result e n \<noteq> wl_success w then (- EINVAL, s)
      else if wl_max_mem_reg w < length (we_regions e n) then (- EINVAL, s)
      else take_regions (we_regions e n) 0 (s\<lparr>w_nr_mem_region := length (we_regions e n)\<rparr>))"

text \<open>A rejected request sets \<open>ret\<close>, and the function returns 0 nevertheless.\<close>

definition ath10k_qmi_msa_ready_send_sync_msg :: "wlfw \<Rightarrow> wlan_env \<Rightarrow> ath10k_qmi \<Rightarrow> int \<times> ath10k_qmi" where
  "ath10k_qmi_msa_ready_send_sync_msg w e s = (let (ret, n, s) = wlfw_sync e Msa_ready s in
     if ret < 0 then (ret, s)
     else let ret = (if we_result e n \<noteq> wl_success w then - EINVAL else ret) in (0, s))"

text \<open>
  The download of the board data. \<open>temp\<close> is what remains, \<open>seg_id\<close> and \<open>fin\<close> are the fields of
  the request that are kept from one segment to the next. A loop that makes no progress
  (a zero maximum) is not excluded by the source, so the loop may not end.
\<close>

partial_function (option) bdf_loop ::
  "wlfw \<Rightarrow> wlan_env \<Rightarrow> nat \<Rightarrow> nat \<Rightarrow> bool \<Rightarrow> bytes \<Rightarrow> ath10k_qmi \<Rightarrow> (int \<times> ath10k_qmi) option" where
  "bdf_loop w e tot seg_id fin temp s = (if temp = [] then Some (0, s)
     else let data = (if wl_max_data w < length temp then take (wl_max_data w) temp else temp);
              fin = (if wl_max_data w < length temp then fin else True);
              (ret, n, s) = wlfw_sync e (Bdf \<lparr>bs_total = tot, bs_seg_id = seg_id, bs_data = data, bs_end = fin\<rparr>) s
          in if ret < 0 then Some (ret, s)
          else if we_result e n \<noteq> wl_success w \<and> \<not> (fin \<and> we_result e n = wl_malformed w)
            then Some (- EINVAL, s)
          else bdf_loop w e tot (Suc seg_id) fin (drop (length data) temp) s)"

declare bdf_loop.simps [code]

definition ath10k_qmi_bdf_dnld_send_sync :: "wlfw \<Rightarrow> wlan_env \<Rightarrow> ath10k_qmi \<Rightarrow> (int \<times> ath10k_qmi) option" where
  "ath10k_qmi_bdf_dnld_send_sync w e s = (let (nomem, s) = w_call (we_nomem e) s in
     if nomem then Some (- ENOMEM, s)
     else bdf_loop w e (length (w_board_data s)) 0 False (w_board_data s) s)"

text \<open>A request whose response carries nothing but the result.\<close>

definition wlfw_simple :: "wlfw \<Rightarrow> wlan_env \<Rightarrow> wlfw_req \<Rightarrow> ath10k_qmi \<Rightarrow> int \<times> ath10k_qmi" where
  "wlfw_simple w e req s = (let (ret, n, s) = wlfw_sync e req s in
     if ret < 0 then (ret, s) else if we_result e n \<noteq> wl_success w then (- EINVAL, s) else (0, s))"

definition ath10k_qmi_send_cal_report_req :: "wlfw \<Rightarrow> wlan_env \<Rightarrow> ath10k_qmi \<Rightarrow> int \<times> ath10k_qmi" where
  "ath10k_qmi_send_cal_report_req w e s = wlfw_simple w e
     (Cal_report (w_xo_cal s) (map (\<lambda>(_, _, i). i) (filter (\<lambda>(size, data, _). size \<noteq> 0 \<and> data) (w_cal_data s)))) s"

definition ath10k_qmi_mode_send_sync_msg :: "wlfw \<Rightarrow> wlan_env \<Rightarrow> nat \<Rightarrow> ath10k_qmi \<Rightarrow> int \<times> ath10k_qmi" where
  "ath10k_qmi_mode_send_sync_msg w e mode s = wlfw_simple w e (Wlan_mode mode) s"

record wlan_enable_cfg =
  wc_num_ce_tgt :: nat
  wc_ce_tgt :: "ce_tgt_cfg list"
  wc_num_svc :: nat
  wc_svc :: "ce_svc_cfg list"
  wc_num_shadow :: nat
  wc_shadow :: "u32 list"

definition clamp :: "nat \<Rightarrow> nat \<Rightarrow> nat" where
  "clamp limit n = (if limit < n then limit else n)"

definition ath10k_qmi_cfg_send_sync_msg ::
  "wlfw \<Rightarrow> wlan_env \<Rightarrow> wlan_enable_cfg \<Rightarrow> ath10k_qmi \<Rightarrow> int \<times> ath10k_qmi" where
  "ath10k_qmi_cfg_send_sync_msg w e c s = (let (nomem, s) = w_call (we_nomem e) s in
     if nomem then (- ENOMEM, s)
     else wlfw_simple w e (Wlan_cfg (take (clamp (wl_max_ce w) (wc_num_ce_tgt c)) (wc_ce_tgt c))
       (take (clamp (wl_max_svc w) (wc_num_svc c)) (wc_svc c))
       (take (clamp (wl_max_shadow w) (wc_num_shadow c)) (wc_shadow c))) s)"

definition ath10k_qmi_wlan_enable ::
  "wlfw \<Rightarrow> wlan_env \<Rightarrow> wlan_enable_cfg \<Rightarrow> nat \<Rightarrow> ath10k_qmi \<Rightarrow> int \<times> ath10k_qmi" where
  "ath10k_qmi_wlan_enable w e c mode s = (let (ret, s) = ath10k_qmi_cfg_send_sync_msg w e c s in
     if ret \<noteq> 0 then (ret, s) else ath10k_qmi_mode_send_sync_msg w e mode s)"

definition ath10k_qmi_wlan_disable :: "wlfw \<Rightarrow> wlan_env \<Rightarrow> ath10k_qmi \<Rightarrow> int \<times> ath10k_qmi" where
  "ath10k_qmi_wlan_disable w e s = ath10k_qmi_mode_send_sync_msg w e (wl_mode_off w) s"

section \<open>Capabilities\<close>

definition SMEM_ENTRY_SIZE :: nat where "SMEM_ENTRY_SIZE = 128"
definition SMEM_NAME_SIZE :: nat where "SMEM_NAME_SIZE = 75"
definition smem_img_idx_wlan :: nat where "smem_img_idx_wlan = 13 * SMEM_ENTRY_SIZE"

definition strscpy :: "string \<Rightarrow> nat \<Rightarrow> bytes" where
  "strscpy src n = map of_char (take (n - 1) src) @ [0]"

definition ath10k_qmi_add_wlan_ver_smem :: "string \<Rightarrow> bytes option \<Rightarrow> bytes option" where
  "ath10k_qmi_add_wlan_ver_smem build_id table = (case table of None \<Rightarrow> None | Some t \<Rightarrow>
     if length t < smem_img_idx_wlan + SMEM_ENTRY_SIZE then Some t
     else Some (mem_put smem_img_idx_wlan (strscpy build_id SMEM_NAME_SIZE) t))"

definition ath10k_qmi_cap_send_sync_msg :: "wlfw \<Rightarrow> wlan_env \<Rightarrow> ath10k_qmi \<Rightarrow> int \<times> ath10k_qmi" where
  "ath10k_qmi_cap_send_sync_msg w e s = (let (nomem, s) = w_call (we_nomem e) s in
     if nomem then (- ENOMEM, s)
     else let (ret, n, s) = wlfw_sync e Cap s; c = we_cap e n in
     if ret < 0 then (ret, s)
     else if we_result e n \<noteq> wl_success w then (- EINVAL, s)
     else let
       s = (case cr_chip c of Some (i, f) \<Rightarrow> s\<lparr>w_chip_id := i, w_chip_family := f\<rparr> | None \<Rightarrow> s\<lparr>w_chip_id := 0xFF\<rparr>);
       s = s\<lparr>w_board_id := (case cr_board c of Some b \<Rightarrow> b | None \<Rightarrow> 0xFF)\<rparr>;
       s = (case cr_soc c of Some i \<Rightarrow> s\<lparr>w_soc_id := i\<rparr> | None \<Rightarrow> s);
       s = (case cr_fw_version c of Some (v, t) \<Rightarrow> s\<lparr>w_fw_version := v, w_timestamp := t\<rparr> | None \<Rightarrow> s);
       s = (case cr_build_id c of Some b \<Rightarrow> s\<lparr>w_build_id := b\<rparr> | None \<Rightarrow> s);
       s = (if cr_build_id c \<noteq> None
            then s\<lparr>w_smem := ath10k_qmi_add_wlan_ver_smem (w_build_id s) (w_smem s)\<rparr> else s)
     in (0, s))"

definition ath10k_qmi_host_cap_send_sync :: "wlfw \<Rightarrow> wlan_env \<Rightarrow> ath10k_qmi \<Rightarrow> int \<times> ath10k_qmi" where
  "ath10k_qmi_host_cap_send_sync w e s = (let (ret, n, s) = wlfw_sync e (Host_cap (w_8bit_host_cap s)) s in
     if ret < 0 then (ret, s)
     else if we_result e n \<noteq> wl_success w \<and> we_error e n \<noteq> wl_not_supported w then (- EINVAL, s)
     else (0, s))"

definition ath10k_qmi_set_fw_log_mode :: "wlfw \<Rightarrow> wlan_env \<Rightarrow> u8 \<Rightarrow> ath10k_qmi \<Rightarrow> int \<times> ath10k_qmi" where
  "ath10k_qmi_set_fw_log_mode w e mode s = wlfw_simple w e (Ini mode) s"

definition ath10k_qmi_ind_register_send_sync_msg :: "wlfw \<Rightarrow> wlan_env \<Rightarrow> ath10k_qmi \<Rightarrow> int \<times> ath10k_qmi" where
  "ath10k_qmi_ind_register_send_sync_msg w e s =
     (let (ret, n, s) = wlfw_sync e (Ind_register (w_xo_cal s \<noteq> None)) s in
      if ret < 0 then (ret, s)
      else if we_result e n \<noteq> wl_success w then (- EINVAL, s)
      else (0, if we_fw_ready e n then s\<lparr>w_fw_ready := True\<rparr> else s))"

section \<open>Events\<close>

definition ath10k_qmi_event_server_arrive :: "wlfw \<Rightarrow> wlan_env \<Rightarrow> ath10k_qmi \<Rightarrow> ath10k_qmi" where
  "ath10k_qmi_event_server_arrive w e s =
     (let (ret, s) = ath10k_qmi_ind_register_send_sync_msg w e s in
      if ret \<noteq> 0 then s
      else if w_fw_ready s then s\<lparr>w_indications := w_indications s @ [Ind_fw_ready]\<rparr>
      else let (ret, s) = ath10k_qmi_host_cap_send_sync w e s in
      if ret \<noteq> 0 then s
      else let (ret, s) = ath10k_qmi_msa_mem_info_send_sync_msg w e s in
      if ret \<noteq> 0 then s
      else let (ret, s) = ath10k_qmi_setup_msa_permissions e s in
      if ret \<noteq> 0 then s
      else let (ret, s) = ath10k_qmi_msa_ready_send_sync_msg w e s in
      if ret \<noteq> 0 then ath10k_qmi_remove_msa_permission e s
      else let (ret, s) = ath10k_qmi_cap_send_sync_msg w e s in
      if ret \<noteq> 0 then ath10k_qmi_remove_msa_permission e s
      else s)"

definition ath10k_qmi_fetch_board_file :: "wlan_env \<Rightarrow> ath10k_qmi \<Rightarrow> int \<times> ath10k_qmi" where
  "ath10k_qmi_fetch_board_file e s = (let (r, s) = w_call (we_board e) s in
     case r of Inl err \<Rightarrow> (err, s) | Inr data \<Rightarrow> (0, s\<lparr>w_board_data := data, w_board_file := True\<rparr>))"

definition ath10k_qmi_driver_event_post :: "wlan_env \<Rightarrow> wlan_event \<Rightarrow> ath10k_qmi \<Rightarrow> int \<times> ath10k_qmi" where
  "ath10k_qmi_driver_event_post e ev s = (let (nomem, s) = w_call (we_nomem e) s in
     if nomem then (- ENOMEM, s) else (0, s\<lparr>w_events := w_events s @ [ev]\<rparr>))"

definition ath10k_qmi_event_server_exit :: "wlan_env \<Rightarrow> ath10k_qmi \<Rightarrow> ath10k_qmi" where
  "ath10k_qmi_event_server_exit e s = (let
      s = ath10k_qmi_remove_msa_permission e s;
      s = s\<lparr>w_board_file := False, w_board_data := []\<rparr>;
      s = (if \<not> w_unregistering s \<and> \<not> w_modem_stopped s then s\<lparr>w_crash_dumps := Suc (w_crash_dumps s)\<rparr> else s)
    in s\<lparr>w_indications := w_indications s @ [Ind_fw_down]\<rparr>)"

definition ath10k_qmi_event_msa_ready :: "wlfw \<Rightarrow> wlan_env \<Rightarrow> ath10k_qmi \<Rightarrow> ath10k_qmi option" where
  "ath10k_qmi_event_msa_ready w e s = (let (ret, s) = ath10k_qmi_fetch_board_file e s in
     if ret \<noteq> 0 then Some s
     else (case ath10k_qmi_bdf_dnld_send_sync w e s of None \<Rightarrow> None | Some (ret, s) \<Rightarrow>
       if ret \<noteq> 0 then Some s else Some (snd (ath10k_qmi_send_cal_report_req w e s))))"

definition ath10k_qmi_event_fw_ready_ind :: "ath10k_qmi \<Rightarrow> ath10k_qmi" where
  "ath10k_qmi_event_fw_ready_ind s = s\<lparr>w_indications := w_indications s @ [Ind_fw_ready]\<rparr>"

definition ath10k_qmi_fw_ready_ind :: "wlan_env \<Rightarrow> ath10k_qmi \<Rightarrow> ath10k_qmi" where
  "ath10k_qmi_fw_ready_ind e s = snd (ath10k_qmi_driver_event_post e Fw_ready_ind s)"

definition ath10k_qmi_msa_ready_ind :: "wlan_env \<Rightarrow> ath10k_qmi \<Rightarrow> ath10k_qmi" where
  "ath10k_qmi_msa_ready_ind e s = snd (ath10k_qmi_driver_event_post e Msa_ready_ind s)"

definition ath10k_qmi_new_server :: "wlan_env \<Rightarrow> int \<Rightarrow> ath10k_qmi \<Rightarrow> int \<times> ath10k_qmi" where
  "ath10k_qmi_new_server e connect s = (if connect \<noteq> 0 then (connect, s)
     else (0, snd (ath10k_qmi_driver_event_post e Server_arrive s)))"

definition ath10k_qmi_del_server :: "wlan_env \<Rightarrow> ath10k_qmi \<Rightarrow> ath10k_qmi" where
  "ath10k_qmi_del_server e s = (let s = s\<lparr>w_fw_ready := False\<rparr> in
     if w_init_done s then snd (ath10k_qmi_driver_event_post e Server_exit s) else s)"

definition handle_event :: "wlfw \<Rightarrow> wlan_env \<Rightarrow> wlan_event \<Rightarrow> ath10k_qmi \<Rightarrow> ath10k_qmi option" where
  "handle_event w e ev s = (case ev of
      Server_arrive \<Rightarrow> (let s = ath10k_qmi_event_server_arrive w e s in
        if w_no_msa_ready s then ath10k_qmi_event_msa_ready w e s else Some s)
    | Server_exit \<Rightarrow> Some (ath10k_qmi_event_server_exit e s)
    | Fw_ready_ind \<Rightarrow> Some (ath10k_qmi_event_fw_ready_ind s)
    | Msa_ready_ind \<Rightarrow> if w_no_msa_ready s then Some s else ath10k_qmi_event_msa_ready w e s)"

text \<open>
  The worker. Nothing is posted while it runs in this model, so it ends with the queue it
  found; an event that is posted meanwhile is handled by the next run of the worker.
\<close>

fun event_loop :: "wlfw \<Rightarrow> wlan_env \<Rightarrow> wlan_event list \<Rightarrow> ath10k_qmi \<Rightarrow> ath10k_qmi option" where
  "event_loop w e [] s = Some s"
| "event_loop w e (ev # evs) s =
     (case handle_event w e ev (s\<lparr>w_events := evs\<rparr>) of None \<Rightarrow> None | Some s1 \<Rightarrow> event_loop w e evs s1)"

definition ath10k_qmi_driver_event_work :: "wlfw \<Rightarrow> wlan_env \<Rightarrow> ath10k_qmi \<Rightarrow> ath10k_qmi option" where
  "ath10k_qmi_driver_event_work w e s = event_loop w e (w_events s) s"

section \<open>Initialisation\<close>

datatype wlan_res = Qmi_mem | Qmi_handle | Qmi_wq

record wlan_init_env =
  wi_alloc :: bool
  wi_handle :: int
  wi_wq :: bool
  wi_lookup :: int

text \<open>
  The status, the trace, and the pointer \<open>ar_snoc->qmi\<close>: \<open>Some True\<close> when it points to the
  structure, \<open>Some False\<close> when it points to freed memory.
\<close>

definition ath10k_qmi_init :: "wlan_init_env \<Rightarrow> int \<times> wlan_res revent list \<times> bool option" where
  "ath10k_qmi_init i = (if \<not> wi_alloc i then (- ENOMEM, [], None)
     else if wi_handle i \<noteq> 0 then (wi_handle i, [Acq Qmi_mem, Rel Qmi_mem], Some False)
     else if \<not> wi_wq i then
       (- EFAULT, [Acq Qmi_mem, Acq Qmi_handle, Rel Qmi_handle, Rel Qmi_mem], Some False)
     else if wi_lookup i \<noteq> 0 then
       (wi_lookup i, [Acq Qmi_mem, Acq Qmi_handle, Acq Qmi_wq, Rel Qmi_wq, Rel Qmi_handle, Rel Qmi_mem], Some False)
     else (0, [Acq Qmi_mem, Acq Qmi_handle, Acq Qmi_wq], Some True))"

definition ath10k_qmi_deinit :: "wlan_init_env \<Rightarrow> bool option \<Rightarrow> wlan_res revent list" where
  "ath10k_qmi_deinit i ptr = [Rel Qmi_handle, Rel Qmi_wq, Rel Qmi_mem]"

interpretation wlan_module: module_lifecycle "\<lambda>_. True" ath10k_qmi_init ath10k_qmi_deinit
  by unfold_locales
    (auto simp: ath10k_qmi_init_def ath10k_qmi_deinit_def balanced_def split: if_splits)

section \<open>Requests\<close>

text \<open>A request changes the counters and what was sent, nothing else; no transaction is left open.\<close>

definition same_wlan :: "ath10k_qmi \<Rightarrow> ath10k_qmi \<Rightarrow> bool" where
  "same_wlan s s' \<longleftrightarrow> (\<exists>t l. s' = s\<lparr>w_tick := t, w_sent := l\<rparr>)"

lemma wlfw_sync_same:
  assumes "wlfw_sync e req s = (ret, n, s')"
  shows "same_wlan s s' \<and> (w_sent s' = w_sent s \<or> w_sent s' = w_sent s @ [req]) \<and>
    (ret = 0 \<longrightarrow> w_sent s' = w_sent s @ [req]) \<and> ret \<le> 0"
proof -
  have "s' = s\<lparr>w_tick := w_tick s', w_sent := w_sent s'\<rparr> \<and>
      (w_sent s' = w_sent s \<or> w_sent s' = w_sent s @ [req]) \<and>
      (ret = 0 \<longrightarrow> w_sent s' = w_sent s @ [req]) \<and> ret \<le> 0"
    using assms by (auto simp: wlfw_sync_def Let_def split: if_splits)
  then show ?thesis
    unfolding same_wlan_def by blast
qed

lemma same_wlan_fields:
  "same_wlan s s' \<Longrightarrow> w_trace s' = w_trace s \<and> w_mem_region s' = w_mem_region s \<and>
   w_nr_mem_region s' = w_nr_mem_region s \<and> w_fixed_perm s' = w_fixed_perm s \<and>
   w_msa_paddr s' = w_msa_paddr s \<and> w_msa_size s' = w_msa_size s \<and> w_txns s' = w_txns s \<and>
   w_board_data s' = w_board_data s"
  by (auto simp: same_wlan_def)

section \<open>Board data\<close>

text \<open>
  A complete download: the segments in order make up the data, they are numbered from \<open>k\<close> on,
  each fits and names the total size, and the last one, and only the last one, says so.
\<close>

definition bdf_complete :: "wlfw \<Rightarrow> nat \<Rightarrow> nat \<Rightarrow> bytes \<Rightarrow> bdf_seg list \<Rightarrow> bool" where
  "bdf_complete w tot k data segs \<longleftrightarrow> concat (map bs_data segs) = data \<and>
     map bs_seg_id segs = [k..<k + length segs] \<and>
     list_all (\<lambda>b. bs_total b = tot \<and> bs_data b \<noteq> [] \<and> length (bs_data b) \<le> wl_max_data w) segs \<and>
     map bs_end segs = (if segs = [] then [] else replicate (length segs - 1) False @ [True])"

lemma bdf_complete_Cons:
  assumes "bdf_complete w tot (Suc k) (drop n data) segs" "n < length data" "n \<le> wl_max_data w" "0 < n"
  shows "bdf_complete w tot k data (\<lparr>bs_total = tot, bs_seg_id = k, bs_data = take n data, bs_end = False\<rparr> # segs)"
  using assms by (cases segs) (auto simp: bdf_complete_def upt_rec)

definition requests_succeed :: "wlfw \<Rightarrow> wlan_env \<Rightarrow> bool" where
  "requests_succeed w e \<longleftrightarrow> (\<forall>n. \<not> we_nomem e n \<and> 0 \<le> we_init e n \<and> 0 \<le> we_send e n \<and> 0 \<le> we_wait e n \<and>
     we_result e n = wl_success w)"

lemma requests_succeed_sync:
  "requests_succeed w e \<Longrightarrow> wlfw_sync e req s = (ret, n, s') \<Longrightarrow> ret = 0 \<and> we_result e n = wl_success w"
  by (auto simp: requests_succeed_def wlfw_sync_def Let_def not_le[symmetric] split: if_splits)

text \<open>One segment of the loop: the request and how the loop goes on.\<close>

definition bdf_last :: "wlfw \<Rightarrow> bytes \<Rightarrow> bool" where
  "bdf_last w temp \<longleftrightarrow> \<not> wl_max_data w < length temp"

definition bdf_next :: "wlfw \<Rightarrow> nat \<Rightarrow> nat \<Rightarrow> bytes \<Rightarrow> bdf_seg" where
  "bdf_next w tot k temp = \<lparr>bs_total = tot, bs_seg_id = k,
     bs_data = (if bdf_last w temp then temp else take (wl_max_data w) temp), bs_end = bdf_last w temp\<rparr>"

definition bdf_refused :: "wlfw \<Rightarrow> wlan_env \<Rightarrow> bool \<Rightarrow> int \<Rightarrow> nat \<Rightarrow> bool" where
  "bdf_refused w e lst ret n \<longleftrightarrow> ret < 0 \<or> we_result e n \<noteq> wl_success w \<and> \<not> (lst \<and> we_result e n = wl_malformed w)"

lemma bdf_loop_step:
  assumes "temp \<noteq> []" "wlfw_sync e (Bdf (bdf_next w tot k temp)) s = (ret, n, s1)"
  shows "bdf_loop w e tot k False temp s =
    (if bdf_refused w e (bdf_last w temp) ret n then Some (if ret < 0 then ret else - EINVAL, s1)
     else if bdf_last w temp then Some (0, s1)
     else bdf_loop w e tot (Suc k) False (drop (wl_max_data w) temp) s1)"
proof (cases "bdf_last w temp")
  case True
  then show ?thesis
    using assms bdf_loop.simps [of w e tot "Suc k" True "[]" s1]
    by (subst bdf_loop.simps) (auto simp: bdf_next_def bdf_last_def bdf_refused_def)
next
  case False
  then show ?thesis
    using assms by (subst bdf_loop.simps) (auto simp: bdf_next_def bdf_last_def bdf_refused_def Let_def)
qed

text \<open>The loop returns, and a download that returns 0 was complete.\<close>

definition bdf_outcome :: "wlfw \<Rightarrow> wlan_env \<Rightarrow> nat \<Rightarrow> nat \<Rightarrow> bytes \<Rightarrow> ath10k_qmi \<Rightarrow> bool" where
  "bdf_outcome w e tot k temp s \<longleftrightarrow> (\<exists>ret s' segs. bdf_loop w e tot k False temp s = Some (ret, s') \<and>
     w_sent s' = w_sent s @ map Bdf segs \<and> (ret = 0 \<longrightarrow> bdf_complete w tot k temp segs) \<and>
     (requests_succeed w e \<longrightarrow> ret = 0))"

lemma bdf_outcomeI:
  "bdf_loop w e tot k False temp s = Some (ret, s') \<Longrightarrow> w_sent s' = w_sent s @ map Bdf segs \<Longrightarrow>
   (ret = 0 \<Longrightarrow> bdf_complete w tot k temp segs) \<Longrightarrow> (requests_succeed w e \<Longrightarrow> ret = 0) \<Longrightarrow>
   bdf_outcome w e tot k temp s"
  unfolding bdf_outcome_def by blast

lemma bdf_loop_spec:
  assumes pos: "0 < wl_max_data w"
  shows "bdf_outcome w e tot k temp s"
proof (induction "length temp" arbitrary: temp k s rule: less_induct)
  case (less temp k s)
  show ?case
  proof (cases "temp = []")
    case True
    then have "bdf_loop w e tot k False temp s = Some (0, s)"
      by (simp add: bdf_loop.simps)
    then show ?thesis
      using True by (intro bdf_outcomeI [where segs = "[]"]) (simp_all add: bdf_complete_def)
  next
    case False
    let ?seg = "bdf_next w tot k temp"
    obtain ret n s1 where sync: "wlfw_sync e (Bdf ?seg) s = (ret, n, s1)"
      by (cases "wlfw_sync e (Bdf ?seg) s")
    note step = bdf_loop_step [OF False sync] and same = wlfw_sync_same [OF sync]
    consider (refused) "bdf_refused w e (bdf_last w temp) ret n"
      | (fin) "\<not> bdf_refused w e (bdf_last w temp) ret n" "bdf_last w temp"
      | (more) "\<not> bdf_refused w e (bdf_last w temp) ret n" "\<not> bdf_last w temp"
      by blast
    then show ?thesis
    proof cases
      case refused
      define r where "r = (if ret < 0 then ret else - EINVAL)"
      have "\<not> requests_succeed w e" "r \<noteq> 0" "bdf_loop w e tot k False temp s = Some (r, s1)"
        using requests_succeed_sync [OF _ sync, of w] refused step by (auto simp: bdf_refused_def r_def)
      moreover obtain segs where "w_sent s1 = w_sent s @ map Bdf segs"
        using same by (metis append_Nil2 list.simps(8,9))
      ultimately show ?thesis
        by (intro bdf_outcomeI [where segs = segs]) auto
    next
      case fin
      then have "bdf_complete w tot k temp [?seg]"
        using False by (auto simp: bdf_complete_def bdf_next_def bdf_last_def)
      moreover have "w_sent s1 = w_sent s @ map Bdf [?seg]"
        using same fin by (force simp: bdf_refused_def)
      ultimately show ?thesis
        using step fin by (intro bdf_outcomeI [where ret = 0 and s' = s1 and segs = "[?seg]"]) simp_all
    next
      case more
      then have len: "wl_max_data w < length temp"
        by (simp add: bdf_last_def)
      then have "length (drop (wl_max_data w) temp) < length temp"
        using pos by simp
      from less [OF this, of "Suc k" s1] obtain ret' s' segs where rec:
          "bdf_loop w e tot (Suc k) False (drop (wl_max_data w) temp) s1 = Some (ret', s')"
          "w_sent s' = w_sent s1 @ map Bdf segs"
          "ret' = 0 \<Longrightarrow> bdf_complete w tot (Suc k) (drop (wl_max_data w) temp) segs"
          "requests_succeed w e \<Longrightarrow> ret' = 0"
        unfolding bdf_outcome_def by blast
      have "bdf_complete w tot k temp (?seg # segs)" if "ret' = 0"
        using bdf_complete_Cons [OF rec(3) [OF that] len] pos more(2) by (simp add: bdf_next_def)
      moreover have "w_sent s1 = w_sent s @ [Bdf ?seg]"
        using same more by (force simp: bdf_refused_def)
      ultimately show ?thesis
        using step more rec by (intro bdf_outcomeI [where ret = ret' and s' = s' and segs = "?seg # segs"]) simp_all
    qed
  qed
qed

text \<open>
  C14. The download of the board data ends on every answer of the firmware as long as a segment
  may carry data at all. When it returns 0, the segments that were sent make up the board data
  in order, are numbered from 0, name the total size, fit the message and only the last one is
  marked as the end; when every request succeeds it does return 0.
\<close>

theorem bdf_download_complete:
  assumes "0 < wl_max_data w"
  shows "\<exists>ret s' segs. ath10k_qmi_bdf_dnld_send_sync w e s = Some (ret, s') \<and>
    w_sent s' = w_sent s @ map Bdf segs \<and>
    (ret = 0 \<longrightarrow> bdf_complete w (length (w_board_data s)) 0 (w_board_data s) segs) \<and>
    (requests_succeed w e \<longrightarrow> ret = 0)"
proof (cases "we_nomem e (w_tick s)")
  case True
  then show ?thesis
    by (auto simp: ath10k_qmi_bdf_dnld_send_sync_def w_call_def requests_succeed_def intro: exI [of _ "[]"])
next
  case False
  then show ?thesis
    using bdf_loop_spec [OF assms, of e "length (w_board_data s)" 0 "w_board_data s" "s\<lparr>w_tick := Suc (w_tick s)\<rparr>"]
    by (simp add: ath10k_qmi_bdf_dnld_send_sync_def w_call_def bdf_outcome_def)
qed

section \<open>Memory regions\<close>

text \<open>The regions the driver takes to be the firmware's.\<close>

definition msa_regions :: "ath10k_qmi \<Rightarrow> mem_region list" where
  "msa_regions s = take (w_nr_mem_region s) (w_mem_region s)"

lemma take_regions_ok:
  "take_regions rs i s = (0, s') \<Longrightarrow> i + length rs \<le> length (w_mem_region s) \<Longrightarrow>
   s' = s\<lparr>w_mem_region := take i (w_mem_region s) @ rs @ drop (i + length rs) (w_mem_region s)\<rparr> \<and>
   list_all (\<lambda>r. \<not> region_bad s r) rs"
proof (induction rs arbitrary: i s)
  case (Cons r rs)
  let ?s = "s\<lparr>w_mem_region := (w_mem_region s)[i := r]\<rparr>"
  have ok: "\<not> region_bad s r" "take_regions rs (Suc i) ?s = (0, s')"
    using Cons.prems by (auto split: if_splits)
  moreover have "take (Suc i) ((w_mem_region s)[i := r]) = take i (w_mem_region s) @ [r]"
    using Cons.prems by (simp add: take_Suc_conv_app_nth)
  moreover have "region_bad ?s = region_bad s"
    by (simp add: region_bad_def fun_eq_iff)
  ultimately show ?case
    using Cons.IH [OF ok(2)] Cons.prems by simp
qed simp

lemma region_good:
  assumes "\<not> region_bad s r" "unat (w_msa_paddr s) + 2 * unat (w_msa_size s) < 2 ^ 64"
  shows "unat (w_msa_paddr s) \<le> unat (mr_addr r) \<and>
    unat (mr_addr r) + unat (mr_size r) \<le> unat (w_msa_paddr s) + unat (w_msa_size s)"
proof -
  have top: "unat (w_msa_paddr s + ucast (w_msa_size s)) = unat (w_msa_paddr s) + unat (w_msa_size s)"
    using assms(2) by (simp add: unat_word_ariths unsigned_ucast_eq take_bit_nat_eq_self)
  have "mr_size r \<le> w_msa_size s" "mr_addr r \<le> w_msa_paddr s + ucast (w_msa_size s)"
    "w_msa_paddr s \<le> mr_addr r" and in_range: "ucast (mr_size r) + mr_addr r \<le> w_msa_paddr s + ucast (w_msa_size s)"
    using assms(1) by (auto simp: region_bad_def Let_def not_less)
  then have le: "unat (mr_size r) \<le> unat (w_msa_size s)"
    "unat (mr_addr r) \<le> unat (w_msa_paddr s) + unat (w_msa_size s)" "unat (w_msa_paddr s) \<le> unat (mr_addr r)"
    using top by (simp_all add: word_le_nat_alt)
  then have "unat (ucast (mr_size r) + mr_addr r) = unat (mr_size r) + unat (mr_addr r)"
    using assms(2) by (simp add: unat_word_ariths unsigned_ucast_eq take_bit_nat_eq_self)
  with in_range top le show ?thesis
    by (simp add: word_le_nat_alt)
qed

lemma mem_info_cases:
  assumes "ath10k_qmi_msa_mem_info_send_sync_msg w e s = (ret, s')"
  obtains (early) "ret < 0" "same_wlan s s'"
  | (checked) n s1 where "same_wlan s s1" "length (we_regions e n) \<le> wl_max_mem_reg w"
      "take_regions (we_regions e n) 0 (s1\<lparr>w_nr_mem_region := length (we_regions e n)\<rparr>) = (ret, s')"
proof -
  obtain r n s1 where sync: "wlfw_sync e (Msa_info (w_msa_paddr s) (w_msa_size s)) s = (r, n, s1)"
    by (cases "wlfw_sync e (Msa_info (w_msa_paddr s) (w_msa_size s)) s")
  with assms wlfw_sync_same [OF sync] show thesis
    using early checked [of s1 n]
    by (auto simp: ath10k_qmi_msa_mem_info_send_sync_msg_def not_less split: if_splits)
qed

text \<open>
  C20. Regions of the firmware: when the request for the memory regions returns 0, there are at
  most as many regions as the message has room for, and each of them lies inside the memory set
  aside for the firmware, for every answer of the firmware. The sum of the address and twice
  the size of that memory must not exceed the address space.
\<close>

theorem msa_regions_inside:
  assumes "ath10k_qmi_msa_mem_info_send_sync_msg w e s = (0, s')"
    and "length (w_mem_region s) = wl_max_mem_reg w"
    and "unat (w_msa_paddr s) + 2 * unat (w_msa_size s) < 2 ^ 64"
  shows "w_nr_mem_region s' \<le> wl_max_mem_reg w \<and> length (w_mem_region s') = wl_max_mem_reg w \<and>
    length (msa_regions s') = w_nr_mem_region s' \<and>
    list_all (\<lambda>r. unat (w_msa_paddr s) \<le> unat (mr_addr r) \<and>
      unat (mr_addr r) + unat (mr_size r) \<le> unat (w_msa_paddr s) + unat (w_msa_size s)) (msa_regions s')"
  using assms(1)
proof (cases rule: mem_info_cases)
  case (checked n s1)
  let ?rs = "we_regions e n" and ?s = "s1\<lparr>w_nr_mem_region := length (we_regions e n)\<rparr>"
  note same = same_wlan_fields [OF checked(1)]
  have "s' = ?s\<lparr>w_mem_region := ?rs @ drop (length ?rs) (w_mem_region s)\<rparr> \<and> list_all (\<lambda>r. \<not> region_bad ?s r) ?rs"
    using take_regions_ok [OF checked(3)] checked(2) assms(2) same by simp
  moreover have "region_bad ?s = region_bad s"
    using same by (simp add: region_bad_def fun_eq_iff)
  ultimately show ?thesis
    using checked(2) assms(2,3) region_good [of s] by (auto simp: msa_regions_def list_all_iff)
qed simp

text \<open>Everything but the memory regions: what the other requests of an arrival leave alone.\<close>

definition same_msa :: "ath10k_qmi \<Rightarrow> ath10k_qmi \<Rightarrow> bool" where
  "same_msa s s' \<longleftrightarrow> w_trace s' = w_trace s \<and> w_fixed_perm s' = w_fixed_perm s \<and> msa_regions s' = msa_regions s"

lemma same_wlan_msa: "same_wlan s s' \<Longrightarrow> same_msa s s'"
  using same_wlan_fields [of s s'] by (simp add: same_msa_def msa_regions_def)

lemma wlfw_sync_msa: "wlfw_sync e req s = (ret, n, s') \<Longrightarrow> same_msa s s'"
  using wlfw_sync_same same_wlan_msa by blast

lemma ind_register_msa: "ath10k_qmi_ind_register_send_sync_msg w e s = (ret, s') \<Longrightarrow> same_msa s s'"
  by (auto simp: ath10k_qmi_ind_register_send_sync_msg_def same_msa_def msa_regions_def Let_def
      dest!: wlfw_sync_msa split: prod.splits if_splits)

lemma host_cap_msa: "ath10k_qmi_host_cap_send_sync w e s = (ret, s') \<Longrightarrow> same_msa s s'"
  by (auto simp: ath10k_qmi_host_cap_send_sync_def dest: wlfw_sync_msa split: prod.splits if_splits)

lemma msa_ready_msa: "ath10k_qmi_msa_ready_send_sync_msg w e s = (ret, s') \<Longrightarrow> same_msa s s'"
  by (auto simp: ath10k_qmi_msa_ready_send_sync_msg_def Let_def dest: wlfw_sync_msa split: prod.splits if_splits)

lemma cap_msa:
  assumes "ath10k_qmi_cap_send_sync_msg w e s = (ret, s')"
  shows "same_msa s s'"
proof -
  obtain r n s1 where sync: "wlfw_sync e Cap (s\<lparr>w_tick := Suc (w_tick s)\<rparr>) = (r, n, s1)"
    by (cases "wlfw_sync e Cap (s\<lparr>w_tick := Suc (w_tick s)\<rparr>)")
  show ?thesis
    using assms wlfw_sync_msa [OF sync]
    by (auto simp: ath10k_qmi_cap_send_sync_msg_def w_call_def sync same_msa_def msa_regions_def Let_def
        split: if_splits option.splits)
qed

lemma take_regions_trace:
  "take_regions rs i s = (ret, s') \<Longrightarrow> w_trace s' = w_trace s \<and> w_fixed_perm s' = w_fixed_perm s"
  by (induction rs arbitrary: i s) (auto split: if_splits)

lemma mem_info_trace:
  assumes "ath10k_qmi_msa_mem_info_send_sync_msg w e s = (ret, s')"
  shows "w_trace s' = w_trace s \<and> w_fixed_perm s' = w_fixed_perm s"
  using assms
proof (cases rule: mem_info_cases)
  case early
  then show ?thesis using same_wlan_fields by simp
next
  case (checked n s1)
  then show ?thesis using take_regions_trace [OF checked(3)] same_wlan_fields [OF checked(1)] by simp
qed

text \<open>The secure world assigns the memory as it is asked to.\<close>

definition assigns :: "wlan_env \<Rightarrow> bool" where
  "assigns e \<longleftrightarrow> (\<forall>n. we_assign e n = 0)"

lemma unmap_regions_trace:
  "assigns e \<Longrightarrow> \<exists>t. unmap_regions e rs s = s\<lparr>w_tick := t, w_trace := w_trace s @ map Rel rs\<rparr>"
proof (induction rs arbitrary: s)
  case Nil
  show ?case by (rule exI [of _ "w_tick s"]) simp
next
  case (Cons r rs)
  then show ?case
    using Cons.IH [of "s\<lparr>w_tick := Suc (w_tick s), w_trace := w_trace s @ [Rel r]\<rparr>"]
    by (auto simp: ath10k_qmi_unmap_msa_permission_def w_call_def assigns_def)
qed

lemma map_regions_trace:
  "assigns e \<Longrightarrow> \<exists>t. map_regions e m rs s = (0, s\<lparr>w_tick := t, w_trace := w_trace s @ map Acq rs\<rparr>)"
proof (induction rs arbitrary: m s)
  case Nil
  show ?case by (rule exI [of _ "w_tick s"]) simp
next
  case (Cons r rs)
  then show ?case
    using Cons.IH [of "r # m" "s\<lparr>w_tick := Suc (w_tick s), w_trace := w_trace s @ [Acq r]\<rparr>"]
    by (auto simp: ath10k_qmi_map_msa_permission_def w_call_def assigns_def)
qed

lemma remove_trace:
  assumes "assigns e" "\<not> w_fixed_perm s"
  shows "w_trace (ath10k_qmi_remove_msa_permission e s) = w_trace s @ map Rel (msa_regions s) \<and>
    w_fixed_perm (ath10k_qmi_remove_msa_permission e s) = w_fixed_perm s \<and>
    msa_regions (ath10k_qmi_remove_msa_permission e s) = msa_regions s"
  using unmap_regions_trace [OF assms(1), of "msa_regions s" s] assms(2)
  by (auto simp: ath10k_qmi_remove_msa_permission_def msa_regions_def)

lemma setup_trace:
  assumes "assigns e" "\<not> w_fixed_perm s" "ath10k_qmi_setup_msa_permissions e s = (ret, s')"
  shows "ret = 0 \<and> w_trace s' = w_trace s @ map Acq (msa_regions s) \<and> w_fixed_perm s' = w_fixed_perm s \<and>
    msa_regions s' = msa_regions s"
  using map_regions_trace [OF assms(1), of "[]" "msa_regions s" s] assms(2,3)
  by (auto simp: ath10k_qmi_setup_msa_permissions_def msa_regions_def)

lemma exit_trace:
  assumes "assigns e" "\<not> w_fixed_perm s"
  shows "w_trace (ath10k_qmi_event_server_exit e s) = w_trace s @ map Rel (msa_regions s)"
  using remove_trace [OF assms] by (simp add: ath10k_qmi_event_server_exit_def Let_def)

text \<open>An arrival leaves the regions alone, hands them over, or hands them over and takes them back.\<close>

lemma arrive_trace:
  assumes asg: "assigns e" and var: "\<not> w_fixed_perm s"
    and s'_def: "s' = ath10k_qmi_event_server_arrive w e s"
  shows "\<not> w_fixed_perm s' \<and> (w_trace s' = w_trace s \<or>
    w_trace s' = w_trace s @ map Acq (msa_regions s') \<or>
    w_trace s' = w_trace s @ map Acq (msa_regions s') @ map Rel (msa_regions s'))"
proof -
  obtain r1 s1 where 1: "ath10k_qmi_ind_register_send_sync_msg w e s = (r1, s1)" by fastforce
  obtain r2 s2 where 2: "ath10k_qmi_host_cap_send_sync w e s1 = (r2, s2)" by fastforce
  obtain r3 s3 where 3: "ath10k_qmi_msa_mem_info_send_sync_msg w e s2 = (r3, s3)" by fastforce
  obtain r4 s4 where 4: "ath10k_qmi_setup_msa_permissions e s3 = (r4, s4)" by fastforce
  obtain r5 s5 where 5: "ath10k_qmi_msa_ready_send_sync_msg w e s4 = (r5, s5)" by fastforce
  obtain r6 s6 where 6: "ath10k_qmi_cap_send_sync_msg w e s5 = (r6, s6)" by fastforce
  have t1: "w_trace s1 = w_trace s" "\<not> w_fixed_perm s1"
    using ind_register_msa [OF 1] var by (simp_all add: same_msa_def)
  have t2: "w_trace s2 = w_trace s" "\<not> w_fixed_perm s2"
    using host_cap_msa [OF 2] t1 by (simp_all add: same_msa_def)
  have t3: "w_trace s3 = w_trace s" "\<not> w_fixed_perm s3"
    using mem_info_trace [OF 3] t2 by simp_all
  have t4: "w_trace s4 = w_trace s @ map Acq (msa_regions s4)" "\<not> w_fixed_perm s4" "r4 = 0"
    using setup_trace [OF asg t3(2) 4] t3 by simp_all
  have t5: "w_trace s5 = w_trace s @ map Acq (msa_regions s5)" "\<not> w_fixed_perm s5"
    using msa_ready_msa [OF 5] t4 by (simp_all add: same_msa_def)
  have t6: "w_trace s6 = w_trace s @ map Acq (msa_regions s6)" "\<not> w_fixed_perm s6"
    using cap_msa [OF 6] t5 by (simp_all add: same_msa_def)
  show ?thesis
    using t1 t2 t3 t4 t5 t6 remove_trace [OF asg t5(2)] remove_trace [OF asg t6(2)]
    by (simp add: s'_def ath10k_qmi_event_server_arrive_def 1 2 3 4 5 6)
qed

lemma res_run_Acq: "res_run (map Acq rs) h = Some (rev rs @ h)"
  by (induction rs arbitrary: h) simp_all

lemma res_run_Rel: "mset rs = mset h \<Longrightarrow> res_run (map Rel rs) h = Some []"
proof (induction rs arbitrary: h)
  case (Cons r rs)
  then have "r \<in> set h" "mset (remove1 r h) = mset rs"
    by (metis insert_iff list.set(2) mset_eq_setD) (use Cons.prems [symmetric] in simp)
  with Cons.IH show ?case by simp
qed simp

lemma balanced_Acq_Rel: "balanced (map Acq rs @ map Rel rs)"
  by (simp add: balanced_def res_run_append res_run_Acq res_run_Rel)

lemma balanced_append_Rel: "balanced t \<Longrightarrow> balanced (t @ map Rel rs) \<longleftrightarrow> rs = []"
  by (cases rs) (simp_all add: balanced_def res_run_append)


section \<open>A run\<close>

definition sample_wlfw :: wlfw where
  "sample_wlfw = \<lparr>wl_success = 0, wl_malformed = 1, wl_not_supported = 94, wl_max_data = 2, wl_max_mem_reg = 2,
     wl_max_ce = 12, wl_max_svc = 24, wl_max_shadow = 24, wl_mode_off = 4\<rparr>"

definition sample_cap :: cap_resp where
  "sample_cap = \<lparr>cr_chip = Some (1, 2), cr_board = None, cr_soc = None, cr_fw_version = None, cr_build_id = None\<rparr>"

text \<open>An environment in which everything succeeds but the wait of the call \<open>bad\<close>.\<close>

definition sample_wlan_env :: "nat \<Rightarrow> wlan_env" where
  "sample_wlan_env bad = \<lparr>we_nomem = (\<lambda>_. False), we_init = (\<lambda>_. 1), we_send = (\<lambda>_. 0),
     we_wait = (\<lambda>n. if n = bad then - ETIMEDOUT else 0), we_result = (\<lambda>_. 0), we_error = (\<lambda>_. 0),
     we_regions = (\<lambda>_. [\<lparr>mr_addr = 0x8000, mr_size = 0x100, mr_secure = True\<rparr>]), we_cap = (\<lambda>_. sample_cap),
     we_fw_ready = (\<lambda>_. False), we_assign = (\<lambda>_. 0), we_board = (\<lambda>_. Inr [1, 2, 3])\<rparr>"

definition sample_wlan :: ath10k_qmi where
  "sample_wlan = \<lparr>w_tick = 0, w_txns = 0, w_sent = [], w_msa_paddr = 0x8000, w_msa_size = 0x1000,
     w_fixed_perm = False, w_no_msa_ready = False, w_nr_mem_region = 0,
     w_mem_region = replicate 2 \<lparr>mr_addr = 0, mr_size = 0, mr_secure = False\<rparr>, w_trace = [],
     w_fw_ready = False, w_init_done = True, w_events = [], w_chip_id = 0, w_chip_family = 0, w_board_id = 0,
     w_soc_id = 0, w_fw_version = 0, w_timestamp = [], w_build_id = [], w_xo_cal = None,
     w_8bit_host_cap = False, w_cal_data = [], w_board_data = [1, 2, 3], w_board_file = True, w_smem = None,
     w_unregistering = False, w_modem_stopped = False, w_crash_dumps = 0, w_indications = []\<rparr>"

lemma sample_assigns: "assigns (sample_wlan_env bad)"
  by (simp add: assigns_def sample_wlan_env_def)

theorem bdf_download_complete_witness:
  "0 < wl_max_data sample_wlfw \<and>
   (\<exists>ret s' segs. ath10k_qmi_bdf_dnld_send_sync sample_wlfw (sample_wlan_env 9) sample_wlan = Some (ret, s') \<and>
      w_sent s' = w_sent sample_wlan @ map Bdf segs \<and>
      (ret = 0 \<longrightarrow> bdf_complete sample_wlfw (length (w_board_data sample_wlan)) 0 (w_board_data sample_wlan) segs) \<and>
      (requests_succeed sample_wlfw (sample_wlan_env 9) \<longrightarrow> ret = 0))"
proof -
  have "0 < wl_max_data sample_wlfw" by (simp add: sample_wlfw_def)
  then show ?thesis using bdf_download_complete by blast
qed

theorem msa_regions_inside_witness:
  "length (msa_regions (snd (ath10k_qmi_msa_mem_info_send_sync_msg sample_wlfw (sample_wlan_env 9) sample_wlan))) = 1 \<and>
   fst (ath10k_qmi_msa_mem_info_send_sync_msg sample_wlfw (sample_wlan_env 9) sample_wlan) = 0 \<and>
   w_nr_mem_region (snd (ath10k_qmi_msa_mem_info_send_sync_msg sample_wlfw (sample_wlan_env 9) sample_wlan)) = 1"
proof -
  define r where "r = ath10k_qmi_msa_mem_info_send_sync_msg sample_wlfw (sample_wlan_env 9) sample_wlan"
  have r: "fst r = 0" "w_nr_mem_region (snd r) = 1"
    unfolding r_def by code_simp+
  then have "ath10k_qmi_msa_mem_info_send_sync_msg sample_wlfw (sample_wlan_env 9) sample_wlan = (0, snd r)"
    by (metis r_def prod.collapse)
  moreover have "length (w_mem_region sample_wlan) = wl_max_mem_reg sample_wlfw"
    "unat (w_msa_paddr sample_wlan) + 2 * unat (w_msa_size sample_wlan) < 2 ^ 64"
    by (simp_all add: sample_wlan_def sample_wlfw_def)
  ultimately show ?thesis
    using msa_regions_inside [of sample_wlfw "sample_wlan_env 9" sample_wlan "snd r"] r
    by (simp add: r_def [symmetric])
qed


end
