(* ===== verification/Spec2Isabelle.thy ===== *)
theory Spec2Isabelle
  imports Rmtfs_Service Qmi_Tlv Qrtr_Ns Qrtr_Transfer Pd_Mapper Board_Audio Board_Power Spmi_Owner Usb_Glue
    Remote_Pas_Probe Qrtr_Ns_User Wlan_Qmi
begin

text \<open>
  Verification of the modem service stack and of the board modules of the Linux port for the
  TCL B220G.

  \<^bold>\<open>The program.\<close> The modem of the laptop boots and serves WLAN only when the application
  processor offers it services over the QRTR network. Four programs make up this stack. The
  socket layer (\<^verbatim>\<open>wifi-research/tcl-af-qrtr.c\<close>) carries datagrams between nodes. The name service
  (\<^verbatim>\<open>wifi-research/tcl-kernel-ns.c\<close>) tells clients where a service runs. The protection-domain
  mapper (\<^verbatim>\<open>wifi-research/tcl-pd-mapper.c\<close>) tells the modem which domains provide a service. The
  remote file system daemon (\<^verbatim>\<open>rmtfs-probe/rmtfs-source-1.1/\<close>) gives the modem its partitions,
  through memory that the driver \<^verbatim>\<open>rmtfs-probe/tcl-rmtfs-mem.c\<close> shares with it. The modem itself
  is loaded, started and stopped by the loader (\<^verbatim>\<open>wifi-research/tcl-q6v5.c\<close> and
  \<^verbatim>\<open>wifi-probe/q6v5-pas-v6.18.c\<close>), and the WLAN driver brings its firmware up over QMI
  (\<^verbatim>\<open>wifi-research/tcl-ath10k-qmi.c\<close>) once the services are there. A user-space name service
  (\<^verbatim>\<open>wifi-services/qrtr-ns-v1.1.c\<close>) is kept beside the kernel's. Beside the stack
  there are the modules that wire the board up under ACPI: audio, codec, pin controller, sound
  card, rails and reset line (\<^verbatim>\<open>patches/kernel/acpi/modules/\<close>), the adapter for the power-management
  bus (\<^verbatim>\<open>patches/kernel/acpi/hardware-qualified/qcom-spmi-acpi-pwm.c\<close>) and the USB glue
  (\<^verbatim>\<open>research/acpi-audit/usb-glue/tcl_usb_acpi.c\<close>).

  \<^bold>\<open>How code becomes definitions.\<close> A C function is a HOL function of the same name on the state it
  changes; a structure is a record, an enumeration a datatype, a fixed-width integer a word
  where its width matters. Undefined behaviour (a null, wild or out-of-bounds access, a
  division by zero) is a value of type \<open>outcome\<close>. Error returns are the negated numbers of the
  C code. Code outside the sources is an argument: the answers of the kernel, of the C library
  and of the QMI and QRTR libraries are environment records, given by the number of the call
  where a routine calls the same service again. A theorem that relies on such code says so in a
  hypothesis, and a witness shows that the hypothesis can hold.

  \<^bold>\<open>Foundations.\<close>
  \<^item> \<open>Prelude\<close>: error numbers, outcomes, byte windows, little-endian words; the locale \<open>stepper\<close>
    (an invariant kept by a step holds after every run).
  \<^item> \<open>Resources\<close>: traces of acquisitions and releases; the locale \<open>module_lifecycle\<close> (a failed load
    leaves nothing held, an unload undoes a load). \<open>Stages\<close>: set-up routines as lists of stages
    with a clean-up order, replay with dependencies (nothing is acquired before what it is
    built on, nothing is released while in use); the locales \<open>staged\<close> and \<open>staged_module\<close>.
  \<^item> \<open>Posix\<close>: the file calls of the daemon over a state of files and descriptors. \<open>Sector_Store\<close>:
    the interface of what holds sectors, interpreted three times: by the partition image, by the
    memory driver and by the shared memory. \<open>Keyed_Table\<close>: the kernel's \<open>xarray\<close>.

  \<^bold>\<open>The remote file system.\<close>
  \<^item> \<open>Rmtfs_Storage\<close> is \<^verbatim>\<open>storage.c\<close>: the slot table, file and shadow-buffer access, opening as a
    refinement of a table from node and partition to handle, round trip of sectors.
  \<^item> \<open>Rmtfs_Memdrv\<close> is \<^verbatim>\<open>tcl-rmtfs-mem.c\<close>, \<open>Rmtfs_Sharedmem\<close> is \<^verbatim>\<open>sharedmem.c\<close>, \<open>Rmtfs_Rproc\<close> is
    \<^verbatim>\<open>rproc.c\<close>: both sides of the shared memory and the control of the remote processor.
  \<^item> \<open>Qmi_Messages\<close> is \<^verbatim>\<open>qmi_rmtfs.c\<close> (structures and element tables agree), \<open>Qmi_Tlv\<close> is
    \<^verbatim>\<open>qmi_tlv.c\<close> (what was set is what is got).
  \<^item> \<open>Rmtfs_Daemon\<close> is \<^verbatim>\<open>rmtfs.c\<close>; \<open>Rmtfs_Service\<close> proves what it promises: an I/O request moves the
    requested sectors and nothing else, every packet keeps the invariant, other nodes' handles
    are left alone, and \<open>main\<close> releases what it opened. The event loop runs on the list of its
    rounds, so it always returns; that a second signal ends it is a theorem.

  \<^bold>\<open>The QRTR network.\<close>
  \<^item> \<open>Qrtr_Proto\<close>: addresses and control packets. \<open>Qrtr_Wire\<close>: the two header versions, sending
    and receiving as inverse functions, and the equivalence of the versions.
  \<^item> \<open>Qrtr_Flow\<close>: flow control, as functions and as a step relation over the interleavings of
    senders, transmissions and resume packets.
  \<^item> \<open>Qrtr_Core\<close>: the whole socket layer; \<open>Qrtr_Core_Props\<close>: its invariant over any sequence of
    calls, with packet buffers counted; \<open>Qrtr_Transfer\<close>: a message from a socket of one node to
    a socket of another.
  \<^item> \<open>Qrtr_Ns\<close>: the name service, its refinement to a registry of servers and lookups, its worker
    (which ends at the first failing receive) and its module.
  \<^item> \<open>Qrtr_Ns_User\<close>: the user-space name service over a map library it does not bring along (locale
    \<open>ns_library\<close>); it keeps the registry the kernel's keeps, as long as no node speaks for another.
  \<^item> \<open>Pd_Mapper\<close>: the table of every platform, its memory, start and stop, and the pages of a
    domain list.

  \<^bold>\<open>The modem and its firmware.\<close>
  \<^item> \<open>Remote_Q6v5\<close>: the interrupts, the waiting and the handover of a remote processor; what a loader
    gets from it is the locale \<open>q6v5_client\<close>. \<open>Remote_Pas\<close>: start, stop, panic, dumps and address
    translation of the loader, over any sequence of operations and handovers.
  \<^item> \<open>Remote_Pas_Data\<close>: the description of every processor. \<open>Remote_Pas_Probe\<close>: probe and remove,
    with every resource on every path, for each of the descriptions.
  \<^item> \<open>Wlan_Qmi\<close>: the requests to the WLAN firmware, the memory handed over to it, the download of the
    board data, and the worker of the events.

  \<^bold>\<open>The board.\<close>
  \<^item> \<open>Board_Audio\<close>: \<^verbatim>\<open>tcl_acpi_audio.c\<close>, \<^verbatim>\<open>tcl_acpi_wcd.c\<close>, \<^verbatim>\<open>tcl_lpi_provider.c\<close>,
    \<^verbatim>\<open>tcl_acpi_card.c\<close>: firmware checks, resources on every path, and that the modules agree on
    the names of nodes and clocks.
  \<^item> \<open>Board_Power\<close>: \<^verbatim>\<open>tcl_acpi_audio_power_hold.c\<close> and \<^verbatim>\<open>tcl_acpi_codec_reset_hold.c\<close>.
  \<^item> \<open>Spmi_Owner\<close>: \<^verbatim>\<open>qcom-spmi-acpi-pwm.c\<close>, over any sequence of binds and unbinds, with a mapping
    that a teardown preserves. \<open>Usb_Glue\<close>: \<^verbatim>\<open>tcl_usb_acpi.c\<close>.

  \<^bold>\<open>What the theorems find.\<close> Some properties state where the code fails: an item lookup that reads
  past a packet, an inverted check, a reference or a node that is lost, a sender that is never
  woken, a flow that is never resumed, an error pointer that is used. Each says under which
  condition, and the neighbouring theorems show what holds otherwise.

  \<^bold>\<open>Bounds.\<close> No definition uses fuel. Loops of the code are recursion over the list they walk, or
  over the list of the answers they consume. The item scan of \<open>Qmi_Tlv\<close>, whose offset wraps, may
  not end on a malformed packet: it is a partial function whose value is \<open>None\<close> then, and the
  theorems about it state that it returns. The download loop of \<open>Wlan_Qmi\<close> is a partial function for
  the same reason: it ends whenever a segment may carry data.

  \<^bold>\<open>Not modelled.\<close> Operations of the socket layer and of the name service are atomic: locks, RCU and
  reference races are left out, except for the interleaving of the senders of one flow. Timing,
  delays and log messages are left out. Registers of the board modules are logs of writes, or
  contents that read back what was written. The rest of the sources is not modelled: the copies
  of upstream drivers (codec, SoundWire, WLAN, UFS, pin control, clocks, interconnect, display
  bridge, kernel core files), whose behaviour is that of hardware and subsystems outside the
  sources; the drivers for the I2C, GPIO and xHCI devices under audit; test modules
  of the audio bring-up, which the modules above supersede; generated module metadata; and
  scripts.
\<close>

end
